(* ===== verification/Web3_Prelude.thy ===== *)
theory Web3_Prelude
  imports "HOL-Library.Word" "HOL-Library.Monad_Syntax" "HOL-Library.List_Lexorder"
begin

text \<open>
  What every component of the development shares: the machine-integer and byte-string types,
  Go's slice accesses (an index or bound out of range is a panic, \<^term>\<open>None\<close>), in-place
  overwriting, little- and big-endian encodings and their lemmas.
\<close>

unbundle bit_operations_syntax

section \<open>Shared types, byte strings and slices\<close>

type_synonym byte = "8 word"
type_synonym bytes = "byte list"
type_synonym u16 = "16 word"
type_synonym u32 = "32 word"
type_synonym u64 = "64 word"

named_theorems slice_simps
named_theorems endian_simps

definition idx :: "'a list \<Rightarrow> nat \<Rightarrow> 'a option" where
  "idx xs i = (if i < length xs then Some (xs ! i) else None)"

definition put_at :: "'a list \<Rightarrow> nat \<Rightarrow> 'a \<Rightarrow> 'a list option" where
  "put_at xs i v = (if i < length xs then Some (xs[i := v]) else None)"

definition go_slice :: "'a list \<Rightarrow> nat \<Rightarrow> nat \<Rightarrow> 'a list option" where
  "go_slice xs i j = (if i \<le> j \<and> j \<le> length xs then Some (take (j - i) (drop i xs)) else None)"

definition overwrite :: "'a list \<Rightarrow> nat \<Rightarrow> 'a list \<Rightarrow> 'a list" where
  "overwrite xs i ys = take i xs @ ys @ drop (i + length ys) xs"

primrec le_bytes :: "nat \<Rightarrow> nat \<Rightarrow> bytes" where
  "le_bytes 0 v = []"
| "le_bytes (Suc n) v = of_nat v # le_bytes n (v div 256)"

primrec le_nat :: "bytes \<Rightarrow> nat" where
  "le_nat [] = 0"
| "le_nat (b # bs) = unat b + 256 * le_nat bs"

definition be_bytes :: "nat \<Rightarrow> nat \<Rightarrow> bytes" where
  "be_bytes n v = rev (le_bytes n v)"

definition be_nat :: "bytes \<Rightarrow> nat" where
  "be_nat bs = le_nat (rev bs)"

lemma length_le_bytes [simp]: "length (le_bytes n v) = n"
  by (induction n arbitrary: v) simp_all

lemma length_be_bytes [simp]: "length (be_bytes n v) = n"
  by (simp add: be_bytes_def)

lemma unat_ucast_mod: "unat (ucast w :: 'b::len word) = unat w mod 2 ^ LENGTH('b)"
  by (simp add: unsigned_ucast_eq take_bit_eq_mod)

lemma unat_ucast_up:
  fixes w :: "'a::len word"
  assumes "LENGTH('a) \<le> LENGTH('b)"
  shows "unat (ucast w :: 'b::len word) = unat w"
proof -
  have "unat w < 2 ^ LENGTH('a)" by (rule unsigned_less)
  also have "\<dots> \<le> (2::nat) ^ LENGTH('b)" using assms by simp
  finally show ?thesis by (simp add: unat_ucast_mod)
qed

lemma unat_u64_less: "unat (x :: u64) < 2 ^ 64"
  by (rule order_less_le_trans [OF unsigned_less [of x, where 'a = nat]]) simp

lemma unat_max_u64: "unat (- 1 :: u64) = 2 ^ 64 - 1"
  by (simp add: unsigned_minus_1_eq_mask mask_eq_exp_minus_1)

lemma unat_byte_of_nat: "unat (of_nat v :: byte) = v mod 256"
  by (simp add: unat_of_nat)

lemma unat_byte_less: "unat (b :: byte) < 256"
  by (rule order_less_le_trans [OF unsigned_less [of b, where 'a = nat]]) simp

lemma le_nat_le_bytes [endian_simps]: "le_nat (le_bytes n v) = v mod 256 ^ n"
proof (induction n arbitrary: v)
  case (Suc n)
  then show ?case
    by (simp add: unat_byte_of_nat mod_mult2_eq)
qed simp

lemma le_nat_less: "le_nat bs < 256 ^ length bs"
proof (induction bs)
  case (Cons b bs)
  have "unat b < 256" by (rule unat_byte_less)
  moreover have "le_nat bs + 1 \<le> 256 ^ length bs" using Cons by simp
  then have "256 * le_nat bs + 256 \<le> 256 * 256 ^ length bs" by linarith
  ultimately show ?case by simp
qed simp

lemma le_bytes_le_nat [endian_simps]: "le_bytes (length bs) (le_nat bs) = bs"
proof (induction bs)
  case (Cons b bs)
  have "unat b < 256" by (rule unat_byte_less)
  then have "(unat b + 256 * le_nat bs) div 256 = le_nat bs" by simp
  moreover have "(of_nat (unat b + 256 * le_nat bs) :: byte) = b"
    by (rule word_unat_eq_iff [THEN iffD2]) (use \<open>unat b < 256\<close> in \<open>simp only: unat_byte_of_nat, simp\<close>)
  ultimately show ?case using Cons by simp
qed simp

lemma be_nat_be_bytes [endian_simps]: "be_nat (be_bytes n v) = v mod 256 ^ n"
  by (simp add: be_nat_def be_bytes_def le_nat_le_bytes)

lemma be_bytes_be_nat [endian_simps]: "be_bytes (length bs) (be_nat bs) = bs"
  using le_bytes_le_nat [of "rev bs"] by (simp add: be_nat_def be_bytes_def)

lemma be_nat_less: "be_nat bs < 256 ^ length bs"
  using le_nat_less [of "rev bs"] by (simp add: be_nat_def)

lemma overwrite_append [slice_simps]:
  "i = length xs \<Longrightarrow> length ys = length zs \<Longrightarrow>
     overwrite (xs @ zs @ ws) i ys = xs @ ys @ ws"
  by (simp add: overwrite_def)

lemma length_overwrite [simp]:
  "i + length ys \<le> length xs \<Longrightarrow> length (overwrite xs i ys) = length xs"
  by (simp add: overwrite_def)

lemma take_overwrite [slice_simps]:
  "i + length ys \<le> length xs \<Longrightarrow> take (i + length ys) (overwrite xs i ys) = take i xs @ ys"
  by (simp add: overwrite_def)

lemma go_slice_Some_iff [slice_simps]:
  "go_slice xs i j = Some ys \<longleftrightarrow> i \<le> j \<and> j \<le> length xs \<and> ys = take (j - i) (drop i xs)"
  by (auto simp: go_slice_def)

lemma length_go_slice: "go_slice xs i j = Some ys \<Longrightarrow> length ys = j - i"
  by (auto simp: go_slice_def split: if_splits)

lemma go_slice_append_middle [slice_simps]:
  "i = length xs \<Longrightarrow> j = length xs + length ys \<Longrightarrow> go_slice (xs @ ys @ zs) i j = Some ys"
  by (simp add: go_slice_def)

end
