(* ===== verification/MemDB.thy ===== *)
theory MemDB
  imports Web3_Prelude
begin

text \<open>
  The in-memory ordered store of \<^verbatim>\<open>src/evm/storage/overlaydb/memdb.go\<close>: a skip list
  kept in two flat arrays, \<^verbatim>\<open>kvData\<close> (keys and values, append only) and
  \<^verbatim>\<open>nodeData\<close> (node headers and forward pointers).  Every operation is translated with
  its index arithmetic; an index or slice out of range is \<^term>\<open>None\<close>, and the pointer-chasing
  loops are \<^verbatim>\<open>partial_function (option)\<close>, so a cyclic list would be \<^term>\<open>None\<close> too.
  The comparer of goleveldb and the random source are fields of the state; only
  \<^verbatim>\<open>bytewise\<close> (the documented order of the default comparer) is assumed of the former and
  nothing of the latter.

  The invariant \<^verbatim>\<open>memdb_rel\<close> ties the arrays to the list of node addresses in key order
  (layout of the headers, one pointer chain per level, strict key order, the counters), and
  \<^verbatim>\<open>mrep\<close> hides the addresses: a store represents a strictly sorted association list.
  Every operation is proved total and correct against that list.
\<close>

section \<open>The in-memory skip list (overlaydb/memdb.go)\<close>

definition tMaxHeight :: nat where "tMaxHeight = 12"
definition nKV :: nat where "nKV = 0"
definition nKey :: nat where "nKey = 1"
definition nVal :: nat where "nVal = 2"
definition nHeight :: nat where "nHeight = 3"
definition nNext :: nat where "nNext = 4"

lemmas node_consts [simp] = tMaxHeight_def nKV_def nKey_def nVal_def nHeight_def nNext_def

record MemDB =
  cmp :: "bytes \<Rightarrow> bytes \<Rightarrow> int"
  rnd :: "nat \<Rightarrow> nat"
  kvData :: bytes
  nodeData :: "nat list"
  prevNode :: "nat list"
  maxHeight :: nat
  dbn :: nat
  kvSize :: int

definition MemDB_DeepClone :: "MemDB \<Rightarrow> MemDB" where
  "MemDB_DeepClone p = \<lparr>cmp = cmp p, rnd = rnd p, kvData = [] @ kvData p, nodeData = [] @ nodeData p,
     prevNode = prevNode p, maxHeight = maxHeight p, dbn = dbn p, kvSize = kvSize p\<rparr>"

function randHeight_loop :: "(nat \<Rightarrow> nat) \<Rightarrow> nat \<Rightarrow> nat \<times> (nat \<Rightarrow> nat)" where
  "randHeight_loop r h =
     (if h < tMaxHeight
      then (if r 0 mod 4 = 0 then randHeight_loop (\<lambda>i. r (Suc i)) (h + 1) else (h, \<lambda>i. r (Suc i)))
      else (h, r))"
  by pat_completeness auto
termination
  by (relation "measure (\<lambda>(r, h). tMaxHeight - h)") auto

declare randHeight_loop.simps [simp del]

definition randHeight :: "MemDB \<Rightarrow> nat \<times> MemDB" where
  "randHeight p = (let (h, r) = randHeight_loop (rnd p) 1 in (h, p\<lparr>rnd := r\<rparr>))"

definition node_key :: "MemDB \<Rightarrow> nat \<Rightarrow> bytes option" where
  "node_key p node = do {
     o' \<leftarrow> idx (nodeData p) node;
     kl \<leftarrow> idx (nodeData p) (node + nKey);
     go_slice (kvData p) o' (o' + kl)
   }"

partial_function (option) findGE_loop ::
  "MemDB \<Rightarrow> bytes \<Rightarrow> bool \<Rightarrow> nat \<Rightarrow> nat \<Rightarrow> nat list \<Rightarrow> ((nat \<times> bool) \<times> nat list) option" where [code]:
  "findGE_loop p key prev node h pn = do {
     nxt \<leftarrow> idx (nodeData p) (node + nNext + h);
     c \<leftarrow> (if nxt \<noteq> 0 then do { k \<leftarrow> node_key p nxt; Some (cmp p k key) } else Some 1);
     if c < 0 then findGE_loop p key prev nxt h pn
     else do {
       pn' \<leftarrow> (if prev then put_at pn h node else Some pn);
       if \<not> prev \<and> c = 0 then Some ((nxt, True), pn')
       else if h = 0 then Some ((nxt, c = 0), pn')
       else findGE_loop p key prev node (h - 1) pn'
     }
   }"

definition findGE :: "MemDB \<Rightarrow> bytes \<Rightarrow> bool \<Rightarrow> ((nat \<times> bool) \<times> MemDB) option" where
  "findGE p key prev = do {
     (r, pn) \<leftarrow> findGE_loop p key prev 0 (maxHeight p - 1) (prevNode p);
     Some (r, p\<lparr>prevNode := pn\<rparr>)
   }"

partial_function (option) findLT_loop :: "MemDB \<Rightarrow> bytes \<Rightarrow> nat \<Rightarrow> nat \<Rightarrow> nat option" where [code]:
  "findLT_loop p key node h = do {
     nxt \<leftarrow> idx (nodeData p) (node + nNext + h);
     o' \<leftarrow> idx (nodeData p) nxt;
     stop \<leftarrow> (if nxt = 0 then Some True else do { k \<leftarrow> node_key p nxt; Some (cmp p k key \<ge> 0) });
     if stop then (if h = 0 then Some node else findLT_loop p key node (h - 1))
     else findLT_loop p key nxt h
   }"

definition findLT :: "MemDB \<Rightarrow> bytes \<Rightarrow> nat option" where
  "findLT p key = findLT_loop p key 0 (maxHeight p - 1)"

partial_function (option) findLast_loop :: "MemDB \<Rightarrow> nat \<Rightarrow> nat \<Rightarrow> nat option" where [code]:
  "findLast_loop p node h = do {
     nxt \<leftarrow> idx (nodeData p) (node + nNext + h);
     if nxt = 0 then (if h = 0 then Some node else findLast_loop p node (h - 1))
     else findLast_loop p nxt h
   }"

definition findLast :: "MemDB \<Rightarrow> nat option" where
  "findLast p = findLast_loop p 0 (maxHeight p - 1)"

fun link_loop :: "nat \<Rightarrow> nat list \<Rightarrow> nat \<Rightarrow> nat list \<Rightarrow> nat list option" where
  "link_loop node [] i nd = Some nd"
| "link_loop node (n # ns) i nd = do {
     v \<leftarrow> idx nd (n + nNext + i);
     nd' \<leftarrow> put_at (nd @ [v]) (n + nNext + i) node;
     link_loop node ns (i + 1) nd'
   }"

definition MemDB_Put :: "MemDB \<Rightarrow> bytes \<Rightarrow> bytes \<Rightarrow> MemDB option" where
  "MemDB_Put p0 key val = do {
     ((node, exact), p) \<leftarrow> findGE p0 key True;
     if exact then do {
       p1 \<leftarrow> (if length val \<noteq> 0 then do {
           (let kvOffset = length (kvData p) in do {
              nd \<leftarrow> put_at (nodeData p) node kvOffset;
              Some (p\<lparr>kvData := kvData p @ key @ val, nodeData := nd\<rparr>) }) }
         else Some p);
       m \<leftarrow> idx (nodeData p1) (node + nVal);
       nd \<leftarrow> put_at (nodeData p1) (node + nVal) (length val);
       Some (p1\<lparr>nodeData := nd, kvSize := kvSize p1 + int (length val) - int m\<rparr>)
     }
     else
       (let (h, p1) = randHeight p;
            p2 = (if h > maxHeight p1
                  then p1\<lparr>prevNode := map (\<lambda>i. if maxHeight p1 \<le> i \<and> i < h then 0 else prevNode p1 ! i)
                                        [0..<length (prevNode p1)],
                          maxHeight := h\<rparr>
                  else p1);
            kvOffset = length (kvData p2);
            node = length (nodeData p2)
        in do {
          prevs \<leftarrow> go_slice (prevNode p2) 0 h;
          nd \<leftarrow> link_loop node prevs 0 (nodeData p2 @ [kvOffset, length key, length val, h]);
          Some (p2\<lparr>kvData := kvData p2 @ key @ val, nodeData := nd,
                   kvSize := kvSize p2 + int (length key) + int (length val), dbn := dbn p2 + 1\<rparr>)
        })
   }"

definition MemDB_Delete :: "MemDB \<Rightarrow> bytes \<Rightarrow> MemDB option" where
  "MemDB_Delete p key = MemDB_Put p key []"

definition MemDB_Get :: "MemDB \<Rightarrow> bytes \<Rightarrow> (bytes \<times> bool) option" where
  "MemDB_Get p key = do {
     ((node, exact), _) \<leftarrow> findGE p key False;
     if exact then do {
       valen \<leftarrow> idx (nodeData p) (node + nVal);
       if valen \<noteq> 0 then do {
         a \<leftarrow> idx (nodeData p) node;
         b \<leftarrow> idx (nodeData p) (node + nKey);
         v \<leftarrow> go_slice (kvData p) (a + b) (a + b + valen);
         Some (v, False) }
       else Some ([], False) }
     else Some ([], True)
   }"

definition MemDB_Find :: "MemDB \<Rightarrow> bytes \<Rightarrow> (bytes \<times> bytes) option option" where
  "MemDB_Find p key = do {
     ((node, _), _) \<leftarrow> findGE p key False;
     if node \<noteq> 0 then do {
       n \<leftarrow> idx (nodeData p) node;
       kl \<leftarrow> idx (nodeData p) (node + nKey);
       rkey \<leftarrow> go_slice (kvData p) n (n + kl);
       valen \<leftarrow> idx (nodeData p) (node + nVal);
       v \<leftarrow> (if valen \<noteq> 0 then go_slice (kvData p) (n + kl) (n + kl + valen) else Some []);
       Some (Some (rkey, v)) }
     else Some None
   }"

partial_function (option) ForEach_loop :: "MemDB \<Rightarrow> nat \<Rightarrow> (bytes \<times> bytes) list option" where [code]:
  "ForEach_loop p node =
     (if node = 0 then Some []
      else do {
        n \<leftarrow> idx (nodeData p) node;
        kl \<leftarrow> idx (nodeData p) (node + nKey);
        key \<leftarrow> go_slice (kvData p) n (n + kl);
        vl \<leftarrow> idx (nodeData p) (node + nVal);
        val \<leftarrow> go_slice (kvData p) (n + kl) (n + kl + vl);
        nxt \<leftarrow> idx (nodeData p) (node + nNext);
        rest \<leftarrow> ForEach_loop p nxt;
        Some ((key, val) # rest)
      })"

definition MemDB_ForEach :: "MemDB \<Rightarrow> (bytes \<times> bytes) list option" where
  "MemDB_ForEach p = do { nd \<leftarrow> idx (nodeData p) nNext; ForEach_loop p nd }"

definition MemDB_Size :: "MemDB \<Rightarrow> int" where "MemDB_Size p = kvSize p"
definition MemDB_Len :: "MemDB \<Rightarrow> nat" where "MemDB_Len p = dbn p"

definition MemDB_Reset :: "(nat \<Rightarrow> nat) \<Rightarrow> MemDB \<Rightarrow> MemDB option" where
  "MemDB_Reset seeded p = do {
     nd \<leftarrow> go_slice (nodeData p) 0 (nNext + tMaxHeight);
     Some (p\<lparr>rnd := seeded, maxHeight := 1, dbn := 0, kvSize := 0, kvData := [],
             nodeData := overwrite nd 0 ([0, 0, 0, tMaxHeight] @ replicate tMaxHeight 0),
             prevNode := overwrite (prevNode p) 0 (replicate tMaxHeight 0)\<rparr>)
   }"

definition NewMemDB :: "(bytes \<Rightarrow> bytes \<Rightarrow> int) \<Rightarrow> (nat \<Rightarrow> nat) \<Rightarrow> MemDB" where
  "NewMemDB defaultComparer seeded =
     \<lparr>cmp = defaultComparer, rnd = seeded, kvData = [],
      nodeData = (replicate (4 + tMaxHeight) 0)[nHeight := tMaxHeight],
      prevNode = replicate tMaxHeight 0, maxHeight = 1, dbn = 0, kvSize = 0\<rparr>"

subsection \<open>The representation invariant\<close>

definition bytewise :: "(bytes \<Rightarrow> bytes \<Rightarrow> int) \<Rightarrow> bool" where
  "bytewise c \<longleftrightarrow> (\<forall>a b. (c a b < 0 \<longleftrightarrow> a < b) \<and> (c a b = 0 \<longleftrightarrow> a = b))"

definition nkey :: "nat list \<Rightarrow> bytes \<Rightarrow> nat \<Rightarrow> bytes" where
  "nkey nd kv a = take (nd ! (a + 1)) (drop (nd ! a) kv)"

definition nval :: "nat list \<Rightarrow> bytes \<Rightarrow> nat \<Rightarrow> bytes" where
  "nval nd kv a = take (nd ! (a + 2)) (drop (nd ! a + nd ! (a + 1)) kv)"

definition nht :: "nat list \<Rightarrow> nat \<Rightarrow> nat" where
  "nht nd a = nd ! (a + 3)"

definition nnext :: "nat list \<Rightarrow> nat \<Rightarrow> nat \<Rightarrow> nat" where
  "nnext nd i a = nd ! (a + 4 + i)"

primrec chain :: "(nat \<Rightarrow> nat) \<Rightarrow> nat \<Rightarrow> nat list \<Rightarrow> bool" where
  "chain f a [] \<longleftrightarrow> f a = 0"
| "chain f a (b # bs) \<longleftrightarrow> f a = b \<and> b \<noteq> 0 \<and> chain f b bs"

definition layout :: "nat list \<Rightarrow> bytes \<Rightarrow> nat list \<Rightarrow> bool" where
  "layout nd kv ns \<longleftrightarrow> 0 \<notin> set ns \<and> nht nd 0 = 12 \<and>
     (\<forall>a \<in> set (0 # ns). a + 4 + nht nd a \<le> length nd) \<and>
     (\<forall>a \<in> set (0 # ns). \<forall>b \<in> set (0 # ns). a < b \<longrightarrow> a + 4 + nht nd a \<le> b) \<and>
     (\<forall>a \<in> set ns. nd ! a + nd ! (a + 1) + nd ! (a + 2) \<le> length kv)"

definition levels :: "nat list \<Rightarrow> nat list \<Rightarrow> bool" where
  "levels nd ns \<longleftrightarrow> (\<forall>i < 12. chain (nnext nd i) 0 (filter (\<lambda>a. i < nht nd a) ns))"

definition memdb_rel :: "MemDB \<Rightarrow> nat list \<Rightarrow> bool" where
  "memdb_rel p ns \<longleftrightarrow>
     bytewise (cmp p) \<and> 1 \<le> maxHeight p \<and> maxHeight p \<le> 12 \<and> length (prevNode p) = 12 \<and>
     layout (nodeData p) (kvData p) ns \<and>
     (\<forall>a \<in> set ns. 1 \<le> nht (nodeData p) a \<and> nht (nodeData p) a \<le> maxHeight p) \<and>
     sorted_wrt (<) (map (nkey (nodeData p) (kvData p)) ns) \<and>
     levels (nodeData p) ns \<and>
     dbn p = length ns \<and>
     kvSize p = (\<Sum>a\<leftarrow>ns. int (length (nkey (nodeData p) (kvData p) a)) + int (length (nval (nodeData p) (kvData p) a)))"

lemma chain_append: "chain f a (xs @ ys) \<Longrightarrow> chain f (last (a # xs)) ys"
  by (induction xs arbitrary: a) auto

lemma node_key_eq:
  "a + 4 \<le> length (nodeData p) \<Longrightarrow>
   nodeData p ! a + nodeData p ! (a + 1) \<le> length (kvData p) \<Longrightarrow>
   node_key p a = Some (nkey (nodeData p) (kvData p) a)"
  by (simp add: node_key_def idx_def go_slice_def nkey_def)

text \<open>The three facts the searches need of a node list.\<close>

lemma memdb_rel_node:
  assumes "memdb_rel p ns" "a \<in> set ns"
  shows "node_key p a = Some (nkey (nodeData p) (kvData p) a)" "a \<noteq> 0"
    "1 \<le> nht (nodeData p) a" "nht (nodeData p) a \<le> maxHeight p"
    "a + 4 + nht (nodeData p) a \<le> length (nodeData p)"
proof -
  have "a + 4 \<le> length (nodeData p)" "nodeData p ! a + nodeData p ! (a + 1) \<le> length (kvData p)"
    using assms by (fastforce simp: memdb_rel_def layout_def)+
  then show "node_key p a = Some (nkey (nodeData p) (kvData p) a)" by (rule node_key_eq)
qed (use assms in \<open>auto simp: memdb_rel_def layout_def\<close>)

lemma memdb_rel_idx_next:
  assumes "memdb_rel p ns" "a = 0 \<or> a \<in> set ns \<and> h < nht (nodeData p) a" "h < maxHeight p"
  shows "idx (nodeData p) (a + 4 + h) = Some (nnext (nodeData p) h a)"
proof -
  have "a + 4 + h < length (nodeData p)"
    using assms by (fastforce simp: memdb_rel_def layout_def)
  then show ?thesis by (simp add: idx_def nnext_def)
qed

definition below :: "MemDB \<Rightarrow> bytes \<Rightarrow> nat list \<Rightarrow> nat list \<Rightarrow> bool" where
  "below p k lo hi \<longleftrightarrow> (\<forall>a \<in> set lo. nkey (nodeData p) (kvData p) a < k) \<and>
     (\<forall>a \<in> set hi. \<not> nkey (nodeData p) (kvData p) a < k)"

definition at_level :: "nat list \<Rightarrow> nat \<Rightarrow> nat list \<Rightarrow> nat list" where
  "at_level nd i ns = filter (\<lambda>a. i < nht nd a) ns"

lemma next_at_level:
  assumes rel: "memdb_rel p (l1 @ l2)" and h: "h < maxHeight p"
  shows "nnext (nodeData p) h (last (0 # at_level (nodeData p) h l1)) =
    (case at_level (nodeData p) h l2 of [] \<Rightarrow> 0 | b # _ \<Rightarrow> b)"
proof -
  have "h < 12" using rel h by (auto simp: memdb_rel_def)
  then have "chain (nnext (nodeData p) h) 0 (at_level (nodeData p) h l1 @ at_level (nodeData p) h l2)"
    using rel by (auto simp: memdb_rel_def levels_def at_level_def)
  then have "chain (nnext (nodeData p) h) (last (0 # at_level (nodeData p) h l1)) (at_level (nodeData p) h l2)"
    by (rule chain_append)
  then show ?thesis by (cases "at_level (nodeData p) h l2") auto
qed

subsection \<open>Searching\<close>

lemma bytewise_lt: "bytewise c \<Longrightarrow> c a b < 0 \<longleftrightarrow> a < b"
  by (simp add: bytewise_def)

lemma bytewise_eq: "bytewise c \<Longrightarrow> c a b = 0 \<longleftrightarrow> a = b"
  by (simp add: bytewise_def)

definition first_of :: "nat list \<Rightarrow> nat" where
  "first_of hi = (case hi of [] \<Rightarrow> 0 | b # _ \<Rightarrow> b)"

definition prevs_upto :: "nat list \<Rightarrow> nat list \<Rightarrow> nat \<Rightarrow> nat list \<Rightarrow> nat list" where
  "prevs_upto nd lo h pn =
     map (\<lambda>i. if i \<le> h then last (0 # at_level nd i lo) else pn ! i) [0..<length pn]"

lemma prevs_upto_step:
  assumes "h < length pn" "0 < h"
  shows "prevs_upto nd lo (h - 1) (pn[h := last (0 # at_level nd h lo)]) = prevs_upto nd lo h pn"
  using assms by (intro nth_equalityI) (auto simp: prevs_upto_def nth_list_update)

lemma prevs_upto_0:
  "0 < length pn \<Longrightarrow> pn[0 := last (0 # at_level nd 0 lo)] = prevs_upto nd lo 0 pn"
  by (intro nth_equalityI) (auto simp: prevs_upto_def nth_list_update)

lemma at_level_append [simp]: "at_level nd i (xs @ ys) = at_level nd i xs @ at_level nd i ys"
  by (simp add: at_level_def)

lemma at_level_0: "memdb_rel p ns \<Longrightarrow> set xs \<subseteq> set ns \<Longrightarrow> at_level (nodeData p) 0 xs = xs"
  by (fastforce simp: at_level_def memdb_rel_def filter_id_conv Suc_le_eq)

lemma at_level_split:
  assumes "at_level nd h l = b # bs"
  obtains xs ys where "l = xs @ b # ys" "at_level nd h xs = []" "h < nht nd b"
  using assms by (auto simp: at_level_def filter_eq_Cons_iff)

lemma cursor_last:
  "l1 = [] \<or> h < nht nd (last l1) \<Longrightarrow> last (0 # at_level nd h l1) = last (0 # l1)"
  by (cases l1 rule: rev_cases) (auto simp: at_level_def)

lemma hi_exact:
  assumes "memdb_rel p (lo @ hi)" "below p k lo hi" "b \<in> set hi"
    "nkey (nodeData p) (kvData p) b = k"
  shows "hi \<noteq> [] \<and> b = hd hi"
proof (cases hi)
  case Nil
  with assms show ?thesis by simp
next
  case (Cons x xs)
  have "nkey (nodeData p) (kvData p) x < nkey (nodeData p) (kvData p) b" if "b \<in> set xs"
    using assms(1) Cons that by (auto simp: memdb_rel_def sorted_wrt_append)
  moreover have "\<not> nkey (nodeData p) (kvData p) x < k"
    using assms(2) Cons by (auto simp: below_def)
  ultimately show ?thesis using assms(3,4) Cons by auto
qed

lemma findGE_loop_ok:
  assumes "memdb_rel p (l1 @ l2 @ hi)" "below p k (l1 @ l2) hi"
    "l1 = [] \<or> h < nht (nodeData p) (last l1)" "h < maxHeight p" "length pn = 12"
  shows "findGE_loop p k prev (last (0 # l1)) h pn =
    Some ((first_of hi, hi \<noteq> [] \<and> nkey (nodeData p) (kvData p) (hd hi) = k),
          if prev then prevs_upto (nodeData p) (l1 @ l2) h pn else pn)"
  using assms
proof (induction "h + length l2" arbitrary: h l1 l2 pn rule: less_induct)
  case less
  note rel = less.prems(1) and bel = less.prems(2) and cur = less.prems(3) and hm = less.prems(4)
  let ?nd = "nodeData p" and ?kv = "kvData p"
  have bw: "bytewise (cmp p)" and "maxHeight p \<le> 12" using rel by (auto simp: memdb_rel_def)
  with hm less.prems(5) have h12: "h < length pn" by simp
  have last_in: "last (0 # l1) = 0 \<or> last (0 # l1) \<in> set (l1 @ l2 @ hi) \<and> h < nht ?nd (last (0 # l1))"
    using cur by (cases l1 rule: rev_cases) auto
  have rd: "idx ?nd (last (0 # l1) + 4 + h) = Some (nnext ?nd h (last (0 # l1)))"
    by (rule memdb_rel_idx_next [OF rel last_in hm])
  have nx: "nnext ?nd h (last (0 # l1)) = first_of (at_level ?nd h l2 @ at_level ?nd h hi)"
    using next_at_level [OF _ hm, of l1 "l2 @ hi"] rel cursor_last [OF cur]
    by (simp add: first_of_def)
  show ?case
  proof (cases "at_level ?nd h l2")
    case (Cons b bs)
    then obtain xs ys where l2: "l2 = xs @ b # ys" "h < nht ?nd b"
      by (rule at_level_split)
    have b: "b \<in> set (l1 @ l2 @ hi)" using l2 by simp
    have key: "node_key p b = Some (nkey ?nd ?kv b)" "b \<noteq> 0"
      using memdb_rel_node(1,2) [OF rel b] by auto
    have "nkey ?nd ?kv b < k" using bel l2 by (auto simp: below_def)
    then have "findGE_loop p k prev (last (0 # l1)) h pn =
        findGE_loop p k prev (last (0 # (l1 @ xs @ [b]))) h pn"
      using rd nx Cons key bytewise_lt [OF bw]
      by (subst findGE_loop.simps) (simp add: first_of_def)
    also have "\<dots> = Some ((first_of hi, hi \<noteq> [] \<and> nkey ?nd ?kv (hd hi) = k),
        if prev then prevs_upto ?nd ((l1 @ xs @ [b]) @ ys) h pn else pn)"
      by (rule less.hyps) (use l2 rel bel hm less.prems(5) in auto)
    finally show ?thesis using l2 by simp
  next
    case Nil
    then have nx': "nnext ?nd h (last (0 # l1)) = first_of (at_level ?nd h hi)"
      using nx by simp
    define c where "c = (if first_of (at_level ?nd h hi) = 0 then 1
        else cmp p (nkey ?nd ?kv (first_of (at_level ?nd h hi))) k)"
    have hi_in: "first_of (at_level ?nd h hi) \<in> set hi" if "at_level ?nd h hi \<noteq> []"
      using that by (cases "at_level ?nd h hi")
        (auto simp: first_of_def at_level_def filter_eq_Cons_iff)
    have rdc: "(if first_of (at_level ?nd h hi) \<noteq> 0
        then do { k' \<leftarrow> node_key p (first_of (at_level ?nd h hi)); Some (cmp p k' k) } else Some 1) = Some c"
    proof (cases "at_level ?nd h hi = []")
      case False
      then have "first_of (at_level ?nd h hi) \<in> set (l1 @ l2 @ hi)" using hi_in by simp
      from memdb_rel_node(1,2) [OF rel this] show ?thesis by (simp add: c_def)
    qed (simp add: c_def first_of_def)
    have cge: "\<not> c < 0"
      using hi_in bel bytewise_lt [OF bw]
      by (cases "at_level ?nd h hi = []") (auto simp: c_def first_of_def below_def)
    have c0: "first_of (at_level ?nd h hi) = first_of hi \<and> hi \<noteq> [] \<and> nkey ?nd ?kv (hd hi) = k" if "c = 0"
    proof -
      have ne: "at_level ?nd h hi \<noteq> []" using that by (auto simp: c_def first_of_def)
      have "nkey ?nd ?kv (first_of (at_level ?nd h hi)) = k"
        using that bytewise_eq [OF bw] by (auto simp: c_def split: if_splits)
      moreover from this have "hi \<noteq> [] \<and> first_of (at_level ?nd h hi) = hd hi"
        using hi_exact [of p "l1 @ l2" hi k] rel bel hi_in [OF ne] by auto
      ultimately show ?thesis by (cases hi) (auto simp: first_of_def)
    qed
    have lastlo: "last (0 # l1) = last (0 # at_level ?nd h (l1 @ l2))"
      using cursor_last [OF cur] Nil by simp
    define pn' where "pn' = (if prev then pn[h := last (0 # l1)] else pn)"
    have putpn: "(if prev then put_at pn h (last (0 # l1)) else Some pn) = Some pn'"
      using h12 by (simp add: pn'_def put_at_def)
    have unf: "findGE_loop p k prev (last (0 # l1)) h pn =
        (if \<not> prev \<and> c = 0 then Some ((first_of (at_level ?nd h hi), True), pn')
         else if h = 0 then Some ((first_of (at_level ?nd h hi), c = 0), pn')
         else findGE_loop p k prev (last (0 # l1)) (h - 1) pn')"
      using rd nx' rdc cge putpn by (subst findGE_loop.simps) simp
    show ?thesis
    proof (cases "\<not> prev \<and> c = 0")
      case True
      then show ?thesis using unf c0 by (simp add: pn'_def)
    next
      case nearly: False
      show ?thesis
      proof (cases "h = 0")
        case True
        have lv: "at_level ?nd 0 hi = hi" by (rule at_level_0 [OF rel]) auto
        have "c = 0 \<longleftrightarrow> hi \<noteq> [] \<and> nkey ?nd ?kv (hd hi) = k"
        proof (cases hi)
          case (Cons x xs)
          then have "x \<noteq> 0" using memdb_rel_node(2) [OF rel, of x] by simp
          then show ?thesis using True lv Cons bytewise_eq [OF bw] by (simp add: c_def first_of_def)
        qed (use True lv in \<open>simp add: c_def first_of_def\<close>)
        then show ?thesis using unf nearly True lv lastlo less.prems(5) prevs_upto_0 [of pn ?nd "l1 @ l2"]
          by (auto simp: pn'_def)
      next
        case False
        have "findGE_loop p k prev (last (0 # l1)) (h - 1) pn' =
          Some ((first_of hi, hi \<noteq> [] \<and> nkey ?nd ?kv (hd hi) = k),
            if prev then prevs_upto ?nd (l1 @ l2) (h - 1) pn' else pn')"
          by (rule less.hyps) (use False rel bel cur hm less.prems(5) in \<open>auto simp: pn'_def\<close>)
        moreover have "prevs_upto ?nd (l1 @ l2) (h - 1) pn' = prevs_upto ?nd (l1 @ l2) h pn" if prev
          using that h12 False lastlo prevs_upto_step [of h pn ?nd "l1 @ l2"] by (simp add: pn'_def)
        ultimately show ?thesis using unf nearly False by (simp add: pn'_def)
      qed
    qed
  qed
qed

subsection \<open>Reading\<close>

definition ents :: "MemDB \<Rightarrow> nat list \<Rightarrow> (bytes \<times> bytes) list" where
  "ents p ns = map (\<lambda>a. (nkey (nodeData p) (kvData p) a, nval (nodeData p) (kvData p) a)) ns"

definition kv_upd :: "bytes \<Rightarrow> bytes \<Rightarrow> (bytes \<times> bytes) list \<Rightarrow> (bytes \<times> bytes) list" where
  "kv_upd k v es = takeWhile (\<lambda>e. fst e < k) es @ (k, v) # dropWhile (\<lambda>e. fst e \<le> k) es"

definition kv_sorted :: "(bytes \<times> bytes) list \<Rightarrow> bool" where
  "kv_sorted es \<longleftrightarrow> sorted_wrt (<) (map fst es)"

lemma kv_sorted_ents: "memdb_rel p ns \<Longrightarrow> kv_sorted (ents p ns)"
  by (simp add: memdb_rel_def kv_sorted_def ents_def comp_def)

lemma memdb_split:
  assumes "memdb_rel p ns"
  obtains lo hi where "ns = lo @ hi" "below p k lo hi"
    "lo = takeWhile (\<lambda>a. nkey (nodeData p) (kvData p) a < k) ns"
    "hi = dropWhile (\<lambda>a. nkey (nodeData p) (kvData p) a < k) ns"
proof -
  let ?K = "nkey (nodeData p) (kvData p)"
  define lo where "lo = takeWhile (\<lambda>a. ?K a < k) ns"
  define hi where "hi = dropWhile (\<lambda>a. ?K a < k) ns"
  have ns: "ns = lo @ hi" by (simp add: lo_def hi_def)
  have "\<not> ?K a < k" if "a \<in> set hi" for a
  proof (cases hi)
    case (Cons x xs)
    then have "\<not> ?K x < k" using hd_dropWhile [of "\<lambda>a. ?K a < k" ns] by (auto simp: hi_def)
    moreover have "?K x \<le> ?K a" using that Cons assms ns
      by (auto simp: memdb_rel_def sorted_wrt_append)
    ultimately show ?thesis by (meson not_le order_trans)
  qed (use that in simp)
  then have "below p k lo hi" by (auto simp: below_def lo_def dest: set_takeWhileD)
  with ns show thesis using that lo_def hi_def by blast
qed

lemma findGE_ok:
  assumes "memdb_rel p (lo @ hi)" "below p k lo hi"
  shows "findGE p k prev = Some ((first_of hi, hi \<noteq> [] \<and> nkey (nodeData p) (kvData p) (hd hi) = k),
    p\<lparr>prevNode := if prev then prevs_upto (nodeData p) lo (maxHeight p - 1) (prevNode p) else prevNode p\<rparr>)"
  using findGE_loop_ok [of p "[]" lo hi k "maxHeight p - 1" "prevNode p" prev] assms
  by (simp add: findGE_def memdb_rel_def)

lemma memdb_rel_prevNode [simp]:
  "length pn = 12 \<Longrightarrow> memdb_rel p ns \<Longrightarrow> memdb_rel (p\<lparr>prevNode := pn\<rparr>) ns"
  by (simp add: memdb_rel_def)

lemma memdb_rel_idx_hdr:
  assumes "memdb_rel p ns" "a = 0 \<or> a \<in> set ns" "j < 4"
  shows "idx (nodeData p) (a + j) = Some (nodeData p ! (a + j))"
proof -
  have "a + 4 \<le> length (nodeData p)" using assms by (fastforce simp: memdb_rel_def layout_def)
  with assms(3) show ?thesis by (simp add: idx_def)
qed

lemma memdb_rel_kv:
  "memdb_rel p ns \<Longrightarrow> a \<in> set ns \<Longrightarrow>
   nodeData p ! a + nodeData p ! (a + 1) + nodeData p ! (a + 2) \<le> length (kvData p)"
  by (auto simp: memdb_rel_def layout_def)

lemma ForEach_loop_ok:
  assumes "memdb_rel p ns" "ns = lo @ hi"
  shows "ForEach_loop p (first_of hi) = Some (ents p hi)"
  using assms(2)
proof (induction hi arbitrary: lo)
  case Nil
  show ?case by (subst ForEach_loop.simps) (simp add: first_of_def ents_def)
next
  case (Cons a hi)
  let ?nd = "nodeData p"
  have a: "a \<in> set ns" using Cons.prems by simp
  have "at_level ?nd 0 (lo @ [a]) = lo @ [a]"
    by (rule at_level_0 [OF assms(1)]) (use Cons.prems in auto)
  then have "last (0 # at_level ?nd 0 (lo @ [a])) = a" by (simp only: last.simps last_snoc) simp
  moreover have "at_level ?nd 0 hi = hi"
    by (rule at_level_0 [OF assms(1)]) (use Cons.prems in auto)
  moreover have "0 < maxHeight p" using assms(1) by (auto simp: memdb_rel_def)
  ultimately have nx: "nnext ?nd 0 a = first_of hi"
    using next_at_level [of p "lo @ [a]" hi 0] assms(1) Cons.prems by (simp add: first_of_def)
  have i: "idx ?nd (a + 4) = Some (nnext ?nd 0 a)"
    using memdb_rel_idx_next [OF assms(1), of a 0] memdb_rel_node [OF assms(1) a] a by simp
  have IH: "ForEach_loop p (first_of hi) = Some (ents p hi)"
    using Cons.IH [of "lo @ [a]"] Cons.prems by simp
  show ?case
    using memdb_rel_idx_hdr [OF assms(1), of a 0] memdb_rel_idx_hdr [OF assms(1), of a 1]
      memdb_rel_idx_hdr [OF assms(1), of a 2] a memdb_rel_kv [OF assms(1) a]
      memdb_rel_node(2) [OF assms(1) a] i nx IH
    by (subst ForEach_loop.simps)
      (simp add: first_of_def go_slice_def ents_def nkey_def nval_def add.assoc)
qed

lemma MemDB_ForEach_ok:
  assumes "memdb_rel p ns"
  shows "MemDB_ForEach p = Some (ents p ns)"
proof -
  have "nnext (nodeData p) 0 0 = first_of ns"
    using next_at_level [of p "[]" ns 0] assms at_level_0 [OF assms, of ns]
    by (simp add: first_of_def memdb_rel_def at_level_def)
  then show ?thesis using ForEach_loop_ok [OF assms, of "[]" ns] memdb_rel_idx_next [OF assms, of 0 0] assms
    by (simp add: MemDB_ForEach_def memdb_rel_def)
qed

lemma kv_sorted_distinct: "kv_sorted es \<Longrightarrow> distinct (map fst es)"
  by (simp add: kv_sorted_def strict_sorted_iff)

lemma map_of_ents:
  assumes "memdb_rel p (lo @ hi)" "below p k lo hi"
  shows "map_of (ents p (lo @ hi)) k =
    (if hi \<noteq> [] \<and> nkey (nodeData p) (kvData p) (hd hi) = k
     then Some (nval (nodeData p) (kvData p) (hd hi)) else None)"
proof -
  let ?K = "nkey (nodeData p) (kvData p)"
  have lo: "map_of (ents p lo) k = None"
    using assms(2) by (auto simp: ents_def map_of_eq_None_iff below_def)
  show ?thesis
  proof (cases hi)
    case Nil
    then show ?thesis using lo by (simp add: ents_def)
  next
    case (Cons x xs)
    have "map_of (ents p xs) k = None" if "?K x \<noteq> k"
    proof -
      have "?K x < ?K a" if "a \<in> set xs" for a
        using assms(1) Cons that by (auto simp: memdb_rel_def sorted_wrt_append)
      moreover have "k < ?K x" using assms(2) Cons \<open>?K x \<noteq> k\<close> by (auto simp: below_def)
      ultimately have "\<forall>a \<in> set xs. ?K a \<noteq> k" by (metis less_trans less_irrefl)
      then show ?thesis by (auto simp: ents_def map_of_eq_None_iff)
    qed
    then show ?thesis using lo Cons by (auto simp: ents_def map_add_Some_iff)
  qed
qed

lemma MemDB_Get_ok:
  assumes "memdb_rel p ns"
  shows "MemDB_Get p k =
    Some (case map_of (ents p ns) k of None \<Rightarrow> ([], True) | Some v \<Rightarrow> (v, False))"
proof -
  obtain lo hi where ns: "ns = lo @ hi" "below p k lo hi" using memdb_split [OF assms] by metis
  show ?thesis
  proof (cases "hi \<noteq> [] \<and> nkey (nodeData p) (kvData p) (hd hi) = k")
    case True
    then obtain a xs where hi: "hi = a # xs" by (cases hi) auto
    then have a: "a \<in> set ns" using ns by simp
    show ?thesis
      using True hi ns assms findGE_ok [of p lo hi k False] map_of_ents [of p lo hi k]
        memdb_rel_idx_hdr [OF assms, of a 0] memdb_rel_idx_hdr [OF assms, of a 1]
        memdb_rel_idx_hdr [OF assms, of a 2] a memdb_rel_kv [OF assms a]
      by (simp add: MemDB_Get_def first_of_def go_slice_def nval_def)
  next
    case False
    then have "(hi \<noteq> [] \<and> nkey (nodeData p) (kvData p) (hd hi) = k) = False" by simp
    then show ?thesis
      using ns assms findGE_ok [of p lo hi k False] map_of_ents [of p lo hi k]
      by (simp only: MemDB_Get_def) simp
  qed
qed

subsection \<open>Linking a node\<close>

lemma layout_disjoint:
  assumes "layout nd kv ns" "a \<in> set (0 # ns)" "b \<in> set (0 # ns)" "a \<noteq> b"
    "j < 4 + nht nd a" "l < 4 + nht nd b"
  shows "a + j \<noteq> b + l"
proof (cases "a < b")
  case True
  then have "a + 4 + nht nd a \<le> b" using assms by (auto simp: layout_def)
  then show ?thesis using assms(5) by simp
next
  case False
  then have "b < a" using assms(4) by simp
  then have "b + 4 + nht nd b \<le> a" using assms by (auto simp: layout_def)
  then show ?thesis using assms(6) by simp
qed

lemma chain_cong: "(\<And>x. x \<in> set (a # xs) \<Longrightarrow> f x = g x) \<Longrightarrow> chain f a xs = chain g a xs"
  by (induction xs arbitrary: a) auto

lemma chain_insert:
  assumes "chain f a (xs @ ys)" "distinct (a # xs @ ys)" "x \<notin> set (a # xs @ ys)" "x \<noteq> 0"
  shows "chain (f(last (a # xs) := x, x := f (last (a # xs)))) a (xs @ x # ys)"
  using assms
proof (induction xs arbitrary: a)
  case Nil
  then have "chain (f(a := x, x := f a)) x ys = chain f a ys"
  proof (cases ys)
    case (Cons b bs)
    have "chain (f(a := x, x := f a)) b bs = chain f b bs"
      by (rule chain_cong) (use Nil.prems Cons in auto)
    then show ?thesis using Cons Nil.prems by auto
  qed auto
  moreover have "(f(a := x, x := f a)) a = x" using Nil.prems by simp
  ultimately show ?case using Nil.prems by (simp only: append.simps chain.simps last.simps if_True simp_thms)
next
  case (Cons b bs)
  define g where "g = f(last (b # bs) := x, x := f (last (b # bs)))"
  have "chain g b (bs @ x # ys)"
    unfolding g_def by (rule Cons.IH) (use Cons.prems in auto)
  moreover have "last (b # bs) \<noteq> a" using Cons.prems(2) by (cases bs rule: rev_cases) auto
  then have "g a = b" "b \<noteq> 0" using Cons.prems by (auto simp: g_def)
  moreover have "last (a # b # bs) = last (b # bs)" by simp
  ultimately show ?case by (simp only: append_Cons chain.simps simp_thms flip: g_def)
qed

text \<open>Effect of the pointer-linking loop.\<close>

lemma link_loop_ok:
  assumes "\<And>t. t < length ps \<Longrightarrow> ps ! t + 4 + (i + t) < L"
    "\<And>s t. s < t \<Longrightarrow> t < length ps \<Longrightarrow> ps ! s + 4 + (i + s) \<noteq> ps ! t + 4 + (i + t)"
    "L \<le> length nd"
  shows "\<exists>nd'. link_loop node ps i nd = Some nd' \<and> length nd' = length nd + length ps \<and>
    (\<forall>j < length nd. nd' ! j = (if \<exists>t < length ps. j = ps ! t + 4 + (i + t) then node else nd ! j)) \<and>
    (\<forall>t < length ps. nd' ! (length nd + t) = nd ! (ps ! t + 4 + (i + t)))"
  using assms
proof (induction ps arbitrary: i nd)
  case Nil
  then show ?case by simp
next
  case (Cons n ps)
  let ?m = "n + 4 + i"
  have m: "?m < L" using Cons.prems(1) [of 0] by simp
  then have ml: "?m < length nd" using Cons.prems(3) by simp
  define nd1 where "nd1 = (nd @ [nd ! ?m])[?m := node]"
  have stp: "link_loop node (n # ps) i nd = link_loop node ps (i + 1) nd1"
    using ml by (simp add: idx_def put_at_def nd1_def)
  have "\<exists>nd'. link_loop node ps (i + 1) nd1 = Some nd' \<and> length nd' = length nd1 + length ps \<and>
    (\<forall>j < length nd1. nd' ! j = (if \<exists>t < length ps. j = ps ! t + 4 + (i + 1 + t) then node else nd1 ! j)) \<and>
    (\<forall>t < length ps. nd' ! (length nd1 + t) = nd1 ! (ps ! t + 4 + (i + 1 + t)))"
  proof (rule Cons.IH)
    fix t assume "t < length ps"
    then show "ps ! t + 4 + (i + 1 + t) < L" using Cons.prems(1) [of "Suc t"] by simp
  next
    fix s t assume "s < t" "t < length ps"
    then show "ps ! s + 4 + (i + 1 + s) \<noteq> ps ! t + 4 + (i + 1 + t)"
      using Cons.prems(2) [of "Suc s" "Suc t"] by simp
  next
    show "L \<le> length nd1" using Cons.prems(3) by (simp add: nd1_def)
  qed
  then obtain nd' where nd': "link_loop node ps (i + 1) nd1 = Some nd'" "length nd' = length nd1 + length ps"
    "\<And>j. j < length nd1 \<Longrightarrow> nd' ! j = (if \<exists>t < length ps. j = ps ! t + 4 + (i + 1 + t) then node else nd1 ! j)"
    "\<And>t. t < length ps \<Longrightarrow> nd' ! (length nd1 + t) = nd1 ! (ps ! t + 4 + (i + 1 + t))" by blast
  have len1: "length nd1 = length nd + 1" by (simp add: nd1_def)
  have below: "ps ! t + 4 + (i + 1 + t) < length nd" if "t < length ps" for t
    using Cons.prems(1) [of "Suc t"] Cons.prems(3) that by simp
  have ne: "ps ! t + 4 + (i + 1 + t) \<noteq> ?m" if "t < length ps" for t
    using Cons.prems(2) [of 0 "Suc t"] that by simp
  have A: "nd' ! j = (if \<exists>t < length (n # ps). j = (n # ps) ! t + 4 + (i + t) then node else nd ! j)"
    if "j < length nd" for j
  proof -
    have "(\<exists>t < length (n # ps). j = (n # ps) ! t + 4 + (i + t)) \<longleftrightarrow>
        j = ?m \<or> (\<exists>t < length ps. j = ps ! t + 4 + (i + 1 + t))"
      by (auto simp: less_Suc_eq_0_disj)
    moreover have "nd1 ! j = (if j = ?m then node else nd ! j)"
      using that ml by (simp add: nd1_def nth_list_update nth_append)
    ultimately show ?thesis using nd'(3) [of j] that len1 by auto
  qed
  have B: "nd' ! (length nd + t) = nd ! ((n # ps) ! t + 4 + (i + t))" if "t < length (n # ps)" for t
  proof (cases t)
    case 0
    have "\<not> (\<exists>t < length ps. length nd = ps ! t + 4 + (i + 1 + t))" using below by fastforce
    then have "nd' ! length nd = nd1 ! length nd" using nd'(3) [of "length nd"] len1 by auto
    also have "\<dots> = nd ! ?m" using ml by (simp add: nd1_def nth_list_update nth_append)
    finally show ?thesis using 0 by simp
  next
    case (Suc s)
    then have s: "s < length ps" using that by simp
    have "nd' ! (length nd1 + s) = nd1 ! (ps ! s + 4 + (i + 1 + s))" by (rule nd'(4) [OF s])
    also have "\<dots> = nd ! (ps ! s + 4 + (i + 1 + s))"
      using ne [OF s] below [OF s] by (simp add: nd1_def nth_list_update nth_append)
    finally show ?thesis using Suc len1 by simp
  qed
  show ?case using stp nd'(1,2) len1 A B by auto
qed

definition pred_at :: "nat list \<Rightarrow> nat \<Rightarrow> nat list \<Rightarrow> nat" where
  "pred_at nd t lo = last (0 # at_level nd t lo)"

lemma at_level_last:
  "pred_at nd t lo = 0 \<or> pred_at nd t lo \<in> set lo \<and> t < nht nd (pred_at nd t lo)"
proof (cases "at_level nd t lo = []")
  case False
  then have "last (at_level nd t lo) \<in> set (at_level nd t lo)" by (rule last_in_set)
  then show ?thesis using False by (auto simp: at_level_def pred_at_def)
qed (simp add: pred_at_def)

lemma layout_ptr:
  assumes "layout nd kv (lo @ hi)" "t < 12"
  shows "pred_at nd t lo \<in> set (0 # lo @ hi)" "t < nht nd (pred_at nd t lo)"
    "pred_at nd t lo + 4 + t < length nd"
proof -
  show 1: "pred_at nd t lo \<in> set (0 # lo @ hi)"
    using at_level_last [of nd t lo] by auto
  show 2: "t < nht nd (pred_at nd t lo)"
    using at_level_last [of nd t lo] assms by (auto simp: layout_def)
  have "pred_at nd t lo + 4 + nht nd (pred_at nd t lo) \<le> length nd"
    using 1 assms(1) by (auto simp: layout_def)
  then show "pred_at nd t lo + 4 + t < length nd" using 2 by linarith
qed

lemma layout_end: "layout nd kv ns \<Longrightarrow> a \<in> set (0 # ns) \<Longrightarrow> a + 4 + nht nd a \<le> length nd"
  unfolding layout_def by blast

definition linked :: "nat list \<Rightarrow> nat list \<Rightarrow> nat \<Rightarrow> nat \<Rightarrow> nat \<Rightarrow> nat \<Rightarrow> nat list \<Rightarrow> bool" where
  "linked nd lo h kvo kl vl nd' \<longleftrightarrow>
     length nd' = length nd + 4 + h \<and>
     nd' ! length nd = kvo \<and> nd' ! (length nd + 1) = kl \<and> nd' ! (length nd + 2) = vl \<and>
     nd' ! (length nd + 3) = h \<and>
     (\<forall>j < length nd. nd' ! j =
        (if \<exists>t < h. j = pred_at nd t lo + 4 + t then length nd else nd ! j)) \<and>
     (\<forall>t < h. nd' ! (length nd + 4 + t) = nd ! (pred_at nd t lo + 4 + t))"

lemma link_loop_linked:
  assumes lay: "layout nd kv (lo @ hi)" and h: "h \<le> 12"
    and ps: "length ps = h" "\<And>t. t < h \<Longrightarrow> ps ! t = pred_at nd t lo"
  shows "\<exists>nd'. link_loop (length nd) ps 0 (nd @ [kvo, kl, vl, h]) = Some nd' \<and>
    linked nd lo h kvo kl vl nd'"
proof -
  let ?nd = "nd @ [kvo, kl, vl, h]"
  have ptr: "ps ! t + 4 + t < length nd" if "t < h" for t
    using layout_ptr(3) [OF lay, of t] ps(2) [OF that] h that by simp
  have "\<exists>nd'. link_loop (length nd) ps 0 ?nd = Some nd' \<and> length nd' = length ?nd + length ps \<and>
    (\<forall>j < length ?nd. nd' ! j = (if \<exists>t < length ps. j = ps ! t + 4 + (0 + t) then length nd else ?nd ! j)) \<and>
    (\<forall>t < length ps. nd' ! (length ?nd + t) = ?nd ! (ps ! t + 4 + (0 + t)))"
  proof (rule link_loop_ok)
    fix t assume "t < length ps"
    then show "ps ! t + 4 + (0 + t) < length nd" using ptr ps(1) by simp
  next
    fix s t assume st: "s < t" "t < length ps"
    then have s: "s < h" "s < 12" and t: "t < h" "t < 12" using ps(1) h by auto
    show "ps ! s + 4 + (0 + s) \<noteq> ps ! t + 4 + (0 + t)"
    proof (cases "ps ! s = ps ! t")
      case False
      then show ?thesis
        using layout_disjoint [OF lay, of "ps ! s" "ps ! t" "4 + s" "4 + t"] ps(2) s t
          layout_ptr(1,2) [OF lay s(2)] layout_ptr(1,2) [OF lay t(2)] by auto
    qed (use st in simp)
  qed simp
  then obtain nd' where nd': "link_loop (length nd) ps 0 ?nd = Some nd'" "length nd' = length ?nd + length ps"
    "\<And>j. j < length ?nd \<Longrightarrow> nd' ! j = (if \<exists>t < length ps. j = ps ! t + 4 + (0 + t) then length nd else ?nd ! j)"
    "\<And>t. t < length ps \<Longrightarrow> nd' ! (length ?nd + t) = ?nd ! (ps ! t + 4 + (0 + t))" by blast
  have hdr: "nd' ! (length nd + j) = [kvo, kl, vl, h] ! j" if "j < 4" for j
  proof -
    have "\<not> (\<exists>t < length ps. length nd + j = ps ! t + 4 + (0 + t))" using ptr ps(1) by fastforce
    then show ?thesis using nd'(3) [of "length nd + j"] that by (auto simp: nth_append)
  qed
  have old: "nd' ! j = (if \<exists>t < h. j = pred_at nd t lo + 4 + t then length nd else nd ! j)"
    if "j < length nd" for j
  proof -
    have "(\<exists>t < length ps. j = ps ! t + 4 + (0 + t)) \<longleftrightarrow> (\<exists>t < h. j = pred_at nd t lo + 4 + t)"
      using ps by auto
    then show ?thesis using nd'(3) [of j] that by (auto simp: nth_append)
  qed
  have new: "nd' ! (length nd + 4 + t) = nd ! (pred_at nd t lo + 4 + t)" if "t < h" for t
    proof -
    have "length ?nd + t = length nd + 4 + t" by simp
    then show ?thesis using nd'(4) [of t] that ps ptr [OF that] by (simp only: nth_append) simp
  qed
  have "linked nd lo h kvo kl vl nd'"
    unfolding linked_def using nd'(2) ps(1) hdr [of 0] hdr [of 1] hdr [of 2] hdr [of 3] old new
    by simp
  with nd'(1) show ?thesis by blast
qed

lemma linked_hdr:
  assumes "layout nd kv (lo @ hi)" "linked nd lo h kvo kl vl nd'" "h \<le> 12" "a \<in> set (0 # lo @ hi)" "j < 4"
  shows "nd' ! (a + j) = nd ! (a + j)"
proof -
  have "a + 4 \<le> length nd" using layout_end [OF assms(1,4)] by simp
  moreover have "\<not> (\<exists>t < h. a + j = pred_at nd t lo + 4 + t)"
  proof (clarify)
    fix t assume t: "t < h" and eq: "a + j = pred_at nd t lo + 4 + t"
    then have "t < 12" using assms(3) by simp
    then have "a = pred_at nd t lo"
      using layout_disjoint [OF assms(1,4) layout_ptr(1) [OF assms(1), of t], of j "4 + t"]
        layout_ptr(2) [OF assms(1), of t] eq assms(5) by (metis add.assoc add_less_cancel_left trans_less_add1)
    then show False using eq assms(5) by simp
  qed
  moreover have "nd' ! (a + j) = (if \<exists>t < h. a + j = pred_at nd t lo + 4 + t then length nd else nd ! (a + j))"
    if "a + j < length nd" using assms(2) that unfolding linked_def by blast
  ultimately show ?thesis using assms(5) by (auto split: if_splits)
qed

lemma linked_next:
  assumes "layout nd kv (lo @ hi)" "linked nd lo h kvo kl vl nd'" "h \<le> 12" "a \<in> set (0 # lo @ hi)"
    "i < nht nd a"
  shows "nnext nd' i a = (if i < h \<and> a = pred_at nd i lo then length nd else nnext nd i a)"
proof -
  have lt: "a + 4 + i < length nd" using layout_end [OF assms(1,4)] assms(5) by simp
  have "(\<exists>t < h. a + 4 + i = pred_at nd t lo + 4 + t) \<longleftrightarrow>
      i < h \<and> a = pred_at nd i lo"
  proof
    assume "\<exists>t < h. a + 4 + i = pred_at nd t lo + 4 + t"
    then obtain t where t: "t < h" "a + 4 + i = pred_at nd t lo + 4 + t" by blast
    then have "t < 12" using assms(3) by simp
    then have "a = pred_at nd t lo"
      using layout_disjoint [OF assms(1,4) layout_ptr(1) [OF assms(1), of t], of "4 + i" "4 + t"]
        layout_ptr(2) [OF assms(1), of t] t(2) assms(5) by fastforce
    with t show "i < h \<and> a = pred_at nd i lo" by auto
  qed auto
  then show ?thesis using assms(2) lt by (simp add: linked_def nnext_def)
qed

lemma linked_old:
  assumes "layout nd kv (lo @ hi)" "linked nd lo h kvo kl vl nd'" "h \<le> 12"
  shows "a \<in> set (0 # lo @ hi) \<Longrightarrow> nht nd' a = nht nd a"
    "a \<in> set (lo @ hi) \<Longrightarrow> nkey nd' (kv @ ext) a = nkey nd kv a"
    "a \<in> set (lo @ hi) \<Longrightarrow> nval nd' (kv @ ext) a = nval nd kv a"
proof -
  note hdr = linked_hdr [OF assms]
  show "a \<in> set (0 # lo @ hi) \<Longrightarrow> nht nd' a = nht nd a" using hdr [of a 3] by (simp add: nht_def)
  assume a: "a \<in> set (lo @ hi)"
  then have kv: "nd ! a + nd ! (a + 1) + nd ! (a + 2) \<le> length kv"
    using assms(1) by (auto simp: layout_def)
  have "nd' ! a = nd ! a" "nd' ! (a + 1) = nd ! (a + 1)" "nd' ! (a + 2) = nd ! (a + 2)"
    using hdr [of a 0] hdr [of a 1] hdr [of a 2] a by simp_all
  with kv show "nkey nd' (kv @ ext) a = nkey nd kv a" "nval nd' (kv @ ext) a = nval nd kv a"
    by (simp_all add: nkey_def nval_def)
qed

lemma linked_new:
  assumes "linked nd lo h (length kv) (length k) (length v) nd'"
  shows "nht nd' (length nd) = h" "nkey nd' (kv @ k @ v) (length nd) = k"
    "nval nd' (kv @ k @ v) (length nd) = v"
  using assms by (simp_all add: linked_def nht_def nkey_def nval_def)

lemma layout_lt: "layout nd kv ns \<Longrightarrow> a \<in> set (0 # ns) \<Longrightarrow> a < length nd"
  using layout_end [of nd kv ns a] by simp

lemma linked_layout:
  assumes "layout nd kv (lo @ hi)" "linked nd lo h (length kv) (length k) (length v) nd'" "h \<le> 12"
  shows "layout nd' (kv @ k @ v) (lo @ length nd # hi)"
proof -
  let ?N = "length nd"
  note old = linked_old(1) [OF assms] and new = linked_new [OF assms(2)]
  have len: "length nd' = ?N + 4 + h" using assms(2) by (simp add: linked_def)
  have le: "a + 4 + nht nd' a \<le> ?N" if "a \<in> set (0 # lo @ hi)" for a
    using layout_end [OF assms(1) that] old [OF that] by simp
  have N0: "?N \<noteq> 0" using le [of 0] by auto
  have split: "a \<in> set (0 # lo @ ?N # hi) \<longleftrightarrow> a = ?N \<or> a \<in> set (0 # lo @ hi)" for a by auto
  have ends: "\<forall>a \<in> set (0 # lo @ ?N # hi). a + 4 + nht nd' a \<le> length nd'"
    unfolding split Ball_def using le new(1) len by fastforce
  have gaps: "\<forall>a \<in> set (0 # lo @ ?N # hi). \<forall>b \<in> set (0 # lo @ ?N # hi). a < b \<longrightarrow> a + 4 + nht nd' a \<le> b"
  proof (intro ballI impI)
    fix a b assume ab: "a \<in> set (0 # lo @ ?N # hi)" "b \<in> set (0 # lo @ ?N # hi)" "a < b"
    have a: "a \<in> set (0 # lo @ hi)"
      using ab layout_lt [OF assms(1), of b] unfolding split by auto
    show "a + 4 + nht nd' a \<le> b"
    proof (cases "b = ?N")
      case False
      then have "b \<in> set (0 # lo @ hi)" using ab(2) unfolding split by simp
      then show ?thesis using a ab(3) assms(1) old [OF a] unfolding layout_def by metis
    qed (use le [OF a] in simp)
  qed
  have "nd' ! a + nd' ! (a + 1) + nd' ! (a + 2) \<le> length (kv @ k @ v)" if "a \<in> set (lo @ ?N # hi)" for a
  proof (cases "a = ?N")
    case True
    then show ?thesis using assms(2) by (simp add: linked_def)
  next
    case False
    then have a: "a \<in> set (lo @ hi)" using that by simp
    then have "nd ! a + nd ! (a + 1) + nd ! (a + 2) \<le> length kv" using assms(1) by (auto simp: layout_def)
    then show ?thesis
      using linked_hdr [OF assms, of a 0] linked_hdr [OF assms, of a 1] linked_hdr [OF assms, of a 2] a by simp
  qed
  then show ?thesis
    unfolding layout_def using ends gaps N0 assms(1) old [of 0] by (simp add: layout_def)
qed

lemma linked_levels:
  assumes "layout nd kv (lo @ hi)" "linked nd lo h kvo kl vl nd'" "h \<le> 12"
    "levels nd (lo @ hi)" "distinct (lo @ hi)"
  shows "levels nd' (lo @ length nd # hi)"
  unfolding levels_def
proof (intro allI impI)
  fix i :: nat assume i: "i < 12"
  let ?N = "length nd"
  let ?f = "nnext nd i" and ?g = "nnext nd' i" and ?lo = "at_level nd i lo" and ?hi = "at_level nd i hi"
  have ch: "chain ?f 0 (?lo @ ?hi)" using assms(4) i by (simp add: levels_def at_level_def)
  have lvl: "filter (\<lambda>a. i < nht nd' a) xs = at_level nd i xs" if "set xs \<subseteq> set (lo @ hi)" for xs
    unfolding at_level_def using linked_old(1) [OF assms(1-3)] that by (intro filter_cong) auto
  have mem: "x \<in> set (0 # lo @ hi) \<and> i < nht nd x" if "x \<in> set (0 # ?lo @ ?hi)" for x
    using that assms(1) i by (auto simp: at_level_def layout_def)
  have nx: "?g x = (if i < h \<and> x = pred_at nd i lo then ?N else ?f x)" if "x \<in> set (0 # ?lo @ ?hi)" for x
    using linked_next [OF assms(1-3)] mem [OF that] by blast
  have N: "?N \<noteq> 0" "?N \<notin> set (0 # ?lo @ ?hi)" "nht nd' ?N = h"
    using mem layout_lt [OF assms(1)] assms(2) by (fastforce simp: linked_def nht_def)+
  have F: "filter (\<lambda>a. i < nht nd' a) (lo @ ?N # hi) = (if i < h then ?lo @ ?N # ?hi else ?lo @ ?hi)"
    using lvl [of lo] lvl [of hi] N(3) by simp
  have D: "distinct (0 # ?lo @ ?hi)"
    using assms(1,5) by (auto simp: at_level_def layout_def)
  show "chain ?g 0 (filter (\<lambda>a. i < nht nd' a) (lo @ ?N # hi))"
  proof (cases "i < h")
    case True
    have "chain (?f(last (0 # ?lo) := ?N, ?N := ?f (last (0 # ?lo)))) 0 (?lo @ ?N # ?hi)"
      by (rule chain_insert [OF ch D N(2,1)])
    then have "chain (?f(pred_at nd i lo := ?N, ?N := ?f (pred_at nd i lo))) 0 (?lo @ ?N # ?hi)"
      unfolding pred_at_def .
    moreover have "chain ?g 0 (?lo @ ?N # ?hi) = chain (?f(pred_at nd i lo := ?N, ?N := ?f (pred_at nd i lo))) 0 (?lo @ ?N # ?hi)"
    proof (rule chain_cong)
      fix x assume "x \<in> set (0 # ?lo @ ?N # ?hi)"
      then consider "x = ?N" | "x \<noteq> ?N" "x \<in> set (0 # ?lo @ ?hi)" by auto
      then show "?g x = (?f(pred_at nd i lo := ?N, ?N := ?f (pred_at nd i lo))) x"
      proof cases
        case 1
        then show ?thesis using assms(2) True by (simp add: linked_def nnext_def)
      qed (use nx True in simp)
    qed
    ultimately show ?thesis using F True by simp
  next
    case False
    have "chain ?g 0 (?lo @ ?hi) = chain ?f 0 (?lo @ ?hi)" by (rule chain_cong) (use nx False in simp)
    then show ?thesis using F False ch by simp
  qed
qed

subsection \<open>Inserting a key\<close>

lemma randHeight_loop_bounds:
  "1 \<le> h \<Longrightarrow> h \<le> 12 \<Longrightarrow> 1 \<le> fst (randHeight_loop r h) \<and> fst (randHeight_loop r h) \<le> 12"
proof (induction r h rule: randHeight_loop.induct)
  case (1 r h)
  then show ?case by (subst (1 2) randHeight_loop.simps) auto
qed

lemma randHeight_bounds:
  assumes "randHeight p = (h, p')"
  shows "1 \<le> h" "h \<le> 12" "\<exists>r. p' = p\<lparr>rnd := r\<rparr>"
  using assms randHeight_loop_bounds [of 1 "rnd p"] by (auto simp: randHeight_def split: prod.splits)

lemma below_exact:
  assumes "memdb_rel p (lo @ hi)" "below p k lo hi" "\<not> (hi \<noteq> [] \<and> nkey (nodeData p) (kvData p) (hd hi) = k)"
    "a \<in> set hi"
  shows "k < nkey (nodeData p) (kvData p) a"
proof -
  have "nkey (nodeData p) (kvData p) a \<noteq> k" using hi_exact [OF assms(1,2,4)] assms(3) by blast
  moreover have "\<not> nkey (nodeData p) (kvData p) a < k" using assms(2,4) by (simp add: below_def)
  ultimately show ?thesis by auto
qed

lemma distinct_nodes: "memdb_rel p ns \<Longrightarrow> distinct ns"
  unfolding memdb_rel_def strict_sorted_iff by (simp add: distinct_map)

lemma linked_memdb_rel:
  assumes rel: "memdb_rel p (lo @ hi)" and bel: "below p k lo hi"
    and inex: "\<not> (hi \<noteq> [] \<and> nkey (nodeData p) (kvData p) (hd hi) = k)"
    and lk: "linked (nodeData p) lo h (length (kvData p)) (length k) (length v) nd'"
    and h: "1 \<le> h" "h \<le> 12"
    and p': "cmp p' = cmp p" "kvData p' = kvData p @ k @ v" "nodeData p' = nd'" "length (prevNode p') = 12"
      "maxHeight p' = max (maxHeight p) h" "dbn p' = dbn p + 1"
      "kvSize p' = kvSize p + int (length k) + int (length v)"
  shows "memdb_rel p' (lo @ length (nodeData p) # hi)"
    "ents p' (lo @ length (nodeData p) # hi) = ents p lo @ (k, v) # ents p hi"
proof -
  let ?nd = "nodeData p" and ?kv = "kvData p" and ?N = "length (nodeData p)"
  have lay: "layout ?nd ?kv (lo @ hi)" using rel by (simp add: memdb_rel_def)
  note old = linked_old [OF lay lk h(2)] and new = linked_new [OF lk]
  have keys: "map (nkey nd' (?kv @ k @ v)) lo = map (nkey ?nd ?kv) lo" "map (nkey nd' (?kv @ k @ v)) hi = map (nkey ?nd ?kv) hi"
    using old(2) by simp_all
  have vals: "map (nval nd' (?kv @ k @ v)) lo = map (nval ?nd ?kv) lo" "map (nval nd' (?kv @ k @ v)) hi = map (nval ?nd ?kv) hi"
    using old(3) by simp_all
  have srt: "sorted_wrt (<) (map (nkey nd' (?kv @ k @ v)) (lo @ ?N # hi))"
  proof -
    have "sorted_wrt (<) (map (nkey ?nd ?kv) lo @ map (nkey ?nd ?kv) hi)" using rel by (simp add: memdb_rel_def)
    then have "sorted_wrt (<) (map (nkey ?nd ?kv) lo @ k # map (nkey ?nd ?kv) hi)"
      using bel below_exact [OF rel bel inex] by (auto simp: sorted_wrt_append below_def)
    then show ?thesis by (simp only: map_append list.map keys new(2))
  qed
  have hts: "1 \<le> nht nd' a \<and> nht nd' a \<le> max (maxHeight p) h" if "a \<in> set (lo @ ?N # hi)" for a
  proof (cases "a = ?N")
    case False
    then have "a \<in> set (lo @ hi)" using that by simp
    then show ?thesis using memdb_rel_node(3,4) [OF rel] old(1) [of a] by fastforce
  qed (use new(1) h in simp)
  have e: "ents p' (lo @ ?N # hi) = ents p lo @ (k, v) # ents p hi"
    using old(2,3) new(2,3) p' by (simp add: ents_def)
  have sz: "(\<Sum>e\<leftarrow>ents q ns. int (length (fst e)) + int (length (snd e))) =
      (\<Sum>a\<leftarrow>ns. int (length (nkey (nodeData q) (kvData q) a)) + int (length (nval (nodeData q) (kvData q) a)))" for q ns
    by (simp add: ents_def comp_def)
  have "kvSize p' = (\<Sum>e\<leftarrow>ents p' (lo @ ?N # hi). int (length (fst e)) + int (length (snd e)))"
    unfolding e using rel sz [of p lo] sz [of p hi] p'(7) by (simp add: memdb_rel_def)
  then show "memdb_rel p' (lo @ ?N # hi)"
    unfolding memdb_rel_def p'
    using rel linked_layout [OF lay lk h(2)] linked_levels [OF lay lk h(2)] distinct_nodes [OF rel] srt hts h
    by (auto simp: memdb_rel_def sz p')
  show "ents p' (lo @ ?N # hi) = ents p lo @ (k, v) # ents p hi" by (rule e)
qed

lemma MemDB_Put_insert:
  assumes rel: "memdb_rel p (lo @ hi)" and bel: "below p k lo hi"
    and inex: "\<not> (hi \<noteq> [] \<and> nkey (nodeData p) (kvData p) (hd hi) = k)"
  shows "\<exists>p'. MemDB_Put p k v = Some p' \<and> memdb_rel p' (lo @ length (nodeData p) # hi) \<and>
    ents p' (lo @ length (nodeData p) # hi) = ents p lo @ (k, v) # ents p hi \<and> cmp p' = cmp p"
proof -
  let ?nd = "nodeData p"
  define q where "q = p\<lparr>prevNode := prevs_upto ?nd lo (maxHeight p - 1) (prevNode p)\<rparr>"
  have lay: "layout ?nd (kvData p) (lo @ hi)" and mh: "1 \<le> maxHeight p" "maxHeight p \<le> 12" "length (prevNode p) = 12"
    using rel by (simp_all add: memdb_rel_def)
  have fg: "findGE p k True = Some ((first_of hi, False), q)"
    using findGE_ok [OF rel bel, of True] inex by (simp add: q_def)
  obtain h p1 where rh: "randHeight q = (h, p1)" by force
  then obtain r where h: "1 \<le> h" "h \<le> 12" and p1: "p1 = q\<lparr>rnd := r\<rparr>" using randHeight_bounds by blast
  define pn where "pn = (if h > maxHeight p then map (\<lambda>i. if maxHeight p \<le> i \<and> i < h then 0 else prevNode q ! i) [0..<12]
    else prevNode q)"
  define p2 where "p2 = p1\<lparr>prevNode := pn, maxHeight := max (maxHeight p) h\<rparr>"
  have lq: "length (prevNode q) = 12" using mh by (simp add: q_def prevs_upto_def)
  have lpn: "length pn = 12" using lq by (simp add: pn_def)
  have p2_eq: "(if h > maxHeight p1 then p1\<lparr>prevNode := map (\<lambda>i. if maxHeight p1 \<le> i \<and> i < h then 0 else prevNode p1 ! i)
      [0..<length (prevNode p1)], maxHeight := h\<rparr> else p1) = p2"
    using lq by (simp add: p2_def pn_def p1 q_def max_def)
  have pr: "pn ! t = pred_at ?nd t lo" if "t < h" for t
  proof (cases "t < maxHeight p")
    case True
    then have "t \<le> maxHeight p - 1" by simp
    then show ?thesis using True that h mh by (simp add: pn_def q_def prevs_upto_def pred_at_def)
  next
    case False
    have "at_level ?nd t lo = []"
      using memdb_rel_node(4) [OF rel] False by (fastforce simp: at_level_def filter_empty_conv)
    then show ?thesis using that h mh False by (simp add: pn_def q_def prevs_upto_def pred_at_def)
  qed
  have sl: "go_slice pn 0 h = Some (take h pn)" using lpn h by (simp add: go_slice_def)
  obtain nd' where nd': "link_loop (length ?nd) (take h pn) 0 (?nd @ [length (kvData p), length k, length v, h]) = Some nd'"
    "linked ?nd lo h (length (kvData p)) (length k) (length v) nd'"
    using link_loop_linked [OF lay h(2), of "take h pn"] lpn h pr by fastforce
  define p' where "p' = p2\<lparr>kvData := kvData p @ k @ v, nodeData := nd',
                   kvSize := kvSize p + int (length k) + int (length v), dbn := dbn p + 1\<rparr>"
  have "MemDB_Put p k v = Some p'"
    unfolding MemDB_Put_def fg using sl nd'(1) rh
    by (simp add: p2_eq [simplified] Let_def) (simp add: p2_def p1 q_def p'_def)
  moreover have "memdb_rel p' (lo @ length ?nd # hi)" "ents p' (lo @ length ?nd # hi) = ents p lo @ (k, v) # ents p hi"
    using linked_memdb_rel [OF rel bel inex nd'(2) h] lpn by (simp_all add: p'_def p2_def p1 q_def)
  moreover have "cmp p' = cmp p" by (simp add: p'_def p2_def p1 q_def)
  ultimately show ?thesis by blast
qed

subsection \<open>Overwriting a key\<close>

text \<open>Overwriting the value of an existing node.\<close>

definition revalued :: "nat list \<Rightarrow> nat \<Rightarrow> nat list \<Rightarrow> bool" where
  "revalued nd b nd' \<longleftrightarrow> length nd' = length nd \<and> (\<forall>j. j \<noteq> b \<and> j \<noteq> b + 2 \<longrightarrow> nd' ! j = nd ! j)"

lemma revalued_nth:
  assumes "layout nd kv ns" "revalued nd b nd'" "a \<in> set (0 # ns)" "b \<in> set ns" "j < 4 + nht nd a"
    "a \<noteq> b \<or> j \<noteq> 0 \<and> j \<noteq> 2"
  shows "nd' ! (a + j) = nd ! (a + j)"
proof -
  have "a + j \<noteq> b \<and> a + j \<noteq> b + 2"
  proof (cases "a = b")
    case False
    have b: "b \<in> set (0 # ns)" using assms(4) by simp
    show ?thesis
      using layout_disjoint [OF assms(1,3) b False assms(5), of 0] layout_disjoint [OF assms(1,3) b False assms(5), of 2]
      by simp
  qed (use assms(6) in simp)
  then show ?thesis using assms(2) by (simp add: revalued_def)
qed

lemma revalued_frame:
  assumes "layout nd kv ns" "revalued nd b nd'" "b \<in> set ns"
  shows "a \<in> set (0 # ns) \<Longrightarrow> nht nd' a = nht nd a"
    "a \<in> set (0 # ns) \<Longrightarrow> i < nht nd a \<Longrightarrow> nnext nd' i a = nnext nd i a"
    "a \<in> set ns \<Longrightarrow> a \<noteq> b \<Longrightarrow> nkey nd' (kv @ ext) a = nkey nd kv a"
    "a \<in> set ns \<Longrightarrow> a \<noteq> b \<Longrightarrow> nval nd' (kv @ ext) a = nval nd kv a"
    "a \<in> set ns \<Longrightarrow> a \<noteq> b \<Longrightarrow> nd' ! a + nd' ! (a + 1) + nd' ! (a + 2) \<le> length kv"
proof -
  note nth = revalued_nth [OF assms(1,2) _ assms(3)]
  show "a \<in> set (0 # ns) \<Longrightarrow> nht nd' a = nht nd a" using nth [of a 3] by (simp add: nht_def)
  show "a \<in> set (0 # ns) \<Longrightarrow> i < nht nd a \<Longrightarrow> nnext nd' i a = nnext nd i a"
    using nth [of a "4 + i"] by (simp add: nnext_def add.assoc)
  assume a: "a \<in> set ns" "a \<noteq> b"
  have kv: "nd ! a + nd ! (a + 1) + nd ! (a + 2) \<le> length kv"
    using assms(1) a by (auto simp: layout_def)
  have "nd' ! a = nd ! a" "nd' ! (a + 1) = nd ! (a + 1)" "nd' ! (a + 2) = nd ! (a + 2)"
    using nth [of a 0] nth [of a 1] nth [of a 2] a by simp_all
  with kv show "nkey nd' (kv @ ext) a = nkey nd kv a" "nval nd' (kv @ ext) a = nval nd kv a"
    "nd' ! a + nd' ! (a + 1) + nd' ! (a + 2) \<le> length kv"
    by (simp_all add: nkey_def nval_def)
qed

lemma revalued_memdb_rel:
  assumes rel: "memdb_rel p ns" and b: "b \<in> set ns" and rv: "revalued (nodeData p) b nd'"
    and kb: "nkey nd' (kvData p @ ext) b = nkey (nodeData p) (kvData p) b"
    and fit: "nd' ! b + nd' ! (b + 1) + nd' ! (b + 2) \<le> length (kvData p @ ext)"
    and p': "cmp p' = cmp p" "kvData p' = kvData p @ ext" "nodeData p' = nd'" "length (prevNode p') = 12"
      "maxHeight p' = maxHeight p" "dbn p' = dbn p"
      "kvSize p' = kvSize p + int (length (nval nd' (kvData p @ ext) b)) - int (length (nval (nodeData p) (kvData p) b))"
  shows "memdb_rel p' ns"
proof -
  let ?nd = "nodeData p" and ?kv = "kvData p"
  have lay: "layout ?nd ?kv ns" and lev: "levels ?nd ns" using rel by (simp_all add: memdb_rel_def)
  note fr = revalued_frame [OF lay rv b]
  have keys: "map (nkey nd' (?kv @ ext)) ns = map (nkey ?nd ?kv) ns"
  proof (rule map_cong)
    fix a assume "a \<in> set ns"
    then show "nkey nd' (?kv @ ext) a = nkey ?nd ?kv a" using fr(3) [of a ext] kb by (cases "a = b") simp_all
  qed simp
  have "nd' ! a + nd' ! (a + 1) + nd' ! (a + 2) \<le> length (?kv @ ext)" if "a \<in> set ns" for a
    using fr(5) [OF that] fit by (cases "a = b") auto
  moreover have ht: "nht nd' a = nht ?nd a" if "a = 0 \<or> a \<in> set ns" for a using fr(1) [of a] that by simp
  ultimately have lay': "layout nd' (?kv @ ext) ns"
    using lay rv by (simp add: layout_def revalued_def) fastforce
  have "chain (nnext nd' i) 0 (filter (\<lambda>a. i < nht nd' a) ns)" if i: "i < 12" for i
  proof -
    have "filter (\<lambda>a. i < nht nd' a) ns = filter (\<lambda>a. i < nht ?nd a) ns" using fr(1) by (intro filter_cong) auto
    moreover have "chain (nnext nd' i) 0 (filter (\<lambda>a. i < nht ?nd a) ns) = chain (nnext ?nd i) 0 (filter (\<lambda>a. i < nht ?nd a) ns)"
      by (rule chain_cong) (use fr(2) lay i in \<open>auto simp: layout_def\<close>)
    ultimately show ?thesis using lev i by (simp add: levels_def)
  qed
  then have lev': "levels nd' ns" by (simp add: levels_def)
  let ?s = "\<lambda>a. int (length (nkey ?nd ?kv a)) + int (length (nval ?nd ?kv a))"
  let ?s' = "\<lambda>a. int (length (nkey nd' (?kv @ ext) a)) + int (length (nval nd' (?kv @ ext) a))"
  have sum: "(\<Sum>a\<leftarrow>ns. f a) = f b + (\<Sum>a\<leftarrow>remove1 b ns. f a)" for f :: "nat \<Rightarrow> int"
    using b by (rule sum_list_map_remove1)
  have "(\<Sum>a\<leftarrow>remove1 b ns. ?s' a) = (\<Sum>a\<leftarrow>remove1 b ns. ?s a)"
    using fr(3,4) distinct_nodes [OF rel] by (intro arg_cong [of _ _ sum_list] map_cong) auto
  then have "kvSize p' = (\<Sum>a\<leftarrow>ns. ?s' a)"
    using sum [of ?s] sum [of ?s'] kb p'(7) rel by (simp add: memdb_rel_def)
  then show ?thesis
    using rel lay' lev' ht unfolding memdb_rel_def p' keys by simp
qed

lemma MemDB_Put_exact:
  assumes rel: "memdb_rel p (lo @ b # hi)" and bel: "below p k lo (b # hi)"
    and ex: "nkey (nodeData p) (kvData p) b = k"
  shows "\<exists>p'. MemDB_Put p k v = Some p' \<and> memdb_rel p' (lo @ b # hi) \<and>
    ents p' (lo @ b # hi) = ents p lo @ (k, v) # ents p hi \<and> cmp p' = cmp p"
proof -
  let ?nd = "nodeData p" and ?kv = "kvData p" and ?ns = "lo @ b # hi"
  define ext where "ext = (if v = [] then [] else k @ v)"
  define nd' where "nd' = (if v = [] then ?nd else ?nd[b := length ?kv])[b + 2 := length v]"
  define pn where "pn = prevs_upto ?nd lo (maxHeight p - 1) (prevNode p)"
  define p' where "p' = p\<lparr>prevNode := pn, kvData := ?kv @ ext, nodeData := nd',
    kvSize := kvSize p + int (length v) - int (?nd ! (b + 2))\<rparr>"
  have lay: "layout ?nd ?kv ?ns" using rel by (simp add: memdb_rel_def)
  have b: "b \<in> set ?ns" by simp
  have bl: "b + 4 \<le> length ?nd" using layout_end [OF lay, of b] by simp
  have kvb: "?nd ! b + ?nd ! (b + 1) + ?nd ! (b + 2) \<le> length ?kv" by (rule memdb_rel_kv [OF rel b])
  have lk: "?nd ! (b + 1) = length k" using ex kvb by (auto simp: nkey_def)
  have put: "MemDB_Put p k v = Some p'"
    unfolding MemDB_Put_def findGE_ok [OF rel bel, of True] using ex bl
    by (auto simp: first_of_def put_at_def idx_def p'_def nd'_def ext_def pn_def Let_def)
  have rv: "revalued ?nd b nd'" by (simp add: revalued_def nd'_def)
  have nb: "nd' ! b = (if v = [] then ?nd ! b else length ?kv)" "nd' ! (b + 1) = length k" "nd' ! (b + 2) = length v"
    using bl lk by (auto simp: nd'_def)
  have vb: "nval nd' (?kv @ ext) b = v" using nb by (simp add: nval_def ext_def)
  have kb: "nkey nd' (?kv @ ext) b = nkey ?nd ?kv b"
    unfolding ex using nb kvb ex lk by (auto simp: nkey_def ext_def)
  have lv: "length (nval ?nd ?kv b) = ?nd ! (b + 2)" using kvb by (simp add: nval_def)
  have rel': "memdb_rel p' ?ns"
  proof (rule revalued_memdb_rel [OF rel b rv kb])
    show "nd' ! b + nd' ! (b + 1) + nd' ! (b + 2) \<le> length (?kv @ ext)"
      using nb kvb lk by (auto simp: ext_def)
    show "length (prevNode p') = 12" using rel by (simp add: p'_def pn_def prevs_upto_def memdb_rel_def)
    show "kvSize p' = kvSize p + int (length (nval nd' (?kv @ ext) b)) - int (length (nval ?nd ?kv b))"
      unfolding vb lv by (simp add: p'_def)
  qed (simp_all add: p'_def)
  have "b \<notin> set lo" "b \<notin> set hi" using distinct_nodes [OF rel] by auto
  then have "ents p' ?ns = ents p lo @ (k, v) # ents p hi"
    using revalued_frame(3,4) [OF lay rv b] kb vb ex by (auto simp: ents_def p'_def)
  with put rel' show ?thesis by (auto simp: p'_def)
qed

subsection \<open>The store as a sorted association list\<close>

lemma kv_upd_split:
  assumes "\<forall>e \<in> set lo. fst e < k" "hi = [] \<or> k < fst (hd hi)"
  shows "kv_upd k v (lo @ hi) = lo @ (k, v) # hi"
proof -
  have "takeWhile (\<lambda>e. fst e < k) (lo @ hi) = lo @ takeWhile (\<lambda>e. fst e < k) hi"
    "dropWhile (\<lambda>e. fst e \<le> k) (lo @ hi) = dropWhile (\<lambda>e. fst e \<le> k) hi"
    using assms(1) by (auto intro!: takeWhile_append2 dropWhile_append2 simp: order_less_imp_le)
  then show ?thesis using assms(2) by (cases hi) (auto simp: kv_upd_def)
qed

lemma kv_upd_exact:
  assumes "\<forall>e \<in> set lo. fst e < k" "kv_sorted (lo @ (k, w) # hi)"
  shows "kv_upd k v (lo @ (k, w) # hi) = lo @ (k, v) # hi"
proof -
  have "takeWhile (\<lambda>e. fst e < k) (lo @ (k, w) # hi) = lo"
    "dropWhile (\<lambda>e. fst e \<le> k) (lo @ (k, w) # hi) = dropWhile (\<lambda>e. fst e \<le> k) hi"
    using assms(1) by (auto simp: takeWhile_append2 dropWhile_append2 order_less_imp_le)
  moreover have "dropWhile (\<lambda>e. fst e \<le> k) hi = hi"
    using assms(2) by (cases hi) (auto simp: kv_sorted_def sorted_wrt_append)
  ultimately show ?thesis by (simp add: kv_upd_def)
qed

definition mrep :: "MemDB \<Rightarrow> (bytes \<times> bytes) list \<Rightarrow> bool" where
  "mrep p es \<longleftrightarrow> (\<exists>ns. memdb_rel p ns \<and> es = ents p ns)"

lemma mrepI: "memdb_rel p ns \<Longrightarrow> mrep p (ents p ns)"
  by (auto simp: mrep_def)

lemma mrep_sorted: "mrep p es \<Longrightarrow> kv_sorted es"
  by (auto simp: mrep_def kv_sorted_ents)

lemma MemDB_Put_ok:
  assumes "mrep p es"
  shows "\<exists>p'. MemDB_Put p k v = Some p' \<and> mrep p' (kv_upd k v es) \<and> cmp p' = cmp p"
proof -
  obtain ns where rel: "memdb_rel p ns" and es: "es = ents p ns" using assms by (auto simp: mrep_def)
  obtain lo hi where ns: "ns = lo @ hi" and bel: "below p k lo hi" using memdb_split [OF rel] by metis
  have lo: "\<forall>e \<in> set (ents p lo). fst e < k" using bel by (auto simp: ents_def below_def)
  show ?thesis
  proof (cases "hi \<noteq> [] \<and> nkey (nodeData p) (kvData p) (hd hi) = k")
    case False
    have "ents p hi = [] \<or> k < fst (hd (ents p hi))"
      using below_exact [OF rel [unfolded ns] bel False] by (cases hi) (auto simp: ents_def)
    then have "kv_upd k v es = ents p lo @ (k, v) # ents p hi"
      using kv_upd_split [OF lo] by (simp add: es ns ents_def)
    then show ?thesis using MemDB_Put_insert [OF rel [unfolded ns] bel False, of v] mrepI by metis
  next
    case True
    then obtain b hi' where hi: "hi = b # hi'" "nkey (nodeData p) (kvData p) b = k" by (cases hi) auto
    have "es = ents p lo @ (k, nval (nodeData p) (kvData p) b) # ents p hi'" by (simp add: es ns hi ents_def)
    moreover have "kv_sorted es" using mrep_sorted [OF assms] .
    ultimately have "kv_upd k v es = ents p lo @ (k, v) # ents p hi'" using kv_upd_exact [OF lo] by metis
    then show ?thesis
      using MemDB_Put_exact [OF rel [unfolded ns hi(1)] bel [unfolded hi(1)] hi(2), of v] mrepI by metis
  qed
qed

lemma MemDB_Get_mrep:
  "mrep p es \<Longrightarrow> MemDB_Get p k = Some (case map_of es k of None \<Rightarrow> ([], True) | Some v \<Rightarrow> (v, False))"
  by (auto simp: mrep_def MemDB_Get_ok)

lemma MemDB_ForEach_mrep: "mrep p es \<Longrightarrow> MemDB_ForEach p = Some es"
  by (auto simp: mrep_def MemDB_ForEach_ok)

lemma MemDB_Len_mrep: "mrep p es \<Longrightarrow> MemDB_Len p = length es"
  by (auto simp: mrep_def memdb_rel_def MemDB_Len_def ents_def)

lemma MemDB_Size_mrep: "mrep p es \<Longrightarrow> MemDB_Size p = (\<Sum>e\<leftarrow>es. int (length (fst e)) + int (length (snd e)))"
  by (auto simp: mrep_def memdb_rel_def MemDB_Size_def ents_def comp_def)

lemma map_of_takeWhile_lt: "kv_sorted es \<Longrightarrow> j < k \<Longrightarrow> map_of (takeWhile (\<lambda>e. fst e < k) es) j = map_of es j"
  by (induction es) (fastforce simp: kv_sorted_def map_of_eq_None_iff dest: less_trans intro: sym)+

lemma map_of_dropWhile_gt: "kv_sorted es \<Longrightarrow> k < j \<Longrightarrow> map_of (dropWhile (\<lambda>e. fst e \<le> k) es) j = map_of es j"
  by (induction es) (auto simp: kv_sorted_def)

lemma map_of_kv_upd:
  assumes "kv_sorted es"
  shows "map_of (kv_upd k v es) = (map_of es)(k \<mapsto> v)"
proof
  fix j
  have lo: "map_of (takeWhile (\<lambda>e. fst e < k) es) j = None" if "\<not> j < k"
    using that by (auto simp: map_of_eq_None_iff dest: set_takeWhileD)
  have hi: "map_of (dropWhile (\<lambda>e. fst e \<le> k) es) j = None" if "j < k"
  proof -
    have "k < fst e" if "e \<in> set (dropWhile (\<lambda>e. fst e \<le> k) es)" for e
      using assms that by (induction es) (auto simp: kv_sorted_def split: if_splits intro: less_le_trans)
    then have "\<forall>e \<in> set (dropWhile (\<lambda>e. fst e \<le> k) es). fst e \<noteq> j" using that by fastforce
    then show ?thesis by (auto simp: map_of_eq_None_iff)
  qed
  consider "j < k" | "j = k" | "k < j" by force
  then show "map_of (kv_upd k v es) j = ((map_of es)(k \<mapsto> v)) j"
  proof cases
    case 1
    then show ?thesis using hi map_of_takeWhile_lt [OF assms 1]
      by (auto simp: kv_upd_def map_add_def split: option.splits)
  next
    case 2
    then show ?thesis using lo by (auto simp: kv_upd_def map_add_def)
  next
    case 3
    then show ?thesis using lo map_of_dropWhile_gt [OF assms 3]
      by (auto simp: kv_upd_def map_add_def split: option.splits)
  qed
qed

lemma NewMemDB_rel: "bytewise c \<Longrightarrow> memdb_rel (NewMemDB c r) []"
  by (auto simp: memdb_rel_def NewMemDB_def layout_def levels_def nht_def nnext_def nth_list_update)

lemma NewMemDB_mrep: "bytewise c \<Longrightarrow> mrep (NewMemDB c r) []"
  using NewMemDB_rel [of c r] mrepI by (fastforce simp: ents_def)

lemma overwrite_full: "length ys = length xs \<Longrightarrow> overwrite xs 0 ys = ys"
  by (simp add: overwrite_def)

lemma MemDB_Reset_ok:
  assumes "mrep p es"
  shows "MemDB_Reset r p = Some (NewMemDB (cmp p) r)"
proof -
  obtain ns where rel: "memdb_rel p ns" using assms by (auto simp: mrep_def)
  then have "16 \<le> length (nodeData p)" "length (prevNode p) = 12" by (auto simp: memdb_rel_def layout_def)
  then have "go_slice (nodeData p) 0 16 = Some (take 16 (nodeData p))" "length (take 16 (nodeData p)) = 16"
    "length (prevNode p) = 12" by (simp_all add: go_slice_def)
  then show ?thesis
    by (simp add: MemDB_Reset_def NewMemDB_def overwrite_full numeral_eq_Suc)
qed

lemma findGE_mrep:
  assumes "mrep p es"
  shows "MemDB_Find p k = Some (case dropWhile (\<lambda>e. fst e < k) es of [] \<Rightarrow> None | e # _ \<Rightarrow> Some e)"
proof -
  obtain ns where rel: "memdb_rel p ns" and es: "es = ents p ns" using assms by (auto simp: mrep_def)
  obtain lo hi where ns: "ns = lo @ hi" and bel: "below p k lo hi"
    and hi: "hi = dropWhile (\<lambda>a. nkey (nodeData p) (kvData p) a < k) ns" using memdb_split [OF rel] by metis
  have dw: "dropWhile (\<lambda>e. fst e < k) es = ents p hi"
    by (simp add: es hi ents_def dropWhile_map comp_def)
  show ?thesis
  proof (cases hi)
    case Nil
    then show ?thesis unfolding MemDB_Find_def dw findGE_ok [OF rel [unfolded ns] bel]
      by (simp add: first_of_def ents_def)
  next
    case (Cons b bs)
    then have b: "b \<in> set ns" by (simp add: ns)
    show ?thesis unfolding MemDB_Find_def dw findGE_ok [OF rel [unfolded ns] bel]
      using Cons memdb_rel_idx_hdr [OF rel, of b 0] memdb_rel_idx_hdr [OF rel, of b 1]
      memdb_rel_idx_hdr [OF rel, of b 2] b memdb_rel_kv [OF rel b] memdb_rel_node(2) [OF rel b]
      by (simp add: first_of_def ents_def go_slice_def nkey_def nval_def)
  qed
qed

subsection \<open>Properties\<close>

definition memdb_inv :: "MemDB \<Rightarrow> bool" where
  "memdb_inv p \<longleftrightarrow> (\<exists>es. mrep p es)"

lemma memdb_invE:
  assumes "memdb_inv p"
  obtains es where "mrep p es" "MemDB_ForEach p = Some es" "kv_sorted es"
  using assms MemDB_ForEach_mrep mrep_sorted by (auto simp: memdb_inv_def)

lemma memdb_inv_New: "bytewise c \<Longrightarrow> memdb_inv (NewMemDB c r)"
  using NewMemDB_mrep by (auto simp: memdb_inv_def)

text \<open>C21: on every store satisfying the skip-list invariant, \<^verbatim>\<open>Put\<close> neither panics nor loops,
  keeps the invariant, and changes what \<^verbatim>\<open>Get\<close> returns for exactly the key written, to exactly
  the value written, whatever heights the random source picks.\<close>
theorem memdb_put_get:
  assumes "memdb_inv p"
  shows "\<exists>p'. MemDB_Put p k v = Some p' \<and> memdb_inv p' \<and>
    (\<forall>j. MemDB_Get p' j = (if j = k then Some (v, False) else MemDB_Get p j))"
proof -
  obtain es where es: "mrep p es" using assms by (rule memdb_invE)
  obtain p' where p': "MemDB_Put p k v = Some p'" "mrep p' (kv_upd k v es)"
    using MemDB_Put_ok [OF es] by blast
  have "MemDB_Get p' j = (if j = k then Some (v, False) else MemDB_Get p j)" for j
    unfolding MemDB_Get_mrep [OF p'(2)] MemDB_Get_mrep [OF es] map_of_kv_upd [OF mrep_sorted [OF es]] by simp
  with p' show ?thesis by (auto simp: memdb_inv_def)
qed

text \<open>The bytewise comparer of goleveldb, instantiated.\<close>

definition bytes_compare :: "bytes \<Rightarrow> bytes \<Rightarrow> int" where
  "bytes_compare a b = (if a < b then - 1 else if a = b then 0 else 1)"

lemma bytewise_compare: "bytewise bytes_compare"
  by (auto simp: bytewise_def bytes_compare_def)

theorem memdb_put_get_witness:
  "\<exists>p'. MemDB_Put (NewMemDB bytes_compare (\<lambda>i. i)) [1] [2] = Some p' \<and> memdb_inv p' \<and>
    (\<forall>j. MemDB_Get p' j = (if j = [1] then Some ([2], False) else MemDB_Get (NewMemDB bytes_compare (\<lambda>i. i)) j))"
  by (rule memdb_put_get) (rule memdb_inv_New [OF bytewise_compare])

text \<open>C9: \<^verbatim>\<open>ForEach\<close> visits the entries in strictly increasing key order, one per key, and after
  a \<^verbatim>\<open>Put\<close> it visits the same list with the written key inserted at its place or its value
  replaced there; \<^verbatim>\<open>Find\<close> returns the first visited entry whose key is not below the argument;
  \<^verbatim>\<open>Len\<close> and \<^verbatim>\<open>Size\<close> are the number of visited entries and their total size.\<close>
theorem memdb_ordered_view:
  assumes "memdb_inv p"
  shows "\<exists>es p'. MemDB_ForEach p = Some es \<and> sorted_wrt (<) (map fst es) \<and>
    MemDB_Put p k v = Some p' \<and> MemDB_ForEach p' = Some (kv_upd k v es) \<and>
    MemDB_Find p k = Some (case dropWhile (\<lambda>e. fst e < k) es of [] \<Rightarrow> None | e # _ \<Rightarrow> Some e) \<and>
    MemDB_Len p = length es \<and> MemDB_Size p = (\<Sum>e\<leftarrow>es. int (length (fst e)) + int (length (snd e)))"
proof -
  obtain es where es: "mrep p es" "MemDB_ForEach p = Some es" "kv_sorted es" using assms by (rule memdb_invE)
  obtain p' where p': "MemDB_Put p k v = Some p'" "mrep p' (kv_upd k v es)"
    using MemDB_Put_ok [OF es(1)] by blast
  then show ?thesis
    using es MemDB_ForEach_mrep findGE_mrep [OF es(1)] MemDB_Len_mrep MemDB_Size_mrep
    unfolding kv_sorted_def by blast
qed

theorem memdb_ordered_view_witness:
  "\<exists>es p'. MemDB_ForEach (NewMemDB bytes_compare (\<lambda>i. 0)) = Some es \<and> sorted_wrt (<) (map fst es) \<and>
    MemDB_Put (NewMemDB bytes_compare (\<lambda>i. 0)) [5] [6, 7] = Some p' \<and> MemDB_ForEach p' = Some (kv_upd [5] [6, 7] es) \<and>
    MemDB_Find (NewMemDB bytes_compare (\<lambda>i. 0)) [5] = Some (case dropWhile (\<lambda>e. fst e < [5]) es of [] \<Rightarrow> None | e # _ \<Rightarrow> Some e) \<and>
    MemDB_Len (NewMemDB bytes_compare (\<lambda>i. 0)) = length es \<and>
    MemDB_Size (NewMemDB bytes_compare (\<lambda>i. 0)) = (\<Sum>e\<leftarrow>es. int (length (fst e)) + int (length (snd e)))"
  by (rule memdb_ordered_view) (rule memdb_inv_New [OF bytewise_compare])

lemma kv_upd_sum:
  fixes f :: "bytes \<times> bytes \<Rightarrow> int"
  assumes "kv_sorted es"
  shows "(\<Sum>e\<leftarrow>kv_upd k v es. f e) = (\<Sum>e\<leftarrow>es. f e) + f (k, v) - (case map_of es k of None \<Rightarrow> 0 | Some w \<Rightarrow> f (k, w))"
  using assms
proof (induction es)
  case (Cons e es)
  then have IH: "(\<Sum>e\<leftarrow>kv_upd k v es. f e) = (\<Sum>e\<leftarrow>es. f e) + f (k, v) - (case map_of es k of None \<Rightarrow> 0 | Some w \<Rightarrow> f (k, w))"
    and gt: "\<forall>e'\<in>set es. fst e < fst e'" by (simp_all add: kv_sorted_def)
  have above: "k < fst e'" if "k \<le> fst e" "e' \<in> set es" for e' using gt that by (blast intro: le_less_trans)
  have "map_of es k = None" "dropWhile (\<lambda>e. fst e \<le> k) es = es" if "k \<le> fst e"
    using above [OF that] by (fastforce simp: map_of_eq_None_iff, simp add: dropWhile_eq_self_iff not_le)
  then show ?case using IH by (cases e; cases "fst e" k rule: linorder_cases) (auto simp: kv_upd_def)
qed (simp add: kv_upd_def)

text \<open>C39: \<^verbatim>\<open>Delete\<close> leaves a tombstone: it neither panics nor loops, keeps the invariant, and afterwards the key
  reads as known with an empty value, every other key as before.  The node stays, or is added: \<^verbatim>\<open>Len\<close> does not change
  when the key was in the store and grows by one when it was not, and \<^verbatim>\<open>Size\<close> loses the length of the value only, or
  gains the length of the key.\<close>
theorem memdb_delete_keeps_node:
  assumes "memdb_inv p"
  shows "\<exists>v unknown p'. MemDB_Get p k = Some (v, unknown) \<and> MemDB_Delete p k = Some p' \<and> memdb_inv p' \<and>
    (\<forall>j. MemDB_Get p' j = (if j = k then Some ([], False) else MemDB_Get p j)) \<and>
    MemDB_Len p' = MemDB_Len p + (if unknown then 1 else 0) \<and>
    MemDB_Size p' = MemDB_Size p + (if unknown then int (length k) else - int (length v))"
proof -
  obtain es where es: "mrep p es" "kv_sorted es" using assms(1) by (rule memdb_invE)
  obtain p' where p': "MemDB_Put p k [] = Some p'" "mrep p' (kv_upd k [] es)"
    using MemDB_Put_ok [OF es(1)] by blast
  have get: "MemDB_Get p' j = (if j = k then Some ([], False) else MemDB_Get p j)" for j
    unfolding MemDB_Get_mrep [OF p'(2)] MemDB_Get_mrep [OF es(1)] map_of_kv_upd [OF es(2)] by simp
  have "int (length (kv_upd k [] es)) = int (length es) + (case map_of es k of None \<Rightarrow> 1 | Some _ \<Rightarrow> 0)"
    using kv_upd_sum [OF es(2), of "\<lambda>_. 1" k "[]"] by (simp add: sum_list_triv split: option.splits)
  then show ?thesis
    using p' get MemDB_Len_mrep [OF p'(2)] MemDB_Len_mrep [OF es(1)] MemDB_Size_mrep [OF p'(2)] MemDB_Size_mrep [OF es(1)]
      MemDB_Get_mrep [OF es(1), of k] kv_upd_sum [OF es(2), of "\<lambda>e. int (length (fst e)) + int (length (snd e))" k "[]"]
    by (auto simp: MemDB_Delete_def memdb_inv_def split: option.splits)
qed

theorem memdb_delete_keeps_node_witness:
  "\<exists>p p'. MemDB_Put (NewMemDB bytes_compare (\<lambda>i. 1)) [9] [1, 2, 3] = Some p \<and> MemDB_Delete p [9] = Some p' \<and>
    MemDB_Get p' [9] = Some ([], False) \<and> MemDB_Len p' = 1 \<and> MemDB_Size p' = 1"
proof -
  obtain p where p: "MemDB_Put (NewMemDB bytes_compare (\<lambda>i. 1)) [9] [1, 2, 3] = Some p" "mrep p [([9], [1, 2, 3])]"
    using MemDB_Put_ok [OF NewMemDB_mrep [OF bytewise_compare], of "\<lambda>i. 1" "[9]" "[1, 2, 3]"] by (auto simp: kv_upd_def)
  have "memdb_inv p" using p(2) by (auto simp: memdb_inv_def)
  then show ?thesis
    using p memdb_delete_keeps_node [of p "[9]"] MemDB_Len_mrep [OF p(2)] MemDB_Size_mrep [OF p(2)] MemDB_Get_mrep [OF p(2), of "[9]"]
    by auto
qed

end
