(* ===== verification/Iterators.thy ===== *)
theory Iterators
  imports MemDB
begin

text \<open>
  Iterators over the stores: \<^verbatim>\<open>dbIter\<close> of \<^verbatim>\<open>overlaydb/memdb.go\<close> walks one skip list,
  \<^verbatim>\<open>JoinIter\<close> of \<^verbatim>\<open>overlaydb/iterator.go\<close> joins the iterator of a write cache with the
  iterator of what lies below it.  The Go interface \<^verbatim>\<open>schema.StoreIterator\<close> is the record
  \<^verbatim>\<open>StoreIterator\<close> of its methods, each a function on the iterator's state; \<^verbatim>\<open>JoinIter\<close> is
  polymorphic in the two iterators it joins, as the code is.

  The contract of the interface is the locale \<^verbatim>\<open>store_iterator\<close>: an iterator enumerates a
  strictly sorted list of entries.  It is interpreted for \<^verbatim>\<open>dbIter\<close>; a \<^verbatim>\<open>JoinIter\<close> over
  two iterators that satisfy it satisfies it again (\<^verbatim>\<open>sublocale\<close>), with the merge of the two
  lists, the cache winning and its tombstones removed.
\<close>

section \<open>Iterators\<close>

datatype db_error = ErrNotFound | ErrIterReleased | ErrEOF | ErrOther string

subsection \<open>The iterator of a skip list\<close>

record util_Range =
  Start :: "bytes option"
  Limit :: "bytes option"

record dbIter =
  it_p :: "MemDB option"
  it_slice :: "util_Range option"
  it_node :: nat
  it_forward :: bool
  it_key :: bytes
  it_value :: bytes
  it_err :: "db_error option"
  it_released :: bool

definition MemDB_NewIterator :: "MemDB \<Rightarrow> util_Range option \<Rightarrow> dbIter" where
  "MemDB_NewIterator p slc = \<lparr>it_p = Some p, it_slice = slc, it_node = 0, it_forward = False,
     it_key = [], it_value = [], it_err = None, it_released = False\<rparr>"

definition dbIter_out :: "MemDB \<Rightarrow> util_Range option \<Rightarrow> bool \<Rightarrow> bool \<Rightarrow> bytes \<Rightarrow> bool" where
  "dbIter_out p slc checkStart checkLimit key =
     (case slc of None \<Rightarrow> False
      | Some r \<Rightarrow>
          checkLimit \<and> (case Limit r of None \<Rightarrow> False | Some l \<Rightarrow> cmp p key l \<ge> 0) \<or>
          checkStart \<and> (case Start r of None \<Rightarrow> False | Some s \<Rightarrow> cmp p key s < 0))"

definition dbIter_fill :: "bool \<Rightarrow> bool \<Rightarrow> dbIter \<Rightarrow> (bool \<times> dbIter) option" where
  "dbIter_fill checkStart checkLimit i =
     (if it_node i \<noteq> 0 then do {
        p \<leftarrow> it_p i;
        n \<leftarrow> idx (nodeData p) (it_node i);
        kl \<leftarrow> idx (nodeData p) (it_node i + nKey);
        key \<leftarrow> go_slice (kvData p) n (n + kl);
        if dbIter_out p (it_slice i) checkStart checkLimit key
        then Some (False, i\<lparr>it_node := 0, it_key := [], it_value := []\<rparr>)
        else do {
          vl \<leftarrow> idx (nodeData p) (it_node i + nVal);
          val \<leftarrow> go_slice (kvData p) (n + kl) (n + kl + vl);
          Some (True, i\<lparr>it_key := key, it_value := val\<rparr>)
        }
      }
      else Some (False, i\<lparr>it_key := [], it_value := []\<rparr>))"

definition dbIter_Valid :: "dbIter \<Rightarrow> bool" where
  "dbIter_Valid i = (it_node i \<noteq> 0)"

definition dbIter_First :: "dbIter \<Rightarrow> (bool \<times> dbIter) option" where
  "dbIter_First i =
     (if it_released i then Some (False, i\<lparr>it_err := Some ErrIterReleased\<rparr>)
      else do {
        p \<leftarrow> it_p i;
        node \<leftarrow> (case it_slice i of
            Some r \<Rightarrow> (case Start r of
                Some s \<Rightarrow> do { ((node, _), _) \<leftarrow> findGE p s False; Some node }
              | None \<Rightarrow> idx (nodeData p) nNext)
          | None \<Rightarrow> idx (nodeData p) nNext);
        dbIter_fill False True (i\<lparr>it_forward := True, it_node := node\<rparr>)
      })"

definition dbIter_Last :: "dbIter \<Rightarrow> (bool \<times> dbIter) option" where
  "dbIter_Last i =
     (if it_released i then Some (False, i\<lparr>it_err := Some ErrIterReleased\<rparr>)
      else do {
        p \<leftarrow> it_p i;
        node \<leftarrow> (case it_slice i of
            Some r \<Rightarrow> (case Limit r of Some l \<Rightarrow> findLT p l | None \<Rightarrow> findLast p)
          | None \<Rightarrow> findLast p);
        dbIter_fill True False (i\<lparr>it_forward := False, it_node := node\<rparr>)
      })"

definition dbIter_Seek :: "dbIter \<Rightarrow> bytes \<Rightarrow> (bool \<times> dbIter) option" where
  "dbIter_Seek i key =
     (if it_released i then Some (False, i\<lparr>it_err := Some ErrIterReleased\<rparr>)
      else do {
        p \<leftarrow> it_p i;
        ((node, _), _) \<leftarrow> findGE p (case it_slice i of
            Some r \<Rightarrow> (case Start r of Some s \<Rightarrow> if cmp p key s < 0 then s else key | None \<Rightarrow> key)
          | None \<Rightarrow> key) False;
        dbIter_fill False True (i\<lparr>it_forward := True, it_node := node\<rparr>)
      })"

definition dbIter_Next :: "dbIter \<Rightarrow> (bool \<times> dbIter) option" where
  "dbIter_Next i =
     (if it_released i then Some (False, i\<lparr>it_err := Some ErrIterReleased\<rparr>)
      else if it_node i = 0 then (if \<not> it_forward i then dbIter_First i else Some (False, i))
      else do {
        p \<leftarrow> it_p i;
        node \<leftarrow> idx (nodeData p) (it_node i + nNext);
        dbIter_fill False True (i\<lparr>it_forward := True, it_node := node\<rparr>)
      })"

definition dbIter_Prev :: "dbIter \<Rightarrow> (bool \<times> dbIter) option" where
  "dbIter_Prev i =
     (if it_released i then Some (False, i\<lparr>it_err := Some ErrIterReleased\<rparr>)
      else if it_node i = 0 then (if it_forward i then dbIter_Last i else Some (False, i))
      else do {
        p \<leftarrow> it_p i;
        node \<leftarrow> findLT p (it_key i);
        dbIter_fill True False (i\<lparr>it_forward := False, it_node := node\<rparr>)
      })"

definition dbIter_Release :: "dbIter \<Rightarrow> dbIter option" where
  "dbIter_Release i =
     (if it_released i then Some i
      else Some (i\<lparr>it_p := None, it_node := 0, it_key := [], it_value := [], it_released := True\<rparr>))"

subsection \<open>The store iterator interface and the join of two iterators\<close>

record 's StoreIterator =
  si_First :: "'s \<Rightarrow> (bool \<times> 's) option"
  si_Next :: "'s \<Rightarrow> (bool \<times> 's) option"
  si_Key :: "'s \<Rightarrow> bytes"
  si_Value :: "'s \<Rightarrow> bytes"
  si_Release :: "'s \<Rightarrow> 's option"
  si_Error :: "'s \<Rightarrow> db_error option"

definition dbIter_ops :: "dbIter StoreIterator" where
  "dbIter_ops = \<lparr>si_First = dbIter_First, si_Next = dbIter_Next, si_Key = it_key, si_Value = it_value,
     si_Release = dbIter_Release, si_Error = it_err\<rparr>"

datatype KeyOrigin = FromMem | FromBack | FromBoth

record ('m, 'b) JoinIter =
  ji_backend :: 'b
  ji_memdb :: 'm
  ji_key :: bytes
  ji_value :: bytes
  ji_keyOrigin :: KeyOrigin
  ji_nextMemEnd :: bool
  ji_nextBackEnd :: bool
  ji_cmp :: "bytes \<Rightarrow> bytes \<Rightarrow> int"

definition NewJoinIter :: "(bytes \<Rightarrow> bytes \<Rightarrow> int) \<Rightarrow> 'm \<Rightarrow> 'b \<Rightarrow> ('m, 'b) JoinIter" where
  "NewJoinIter defaultComparer memIter backendIter =
     \<lparr>ji_backend = backendIter, ji_memdb = memIter, ji_key = [], ji_value = [], ji_keyOrigin = FromMem,
      ji_nextMemEnd = False, ji_nextBackEnd = False, ji_cmp = defaultComparer\<rparr>"

definition JoinIter_Error :: "'m StoreIterator \<Rightarrow> 'b StoreIterator \<Rightarrow> ('m, 'b) JoinIter \<Rightarrow> db_error option" where
  "JoinIter_Error mo bo iter =
     (case si_Error bo (ji_backend iter) of Some e \<Rightarrow> Some e | None \<Rightarrow> si_Error mo (ji_memdb iter))"

definition join_first ::
  "'m StoreIterator \<Rightarrow> 'b StoreIterator \<Rightarrow> ('m, 'b) JoinIter \<Rightarrow> (bool \<times> ('m, 'b) JoinIter) option" where
  "join_first mo bo iter = do {
     (isback, b) \<leftarrow> si_First bo (ji_backend iter);
     (mem, m) \<leftarrow> si_First mo (ji_memdb iter);
     let iter = iter\<lparr>ji_backend := b, ji_memdb := m\<rparr>;
         bkey = si_Key bo b; bval = si_Value bo b; mkey = si_Key mo m; mval = si_Value mo m in
     if JoinIter_Error mo bo iter \<noteq> None then Some (False, iter)
     else if isback then
       (if \<not> mem then Some (True, iter\<lparr>ji_key := bkey, ji_value := bval, ji_keyOrigin := FromBack\<rparr>)
        else (let c = ji_cmp iter mkey bkey in
          if c < 1 then Some (True, iter\<lparr>ji_key := mkey, ji_value := mval,
                                ji_keyOrigin := (if c = 0 then FromBoth else FromMem)\<rparr>)
          else Some (True, iter\<lparr>ji_key := bkey, ji_value := bval, ji_keyOrigin := FromBack\<rparr>)))
     else if mem then Some (True, iter\<lparr>ji_key := mkey, ji_value := mval, ji_keyOrigin := FromMem\<rparr>)
     else Some (False, iter)
   }"

text \<open>The second half of \<^verbatim>\<open>next\<close>: choosing the current entry once both sides have advanced.\<close>

definition join_select ::
  "'m StoreIterator \<Rightarrow> 'b StoreIterator \<Rightarrow> ('m, 'b) JoinIter \<Rightarrow> (bool \<times> ('m, 'b) JoinIter) option" where
  "join_select mo bo iter =
    (let mkey = si_Key mo (ji_memdb iter); mval = si_Value mo (ji_memdb iter);
         bkey = si_Key bo (ji_backend iter); bval = si_Value bo (ji_backend iter) in
     if JoinIter_Error mo bo iter \<noteq> None then Some (False, iter)
     else if ji_nextBackEnd iter then
       (if ji_nextMemEnd iter then Some (False, iter\<lparr>ji_key := [], ji_value := []\<rparr>)
        else Some (True, iter\<lparr>ji_key := mkey, ji_value := mval, ji_keyOrigin := FromMem\<rparr>))
     else if ji_nextMemEnd iter then
       Some (True, iter\<lparr>ji_key := bkey, ji_value := bval, ji_keyOrigin := FromBack\<rparr>)
     else (let c = ji_cmp iter mkey bkey in
       if c = - 1 then Some (True, iter\<lparr>ji_key := mkey, ji_value := mval, ji_keyOrigin := FromMem\<rparr>)
       else if c = 0 then Some (True, iter\<lparr>ji_key := mkey, ji_value := mval, ji_keyOrigin := FromBoth\<rparr>)
       else if c = 1 then Some (True, iter\<lparr>ji_key := bkey, ji_value := bval, ji_keyOrigin := FromBack\<rparr>)
       else None))"

definition join_next ::
  "'m StoreIterator \<Rightarrow> 'b StoreIterator \<Rightarrow> ('m, 'b) JoinIter \<Rightarrow> (bool \<times> ('m, 'b) JoinIter) option" where
  "join_next mo bo iter0 = do {
     iter1 \<leftarrow> (if (ji_keyOrigin iter0 = FromMem \<or> ji_keyOrigin iter0 = FromBoth) \<and> \<not> ji_nextMemEnd iter0
        then do { (ok, m) \<leftarrow> si_Next mo (ji_memdb iter0); Some (iter0\<lparr>ji_memdb := m, ji_nextMemEnd := \<not> ok\<rparr>) }
        else Some iter0);
     iter \<leftarrow> (if (ji_keyOrigin iter1 = FromBack \<or> ji_keyOrigin iter1 = FromBoth) \<and> \<not> ji_nextBackEnd iter1
        then do { (ok, b) \<leftarrow> si_Next bo (ji_backend iter1); Some (iter1\<lparr>ji_backend := b, ji_nextBackEnd := \<not> ok\<rparr>) }
        else Some iter1);
     join_select mo bo iter
   }"

partial_function (option) join_skip ::
  "'m StoreIterator \<Rightarrow> 'b StoreIterator \<Rightarrow> ('m, 'b) JoinIter \<Rightarrow> (bool \<times> ('m, 'b) JoinIter) option" where [code]:
  "join_skip mo bo iter =
     (if ji_value iter = [] then do {
        (ok, iter') \<leftarrow> join_next mo bo iter;
        if \<not> ok then Some (False, iter') else join_skip mo bo iter'
      }
      else Some (True, iter))"

definition JoinIter_First ::
  "'m StoreIterator \<Rightarrow> 'b StoreIterator \<Rightarrow> ('m, 'b) JoinIter \<Rightarrow> (bool \<times> ('m, 'b) JoinIter) option" where
  "JoinIter_First mo bo iter = do {
     (f, iter1) \<leftarrow> join_first mo bo iter;
     if \<not> f then Some (False, iter1) else join_skip mo bo iter1
   }"

definition JoinIter_Next ::
  "'m StoreIterator \<Rightarrow> 'b StoreIterator \<Rightarrow> ('m, 'b) JoinIter \<Rightarrow> (bool \<times> ('m, 'b) JoinIter) option" where
  "JoinIter_Next mo bo iter = do {
     (f, iter1) \<leftarrow> join_next mo bo iter;
     if \<not> f then Some (False, iter1) else join_skip mo bo iter1
   }"

definition JoinIter_Release ::
  "'m StoreIterator \<Rightarrow> 'b StoreIterator \<Rightarrow> ('m, 'b) JoinIter \<Rightarrow> ('m, 'b) JoinIter option" where
  "JoinIter_Release mo bo iter = do {
     m \<leftarrow> si_Release mo (ji_memdb iter);
     b \<leftarrow> si_Release bo (ji_backend iter);
     Some (iter\<lparr>ji_memdb := m, ji_backend := b\<rparr>)
   }"

definition JoinIter_ops :: "'m StoreIterator \<Rightarrow> 'b StoreIterator \<Rightarrow> ('m, 'b) JoinIter StoreIterator" where
  "JoinIter_ops mo bo = \<lparr>si_First = JoinIter_First mo bo, si_Next = JoinIter_Next mo bo, si_Key = ji_key,
     si_Value = ji_value, si_Release = JoinIter_Release mo bo, si_Error = JoinIter_Error mo bo\<rparr>"

subsection \<open>The contract of a store iterator\<close>

definition proper :: "(bytes \<times> bytes) list \<Rightarrow> bool" where
  "proper es \<longleftrightarrow> kv_sorted es \<and> (\<forall>e \<in> set es. fst e \<noteq> [])"

definition head_key :: "(bytes \<times> bytes) list \<Rightarrow> bytes" where
  "head_key es = (case es of [] \<Rightarrow> [] | e # _ \<Rightarrow> fst e)"

definition head_val :: "(bytes \<times> bytes) list \<Rightarrow> bytes" where
  "head_val es = (case es of [] \<Rightarrow> [] | e # _ \<Rightarrow> snd e)"

locale store_iterator =
  fixes ops :: "'s StoreIterator"
    and fresh :: "'s \<Rightarrow> (bytes \<times> bytes) list \<Rightarrow> bool"
    and pos :: "'s \<Rightarrow> (bytes \<times> bytes) list \<Rightarrow> bool"
  assumes first_ok: "fresh s es \<Longrightarrow> \<exists>s'. si_First ops s = Some (es \<noteq> [], s') \<and> pos s' es"
    and next_ok: "pos s es \<Longrightarrow> \<exists>s'. si_Next ops s = Some (tl es \<noteq> [], s') \<and> pos s' (tl es)"
    and key_ok: "pos s es \<Longrightarrow> si_Key ops s = head_key es"
    and value_ok: "pos s es \<Longrightarrow> si_Value ops s = head_val es"
    and error_ok: "pos s es \<Longrightarrow> si_Error ops s = None"
    and proper_ok: "pos s es \<Longrightarrow> proper es"
    and release_ok: "pos s es \<Longrightarrow> \<exists>s'. si_Release ops s = Some s' \<and> si_Error ops s' = None"

text \<open>A comparer as \<^verbatim>\<open>bytes.Compare\<close> documents it.\<close>

definition three_way :: "(bytes \<Rightarrow> bytes \<Rightarrow> int) \<Rightarrow> bool" where
  "three_way c \<longleftrightarrow> (\<forall>a b. c a b = (if a < b then - 1 else if a = b then 0 else 1))"

lemma three_way_compare: "three_way bytes_compare"
  by (simp add: three_way_def bytes_compare_def)

lemma three_way_bytewise: "three_way c \<Longrightarrow> bytewise c"
  by (auto simp: three_way_def bytewise_def)

subsection \<open>Merging entries\<close>

fun join_entries :: "(bytes \<times> bytes) list \<Rightarrow> (bytes \<times> bytes) list \<Rightarrow> (bytes \<times> bytes) list" where
  "join_entries [] bs = bs"
| "join_entries ms [] = ms"
| "join_entries (m # ms) (b # bs) =
     (if fst m < fst b then m # join_entries ms (b # bs)
      else if fst m = fst b then m # join_entries ms bs
      else b # join_entries (m # ms) bs)"

definition live :: "(bytes \<times> bytes) list \<Rightarrow> (bytes \<times> bytes) list" where
  "live es = filter (\<lambda>e. snd e \<noteq> []) es"

lemma live_simps [simp]: "live [] = []" "live (e # es) = (if snd e = [] then live es else e # live es)"
  "set (live es) = {e \<in> set es. snd e \<noteq> []}"
  by (auto simp: live_def)

lemma join_entries_Nil [simp]: "join_entries ms [] = ms"
  by (cases ms) auto

lemma set_join_entries_subset: "set (join_entries ms bs) \<subseteq> set ms \<union> set bs"
  by (induction ms bs rule: join_entries.induct) (auto split: if_splits)

lemma kv_sorted_Cons: "kv_sorted (e # es) \<longleftrightarrow> (\<forall>x \<in> set es. fst e < fst x) \<and> kv_sorted es"
  by (auto simp: kv_sorted_def)

lemma kv_sorted_join: "kv_sorted ms \<Longrightarrow> kv_sorted bs \<Longrightarrow> kv_sorted (join_entries ms bs)"
proof (induction ms bs rule: join_entries.induct)
  case (3 m ms b bs)
  have sub: "x \<in> set xs \<union> set ys" if "x \<in> set (join_entries xs ys)" for x xs ys
    using that set_join_entries_subset by blast
  show ?case using 3
    by (cases "fst m" "fst b" rule: linorder_cases) (auto simp: kv_sorted_Cons dest!: sub intro: less_trans)
qed auto

lemma kv_sorted_live: "kv_sorted es \<Longrightarrow> kv_sorted (live es)"
  by (induction es) (auto simp: kv_sorted_Cons)

lemma proper_Cons: "proper (e # es) \<longleftrightarrow> fst e \<noteq> [] \<and> (\<forall>x \<in> set es. fst e < fst x) \<and> proper es"
  by (auto simp: proper_def kv_sorted_Cons)

lemma proper_Nil [simp]: "proper []"
  by (simp add: proper_def kv_sorted_def)

lemma proper_tl: "proper es \<Longrightarrow> proper (tl es)"
  by (cases es) (auto simp: proper_Cons)

lemma proper_join: "proper ms \<Longrightarrow> proper bs \<Longrightarrow> proper (join_entries ms bs)"
  using set_join_entries_subset [of ms bs] by (auto simp: proper_def kv_sorted_join)

lemma proper_live: "proper es \<Longrightarrow> proper (live es)"
  by (auto simp: proper_def kv_sorted_live)

lemma map_of_above: "\<forall>x \<in> set (es :: (bytes \<times> bytes) list). k < fst x \<Longrightarrow> map_of es k = None"
  by (induction es) auto

lemma map_of_join:
  "kv_sorted ms \<Longrightarrow> kv_sorted bs \<Longrightarrow> map_of (join_entries ms bs) = map_of bs ++ map_of ms"
proof (induction ms bs rule: join_entries.induct)
  case (3 m ms b bs)
  show ?case
  proof
    fix k
    show "map_of (join_entries (m # ms) (b # bs)) k = (map_of (b # bs) ++ map_of (m # ms)) k"
    proof (cases "fst m" "fst b" rule: linorder_cases)
      case less
      then show ?thesis using 3 by (auto simp: kv_sorted_Cons map_add_def split: option.splits)
    next
      case equal
      then show ?thesis using 3 by (auto simp: kv_sorted_Cons map_add_def split: option.splits)
    next
      case greater
      then have "map_of ms (fst b) = None" using 3(4) by (intro map_of_above) (auto simp: kv_sorted_Cons intro: less_trans)
      then show ?thesis using 3 greater by (auto simp: kv_sorted_Cons map_add_def split: option.splits)
    qed
  qed
qed auto

lemma map_of_live:
  "kv_sorted es \<Longrightarrow> map_of (live es) k = (case map_of es k of None \<Rightarrow> None | Some v \<Rightarrow> if v = [] then None else Some v)"
proof (induction es)
  case (Cons e es)
  have "map_of es (fst e) = None" using Cons.prems by (intro map_of_above) (simp add: kv_sorted_Cons)
  then show ?case using Cons by (cases e) (auto simp: kv_sorted_Cons split: option.splits)
qed simp

subsection \<open>A join of two iterators satisfies the contract\<close>

definition from_mem :: "KeyOrigin \<Rightarrow> bool" where
  "from_mem o' \<longleftrightarrow> o' \<noteq> FromBack"

definition from_back :: "KeyOrigin \<Rightarrow> bool" where
  "from_back o' \<longleftrightarrow> o' \<noteq> FromMem"

text \<open>The part of a join's state that does not depend on the two iterators: the current entry is the
  head of the list it came from; the list not yet reported as ended may be empty, and then the
  current entry is the empty one, which the loop skips.\<close>

definition join_run :: "('m, 'b) JoinIter \<Rightarrow> (bytes \<times> bytes) list \<Rightarrow> (bytes \<times> bytes) list \<Rightarrow> bool" where
  "join_run it ms bs \<longleftrightarrow> three_way (ji_cmp it) \<and>
     (ji_nextMemEnd it \<longrightarrow> ms = []) \<and> (ji_nextBackEnd it \<longrightarrow> bs = []) \<and>
     (case ji_keyOrigin it of
        FromMem \<Rightarrow> \<not> ji_nextMemEnd it \<and> (bs = [] \<or> head_key ms < head_key bs) \<and>
          ji_key it = head_key ms \<and> ji_value it = head_val ms
      | FromBack \<Rightarrow> \<not> ji_nextBackEnd it \<and> (ms = [] \<or> head_key bs < head_key ms) \<and>
          ji_key it = head_key bs \<and> ji_value it = head_val bs
      | FromBoth \<Rightarrow> \<not> ji_nextMemEnd it \<and> \<not> ji_nextBackEnd it \<and> head_key ms = head_key bs \<and>
          ji_key it = head_key ms \<and> ji_value it = head_val ms)"

definition join_done :: "('m, 'b) JoinIter \<Rightarrow> bool" where
  "join_done it \<longleftrightarrow> three_way (ji_cmp it) \<and> ji_nextMemEnd it \<and> ji_nextBackEnd it \<and> ji_key it = [] \<and> ji_value it = []"

definition join_rest :: "KeyOrigin \<Rightarrow> (bytes \<times> bytes) list \<Rightarrow> (bytes \<times> bytes) list \<Rightarrow> (bytes \<times> bytes) list" where
  "join_rest o' ms bs = join_entries (if from_mem o' then tl ms else ms) (if from_back o' then tl bs else bs)"

lemma head_key_Nil: "proper es \<Longrightarrow> head_key es = [] \<longleftrightarrow> es = []"
  by (cases es) (auto simp: head_key_def proper_Cons)

lemma head_val_Nil: "es = [] \<Longrightarrow> head_val es = []"
  by (simp add: head_val_def)

lemma join_run_rest:
  assumes "join_run it ms bs" "proper ms" "proper bs"
  shows "(ji_key it = [] \<and> ji_value it = [] \<and> join_entries ms bs = join_rest (ji_keyOrigin it) ms bs) \<or>
    join_entries ms bs = (ji_key it, ji_value it) # join_rest (ji_keyOrigin it) ms bs"
  using assms
  by (cases ms; cases bs; cases "ji_keyOrigin it")
    (auto simp: join_run_def join_rest_def head_key_def head_val_def from_mem_def from_back_def proper_Cons)

definition join_size :: "('m, 'b) JoinIter \<Rightarrow> (bytes \<times> bytes) list \<Rightarrow> (bytes \<times> bytes) list \<Rightarrow> nat" where
  "join_size it ms bs = length ms + length bs + (if ji_nextMemEnd it then 0 else 1) + (if ji_nextBackEnd it then 0 else 1)"

definition join_pos ::
  "('m \<Rightarrow> (bytes \<times> bytes) list \<Rightarrow> bool) \<Rightarrow> ('b \<Rightarrow> (bytes \<times> bytes) list \<Rightarrow> bool) \<Rightarrow>
   ('m, 'b) JoinIter \<Rightarrow> (bytes \<times> bytes) list \<Rightarrow> bool" where
  "join_pos mpos bpos it es \<longleftrightarrow> (\<exists>ms bs. mpos (ji_memdb it) ms \<and> bpos (ji_backend it) bs \<and> es = live (join_entries ms bs) \<and>
     (join_run it ms bs \<and> (ji_value it \<noteq> [] \<or> ms = [] \<and> bs = []) \<or> join_done it \<and> ms = [] \<and> bs = []))"

definition join_fresh ::
  "('m \<Rightarrow> (bytes \<times> bytes) list \<Rightarrow> bool) \<Rightarrow> ('b \<Rightarrow> (bytes \<times> bytes) list \<Rightarrow> bool) \<Rightarrow>
   ('m, 'b) JoinIter \<Rightarrow> (bytes \<times> bytes) list \<Rightarrow> bool" where
  "join_fresh mfresh bfresh it es \<longleftrightarrow> three_way (ji_cmp it) \<and> \<not> ji_nextMemEnd it \<and> \<not> ji_nextBackEnd it \<and>
     ji_key it = [] \<and> ji_value it = [] \<and>
     (\<exists>ms bs. mfresh (ji_memdb it) ms \<and> bfresh (ji_backend it) bs \<and> es = live (join_entries ms bs))"

lemma join_pos_done:
  "join_done it \<Longrightarrow> mpos (ji_memdb it) [] \<Longrightarrow> bpos (ji_backend it) [] \<Longrightarrow> join_pos mpos bpos it []"
  unfolding join_pos_def by (rule exI [of _ "[]"], rule exI [of _ "[]"]) simp

locale join_iterators =
  m: store_iterator mo mfresh mpos + b: store_iterator bo bfresh bpos
  for mo :: "'m StoreIterator" and mfresh mpos and bo :: "'b StoreIterator" and bfresh bpos
begin

lemma select_ok:
  assumes "mpos (ji_memdb it) ms" "bpos (ji_backend it) bs" "three_way (ji_cmp it)"
    "ji_nextMemEnd it \<Longrightarrow> ms = []" "ji_nextBackEnd it \<Longrightarrow> bs = []"
  shows "\<exists>it'. join_select mo bo it = Some (\<not> (ji_nextMemEnd it \<and> ji_nextBackEnd it), it') \<and>
    ji_memdb it' = ji_memdb it \<and> ji_backend it' = ji_backend it \<and>
    ji_nextMemEnd it' = ji_nextMemEnd it \<and> ji_nextBackEnd it' = ji_nextBackEnd it \<and>
    (if ji_nextMemEnd it \<and> ji_nextBackEnd it then join_done it' else join_run it' ms bs)"
proof -
  have err: "JoinIter_Error mo bo it = None"
    using m.error_ok [OF assms(1)] b.error_ok [OF assms(2)] by (simp add: JoinIter_Error_def)
  note kv = m.key_ok [OF assms(1)] m.value_ok [OF assms(1)] b.key_ok [OF assms(2)] b.value_ok [OF assms(2)]
  consider (fin) "ji_nextMemEnd it" "ji_nextBackEnd it" | (mem) "\<not> ji_nextMemEnd it" "ji_nextBackEnd it"
    | (bk) "ji_nextMemEnd it" "\<not> ji_nextBackEnd it" | (both) "\<not> ji_nextMemEnd it" "\<not> ji_nextBackEnd it" by blast
  then show ?thesis
  proof cases
    case both
    then show ?thesis using assms(3) err
      by (cases "head_key ms" "head_key bs" rule: linorder_cases)
        (auto simp: join_select_def Let_def kv join_run_def three_way_def)
  qed (use assms err in \<open>auto simp: join_select_def Let_def kv join_run_def join_done_def\<close>)
qed

lemma next_step:
  assumes run: "join_run it ms bs" and mp: "mpos (ji_memdb it) ms" and bp: "bpos (ji_backend it) bs"
  shows "\<exists>ok it'. join_next mo bo it = Some (ok, it') \<and>
    (if ok then \<exists>ms' bs'. mpos (ji_memdb it') ms' \<and> bpos (ji_backend it') bs' \<and> join_run it' ms' bs' \<and>
       join_entries ms' bs' = join_rest (ji_keyOrigin it) ms bs \<and> join_size it' ms' bs' < join_size it ms bs
     else join_done it' \<and> mpos (ji_memdb it') [] \<and> bpos (ji_backend it') [] \<and> join_rest (ji_keyOrigin it) ms bs = [])"
proof -
  let ?o = "ji_keyOrigin it"
  define ms' where "ms' = (if from_mem ?o then tl ms else ms)"
  define bs' where "bs' = (if from_back ?o then tl bs else bs)"
  obtain m1 where m1: "si_Next mo (ji_memdb it) = Some (tl ms \<noteq> [], m1)" "mpos m1 (tl ms)"
    using m.next_ok [OF mp] by blast
  obtain b1 where b1: "si_Next bo (ji_backend it) = Some (tl bs \<noteq> [], b1)" "bpos b1 (tl bs)"
    using b.next_ok [OF bp] by blast
  define it2 where "it2 = it\<lparr>ji_memdb := if from_mem ?o then m1 else ji_memdb it,
     ji_nextMemEnd := if from_mem ?o then tl ms = [] else ji_nextMemEnd it,
     ji_backend := if from_back ?o then b1 else ji_backend it,
     ji_nextBackEnd := if from_back ?o then tl bs = [] else ji_nextBackEnd it\<rparr>"
  have nx: "join_next mo bo it = join_select mo bo it2"
    using run m1(1) b1(1)
    by (cases ?o) (simp_all add: join_next_def it2_def from_mem_def from_back_def join_run_def)
  have p2: "mpos (ji_memdb it2) ms'" "bpos (ji_backend it2) bs'" "three_way (ji_cmp it2)"
    "ji_nextMemEnd it2 \<Longrightarrow> ms' = []" "ji_nextBackEnd it2 \<Longrightarrow> bs' = []"
    using mp bp m1(2) b1(2) run by (auto simp: it2_def ms'_def bs'_def join_run_def split: if_splits)
  have size: "length ms' + length bs' + (if ji_nextMemEnd it2 then 0 else 1) + (if ji_nextBackEnd it2 then 0 else 1)
      < join_size it ms bs"
    using run by (cases ?o; cases ms; cases bs)
      (auto simp: join_size_def it2_def ms'_def bs'_def from_mem_def from_back_def join_run_def)
  have rest: "join_rest ?o ms bs = join_entries ms' bs'" by (simp add: join_rest_def ms'_def bs'_def)
  show ?thesis
    using select_ok [OF p2] p2 size unfolding nx rest by (fastforce simp: join_size_def split: if_splits)
qed

lemma skip_ok:
  assumes "join_run it ms bs" "mpos (ji_memdb it) ms" "bpos (ji_backend it) bs"
  shows "\<exists>it'. join_skip mo bo it = Some (live (join_entries ms bs) \<noteq> [], it') \<and>
    join_pos mpos bpos it' (live (join_entries ms bs))"
  using assms
proof (induction "join_size it ms bs" arbitrary: it ms bs rule: less_induct)
  case less
  note rest = join_run_rest [OF less.prems(1) m.proper_ok [OF less.prems(2)] b.proper_ok [OF less.prems(3)]]
  show ?case
  proof (cases "ji_value it = []")
    case False
    then have "join_pos mpos bpos it (live (join_entries ms bs))" using less.prems by (auto simp: join_pos_def)
    moreover have "live (join_entries ms bs) \<noteq> []" using rest False by auto
    ultimately show ?thesis using False by (subst join_skip.simps) simp
  next
    case True
    have live_rest: "live (join_entries ms bs) = live (join_rest (ji_keyOrigin it) ms bs)" using rest True by auto
    obtain ok it' where nx: "join_next mo bo it = Some (ok, it')" and
      ok: "if ok then \<exists>ms' bs'. mpos (ji_memdb it') ms' \<and> bpos (ji_backend it') bs' \<and> join_run it' ms' bs' \<and>
         join_entries ms' bs' = join_rest (ji_keyOrigin it) ms bs \<and> join_size it' ms' bs' < join_size it ms bs
       else join_done it' \<and> mpos (ji_memdb it') [] \<and> bpos (ji_backend it') [] \<and> join_rest (ji_keyOrigin it) ms bs = []"
      using next_step [OF less.prems] by blast
    show ?thesis
    proof (cases ok)
      case False
      then have "join_pos mpos bpos it' []" using ok by (simp add: join_pos_done)
      then show ?thesis using False ok nx True live_rest by (subst join_skip.simps) simp
    next
      case ok': True
      then obtain ms' bs' where "mpos (ji_memdb it') ms'" "bpos (ji_backend it') bs'" "join_run it' ms' bs'"
        "join_entries ms' bs' = join_rest (ji_keyOrigin it) ms bs" "join_size it' ms' bs' < join_size it ms bs"
        using ok by auto
      then show ?thesis using less.hyps [of it' ms' bs'] nx True ok' live_rest by (subst join_skip.simps) simp
    qed
  qed
qed

lemma join_first_ok:
  assumes "join_fresh mfresh bfresh it es"
  shows "\<exists>it'. JoinIter_First mo bo it = Some (es \<noteq> [], it') \<and> join_pos mpos bpos it' es"
proof -
  obtain ms bs where fr: "mfresh (ji_memdb it) ms" "bfresh (ji_backend it) bs" and es: "es = live (join_entries ms bs)"
    and it: "three_way (ji_cmp it)" "\<not> ji_nextMemEnd it" "\<not> ji_nextBackEnd it" "ji_key it = []" "ji_value it = []"
    using assms by (auto simp: join_fresh_def)
  obtain m1 where m1: "si_First mo (ji_memdb it) = Some (ms \<noteq> [], m1)" "mpos m1 ms" using m.first_ok [OF fr(1)] by blast
  obtain b1 where b1: "si_First bo (ji_backend it) = Some (bs \<noteq> [], b1)" "bpos b1 bs" using b.first_ok [OF fr(2)] by blast
  note kv = m.key_ok [OF m1(2)] m.value_ok [OF m1(2)] b.key_ok [OF b1(2)] b.value_ok [OF b1(2)]
    m.error_ok [OF m1(2)] b.error_ok [OF b1(2)]
  have "\<exists>it'. join_first mo bo it = Some (\<not> (ms = [] \<and> bs = []), it') \<and> ji_memdb it' = m1 \<and> ji_backend it' = b1 \<and>
      join_run it' ms bs"
    using m1(1) b1(1) it
    by (cases "head_key ms" "head_key bs" rule: linorder_cases; cases "ji_keyOrigin it"; cases ms; cases bs)
      (auto simp: join_first_def Let_def JoinIter_Error_def kv join_run_def three_way_def head_key_def head_val_def)
  then obtain it' where it': "join_first mo bo it = Some (\<not> (ms = [] \<and> bs = []), it')" "ji_memdb it' = m1"
    "ji_backend it' = b1" "join_run it' ms bs" by blast
  show ?thesis
  proof (cases "ms = [] \<and> bs = []")
    case True
    then have "join_pos mpos bpos it' es" using it' m1(2) b1(2) es
      unfolding join_pos_def by (intro exI [of _ "[]"]) simp
    then show ?thesis using True it'(1) es by (simp add: JoinIter_First_def)
  next
    case False
    then show ?thesis using skip_ok [of it' ms bs] it' m1(2) b1(2) es by (simp add: JoinIter_First_def)
  qed
qed

lemma join_next_ok:
  assumes "join_pos mpos bpos it es"
  shows "\<exists>it'. JoinIter_Next mo bo it = Some (tl es \<noteq> [], it') \<and> join_pos mpos bpos it' (tl es)"
proof -
  obtain ms bs where p: "mpos (ji_memdb it) ms" "bpos (ji_backend it) bs" and es: "es = live (join_entries ms bs)"
    and st: "join_run it ms bs \<and> (ji_value it \<noteq> [] \<or> ms = [] \<and> bs = []) \<or> join_done it \<and> ms = [] \<and> bs = []"
    using assms by (auto simp: join_pos_def)
  show ?thesis
  proof (cases "join_run it ms bs \<and> (ji_value it \<noteq> [] \<or> ms = [] \<and> bs = [])")
    case True
    note rest = join_run_rest [OF _ m.proper_ok [OF p(1)] b.proper_ok [OF p(2)], of it]
    have tl: "tl es = live (join_rest (ji_keyOrigin it) ms bs)"
    proof (cases "ms = [] \<and> bs = []")
      case False
      then show ?thesis using rest True es by auto
    qed (use es in \<open>simp add: join_rest_def\<close>)
    obtain ok it' where nx: "join_next mo bo it = Some (ok, it')" and
      ok: "if ok then \<exists>ms' bs'. mpos (ji_memdb it') ms' \<and> bpos (ji_backend it') bs' \<and> join_run it' ms' bs' \<and>
         join_entries ms' bs' = join_rest (ji_keyOrigin it) ms bs \<and> join_size it' ms' bs' < join_size it ms bs
       else join_done it' \<and> mpos (ji_memdb it') [] \<and> bpos (ji_backend it') [] \<and> join_rest (ji_keyOrigin it) ms bs = []"
      using next_step [OF _ p] True by blast
    show ?thesis
    proof (cases ok)
      case False
      then show ?thesis using ok nx tl by (simp add: JoinIter_Next_def join_pos_done)
    next
      case ok': True
      then obtain ms' bs' where "mpos (ji_memdb it') ms'" "bpos (ji_backend it') bs'" "join_run it' ms' bs'"
        "join_entries ms' bs' = join_rest (ji_keyOrigin it) ms bs"
        using ok by auto
      then show ?thesis using skip_ok [of it' ms' bs'] nx ok' tl by (simp add: JoinIter_Next_def)
    qed
  next
    case False
    then have d: "join_done it" "ms = []" "bs = []" using st by auto
    have "join_next mo bo it = join_select mo bo it" using d by (simp add: join_next_def join_done_def)
    then show ?thesis using select_ok [of it "[]" "[]"] d p es
      by (auto simp: JoinIter_Next_def join_done_def join_pos_done)
  qed
qed

lemma join_contract:
  assumes "join_pos mpos bpos it es"
  shows "ji_key it = head_key es" "ji_value it = head_val es" "JoinIter_Error mo bo it = None" "proper es"
    "\<exists>it'. JoinIter_Release mo bo it = Some it' \<and> JoinIter_Error mo bo it' = None"
proof -
  obtain ms bs where p: "mpos (ji_memdb it) ms" "bpos (ji_backend it) bs" and es: "es = live (join_entries ms bs)"
    and st: "join_run it ms bs \<and> (ji_value it \<noteq> [] \<or> ms = [] \<and> bs = []) \<or> join_done it \<and> ms = [] \<and> bs = []"
    using assms by (auto simp: join_pos_def)
  show "JoinIter_Error mo bo it = None"
    using m.error_ok [OF p(1)] b.error_ok [OF p(2)] by (simp add: JoinIter_Error_def)
  show "\<exists>it'. JoinIter_Release mo bo it = Some it' \<and> JoinIter_Error mo bo it' = None"
    using m.release_ok [OF p(1)] b.release_ok [OF p(2)] by (auto simp: JoinIter_Release_def JoinIter_Error_def)
  have pr: "proper ms" "proper bs" using m.proper_ok [OF p(1)] b.proper_ok [OF p(2)] by auto
  then show "proper es" using es by (simp add: proper_live proper_join)
  have "ji_key it = head_key es \<and> ji_value it = head_val es"
  proof (cases "ms = [] \<and> bs = []")
    case True
    then show ?thesis using st es
      by (cases "ji_keyOrigin it") (auto simp: head_key_def head_val_def join_run_def join_done_def)
  next
    case False
    then show ?thesis using st es join_run_rest [of it, OF _ pr] by (auto simp: head_key_def head_val_def)
  qed
  then show "ji_key it = head_key es" "ji_value it = head_val es" by auto
qed

lemma join_store_iterator:
  "store_iterator (JoinIter_ops mo bo) (join_fresh mfresh bfresh) (join_pos mpos bpos)"
  by unfold_locales (simp_all add: JoinIter_ops_def join_first_ok join_next_ok join_contract)

end

sublocale join_iterators \<subseteq> j: store_iterator "JoinIter_ops mo bo" "join_fresh mfresh bfresh" "join_pos mpos bpos"
  by (rule join_store_iterator)

subsection \<open>The iterator of a skip list satisfies the contract\<close>

definition in_range :: "util_Range option \<Rightarrow> bytes \<Rightarrow> bool" where
  "in_range slc k \<longleftrightarrow> (case slc of None \<Rightarrow> True
     | Some r \<Rightarrow> (case Start r of None \<Rightarrow> True | Some s \<Rightarrow> s \<le> k) \<and> (case Limit r of None \<Rightarrow> True | Some l \<Rightarrow> k < l))"

definition entries_in :: "util_Range option \<Rightarrow> (bytes \<times> bytes) list \<Rightarrow> (bytes \<times> bytes) list" where
  "entries_in slc es = filter (\<lambda>e. in_range slc (fst e)) es"

definition dbIter_fresh :: "dbIter \<Rightarrow> (bytes \<times> bytes) list \<Rightarrow> bool" where
  "dbIter_fresh i es \<longleftrightarrow> \<not> it_released i \<and> it_err i = None \<and> proper es \<and>
     (\<exists>p ns. it_p i = Some p \<and> memdb_rel p ns \<and> es = entries_in (it_slice i) (ents p ns))"

definition dbIter_pos :: "dbIter \<Rightarrow> (bytes \<times> bytes) list \<Rightarrow> bool" where
  "dbIter_pos i es \<longleftrightarrow> \<not> it_released i \<and> it_err i = None \<and> it_forward i \<and> proper es \<and>
     it_key i = head_key es \<and> it_value i = head_val es \<and>
     (if es = [] then it_node i = 0
      else \<exists>p lo hi. it_p i = Some p \<and> memdb_rel p (lo @ it_node i # hi) \<and>
        nkey (nodeData p) (kvData p) (it_node i) = head_key es \<and> in_range (it_slice i) (head_key es) \<and>
        tl es = entries_in (it_slice i) (ents p hi))"

definition above_start :: "util_Range option \<Rightarrow> bytes \<Rightarrow> bool" where
  "above_start slc k \<longleftrightarrow> (case slc of None \<Rightarrow> True
     | Some r \<Rightarrow> (case Start r of None \<Rightarrow> True | Some s \<Rightarrow> s \<le> k))"

lemma dbIter_out_iff:
  assumes "bytewise (cmp p)" "above_start slc k"
  shows "dbIter_out p slc False True k \<longleftrightarrow> \<not> in_range slc k"
proof -
  have "cmp p k l \<ge> 0 \<longleftrightarrow> \<not> k < l" for l
    unfolding bytewise_lt [OF assms(1), symmetric] by (rule not_less [symmetric])
  note ge = this
  show ?thesis
  proof (cases slc)
    case (Some r)
    then show ?thesis using assms(2) ge
      by (cases "Start r"; cases "Limit r") (simp_all add: dbIter_out_def in_range_def above_start_def)
  qed (simp add: dbIter_out_def in_range_def)
qed

lemma entries_in_above:
  assumes "kv_sorted (e # es)" "above_start slc (fst e)" "\<not> in_range slc (fst e)"
  shows "entries_in slc (e # es) = []"
proof -
  obtain r l where r: "slc = Some r" "Limit r = Some l" "\<not> fst e < l"
    using assms(2,3) by (auto simp: in_range_def above_start_def split: option.splits)
  have "\<not> fst x < l" if "x \<in> set (e # es)" for x
    using that assms(1) r(3) by (auto simp: kv_sorted_Cons dest: less_trans)
  then show ?thesis using r by (auto simp: entries_in_def in_range_def filter_empty_conv split: option.splits)
qed

lemma ents_Cons: "ents p (b # bs) = (nkey (nodeData p) (kvData p) b, nval (nodeData p) (kvData p) b) # ents p bs"
  by (simp add: ents_def)

lemma ents_append: "ents p (xs @ ys) = ents p xs @ ents p ys"
  by (simp add: ents_def)

lemma dbIter_fill_ok:
  assumes rel: "memdb_rel p (lo @ hi)" and i: "it_p i = Some p" "it_node i = first_of hi" "\<not> it_released i"
      "it_err i = None" "it_forward i"
    and start: "\<And>a. a \<in> set hi \<Longrightarrow> above_start (it_slice i) (nkey (nodeData p) (kvData p) a)"
    and es: "es = entries_in (it_slice i) (ents p hi)" "proper es"
  shows "\<exists>i'. dbIter_fill False True i = Some (es \<noteq> [], i') \<and> dbIter_pos i' es"
proof (cases hi)
  case Nil
  then show ?thesis using i es
    by (auto simp: dbIter_fill_def first_of_def ents_def entries_in_def dbIter_pos_def head_key_def head_val_def)
next
  case (Cons b bs)
  let ?k = "nkey (nodeData p) (kvData p) b" and ?v = "nval (nodeData p) (kvData p) b"
  have b: "b \<in> set (lo @ hi)" "b \<noteq> 0" using Cons memdb_rel_node(2) [OF rel, of b] by auto
  have rd: "idx (nodeData p) b = Some (nodeData p ! b)" "idx (nodeData p) (b + 1) = Some (nodeData p ! (b + 1))"
    "idx (nodeData p) (b + 2) = Some (nodeData p ! (b + 2))"
    "go_slice (kvData p) (nodeData p ! b) (nodeData p ! b + nodeData p ! (b + 1)) = Some ?k"
    "go_slice (kvData p) (nodeData p ! b + nodeData p ! (b + 1)) (nodeData p ! b + nodeData p ! (b + 1) + nodeData p ! (b + 2)) = Some ?v"
    using memdb_rel_idx_hdr [OF rel, of b 0] memdb_rel_idx_hdr [OF rel, of b 1] memdb_rel_idx_hdr [OF rel, of b 2] b
      memdb_rel_kv [OF rel b(1)] by (auto simp: go_slice_def nkey_def nval_def)
  have out: "dbIter_out p (it_slice i) False True ?k \<longleftrightarrow> \<not> in_range (it_slice i) ?k"
    using dbIter_out_iff start [of b] Cons rel by (simp add: memdb_rel_def)
  have srt: "kv_sorted ((?k, ?v) # ents p bs)"
    using kv_sorted_ents [OF rel] Cons by (auto simp: ents_def kv_sorted_def sorted_wrt_append)
  show ?thesis
  proof (cases "in_range (it_slice i) ?k")
    case False
    then have "es = []" using entries_in_above [OF srt] start [of b] Cons es(1) by (simp add: ents_Cons)
    then show ?thesis using rd out False Cons i b(2)
      by (simp add: dbIter_fill_def first_of_def dbIter_pos_def head_key_def head_val_def)
  next
    case True
    then have "es = (?k, ?v) # entries_in (it_slice i) (ents p bs)" using Cons es(1) by (simp add: ents_Cons entries_in_def)
    then show ?thesis using rd out True Cons i b(2) rel es(2)
      by (auto simp: dbIter_fill_def first_of_def dbIter_pos_def head_key_def head_val_def)
  qed
qed

lemma nnext_first_of:
  assumes "memdb_rel p (lo @ hi)"
  shows "nnext (nodeData p) 0 (last (0 # lo)) = first_of hi" "idx (nodeData p) (last (0 # lo) + 4) = Some (first_of hi)"
proof -
  have mh: "0 < maxHeight p" using assms by (simp add: memdb_rel_def)
  have lvl: "at_level (nodeData p) 0 lo = lo" "at_level (nodeData p) 0 hi = hi"
    by (rule at_level_0 [OF assms]; simp)+
  show nx: "nnext (nodeData p) 0 (last (0 # lo)) = first_of hi"
    using next_at_level [OF assms mh] unfolding lvl by (simp add: first_of_def)
  have "last (0 # lo) = 0 \<or> last (0 # lo) \<in> set (lo @ hi) \<and> 0 < nht (nodeData p) (last (0 # lo))"
    using memdb_rel_node(3) [OF assms, of "last lo"] by (cases lo rule: rev_cases) auto
  then show "idx (nodeData p) (last (0 # lo) + 4) = Some (first_of hi)"
    using memdb_rel_idx_next [OF assms _ mh] nx by auto
qed

lemma entries_in_below:
  assumes "\<And>e. e \<in> set lo \<Longrightarrow> \<not> above_start slc (fst e)"
  shows "entries_in slc (lo @ hi) = entries_in slc hi"
  using assms by (fastforce simp: entries_in_def filter_empty_conv in_range_def above_start_def split: option.splits)

lemma dbIter_First_ok:
  assumes "dbIter_fresh i es"
  shows "\<exists>i'. dbIter_First i = Some (es \<noteq> [], i') \<and> dbIter_pos i' es"
proof -
  obtain p ns where i: "\<not> it_released i" "it_err i = None" "proper es" "it_p i = Some p" and rel: "memdb_rel p ns"
    and es: "es = entries_in (it_slice i) (ents p ns)" using assms by (auto simp: dbIter_fresh_def)
  show ?thesis
  proof (cases "\<exists>r s. it_slice i = Some r \<and> Start r = Some s")
    case False
    have i4: "idx (nodeData p) 4 = Some (first_of ns)" using nnext_first_of(2) [of p "[]" ns] rel by simp
    have "above_start (it_slice i) k" for k using False by (auto simp: above_start_def split: option.splits)
    then show ?thesis
      using dbIter_fill_ok [of p "[]" ns "i\<lparr>it_forward := True, it_node := first_of ns\<rparr>" es] rel i es i4 False
      by (auto simp: dbIter_First_def split: option.splits)
  next
    case True
    then obtain r s where r: "it_slice i = Some r" "Start r = Some s" by auto
    obtain lo hi where ns: "ns = lo @ hi" and bel: "below p s lo hi" using memdb_split [OF rel] by metis
    have "es = entries_in (it_slice i) (ents p hi)"
      unfolding es ns ents_append using bel r
      by (intro entries_in_below) (auto simp: ents_def below_def above_start_def)
    moreover have "above_start (it_slice i) (nkey (nodeData p) (kvData p) a)" if "a \<in> set hi" for a
      using that bel r by (auto simp: above_start_def below_def)
    ultimately show ?thesis
      using dbIter_fill_ok [of p lo hi "i\<lparr>it_forward := True, it_node := first_of hi\<rparr>" es] rel i ns r
        findGE_ok [OF rel [unfolded ns] bel, of False]
      by (simp add: dbIter_First_def)
  qed
qed

lemma dbIter_Next_ok:
  assumes "dbIter_pos i es"
  shows "\<exists>i'. dbIter_Next i = Some (tl es \<noteq> [], i') \<and> dbIter_pos i' (tl es)"
proof (cases es)
  case Nil
  then show ?thesis using assms by (auto simp: dbIter_Next_def dbIter_pos_def)
next
  case (Cons e es')
  let ?b = "it_node i"
  obtain p lo hi where i: "\<not> it_released i" "it_err i = None" "it_p i = Some p" "proper es"
    and rel: "memdb_rel p (lo @ ?b # hi)" and k: "nkey (nodeData p) (kvData p) ?b = head_key es"
    "in_range (it_slice i) (head_key es)" and tl: "tl es = entries_in (it_slice i) (ents p hi)"
    using assms Cons by (auto simp: dbIter_pos_def)
  have b: "?b \<noteq> 0" using memdb_rel_node(2) [OF rel, of ?b] by simp
  have nx: "idx (nodeData p) (?b + 4) = Some (first_of hi)"
    using nnext_first_of(2) [of p "lo @ [?b]" hi] rel by simp
  have "above_start (it_slice i) (nkey (nodeData p) (kvData p) a)" if "a \<in> set hi" for a
  proof -
    have "nkey (nodeData p) (kvData p) ?b < nkey (nodeData p) (kvData p) a"
      using rel that by (auto simp: memdb_rel_def sorted_wrt_append)
    then show ?thesis using k by (auto simp: above_start_def in_range_def split: option.splits)
  qed
  then show ?thesis
    using dbIter_fill_ok [of p "lo @ [?b]" hi "i\<lparr>it_forward := True, it_node := first_of hi\<rparr>" "tl es"] i rel tl nx b
      proper_tl [OF i(4)]
    by (simp add: dbIter_Next_def)
qed

interpretation dbit: store_iterator dbIter_ops dbIter_fresh dbIter_pos
  by unfold_locales
    (simp_all add: dbIter_ops_def dbIter_First_ok dbIter_Next_ok, auto simp: dbIter_pos_def dbIter_Release_def)

end
