(* ===== verification/OverlayDB.thy ===== *)
theory OverlayDB
  imports Iterators
begin

text \<open>
  The block-level write cache of \<^verbatim>\<open>src/evm/storage/overlaydb/overlaydb.go\<close>: a skip list of
  pending writes over a persistent store.  The interface \<^verbatim>\<open>schema.PersistStore\<close> is the record
  \<^verbatim>\<open>PersistStore\<close> of its methods over a state of any type.  The library functions the storage
  layer calls and that live outside the repository (the default comparer, the seeded random
  source, \<^verbatim>\<open>util.BytesPrefix\<close>, SHA-256, Keccak-256) are the fields of \<^verbatim>\<open>go_libs\<close>, together
  with two choices of the Go runtime: the order in which a map with given keys is ranged over
  (\<^verbatim>\<open>lib_range\<close>), and what follows a returned slice in its array (\<^verbatim>\<open>lib_spare\<close>).  What the code
  relies on of them is \<^verbatim>\<open>libs_ok\<close>.

  A store, the overlay and the transaction cache above it are compared through the value they
  return for every key, the empty value standing for absence.  The locale \<^verbatim>\<open>kv_store\<close> is the
  interface the two caches rely on, interpreted for the skip list.
\<close>

section \<open>The overlay database\<close>

record go_libs =
  lib_cmp :: "bytes \<Rightarrow> bytes \<Rightarrow> int"
  lib_rand :: "nat \<Rightarrow> nat"
  lib_BytesPrefix :: "bytes \<Rightarrow> util_Range"
  lib_Sha256 :: "bytes \<Rightarrow> bytes"
  lib_Keccak256 :: "bytes \<Rightarrow> bytes"
  lib_range :: "bytes list \<Rightarrow> bytes list"
  lib_spare :: "bytes \<Rightarrow> bytes"

record ('st, 'it) PersistStore =
  ps_Get :: "'st \<Rightarrow> bytes \<Rightarrow> ((db_error + bytes) \<times> 'st) option"
  ps_BatchPut :: "'st \<Rightarrow> bytes \<Rightarrow> bytes \<Rightarrow> 'st option"
  ps_BatchDelete :: "'st \<Rightarrow> bytes \<Rightarrow> 'st option"
  ps_NewIterator :: "'st \<Rightarrow> bytes \<Rightarrow> 'it option"
  ps_iter :: "'it StoreIterator"

record 'st OverlayDB =
  od_store :: 'st
  od_memdb :: MemDB
  od_dbErr :: "db_error option"

definition NewOverlayDB :: "go_libs \<Rightarrow> 'st \<Rightarrow> 'st OverlayDB" where
  "NewOverlayDB L store = \<lparr>od_store = store, od_memdb = NewMemDB (lib_cmp L) (lib_rand L), od_dbErr = None\<rparr>"

definition OverlayDB_Reset :: "go_libs \<Rightarrow> 'st OverlayDB \<Rightarrow> 'st OverlayDB option" where
  "OverlayDB_Reset L self = do { m \<leftarrow> MemDB_Reset (lib_rand L) (od_memdb self); Some (self\<lparr>od_memdb := m\<rparr>) }"

definition OverlayDB_Error :: "'st OverlayDB \<Rightarrow> db_error option" where
  "OverlayDB_Error self = od_dbErr self"

definition OverlayDB_SetError :: "'st OverlayDB \<Rightarrow> db_error \<Rightarrow> 'st OverlayDB" where
  "OverlayDB_SetError self err = self\<lparr>od_dbErr := Some err\<rparr>"

definition OverlayDB_Get ::
  "('st, 'it) PersistStore \<Rightarrow> 'st OverlayDB \<Rightarrow> bytes \<Rightarrow> ((bytes \<times> db_error option) \<times> 'st OverlayDB) option" where
  "OverlayDB_Get ps self key = do {
     (val, unknown) \<leftarrow> MemDB_Get (od_memdb self) key;
     if \<not> unknown then Some ((val, None), self)
     else do {
       (r, st) \<leftarrow> ps_Get ps (od_store self) key;
       let self = self\<lparr>od_store := st\<rparr>;
       case r of
         Inl err \<Rightarrow> (if err = ErrNotFound then Some (([], None), self)
                    else Some (([], Some err), self\<lparr>od_dbErr := Some err\<rparr>))
       | Inr v \<Rightarrow> Some ((v, None), self)
     }
   }"

definition OverlayDB_Put :: "'st OverlayDB \<Rightarrow> bytes \<Rightarrow> bytes \<Rightarrow> 'st OverlayDB option" where
  "OverlayDB_Put self key val = do { m \<leftarrow> MemDB_Put (od_memdb self) key val; Some (self\<lparr>od_memdb := m\<rparr>) }"

definition OverlayDB_Delete :: "'st OverlayDB \<Rightarrow> bytes \<Rightarrow> 'st OverlayDB option" where
  "OverlayDB_Delete self key = do { m \<leftarrow> MemDB_Delete (od_memdb self) key; Some (self\<lparr>od_memdb := m\<rparr>) }"

primrec commit_entries :: "('st, 'it) PersistStore \<Rightarrow> (bytes \<times> bytes) list \<Rightarrow> 'st \<Rightarrow> 'st option" where
  "commit_entries ps [] st = Some st"
| "commit_entries ps (e # es) st = do {
     st' \<leftarrow> (if length (snd e) = 0 then ps_BatchDelete ps st (fst e) else ps_BatchPut ps st (fst e) (snd e));
     commit_entries ps es st'
   }"

definition OverlayDB_CommitTo :: "('st, 'it) PersistStore \<Rightarrow> 'st OverlayDB \<Rightarrow> 'st OverlayDB option" where
  "OverlayDB_CommitTo ps self = do {
     es \<leftarrow> MemDB_ForEach (od_memdb self);
     st \<leftarrow> commit_entries ps es (od_store self);
     Some (self\<lparr>od_store := st\<rparr>)
   }"

definition OverlayDB_GetWriteSet :: "'st OverlayDB \<Rightarrow> MemDB" where
  "OverlayDB_GetWriteSet self = od_memdb self"

definition OverlayDB_ChangeHash :: "go_libs \<Rightarrow> 'st OverlayDB \<Rightarrow> bytes option" where
  "OverlayDB_ChangeHash L self = do {
     es \<leftarrow> MemDB_ForEach (od_memdb self);
     Some (lib_Sha256 L (concat (map (\<lambda>e. fst e @ snd e) es)))
   }"

definition OverlayDB_NewIterator ::
  "go_libs \<Rightarrow> ('st, 'it) PersistStore \<Rightarrow> 'st OverlayDB \<Rightarrow> bytes \<Rightarrow> (dbIter, 'it) JoinIter option" where
  "OverlayDB_NewIterator L ps self key = do {
     let prefixRange = lib_BytesPrefix L key;
     backIter \<leftarrow> ps_NewIterator ps (od_store self) key;
     let memIter = MemDB_NewIterator (od_memdb self) (Some prefixRange);
     Some (NewJoinIter (lib_cmp L) memIter backIter)
   }"

subsection \<open>What is assumed of the libraries\<close>

definition is_prefix :: "bytes \<Rightarrow> bytes \<Rightarrow> bool" where
  "is_prefix p k \<longleftrightarrow> take (length p) k = p"

definition libs_ok :: "go_libs \<Rightarrow> bool" where
  "libs_ok L \<longleftrightarrow> three_way (lib_cmp L) \<and>
     (\<forall>p k. in_range (Some (lib_BytesPrefix L p)) k \<longleftrightarrow> is_prefix p k) \<and>
     (\<forall>b. length (lib_Keccak256 L b) = 32) \<and>
     (\<forall>ks. distinct ks \<longrightarrow> distinct (lib_range L ks) \<and> set (lib_range L ks) = set ks)"

subsection \<open>The key-value interface the caches rely on\<close>

primrec put_all :: "('s \<Rightarrow> bytes \<Rightarrow> bytes \<Rightarrow> 's option) \<Rightarrow> (bytes \<times> bytes) list \<Rightarrow> 's \<Rightarrow> 's option" where
  "put_all put [] s = Some s"
| "put_all put (e # es) s = do { s' \<leftarrow> put s (fst e) (snd e); put_all put es s' }"

lemma kv_sorted_upd: "kv_sorted es \<Longrightarrow> kv_sorted (kv_upd k v es)"
proof -
  assume s: "kv_sorted es"
  have hi: "k < fst e" if "e \<in> set (dropWhile (\<lambda>e. fst e \<le> k) es)" for e
    using s that by (induction es) (auto simp: kv_sorted_Cons split: if_splits intro: less_le_trans)
  have "kv_sorted (takeWhile (\<lambda>e. fst e < k) es)" "kv_sorted (dropWhile (\<lambda>e. fst e \<le> k) es)"
    using s by (induction es) (auto simp: kv_sorted_Cons kv_sorted_def [of "[]"] dest: set_takeWhileD)
  then show ?thesis
    using hi by (auto simp: kv_upd_def kv_sorted_def sorted_wrt_append dest!: set_takeWhileD intro: less_trans)
qed

lemma map_of_rev_distinct: "distinct (map fst xs) \<Longrightarrow> map_of (rev xs) = map_of xs"
proof (induction xs)
  case (Cons x xs)
  then have "map_of xs (fst x) = None" by (simp add: map_of_eq_None_iff)
  then show ?case using Cons by (auto simp: map_add_def fun_eq_iff split: option.splits)
qed simp

locale kv_store =
  fixes rep :: "'s \<Rightarrow> (bytes \<times> bytes) list \<Rightarrow> bool"
    and put :: "'s \<Rightarrow> bytes \<Rightarrow> bytes \<Rightarrow> 's option"
    and get :: "'s \<Rightarrow> bytes \<Rightarrow> (bytes \<times> bool) option"
    and foreach :: "'s \<Rightarrow> (bytes \<times> bytes) list option"
  assumes rep_sorted: "rep s es \<Longrightarrow> kv_sorted es"
    and put_law: "rep s es \<Longrightarrow> \<exists>s'. put s k v = Some s' \<and> rep s' (kv_upd k v es)"
    and get_law: "rep s es \<Longrightarrow> get s k = Some (case map_of es k of None \<Rightarrow> ([], True) | Some v \<Rightarrow> (v, False))"
    and foreach_law: "rep s es \<Longrightarrow> foreach s = Some es"
begin

lemma put_all_rep:
  "rep s es \<Longrightarrow> \<exists>s' es'. put_all put xs s = Some s' \<and> rep s' es' \<and> map_of es' = map_of es ++ map_of (rev xs)"
proof (induction xs arbitrary: s es)
  case (Cons x xs)
  obtain s1 where s1: "put s (fst x) (snd x) = Some s1" "rep s1 (kv_upd (fst x) (snd x) es)"
    using put_law [OF Cons.prems] by blast
  then obtain s' es' where s': "put_all put xs s1 = Some s'" "rep s' es'"
    "map_of es' = map_of (kv_upd (fst x) (snd x) es) ++ map_of (rev xs)" using Cons.IH by blast
  then show ?case using s1(1) map_of_kv_upd [OF rep_sorted [OF Cons.prems]] by fastforce
qed auto

lemma put_all_sorted:
  assumes "rep s es" "kv_sorted xs"
  shows "\<exists>s' es'. put_all put xs s = Some s' \<and> rep s' es' \<and> map_of es' = map_of es ++ map_of xs"
proof -
  have "map_of (rev xs) = map_of xs" using kv_sorted_distinct [OF assms(2)] by (rule map_of_rev_distinct)
  then show ?thesis using put_all_rep [OF assms(1), of xs] by simp
qed

end

interpretation mem: kv_store mrep MemDB_Put MemDB_Get MemDB_ForEach
  using mrep_sorted MemDB_Put_ok MemDB_Get_mrep MemDB_ForEach_mrep by unfold_locales blast+

subsection \<open>Reading through the overlay\<close>

text \<open>What the overlay relies on of the store below it: for the keys it is made for (\<open>good\<close>), \<^verbatim>\<open>Get\<close>
  returns; and whenever it returns, it has not changed what later calls return (a store may
  cache).\<close>

locale persist_store =
  fixes ps :: "('st, 'it) PersistStore"
    and ok :: "'st \<Rightarrow> bool"
    and view :: "'st \<Rightarrow> bytes \<Rightarrow> db_error + bytes"
    and good :: "bytes \<Rightarrow> bool"
  assumes get_law: "ok st \<Longrightarrow> good k \<Longrightarrow>
    \<exists>st'. ps_Get ps st k = Some (view st k, st')"
    and get_keeps: "ok st \<Longrightarrow> ps_Get ps st k = Some (r, st') \<Longrightarrow> ok st' \<and> view st' = view st"

definition overlay_inv :: "('st \<Rightarrow> bool) \<Rightarrow> 'st OverlayDB \<Rightarrow> bool" where
  "overlay_inv ok od \<longleftrightarrow> memdb_inv (od_memdb od) \<and> ok (od_store od)"

definition overlay_lookup :: "('st \<Rightarrow> bytes \<Rightarrow> db_error + bytes) \<Rightarrow> 'st OverlayDB \<Rightarrow> bytes \<Rightarrow> db_error + bytes" where
  "overlay_lookup view od k =
     (case MemDB_Get (od_memdb od) k of
        Some (v, False) \<Rightarrow> Inr v
      | _ \<Rightarrow> (case view (od_store od) k of
            Inl err \<Rightarrow> if err = ErrNotFound then Inr [] else Inl err
          | Inr v \<Rightarrow> Inr v))"

lemma overlay_lookup_cong:
  assumes "od_memdb a = od_memdb b" "view (od_store a) = view (od_store b)"
  shows "overlay_lookup view a = overlay_lookup view b"
  unfolding overlay_lookup_def [abs_def] assms ..

lemma memdb_Get_total:
  assumes "memdb_inv p"
  obtains v u where "MemDB_Get p k = Some (v, u)" "u \<Longrightarrow> v = []"
  using assms MemDB_Get_mrep by (fastforce simp: memdb_inv_def split: option.splits)

lemma memdb_Put_total:
  assumes "memdb_inv p"
  obtains p' where "MemDB_Put p k v = Some p'" "memdb_inv p'"
    "\<And>j. MemDB_Get p' j = (if j = k then Some (v, False) else MemDB_Get p j)"
proof -
  obtain es where es: "mrep p es" using assms by (rule memdb_invE)
  obtain p' where p': "MemDB_Put p k v = Some p'" "mrep p' (kv_upd k v es)"
    using MemDB_Put_ok [OF es] by blast
  have "MemDB_Get p' j = (if j = k then Some (v, False) else MemDB_Get p j)" for j
    unfolding MemDB_Get_mrep [OF p'(2)] MemDB_Get_mrep [OF es] map_of_kv_upd [OF mrep_sorted [OF es]] by simp
  with p' show thesis using that by (auto simp: memdb_inv_def)
qed

lemma overlay_put_lookup:
  assumes "overlay_inv ok od"
  obtains od' where "OverlayDB_Put od k v = Some od'" "overlay_inv ok od'" "od_store od' = od_store od"
    "\<And>j. overlay_lookup view od' j = (if j = k then Inr v else overlay_lookup view od j)"
proof -
  obtain m where m: "MemDB_Put (od_memdb od) k v = Some m" "memdb_inv m"
    "\<And>j. MemDB_Get m j = (if j = k then Some (v, False) else MemDB_Get (od_memdb od) j)"
    using assms memdb_Put_total [of "od_memdb od"] by (auto simp: overlay_inv_def)
  have "overlay_lookup view (od\<lparr>od_memdb := m\<rparr>) j = (if j = k then Inr v else overlay_lookup view od j)" for j
    by (simp add: overlay_lookup_def m(3) split: option.splits)
  then show thesis using that [of "od\<lparr>od_memdb := m\<rparr>"] assms m(1,2)
    by (simp add: OverlayDB_Put_def overlay_inv_def)
qed

context persist_store begin

lemma overlay_get_ok:
  assumes "overlay_inv ok od" "good k"
  shows "\<exists>od'. overlay_inv ok od' \<and> overlay_lookup view od' = overlay_lookup view od \<and> od_memdb od' = od_memdb od \<and>
    OverlayDB_Get ps od k = Some (case overlay_lookup view od k of Inl e \<Rightarrow> ([], Some e) | Inr v \<Rightarrow> (v, None), od')"
proof -
  have "memdb_inv (od_memdb od)" using assms(1) by (simp add: overlay_inv_def)
  then obtain v u where vu: "MemDB_Get (od_memdb od) k = Some (v, u)" by (rule memdb_Get_total)
  obtain st where st: "ps_Get ps (od_store od) k = Some (view (od_store od) k, st)" "ok st" "view st = view (od_store od)"
    using get_law get_keeps assms by (fastforce simp: overlay_inv_def)
  show ?thesis
  proof (cases u)
    case False
    then show ?thesis using vu assms(1) by (auto simp: OverlayDB_Get_def overlay_lookup_def)
  next
    case True
    then show ?thesis using vu st assms(1)
      by (auto simp: OverlayDB_Get_def overlay_lookup_def overlay_inv_def fun_eq_iff split: sum.splits)
  qed
qed

lemma overlay_get_keeps:
  assumes "overlay_inv ok od" "OverlayDB_Get ps od k = Some (r, od')"
  shows "overlay_inv ok od' \<and> overlay_lookup view od' = overlay_lookup view od \<and> od_memdb od' = od_memdb od"
proof -
  have "memdb_inv (od_memdb od)" using assms(1) by (simp add: overlay_inv_def)
  then obtain v u where vu: "MemDB_Get (od_memdb od) k = Some (v, u)" by (rule memdb_Get_total)
  show ?thesis
  proof (cases u)
    case False
    then show ?thesis using vu assms by (auto simp: OverlayDB_Get_def)
  next
    case True
    then obtain q st where g: "ps_Get ps (od_store od) k = Some (q, st)"
      using assms(2) vu by (auto simp: OverlayDB_Get_def split: bind_splits)
    then have "ok st" "view st = view (od_store od)" using get_keeps assms(1) by (auto simp: overlay_inv_def)
    moreover have "od_store od' = st" "od_memdb od' = od_memdb od" using g True vu assms(2)
      by (auto simp: OverlayDB_Get_def Let_def split: sum.splits if_splits)
    ultimately show ?thesis using assms(1) overlay_lookup_cong [of od' od view] by (simp add: overlay_inv_def)
  qed
qed

end

end
