(* ===== verification/CacheDB.thy ===== *)
theory CacheDB
  imports OverlayDB
begin

text \<open>
  The transaction-level write cache of \<^verbatim>\<open>src/evm/storage/cachedb.go\<close> over an overlay database.
  The key buffer \<^verbatim>\<open>keyScratch\<close> is kept with its backing array.  An iterator of the cache joins
  an iterator of its skip list with an iterator of the overlay; the skip-list iterator holds a
  pointer to the very skip list that \<^verbatim>\<open>CleanContractStorageData\<close> writes while it iterates, so
  every such write is carried over to the iterator (\<^verbatim>\<open>iter_sync\<close>).
\<close>

section \<open>The transaction cache\<close>

definition ST_STORAGE :: byte where "ST_STORAGE = 0x05"
definition ST_ETH_ACCOUNT :: byte where "ST_ETH_ACCOUNT = 0x31"

record 'st CacheDB =
  cd_memdb :: MemDB
  cd_backend :: "'st OverlayDB"
  cd_keyScratch :: bytes

definition NewCacheDB :: "go_libs \<Rightarrow> 'st OverlayDB \<Rightarrow> 'st CacheDB" where
  "NewCacheDB L store = \<lparr>cd_memdb = NewMemDB (lib_cmp L) (lib_rand L), cd_backend = store, cd_keyScratch = []\<rparr>"

definition CacheDB_SetDbErr :: "'st CacheDB \<Rightarrow> db_error \<Rightarrow> 'st CacheDB" where
  "CacheDB_SetDbErr self err = self\<lparr>cd_backend := OverlayDB_SetError (cd_backend self) err\<rparr>"

definition CacheDB_Reset :: "go_libs \<Rightarrow> 'st CacheDB \<Rightarrow> 'st CacheDB option" where
  "CacheDB_Reset L self = do { m \<leftarrow> MemDB_Reset (lib_rand L) (cd_memdb self); Some (self\<lparr>cd_memdb := m\<rparr>) }"

text \<open>A buffer is its backing array; the slice taken of it has the length asked for.\<close>

definition ensureBuffer :: "bytes \<Rightarrow> nat \<Rightarrow> bytes" where
  "ensureBuffer b n = (if length b < n then replicate n 0 else b)"

definition makePrefixedKey :: "bytes \<Rightarrow> byte \<Rightarrow> bytes \<Rightarrow> bytes \<times> bytes" where
  "makePrefixedKey dst prefix key =
     (let n = length key + 1;
          arr = overwrite ((ensureBuffer dst n)[0 := prefix]) 1 key
      in (take n arr, arr))"

primrec commit_backend :: "(bytes \<times> bytes) list \<Rightarrow> 'st OverlayDB \<Rightarrow> 'st OverlayDB option" where
  "commit_backend [] od = Some od"
| "commit_backend (e # es) od = do {
     od' \<leftarrow> (if length (snd e) = 0 then OverlayDB_Delete od (fst e) else OverlayDB_Put od (fst e) (snd e));
     commit_backend es od'
   }"

definition CacheDB_Commit :: "go_libs \<Rightarrow> 'st CacheDB \<Rightarrow> 'st CacheDB option" where
  "CacheDB_Commit L self = do {
     es \<leftarrow> MemDB_ForEach (cd_memdb self);
     od \<leftarrow> commit_backend es (cd_backend self);
     m \<leftarrow> MemDB_Reset (lib_rand L) (cd_memdb self);
     Some (self\<lparr>cd_memdb := m, cd_backend := od\<rparr>)
   }"

definition GenAccountStateKey :: "bytes \<Rightarrow> bytes \<Rightarrow> bytes" where
  "GenAccountStateKey addr key = [ST_STORAGE] @ addr @ key"

definition cache_put :: "'st CacheDB \<Rightarrow> byte \<Rightarrow> bytes \<Rightarrow> bytes \<Rightarrow> 'st CacheDB option" where
  "cache_put self prefix key val =
     (let (k, scratch) = makePrefixedKey (cd_keyScratch self) prefix key in do {
        m \<leftarrow> MemDB_Put (cd_memdb self) k val;
        Some (self\<lparr>cd_keyScratch := scratch, cd_memdb := m\<rparr>)
      })"

definition CacheDB_Put :: "'st CacheDB \<Rightarrow> bytes \<Rightarrow> bytes \<Rightarrow> 'st CacheDB option" where
  "CacheDB_Put self key val = cache_put self ST_STORAGE key val"

definition cache_get ::
  "('st, 'it) PersistStore \<Rightarrow> 'st CacheDB \<Rightarrow> byte \<Rightarrow> bytes \<Rightarrow> ((db_error + bytes) \<times> 'st CacheDB) option" where
  "cache_get ps self0 prefix key =
     (let (k, scratch) = makePrefixedKey (cd_keyScratch self0) prefix key;
          self = self0\<lparr>cd_keyScratch := scratch\<rparr> in do {
        (val, unknown) \<leftarrow> MemDB_Get (cd_memdb self) k;
        if unknown then do {
          ((v, err), od) \<leftarrow> OverlayDB_Get ps (cd_backend self) k;
          Some (case err of Some e \<Rightarrow> (Inl e, self\<lparr>cd_backend := od\<rparr>) | None \<Rightarrow> (Inr v, self\<lparr>cd_backend := od\<rparr>))
        }
        else Some (Inr val, self)
      })"

definition CacheDB_Get ::
  "('st, 'it) PersistStore \<Rightarrow> 'st CacheDB \<Rightarrow> bytes \<Rightarrow> ((db_error + bytes) \<times> 'st CacheDB) option" where
  "CacheDB_Get ps self key = cache_get ps self ST_STORAGE key"

definition cache_delete :: "'st CacheDB \<Rightarrow> byte \<Rightarrow> bytes \<Rightarrow> 'st CacheDB option" where
  "cache_delete self prefix key =
     (let (k, scratch) = makePrefixedKey (cd_keyScratch self) prefix key in do {
        m \<leftarrow> MemDB_Delete (cd_memdb self) k;
        Some (self\<lparr>cd_keyScratch := scratch, cd_memdb := m\<rparr>)
      })"

definition CacheDB_Delete :: "'st CacheDB \<Rightarrow> bytes \<Rightarrow> 'st CacheDB option" where
  "CacheDB_Delete self key = cache_delete self ST_STORAGE key"

type_synonym 'it cache_iter = "(dbIter, (dbIter, 'it) JoinIter) JoinIter"

definition overlay_iter_ops :: "('st, 'it) PersistStore \<Rightarrow> (dbIter, 'it) JoinIter StoreIterator" where
  "overlay_iter_ops ps = JoinIter_ops dbIter_ops (ps_iter ps)"

definition CacheDB_NewIterator ::
  "go_libs \<Rightarrow> ('st, 'it) PersistStore \<Rightarrow> 'st CacheDB \<Rightarrow> bytes \<Rightarrow> 'it cache_iter option" where
  "CacheDB_NewIterator L ps self key = do {
     let pkey = ST_STORAGE # key;
     let prefixRange = lib_BytesPrefix L pkey;
     backIter \<leftarrow> OverlayDB_NewIterator L ps (cd_backend self) pkey;
     let memIter = MemDB_NewIterator (cd_memdb self) (Some prefixRange);
     Some (NewJoinIter (lib_cmp L) memIter backIter)
   }"

definition Iter_Key :: "'it cache_iter \<Rightarrow> bytes" where
  "Iter_Key self = (let key = ji_key self in if length key \<noteq> 0 then drop 1 key else key)"

definition iter_sync :: "MemDB \<Rightarrow> 'it cache_iter \<Rightarrow> 'it cache_iter" where
  "iter_sync m it = it\<lparr>ji_memdb := (ji_memdb it)\<lparr>it_p := Some m\<rparr>\<rparr>"

partial_function (option) clean_loop ::
  "('st, 'it) PersistStore \<Rightarrow> bool \<Rightarrow> 'it cache_iter \<Rightarrow> 'st CacheDB \<Rightarrow> ('it cache_iter \<times> 'st CacheDB) option" where [code]:
  "clean_loop ps has iter self =
     (if \<not> has then Some (iter, self)
      else do {
        self' \<leftarrow> CacheDB_Delete self (Iter_Key iter);
        (has', iter') \<leftarrow> JoinIter_Next dbIter_ops (overlay_iter_ops ps) (iter_sync (cd_memdb self') iter);
        clean_loop ps has' iter' self'
      })"

definition CleanContractStorageData ::
  "go_libs \<Rightarrow> ('st, 'it) PersistStore \<Rightarrow> 'st CacheDB \<Rightarrow> bytes \<Rightarrow> (db_error option \<times> 'st CacheDB) option" where
  "CleanContractStorageData L ps self addr = do {
     iter \<leftarrow> CacheDB_NewIterator L ps self addr;
     (has, iter1) \<leftarrow> JoinIter_First dbIter_ops (overlay_iter_ops ps) iter;
     (iter2, self') \<leftarrow> clean_loop ps has iter1 self;
     iter3 \<leftarrow> JoinIter_Release dbIter_ops (overlay_iter_ops ps) iter2;
     Some (JoinIter_Error dbIter_ops (overlay_iter_ops ps) iter3, self')
   }"

subsection \<open>Reading and writing through the cache\<close>

definition cache_inv :: "('st \<Rightarrow> bool) \<Rightarrow> 'st CacheDB \<Rightarrow> bool" where
  "cache_inv ok self \<longleftrightarrow> memdb_inv (cd_memdb self) \<and> overlay_inv ok (cd_backend self)"

definition cache_lookup :: "('st \<Rightarrow> bytes \<Rightarrow> db_error + bytes) \<Rightarrow> 'st CacheDB \<Rightarrow> bytes \<Rightarrow> db_error + bytes" where
  "cache_lookup view self k =
     (case MemDB_Get (cd_memdb self) k of
        Some (v, False) \<Rightarrow> Inr v
      | _ \<Rightarrow> overlay_lookup view (cd_backend self) k)"

lemma cache_lookup_cong:
  assumes "cd_memdb a = cd_memdb b" "overlay_lookup view (cd_backend a) = overlay_lookup view (cd_backend b)"
  shows "cache_lookup view a = cache_lookup view b"
  unfolding cache_lookup_def [abs_def] assms ..

lemma makePrefixedKey_key: "fst (makePrefixedKey dst prefix key) = prefix # key"
proof -
  let ?b = "ensureBuffer dst (length key + 1)"
  have l: "length key + 1 \<le> length ?b" by (simp add: ensureBuffer_def)
  then obtain b bs where b: "?b = b # bs" by (cases ?b) auto
  then show ?thesis using l by (simp add: makePrefixedKey_def Let_def overwrite_def)
qed

lemma makePrefixedKey_eq: "\<exists>arr. makePrefixedKey dst prefix key = (prefix # key, arr)"
  using makePrefixedKey_key [of dst prefix key] by (metis prod.collapse)

lemma cache_put_ok:
  assumes "cache_inv ok self"
  shows "\<exists>self'. cache_put self prefix key v = Some self' \<and> cache_inv ok self' \<and> cd_backend self' = cd_backend self \<and>
    (\<forall>view j. cache_lookup view self' j = (if j = prefix # key then Inr v else cache_lookup view self j))"
proof -
  obtain arr where arr: "makePrefixedKey (cd_keyScratch self) prefix key = (prefix # key, arr)"
    using makePrefixedKey_eq by blast
  have "memdb_inv (cd_memdb self)" using assms by (simp add: cache_inv_def)
  then obtain m where m: "MemDB_Put (cd_memdb self) (prefix # key) v = Some m" "memdb_inv m"
    "\<And>j. MemDB_Get m j = (if j = prefix # key then Some (v, False) else MemDB_Get (cd_memdb self) j)"
    by (rule memdb_Put_total [where k = "prefix # key" and v = v]) blast
  let ?s = "self\<lparr>cd_keyScratch := arr, cd_memdb := m\<rparr>"
  have "cache_lookup view ?s j = (if j = prefix # key then Inr v else cache_lookup view self j)" for view j
    by (simp add: cache_lookup_def m(3) split: option.splits)
  then show ?thesis using assms arr m(1,2) by (simp add: cache_put_def cache_inv_def)
qed

lemma cache_delete_eq: "cache_delete self prefix key = cache_put self prefix key []"
  by (simp add: cache_delete_def cache_put_def MemDB_Delete_def)

context persist_store begin

lemma cache_get_ok:
  assumes "cache_inv ok self" "good (prefix # key)"
  shows "\<exists>self'. cache_get ps self prefix key = Some (cache_lookup view self (prefix # key), self') \<and>
    cache_inv ok self' \<and> cache_lookup view self' = cache_lookup view self \<and>
    overlay_lookup view (cd_backend self') = overlay_lookup view (cd_backend self)"
proof -
  obtain arr where arr: "makePrefixedKey (cd_keyScratch self) prefix key = (prefix # key, arr)"
    using makePrefixedKey_eq by blast
  have "memdb_inv (cd_memdb self)" using assms(1) by (simp add: cache_inv_def)
  then obtain v u where vu: "MemDB_Get (cd_memdb self) (prefix # key) = Some (v, u)" by (rule memdb_Get_total)
  obtain od' where od': "overlay_inv ok od'" "overlay_lookup view od' = overlay_lookup view (cd_backend self)"
    "OverlayDB_Get ps (cd_backend self) (prefix # key) =
      Some (case overlay_lookup view (cd_backend self) (prefix # key) of Inl e \<Rightarrow> ([], Some e) | Inr v \<Rightarrow> (v, None), od')"
    using overlay_get_ok [of "cd_backend self"] assms by (auto simp: cache_inv_def)
  let ?s = "self\<lparr>cd_keyScratch := arr, cd_backend := od'\<rparr>"
  have same: "cache_lookup view ?s = cache_lookup view self"
    "cache_lookup view (self\<lparr>cd_keyScratch := arr\<rparr>) = cache_lookup view self"
    by (simp_all add: cache_lookup_def fun_eq_iff od'(2) split: option.splits)
  show ?thesis
  proof (cases u)
    case False
    then show ?thesis using arr vu assms(1) same
      by (simp add: cache_get_def cache_lookup_def [of view self "prefix # key"] cache_inv_def)
  next
    case True
    then show ?thesis using arr vu assms(1) same od'
      by (cases "overlay_lookup view (cd_backend self) (prefix # key)")
        (simp_all add: cache_get_def cache_lookup_def [of view self "prefix # key"] cache_inv_def)
  qed
qed

lemma cache_get_keeps:
  assumes "cache_inv ok self" "cache_get ps self prefix key = Some (r, self')"
  shows "cache_inv ok self' \<and> cache_lookup view self' = cache_lookup view self \<and>
    overlay_lookup view (cd_backend self') = overlay_lookup view (cd_backend self) \<and> cd_memdb self' = cd_memdb self"
proof -
  obtain arr where arr: "makePrefixedKey (cd_keyScratch self) prefix key = (prefix # key, arr)"
    using makePrefixedKey_eq by blast
  have "memdb_inv (cd_memdb self)" using assms(1) by (simp add: cache_inv_def)
  then obtain v u where vu: "MemDB_Get (cd_memdb self) (prefix # key) = Some (v, u)" by (rule memdb_Get_total)
  show ?thesis
  proof (cases u)
    case False
    then have "self' = self\<lparr>cd_keyScratch := arr\<rparr>" using arr vu assms(2) by (simp add: cache_get_def)
    then show ?thesis using assms(1) cache_lookup_cong [of self' self view] by (simp add: cache_inv_def)
  next
    case True
    then obtain q od where g: "OverlayDB_Get ps (cd_backend self) (prefix # key) = Some (q, od)"
      using arr vu assms(2) by (auto simp: cache_get_def Let_def split: bind_splits)
    moreover have "overlay_inv ok (cd_backend self)" using assms(1) by (simp add: cache_inv_def)
    ultimately have "overlay_inv ok od \<and> overlay_lookup view od = overlay_lookup view (cd_backend self)"
      using overlay_get_keeps by blast
    moreover have "self' = self\<lparr>cd_keyScratch := arr, cd_backend := od\<rparr>"
      using g True arr vu assms(2) by (cases q) (auto simp: cache_get_def Let_def split: option.splits)
    ultimately show ?thesis using assms(1) cache_lookup_cong [of self' self view] by (simp add: cache_inv_def)
  qed
qed

end

subsection \<open>Committing\<close>

lemma commit_backend_eq:
  "commit_backend es od = map_option (\<lambda>m. od\<lparr>od_memdb := m\<rparr>) (put_all MemDB_Put es (od_memdb od))"
proof (induction es arbitrary: od)
  case (Cons e es)
  have "(if length (snd e) = 0 then OverlayDB_Delete od (fst e) else OverlayDB_Put od (fst e) (snd e)) =
      map_option (\<lambda>m. od\<lparr>od_memdb := m\<rparr>) (MemDB_Put (od_memdb od) (fst e) (snd e))"
    by (auto simp: OverlayDB_Delete_def OverlayDB_Put_def MemDB_Delete_def map_option_case split: option.splits)
  then show ?case using Cons.IH by (simp add: map_option_case split: option.splits)
qed simp

lemma CacheDB_Commit_ok:
  assumes "cache_inv ok self"
  shows "\<exists>self'. CacheDB_Commit L self = Some self' \<and> cache_inv ok self' \<and> MemDB_ForEach (cd_memdb self') = Some [] \<and>
    (\<forall>view k. cache_lookup view self' k = cache_lookup view self k) \<and>
    (\<forall>view k. overlay_lookup view (cd_backend self') k = cache_lookup view self k)"
proof -
  obtain es where es: "mrep (cd_memdb self) es" "MemDB_ForEach (cd_memdb self) = Some es" "kv_sorted es"
    using assms by (auto simp: cache_inv_def elim: memdb_invE)
  obtain bs where bs: "mrep (od_memdb (cd_backend self)) bs"
    using assms by (auto simp: cache_inv_def overlay_inv_def elim: memdb_invE)
  obtain m bs' where m: "put_all MemDB_Put es (od_memdb (cd_backend self)) = Some m" "mrep m bs'"
    "map_of bs' = map_of bs ++ map_of es" using mem.put_all_sorted [OF bs es(3)] by blast
  define od where "od = (cd_backend self)\<lparr>od_memdb := m\<rparr>"
  have cb: "commit_backend es (cd_backend self) = Some od" by (simp add: commit_backend_eq m(1) od_def)
  have "bytewise (cmp (cd_memdb self))" using es(1) by (auto simp: mrep_def memdb_rel_def)
  then have new: "mrep (NewMemDB (cmp (cd_memdb self)) (lib_rand L)) []" by (rule NewMemDB_mrep)
  define self' where "self' = self\<lparr>cd_memdb := NewMemDB (cmp (cd_memdb self)) (lib_rand L), cd_backend := od\<rparr>"
  have 1: "CacheDB_Commit L self = Some self'"
    using es(2) cb MemDB_Reset_ok [OF es(1)] by (simp add: CacheDB_Commit_def self'_def)
  have ov: "overlay_lookup view od k = cache_lookup view self k" for view k
    using MemDB_Get_mrep [OF m(2), of k] MemDB_Get_mrep [OF es(1), of k] MemDB_Get_mrep [OF bs, of k] m(3)
    by (auto simp: overlay_lookup_def cache_lookup_def od_def map_add_def split: option.splits)
  have "cache_lookup view self' k = overlay_lookup view od k" for view k
    using MemDB_Get_mrep [OF new, of k] by (simp add: cache_lookup_def self'_def)
  then show ?thesis
    using 1 ov new m(2) assms MemDB_ForEach_mrep [OF new]
    by (auto simp: cache_inv_def overlay_inv_def memdb_inv_def self'_def od_def)
qed

subsection \<open>Clearing a contract's storage while iterating over it\<close>

text \<open>A skip-list iterator survives the deletion of a key that is not above its position.\<close>

lemma ents_suffix:
  assumes "ents p' (xs @ ys) = ents p (xs @ ys)"
  shows "ents p' ys = ents p ys"
  using assms by (simp add: ents_append) (simp add: ents_def)

lemma put_keeps_position:
  assumes rel: "memdb_rel p (lo @ b # hi)" and le: "k \<le> nkey (nodeData p) (kvData p) b" and put: "MemDB_Put p k v = Some p'"
  shows "\<exists>lo'. memdb_rel p' (lo' @ b # hi) \<and> nkey (nodeData p') (kvData p') b = nkey (nodeData p) (kvData p) b \<and>
    ents p' hi = ents p hi"
proof -
  obtain l h where ns: "lo @ b # hi = l @ h" and bel: "below p k l h" using memdb_split [OF rel] by metis
  have "b \<notin> set l" using le bel by (auto simp: below_def)
  then obtain x where h: "h = x @ b # hi" and lo: "lo = l @ x"
    using ns by (auto simp: append_eq_append_conv2 append_eq_Cons_conv Cons_eq_append_conv)
  have rel': "memdb_rel p (l @ h)" using rel ns by simp
  show ?thesis
  proof (cases "h \<noteq> [] \<and> nkey (nodeData p) (kvData p) (hd h) = k")
    case False
    then have r: "memdb_rel p' (l @ length (nodeData p) # h)"
      and e: "ents p' (l @ length (nodeData p) # h) = ents p l @ (k, v) # ents p h"
      using MemDB_Put_insert [OF rel' bel False, of v] put by auto
    from e have "ents p' h = ents p h" by (simp add: ents_append ents_Cons) (simp add: ents_def)
    then have "ents p' (b # hi) = ents p (b # hi)" unfolding h by (rule ents_suffix)
    then show ?thesis using r unfolding h ents_Cons by (intro exI [of _ "l @ length (nodeData p) # x"]) simp
  next
    case True
    then obtain c h' where c: "h = c # h'" "nkey (nodeData p) (kvData p) c = k" by (cases h) auto
    have r: "memdb_rel p' (l @ c # h')" and e: "ents p' (l @ c # h') = ents p l @ (k, v) # ents p h'"
      using MemDB_Put_exact [OF rel' [unfolded c(1)] bel [unfolded c(1)] c(2), of v] put by auto
    from e have e': "ents p' h' = ents p h'" "nkey (nodeData p') (kvData p') c = k"
      by (simp_all add: ents_append ents_Cons) (simp_all add: ents_def)
    show ?thesis
    proof (cases x)
      case Nil
      then show ?thesis using h c r e' by (intro exI [of _ l]) simp
    next
      case (Cons y ys)
      then have h': "h' = ys @ b # hi" "c = y" using h c by auto
      then have "ents p' (b # hi) = ents p (b # hi)" using e'(1) ents_suffix by metis
      then show ?thesis using r h' unfolding ents_Cons by (intro exI [of _ "l @ c # ys"]) simp
    qed
  qed
qed

lemma dbIter_pos_sync:
  assumes "dbIter_pos i es" "it_p i = Some m" "es \<noteq> [] \<Longrightarrow> k \<le> head_key es" "MemDB_Put m k v = Some m'"
  shows "dbIter_pos (i\<lparr>it_p := Some m'\<rparr>) es"
proof (cases "es = []")
  case True
  then show ?thesis using assms(1) by (simp add: dbIter_pos_def)
next
  case False
  then obtain lo hi where r: "memdb_rel m (lo @ it_node i # hi)"
    and k: "nkey (nodeData m) (kvData m) (it_node i) = head_key es" and t: "tl es = entries_in (it_slice i) (ents m hi)"
    using assms(1,2) by (auto simp: dbIter_pos_def)
  obtain lo' where "memdb_rel m' (lo' @ it_node i # hi)" "nkey (nodeData m') (kvData m') (it_node i) = head_key es"
    "ents m' hi = ents m hi" using put_keeps_position [OF r _ assms(4)] k assms(3) False by auto
  moreover have "in_range (it_slice i) (head_key es)" using assms(1) False by (auto simp: dbIter_pos_def)
  ultimately have "\<exists>lo hi. memdb_rel m' (lo @ it_node i # hi) \<and> nkey (nodeData m') (kvData m') (it_node i) = head_key es \<and>
      in_range (it_slice i) (head_key es) \<and> tl es = entries_in (it_slice i) (ents m' hi)"
    using t by (rule_tac x = lo' in exI, rule_tac x = hi in exI) simp
  then show ?thesis using assms(1) False by (simp add: dbIter_pos_def)
qed

lemma dbIter_First_p: "dbIter_First i = Some (r, i') \<Longrightarrow> it_p i' = it_p i"
  by (auto simp: dbIter_First_def dbIter_fill_def split: option.splits if_splits bind_splits)

lemma dbIter_Next_p: "dbIter_Next i = Some (r, i') \<Longrightarrow> it_p i' = it_p i"
  by (auto simp: dbIter_Next_def dbIter_fill_def dbIter_First_p split: option.splits if_splits bind_splits)

interpretation dbitp: store_iterator dbIter_ops "\<lambda>i es. dbIter_fresh i es \<and> it_p i = Some m" "\<lambda>i es. dbIter_pos i es \<and> it_p i = Some m" for m
proof (unfold_locales, goal_cases)
  case (1 s es)
  then show ?case using dbit.first_ok [of s es] dbIter_First_p by (fastforce simp: dbIter_ops_def)
next
  case (2 s es)
  then show ?case using dbit.next_ok [of s es] dbIter_Next_p by (fastforce simp: dbIter_ops_def)
qed (use dbit.key_ok dbit.value_ok dbit.error_ok dbit.proper_ok dbit.release_ok in blast)+

lemma overlay_iterator:
  assumes "store_iterator (ps_iter ps) sfresh spos"
  shows "store_iterator (overlay_iter_ops ps) (join_fresh dbIter_fresh sfresh) (join_pos dbIter_pos spos)"
  unfolding overlay_iter_ops_def
  by (rule join_iterators.join_store_iterator) (intro join_iterators.intro dbit.store_iterator_axioms assms)

text \<open>Joining an iterator of the very skip list \<open>m\<close> with one of the overlay.\<close>

abbreviation at_mem :: "MemDB \<Rightarrow> dbIter \<Rightarrow> (bytes \<times> bytes) list \<Rightarrow> bool" where
  "at_mem m \<equiv> \<lambda>i es. dbIter_pos i es \<and> it_p i = Some m"

lemma cache_iterators:
  assumes "store_iterator (ps_iter ps) sfresh spos"
  shows "join_iterators dbIter_ops (\<lambda>i es. dbIter_fresh i es \<and> it_p i = Some m) (at_mem m)
    (overlay_iter_ops ps) (join_fresh dbIter_fresh sfresh) (join_pos dbIter_pos spos)"
  by (intro join_iterators.intro dbitp.store_iterator_axioms overlay_iterator assms)

lemma iter_sync_sel [simp]:
  "ji_backend (iter_sync m it) = ji_backend it" "ji_memdb (iter_sync m it) = (ji_memdb it)\<lparr>it_p := Some m\<rparr>"
  "ji_value (iter_sync m it) = ji_value it"
  by (cases it; simp add: iter_sync_def)+

lemma join_pos_sync:
  assumes jp: "join_pos (at_mem m) bpos it (e # es)" and put: "MemDB_Put m (fst e) v = Some m'"
    and pr: "\<And>bs. bpos (ji_backend it) bs \<Longrightarrow> proper bs"
  shows "join_pos (at_mem m') bpos (iter_sync m' it) (e # es)"
proof -
  obtain ms bs where p: "dbIter_pos (ji_memdb it) ms" "it_p (ji_memdb it) = Some m" "bpos (ji_backend it) bs"
    and es: "e # es = live (join_entries ms bs)" and run: "join_run it ms bs" "ji_value it \<noteq> []"
    using jp by (auto simp: join_pos_def)
  have "proper ms" using p(1) by (simp add: dbIter_pos_def)
  then have e: "fst e = ji_key it" using join_run_rest [OF run(1) _ pr [OF p(3)]] es run(2) by auto
  have "fst e \<le> head_key ms" if "ms \<noteq> []"
    unfolding e using run(1) that by (auto simp: join_run_def split: KeyOrigin.splits)
  then have "dbIter_pos ((ji_memdb it)\<lparr>it_p := Some m'\<rparr>) ms" by (rule dbIter_pos_sync [OF p(1,2) _ put])
  moreover have "join_run (iter_sync m' it) ms bs" using run(1)
    by (cases "ji_keyOrigin it") (simp_all add: join_run_def iter_sync_def)
  ultimately show ?thesis using p(3) es run(2)
    unfolding join_pos_def by (rule_tac x = ms in exI, rule_tac x = bs in exI) simp
qed

lemma clean_loop_ok:
  assumes st: "store_iterator (ps_iter ps) sfresh spos"
    and jp: "join_pos (at_mem (cd_memdb self)) (join_pos dbIter_pos spos) iter es" and inv: "memdb_inv (cd_memdb self)"
    and ks: "\<And>e. e \<in> set es \<Longrightarrow> is_prefix [ST_STORAGE] (fst e)"
  shows "\<exists>iter' self'. clean_loop ps (es \<noteq> []) iter self = Some (iter', self') \<and>
    (\<exists>m. join_pos (at_mem m) (join_pos dbIter_pos spos) iter' []) \<and> memdb_inv (cd_memdb self') \<and>
    cd_backend self' = cd_backend self \<and>
    (\<forall>k. MemDB_Get (cd_memdb self') k = (if k \<in> fst ` set es then Some ([], False) else MemDB_Get (cd_memdb self) k))"
  using jp inv ks
proof (induction es arbitrary: iter self)
  case Nil
  then show ?case by (subst clean_loop.simps) auto
next
  case (Cons e es)
  note J = join_iterators.join_contract [OF cache_iterators [OF st]] and O = store_iterator.proper_ok [OF overlay_iterator [OF st]]
  obtain k where k: "fst e = ST_STORAGE # k"
    using Cons.prems(3) [of e] by (cases "fst e") (auto simp: is_prefix_def)
  have ik: "Iter_Key iter = k" using J(1) [OF Cons.prems(1)] k by (simp add: Iter_Key_def head_key_def)
  obtain m where m: "MemDB_Put (cd_memdb self) (fst e) [] = Some m" "memdb_inv m"
    "\<And>j. MemDB_Get m j = (if j = fst e then Some ([], False) else MemDB_Get (cd_memdb self) j)"
    using Cons.prems(2) by (rule memdb_Put_total [where k = "fst e" and v = "[]"]) blast
  obtain arr where arr: "makePrefixedKey (cd_keyScratch self) ST_STORAGE k = (ST_STORAGE # k, arr)"
    using makePrefixedKey_eq by blast
  define s1 where "s1 = self\<lparr>cd_keyScratch := arr, cd_memdb := m\<rparr>"
  have del: "CacheDB_Delete self (Iter_Key iter) = Some s1"
    using arr m(1) by (simp add: CacheDB_Delete_def cache_delete_eq cache_put_def ik k s1_def)
  have "join_pos (at_mem m) (join_pos dbIter_pos spos) (iter_sync m iter) (e # es)"
    using join_pos_sync [OF Cons.prems(1) m(1)] O by blast
  then obtain it1 where it1: "JoinIter_Next dbIter_ops (overlay_iter_ops ps) (iter_sync m iter) = Some (es \<noteq> [], it1)"
    "join_pos (at_mem m) (join_pos dbIter_pos spos) it1 es"
    using join_iterators.join_next_ok [OF cache_iterators [OF st]] by force
  have "\<exists>iter' self'. clean_loop ps (es \<noteq> []) it1 s1 = Some (iter', self') \<and>
    (\<exists>m. join_pos (at_mem m) (join_pos dbIter_pos spos) iter' []) \<and> memdb_inv (cd_memdb self') \<and>
    cd_backend self' = cd_backend s1 \<and>
    (\<forall>k. MemDB_Get (cd_memdb self') k = (if k \<in> fst ` set es then Some ([], False) else MemDB_Get (cd_memdb s1) k))"
    by (rule Cons.IH) (use it1(2) m(2) Cons.prems(3) in \<open>simp_all add: s1_def\<close>)
  then show ?case using del it1(1) m(3) by (subst clean_loop.simps) (auto simp: s1_def)
qed

text \<open>A store whose iterators enumerate, in key order, the entries its \<^verbatim>\<open>Get\<close> returns.\<close>

definition store_enumerates ::
  "('st, 'it) PersistStore \<Rightarrow> ('st \<Rightarrow> bytes \<Rightarrow> db_error + bytes) \<Rightarrow> 'st \<Rightarrow> (bytes \<times> bytes) list \<Rightarrow>
   ('it \<Rightarrow> (bytes \<times> bytes) list \<Rightarrow> bool) \<Rightarrow> ('it \<Rightarrow> (bytes \<times> bytes) list \<Rightarrow> bool) \<Rightarrow> bool" where
  "store_enumerates ps view st ses sfresh spos \<longleftrightarrow> store_iterator (ps_iter ps) sfresh spos \<and> kv_sorted ses \<and>
     (\<forall>k. view st k = (case map_of ses k of None \<Rightarrow> Inl ErrNotFound | Some v \<Rightarrow> Inr v)) \<and>
     (\<forall>p. p \<noteq> [] \<longrightarrow> (\<exists>it. ps_NewIterator ps st p = Some it \<and> sfresh it (filter (\<lambda>e. is_prefix p (fst e)) ses)))"

lemma entries_in_prefix:
  "libs_ok L \<Longrightarrow> entries_in (Some (lib_BytesPrefix L p)) es = filter (\<lambda>e. is_prefix p (fst e)) es"
  by (simp add: entries_in_def libs_ok_def)

lemma proper_prefix: "kv_sorted es \<Longrightarrow> p \<noteq> [] \<Longrightarrow> proper (filter (\<lambda>e. is_prefix p (fst e)) es)"
  by (induction es) (auto simp: proper_Cons kv_sorted_Cons is_prefix_def)

lemma map_of_filter_key: "map_of (filter (\<lambda>e. P (fst e)) es) k = (if P k then map_of es k else None)"
  by (induction es) auto

lemma mem_iter_fresh:
  assumes "mrep m es" "libs_ok L" "p \<noteq> []"
  shows "dbIter_fresh (MemDB_NewIterator m (Some (lib_BytesPrefix L p))) (filter (\<lambda>e. is_prefix p (fst e)) es)"
  using assms proper_prefix [OF mrep_sorted [OF assms(1)]]
  by (auto simp: dbIter_fresh_def MemDB_NewIterator_def entries_in_prefix mrep_def)

lemma CacheDB_NewIterator_ok:
  assumes "libs_ok L" "store_enumerates ps view (od_store (cd_backend self)) ses sfresh spos"
    "mrep (cd_memdb self) ms" "mrep (od_memdb (cd_backend self)) os" "pk = ST_STORAGE # addr"
    and pf_def: "pf = filter (\<lambda>e. is_prefix pk (fst e))"
  shows "\<exists>it. CacheDB_NewIterator L ps self addr = Some it \<and>
    join_fresh (\<lambda>i es. dbIter_fresh i es \<and> it_p i = Some (cd_memdb self)) (join_fresh dbIter_fresh sfresh) it
      (live (join_entries (pf ms) (live (join_entries (pf os) (pf ses)))))"
proof -
  have pk: "pk \<noteq> []" using assms(5) by simp
  obtain si where si: "ps_NewIterator ps (od_store (cd_backend self)) pk = Some si" "sfresh si (pf ses)"
    using assms(2) pk by (auto simp: store_enumerates_def pf_def)
  have fm: "dbIter_fresh (MemDB_NewIterator (cd_memdb self) (Some (lib_BytesPrefix L pk))) (pf ms)"
    "dbIter_fresh (MemDB_NewIterator (od_memdb (cd_backend self)) (Some (lib_BytesPrefix L pk))) (pf os)"
    unfolding pf_def using mem_iter_fresh assms(1,3,4) pk by blast+
  have tw: "three_way (lib_cmp L)" using assms(1) by (simp add: libs_ok_def)
  let ?oi = "NewJoinIter (lib_cmp L) (MemDB_NewIterator (od_memdb (cd_backend self)) (Some (lib_BytesPrefix L pk))) si"
  let ?it = "NewJoinIter (lib_cmp L) (MemDB_NewIterator (cd_memdb self) (Some (lib_BytesPrefix L pk))) ?oi"
  have o': "join_fresh dbIter_fresh sfresh ?oi (live (join_entries (pf os) (pf ses)))"
    using fm(2) si(2) tw by (auto simp: join_fresh_def NewJoinIter_def)
  have p: "it_p (MemDB_NewIterator (cd_memdb self) r) = Some (cd_memdb self)" for r by (simp add: MemDB_NewIterator_def)
  have "join_fresh (\<lambda>i es. dbIter_fresh i es \<and> it_p i = Some (cd_memdb self)) (join_fresh dbIter_fresh sfresh) ?it
      (live (join_entries (pf ms) (live (join_entries (pf os) (pf ses)))))"
    unfolding join_fresh_def [of _ _ ?it] using fm(1) o' tw p by (auto simp: NewJoinIter_def)
  moreover have "CacheDB_NewIterator L ps self addr = Some ?it"
    using si(1) assms(5) by (simp add: CacheDB_NewIterator_def OverlayDB_NewIterator_def Let_def)
  ultimately show ?thesis by blast
qed

lemma CleanContractStorageData_ok:
  assumes "libs_ok L" "store_enumerates ps view (od_store (cd_backend self)) ses sfresh spos" "cache_inv ok self"
  shows "\<exists>self'. CleanContractStorageData L ps self addr = Some (None, self') \<and> cache_inv ok self' \<and>
    cd_backend self' = cd_backend self \<and>
    (\<forall>k. cache_lookup view self' k = (if is_prefix (ST_STORAGE # addr) k then Inr [] else cache_lookup view self k))"
proof -
  let ?pk = "ST_STORAGE # addr" and ?od = "cd_backend self"
  define pf where "pf = filter (\<lambda>e. is_prefix ?pk (fst (e :: bytes \<times> bytes)))"
  have st: "store_iterator (ps_iter ps) sfresh spos" and srt: "kv_sorted ses"
    and vw: "\<And>k. view (od_store ?od) k = (case map_of ses k of None \<Rightarrow> Inl ErrNotFound | Some v \<Rightarrow> Inr v)"
    using assms(2) by (auto simp: store_enumerates_def)
  obtain ms os where ms: "mrep (cd_memdb self) ms" and os: "mrep (od_memdb ?od) os"
    using assms(3) by (auto simp: cache_inv_def overlay_inv_def memdb_inv_def)
  define es where "es = live (join_entries (pf ms) (live (join_entries (pf os) (pf ses))))"
  note J = cache_iterators [OF st]
  obtain it where it: "CacheDB_NewIterator L ps self addr = Some it"
    "join_fresh (\<lambda>i es. dbIter_fresh i es \<and> it_p i = Some (cd_memdb self)) (join_fresh dbIter_fresh sfresh) it es"
    using CacheDB_NewIterator_ok [OF assms(1,2) ms os refl pf_def] unfolding es_def by blast
  obtain it1 where it1: "JoinIter_First dbIter_ops (overlay_iter_ops ps) it = Some (es \<noteq> [], it1)"
    "join_pos (at_mem (cd_memdb self)) (join_pos dbIter_pos spos) it1 es"
    using join_iterators.join_first_ok [OF J it(2)] by blast
  have sp: "kv_sorted (pf ms)" "kv_sorted (pf os)" "kv_sorted (pf ses)"
    using mrep_sorted [OF ms] mrep_sorted [OF os] srt proper_prefix [of _ ?pk] by (auto simp: pf_def proper_def)
  have "set es \<subseteq> set (pf ms) \<union> set (pf os) \<union> set (pf ses)"
    using set_join_entries_subset [of "pf ms" "live (join_entries (pf os) (pf ses))"]
      set_join_entries_subset [of "pf os" "pf ses"] by (auto simp: es_def)
  then have sub: "is_prefix ?pk (fst e)" if "e \<in> set es" for e using that by (auto simp: pf_def)
  have "is_prefix [ST_STORAGE] (fst e)" if "e \<in> set es" for e
    using sub [OF that] by (cases "fst e") (auto simp: is_prefix_def)
  then obtain it2 self' m where it2: "clean_loop ps (es \<noteq> []) it1 self = Some (it2, self')"
    "join_pos (at_mem m) (join_pos dbIter_pos spos) it2 []" "memdb_inv (cd_memdb self')" "cd_backend self' = ?od"
    "\<And>k. MemDB_Get (cd_memdb self') k = (if k \<in> fst ` set es then Some ([], False) else MemDB_Get (cd_memdb self) k)"
    using clean_loop_ok [OF st it1(2)] assms(3) by (fastforce simp: cache_inv_def)
  obtain it3 where it3: "JoinIter_Release dbIter_ops (overlay_iter_ops ps) it2 = Some it3"
    "JoinIter_Error dbIter_ops (overlay_iter_ops ps) it3 = None" using join_iterators.join_contract(5) [OF J it2(2)] by blast
  have run: "CleanContractStorageData L ps self addr = Some (None, self')"
    using it(1) it1(1) it2(1) it3 by (simp add: CleanContractStorageData_def)
  have gone: "cache_lookup view self k = Inr []" if "is_prefix ?pk k" "k \<notin> fst ` set es" for k
  proof -
    have "map_of es k = None" using that(2) by (simp add: map_of_eq_None_iff)
    then show ?thesis
      using that(1) MemDB_Get_mrep [OF ms, of k] MemDB_Get_mrep [OF os, of k] vw [of k] sp
      by (auto simp: es_def map_of_live map_of_join kv_sorted_live kv_sorted_join map_add_def pf_def map_of_filter_key
          cache_lookup_def overlay_lookup_def split: option.splits if_splits)
  qed
  have "cache_lookup view self' k = (if is_prefix ?pk k then Inr [] else cache_lookup view self k)" for k
    unfolding cache_lookup_def it2(4,5) using gone [of k, unfolded cache_lookup_def] sub by auto
  then show ?thesis using run it2(3,4) assms(3) by (auto simp: cache_inv_def)
qed

end
