(* ===== verification/Codec.thy ===== *)
theory Codec
  imports Web3_Prelude
begin

text \<open>
  The zero-copy binary codec of \<^verbatim>\<open>src/utils/codec\<close>: the growing output buffer
  (\<^verbatim>\<open>zero_copy_sink.go\<close>) and the cursor over an input slice
  (\<^verbatim>\<open>zero_copy_source.go\<close>).  A sink is its backing array together with the length
  of the slice over it; a source is a byte slice and a \<^verbatim>\<open>uint64\<close> offset.  A Go panic
  (slice out of range, buffer too large) is \<^term>\<open>None\<close>.

  The lemmas describe every reader as a function of the unread rest of the input
  (\<^verbatim>\<open>src_rest\<close>) and every writer by the bytes it appends (\<^verbatim>\<open>emits\<close>); the
  properties are the round trips and the canonicity of the variable-length integers.
\<close>

section \<open>Zero-copy serialisation (utils/codec)\<close>

subsection \<open>The sink (zero\_copy\_sink.go)\<close>

record ZeroCopySink =
  sink_arr :: bytes
  sink_len :: nat

definition maxInt :: int where
  "maxInt = 2 ^ 63 - 1"

definition Sink_Bytes :: "ZeroCopySink \<Rightarrow> bytes" where
  "Sink_Bytes s = take (sink_len s) (sink_arr s)"

definition Sink_Size :: "ZeroCopySink \<Rightarrow> u64" where
  "Sink_Size s = of_nat (length (Sink_Bytes s))"

definition Sink_Reset :: "ZeroCopySink \<Rightarrow> ZeroCopySink" where
  "Sink_Reset s = s\<lparr>sink_len := 0\<rparr>"

definition NewZeroCopySink :: "bytes option \<Rightarrow> ZeroCopySink" where
  "NewZeroCopySink b =
     (case b of None \<Rightarrow> \<lparr>sink_arr = replicate 512 0, sink_len = 0\<rparr>
      | Some bs \<Rightarrow> \<lparr>sink_arr = bs, sink_len = length bs\<rparr>)"

definition tryGrowByReslice :: "ZeroCopySink \<Rightarrow> int \<Rightarrow> ((nat \<times> bool) \<times> ZeroCopySink) option" where
  "tryGrowByReslice s n =
     (let l = int (sink_len s) in
      if n \<le> int (length (sink_arr s)) - l
      then (if 0 \<le> l + n then Some ((sink_len s, True), s\<lparr>sink_len := nat (l + n)\<rparr>) else None)
      else Some ((0, False), s))"

definition sink_grow :: "ZeroCopySink \<Rightarrow> int \<Rightarrow> (nat \<times> ZeroCopySink) option" where
  "sink_grow s n = do {
     ((i, ok), s1) \<leftarrow> tryGrowByReslice s n;
     if ok then Some (i, s1)
     else (let l = sink_len s1; c = int (length (sink_arr s1)) in
       if c > maxInt - c - n then None
       else (let buf = replicate (nat (2 * c + n)) 0 in
         Some (l, \<lparr>sink_arr = overwrite buf 0 (Sink_Bytes s1), sink_len = nat (int l + n)\<rparr>)))
   }"

definition Sink_NextBytes :: "ZeroCopySink \<Rightarrow> u64 \<Rightarrow> (nat \<times> ZeroCopySink) option" where
  "Sink_NextBytes s n = do {
     ((m, ok), s1) \<leftarrow> tryGrowByReslice s (sint n);
     (m, s2) \<leftarrow> (if ok then Some (m, s1) else sink_grow s1 (sint n));
     if m \<le> sink_len s2 then Some (m, s2) else None
   }"

definition sink_poke :: "ZeroCopySink \<Rightarrow> nat \<Rightarrow> bytes \<Rightarrow> ZeroCopySink" where
  "sink_poke s m p = s\<lparr>sink_arr := overwrite (sink_arr s) m p\<rparr>"

definition Sink_WriteBytes :: "ZeroCopySink \<Rightarrow> bytes \<Rightarrow> ZeroCopySink option" where
  "Sink_WriteBytes s p = do {
     (m, s1) \<leftarrow> Sink_NextBytes s (of_nat (length p));
     Some (sink_poke s1 m p)
   }"

definition Sink_BackUp :: "ZeroCopySink \<Rightarrow> u64 \<Rightarrow> ZeroCopySink option" where
  "Sink_BackUp s n =
     (let l = int (sink_len s) - sint n in
      if 0 \<le> l \<and> l \<le> int (length (sink_arr s)) then Some (s\<lparr>sink_len := nat l\<rparr>) else None)"

definition Sink_WriteUint8 :: "ZeroCopySink \<Rightarrow> byte \<Rightarrow> ZeroCopySink option" where
  "Sink_WriteUint8 s d = do { (m, s1) \<leftarrow> Sink_NextBytes s 1; Some (sink_poke s1 m [d]) }"

definition Sink_WriteByte :: "ZeroCopySink \<Rightarrow> byte \<Rightarrow> ZeroCopySink option" where
  "Sink_WriteByte s c = Sink_WriteUint8 s c"

definition Sink_WriteBool :: "ZeroCopySink \<Rightarrow> bool \<Rightarrow> ZeroCopySink option" where
  "Sink_WriteBool s d = (if d then Sink_WriteByte s 1 else Sink_WriteByte s 0)"

definition Sink_WriteUint16 :: "ZeroCopySink \<Rightarrow> u16 \<Rightarrow> ZeroCopySink option" where
  "Sink_WriteUint16 s d = do { (m, s1) \<leftarrow> Sink_NextBytes s 2; Some (sink_poke s1 m (le_bytes 2 (unat d))) }"

definition Sink_WriteUint32 :: "ZeroCopySink \<Rightarrow> u32 \<Rightarrow> ZeroCopySink option" where
  "Sink_WriteUint32 s d = do { (m, s1) \<leftarrow> Sink_NextBytes s 4; Some (sink_poke s1 m (le_bytes 4 (unat d))) }"

definition Sink_WriteUint64 :: "ZeroCopySink \<Rightarrow> u64 \<Rightarrow> ZeroCopySink option" where
  "Sink_WriteUint64 s d = do { (m, s1) \<leftarrow> Sink_NextBytes s 8; Some (sink_poke s1 m (le_bytes 8 (unat d))) }"

definition Sink_WriteVarUint :: "ZeroCopySink \<Rightarrow> u64 \<Rightarrow> (u64 \<times> ZeroCopySink) option" where
  "Sink_WriteVarUint s d = do {
     (m, s1) \<leftarrow> Sink_NextBytes s 9;
     (let (size, enc) =
        (if d < 0xFD then (1, [ucast d])
         else if d \<le> 0xFFFF then (3, 0xFD # le_bytes 2 (unat (ucast d :: u16)))
         else if d \<le> 0xFFFFFFFF then (5, 0xFE # le_bytes 4 (unat (ucast d :: u32)))
         else (9, 0xFF # le_bytes 8 (unat d)))
      in do {
        s2 \<leftarrow> Sink_BackUp (sink_poke s1 m enc) (9 - size);
        Some (size, s2)
      })
   }"

definition Sink_WriteVarBytes :: "ZeroCopySink \<Rightarrow> bytes \<Rightarrow> (u64 \<times> ZeroCopySink) option" where
  "Sink_WriteVarBytes s d = do {
     (size, s1) \<leftarrow> Sink_WriteVarUint s (of_nat (length d));
     s2 \<leftarrow> Sink_WriteBytes s1 d;
     Some (size + of_nat (length d), s2)
   }"

definition Sink_WriteAddress :: "ZeroCopySink \<Rightarrow> bytes \<Rightarrow> ZeroCopySink option" where
  "Sink_WriteAddress s addr = Sink_WriteBytes s addr"

definition Sink_WriteHash :: "ZeroCopySink \<Rightarrow> bytes \<Rightarrow> ZeroCopySink option" where
  "Sink_WriteHash s h = Sink_WriteBytes s h"

subsection \<open>The source (zero\_copy\_source.go)\<close>

record ZeroCopySource =
  src_s :: bytes
  src_off :: u64

definition NewZeroCopySource :: "bytes \<Rightarrow> ZeroCopySource" where
  "NewZeroCopySource b = \<lparr>src_s = b, src_off = 0\<rparr>"

definition Source_Len :: "ZeroCopySource \<Rightarrow> u64" where
  "Source_Len z = (let length = of_nat (length (src_s z)) in
     if src_off z \<ge> length then 0 else length - src_off z)"

definition Source_SafeAdd :: "u64 \<Rightarrow> u64 \<Rightarrow> u64 \<times> bool" where
  "Source_SafeAdd x y = (x + y, y > (- 1) - x)"

definition Source_NextBytes :: "ZeroCopySource \<Rightarrow> u64 \<Rightarrow> ((bytes \<times> bool) \<times> ZeroCopySource) option" where
  "Source_NextBytes z n =
     (let m = of_nat (length (src_s z));
          (e, overflow) = Source_SafeAdd (src_off z) n;
          (e, eof) = (if overflow \<or> e > m then (m, True) else (e, False))
      in do {
        data \<leftarrow> go_slice (src_s z) (unat (src_off z)) (unat e);
        Some ((data, eof), z\<lparr>src_off := e\<rparr>)
      })"

definition Source_Skip :: "ZeroCopySource \<Rightarrow> u64 \<Rightarrow> bool \<times> ZeroCopySource" where
  "Source_Skip z n =
     (let m = of_nat (length (src_s z));
          (e, overflow) = Source_SafeAdd (src_off z) n;
          (e, eof) = (if overflow \<or> e > m then (m, True) else (e, False))
      in (eof, z\<lparr>src_off := e\<rparr>))"

definition Source_NextByte :: "ZeroCopySource \<Rightarrow> ((byte \<times> bool) \<times> ZeroCopySource) option" where
  "Source_NextByte z =
     (if src_off z \<ge> of_nat (length (src_s z)) then Some ((0, True), z)
      else do {
        b \<leftarrow> idx (src_s z) (unat (src_off z));
        Some ((b, False), z\<lparr>src_off := src_off z + 1\<rparr>)
      })"

definition Source_NextBool :: "ZeroCopySource \<Rightarrow> ((bool \<times> bool \<times> bool) \<times> ZeroCopySource) option" where
  "Source_NextBool z = do {
     ((v, eof), z1) \<leftarrow> Source_NextByte z;
     Some (if v = 0 then ((False, False, eof), z1)
           else if v = 1 then ((True, False, eof), z1)
           else ((True, True, eof), z1))
   }"

definition Source_BackUp :: "ZeroCopySource \<Rightarrow> u64 \<Rightarrow> ZeroCopySource" where
  "Source_BackUp z n = z\<lparr>src_off := src_off z - n\<rparr>"

definition Source_NextUint16 :: "ZeroCopySource \<Rightarrow> ((u16 \<times> bool) \<times> ZeroCopySource) option" where
  "Source_NextUint16 z = do {
     ((buf, eof), z1) \<leftarrow> Source_NextBytes z 2;
     Some (if eof then ((0, eof), z1) else ((of_nat (le_nat buf), eof), z1))
   }"

definition Source_NextUint32 :: "ZeroCopySource \<Rightarrow> ((u32 \<times> bool) \<times> ZeroCopySource) option" where
  "Source_NextUint32 z = do {
     ((buf, eof), z1) \<leftarrow> Source_NextBytes z 4;
     Some (if eof then ((0, eof), z1) else ((of_nat (le_nat buf), eof), z1))
   }"

definition Source_NextUint64 :: "ZeroCopySource \<Rightarrow> ((u64 \<times> bool) \<times> ZeroCopySource) option" where
  "Source_NextUint64 z = do {
     ((buf, eof), z1) \<leftarrow> Source_NextBytes z 8;
     Some (if eof then ((0, eof), z1) else ((of_nat (le_nat buf), eof), z1))
   }"

definition getVarUintSize :: "u64 \<Rightarrow> u64" where
  "getVarUintSize v =
     (if v < 0xfd then 1 else if v \<le> 0xffff then 3 else if v \<le> 0xFFFFFFFF then 5 else 9)"

text \<open>The named results are (data, size, irregular, eof).\<close>

definition Source_NextVarUint ::
  "ZeroCopySource \<Rightarrow> ((u64 \<times> u64 \<times> bool \<times> bool) \<times> ZeroCopySource) option" where
  "Source_NextVarUint z = do {
     ((fb, eof), z1) \<leftarrow> Source_NextByte z;
     if eof then Some ((0, 0, False, eof), z1)
     else if fb = 0xFD then do {
       ((v, e), z2) \<leftarrow> Source_NextUint16 z1;
       Some (if e then ((0, 0, False, e), z2)
             else ((ucast v, 3, 3 \<noteq> getVarUintSize (ucast v), eof), z2)) }
     else if fb = 0xFE then do {
       ((v, e), z2) \<leftarrow> Source_NextUint32 z1;
       Some (if e then ((0, 0, False, e), z2)
             else ((ucast v, 5, 5 \<noteq> getVarUintSize (ucast v), eof), z2)) }
     else if fb = 0xFF then do {
       ((v, e), z2) \<leftarrow> Source_NextUint64 z1;
       Some (if e then ((0, 0, False, e), z2)
             else ((v, 9, 9 \<noteq> getVarUintSize v, eof), z2)) }
     else Some ((ucast fb, 1, 1 \<noteq> getVarUintSize (ucast fb), eof), z1)
   }"

definition Source_NextVarBytes ::
  "ZeroCopySource \<Rightarrow> ((bytes \<times> u64 \<times> bool \<times> bool) \<times> ZeroCopySource) option" where
  "Source_NextVarBytes z = do {
     ((count, size, irregular, eof), z1) \<leftarrow> Source_NextVarUint z;
     if count > 0 then do {
       ((data, eof), z2) \<leftarrow> Source_NextBytes z1 count;
       Some ((data, size + count, irregular, eof), z2) }
     else Some (([], size + count, irregular, eof), z1)
   }"

datatype codec_error = ErrIrregularData | ErrUnexpectedEOF

definition Source_ReadVarBytes :: "ZeroCopySource \<Rightarrow> ((codec_error + bytes) \<times> ZeroCopySource) option" where
  "Source_ReadVarBytes z = do {
     ((data, _, irr, eof), z1) \<leftarrow> Source_NextVarBytes z;
     Some (if irr then (Inl ErrIrregularData, z1)
           else if eof then (Inl ErrUnexpectedEOF, z1)
           else (Inr data, z1))
   }"

definition Source_ReadUint32 :: "ZeroCopySource \<Rightarrow> ((codec_error + u32) \<times> ZeroCopySource) option" where
  "Source_ReadUint32 z = do {
     ((d, eof), z1) \<leftarrow> Source_NextUint32 z;
     Some (if eof then (Inl ErrUnexpectedEOF, z1) else (Inr d, z1))
   }"

definition Source_ReadUint64 :: "ZeroCopySource \<Rightarrow> ((codec_error + u64) \<times> ZeroCopySource) option" where
  "Source_ReadUint64 z = do {
     ((d, eof), z1) \<leftarrow> Source_NextUint64 z;
     Some (if eof then (Inl ErrUnexpectedEOF, z1) else (Inr d, z1))
   }"

definition Source_NextAddress :: "ZeroCopySource \<Rightarrow> ((bytes \<times> bool) \<times> ZeroCopySource) option" where
  "Source_NextAddress z = do {
     ((buf, eof), z1) \<leftarrow> Source_NextBytes z 20;
     Some (if eof then ((replicate 20 0, eof), z1) else ((buf, eof), z1))
   }"

definition Source_NextHash :: "ZeroCopySource \<Rightarrow> ((bytes \<times> bool) \<times> ZeroCopySource) option" where
  "Source_NextHash z = do {
     ((buf, eof), z1) \<leftarrow> Source_NextBytes z 32;
     Some (if eof then ((replicate 32 0, eof), z1) else ((buf, eof), z1))
   }"

definition Sink_WriteInt64 :: "ZeroCopySink \<Rightarrow> int \<Rightarrow> ZeroCopySink option" where
  "Sink_WriteInt64 s d = Sink_WriteUint64 s (of_int d)"

definition Sink_WriteInt32 :: "ZeroCopySink \<Rightarrow> int \<Rightarrow> ZeroCopySink option" where
  "Sink_WriteInt32 s d = Sink_WriteUint32 s (of_int d)"

definition Sink_WriteInt16 :: "ZeroCopySink \<Rightarrow> int \<Rightarrow> ZeroCopySink option" where
  "Sink_WriteInt16 s d = Sink_WriteUint16 s (of_int d)"

definition Sink_WriteString :: "ZeroCopySink \<Rightarrow> bytes \<Rightarrow> (u64 \<times> ZeroCopySink) option" where
  "Sink_WriteString s d = Sink_WriteVarBytes s d"

definition Source_Pos :: "ZeroCopySource \<Rightarrow> u64" where
  "Source_Pos z = src_off z"

definition Source_Size :: "ZeroCopySource \<Rightarrow> u64" where
  "Source_Size z = of_nat (length (src_s z))"

definition Source_NextUint8 :: "ZeroCopySource \<Rightarrow> ((byte \<times> bool) \<times> ZeroCopySource) option" where
  "Source_NextUint8 z = do { ((v, eof), z1) \<leftarrow> Source_NextByte z; Some ((v, eof), z1) }"

definition Source_NextInt16 :: "ZeroCopySource \<Rightarrow> ((int \<times> bool) \<times> ZeroCopySource) option" where
  "Source_NextInt16 z = do { ((v, eof), z1) \<leftarrow> Source_NextUint16 z; Some ((sint v, eof), z1) }"

definition Source_NextInt32 :: "ZeroCopySource \<Rightarrow> ((int \<times> bool) \<times> ZeroCopySource) option" where
  "Source_NextInt32 z = do { ((v, eof), z1) \<leftarrow> Source_NextUint32 z; Some ((sint v, eof), z1) }"

definition Source_NextInt64 :: "ZeroCopySource \<Rightarrow> ((int \<times> bool) \<times> ZeroCopySource) option" where
  "Source_NextInt64 z = do { ((v, eof), z1) \<leftarrow> Source_NextUint64 z; Some ((sint v, eof), z1) }"

definition Source_NextString ::
  "ZeroCopySource \<Rightarrow> ((bytes \<times> u64 \<times> bool \<times> bool) \<times> ZeroCopySource) option" where
  "Source_NextString z = do {
     ((val, size, irregular, eof), z1) \<leftarrow> Source_NextVarBytes z;
     Some ((val, size, irregular, eof), z1)
   }"

definition Source_ReadString :: "ZeroCopySource \<Rightarrow> ((codec_error + bytes) \<times> ZeroCopySource) option" where
  "Source_ReadString z = Source_ReadVarBytes z"

text \<open>A \<^verbatim>\<open>Serializable\<close> is what it does to a sink.\<close>

primrec serialize_all :: "(ZeroCopySink \<Rightarrow> ZeroCopySink option) list \<Rightarrow> ZeroCopySink \<Rightarrow> ZeroCopySink option" where
  "serialize_all [] sink = Some sink"
| "serialize_all (v # vs) sink = do { sink' \<leftarrow> v sink; serialize_all vs sink' }"

definition SerializeToBytes :: "(ZeroCopySink \<Rightarrow> ZeroCopySink option) list \<Rightarrow> bytes option" where
  "SerializeToBytes values = do {
     sink \<leftarrow> serialize_all values (NewZeroCopySink None);
     Some (Sink_Bytes sink)
   }"


subsection \<open>Readers as functions of the unread input\<close>

definition src_rest :: "ZeroCopySource \<Rightarrow> bytes" where
  "src_rest z = drop (unat (src_off z)) (src_s z)"

definition src_wf :: "ZeroCopySource \<Rightarrow> bool" where
  "src_wf z \<longleftrightarrow> length (src_s z) < 2 ^ 63 \<and> unat (src_off z) \<le> length (src_s z)"

definition src_adv :: "ZeroCopySource \<Rightarrow> nat \<Rightarrow> ZeroCopySource" where
  "src_adv z n = z\<lparr>src_off := of_nat (min (unat (src_off z) + n) (length (src_s z)))\<rparr>"

lemma src_wf_New: "length b < 2 ^ 63 \<Longrightarrow> src_wf (NewZeroCopySource b)"
  by (simp add: src_wf_def NewZeroCopySource_def)

lemma src_rest_New [simp]: "src_rest (NewZeroCopySource b) = b"
  by (simp add: src_rest_def NewZeroCopySource_def)

lemma unat_of_nat_src: "k < 2 ^ 63 \<Longrightarrow> unat (of_nat k :: u64) = k"
  by (simp add: unat_of_nat)

lemma unat_of_nat_min_src [simp]:
  "L < 2 ^ 63 \<Longrightarrow> unat (of_nat (min a L) :: u64) = min a L"
  by (rule unat_of_nat_src) (simp add: min_def)

lemma src_adv_wf [simp, intro]: "src_wf z \<Longrightarrow> src_wf (src_adv z n)"
  by (auto simp: src_wf_def src_adv_def)

lemma src_rest_adv [simp]: "src_wf z \<Longrightarrow> src_rest (src_adv z n) = drop n (src_rest z)"
  by (auto simp: src_wf_def src_adv_def src_rest_def unat_of_nat_src add.commute min_def)

lemma src_adv_adv [simp]: "src_wf z \<Longrightarrow> src_adv (src_adv z m) n = src_adv z (m + n)"
  by (auto simp: src_wf_def src_adv_def unat_of_nat_src min_def)

lemma Source_NextBytes_eq:
  assumes "src_wf z"
  shows "Source_NextBytes z n =
    Some ((take (unat n) (src_rest z), length (src_rest z) < unat n), src_adv z (unat n))"
proof -
  let ?o = "unat (src_off z)" and ?L = "length (src_s z)"
  have L: "?L < 2 ^ 63" "?o \<le> ?L" using assms by (auto simp: src_wf_def)
  have m: "unat (of_nat ?L :: u64) = ?L" using L by (simp add: unat_of_nat_src)
  have ovf: "n > (- 1) - src_off z \<longleftrightarrow> 2 ^ 64 \<le> ?o + unat n"
  proof -
    have "unat ((- 1) - src_off z) = 2 ^ 64 - 1 - ?o"
      by (simp add: unat_sub unat_max_u64)
    moreover have "?o < 2 ^ 64" using L by simp
    ultimately show ?thesis by (simp add: word_less_nat_alt) linarith
  qed
  show ?thesis
  proof (cases "?o + unat n \<le> ?L")
    case True
    then have "\<not> 2 ^ 64 \<le> ?o + unat n" using L by simp
    moreover from this have "unat (src_off z + n) = ?o + unat n"
      by (simp add: unat_word_ariths)
    ultimately show ?thesis using True L m ovf
      by (auto simp: Source_NextBytes_def Source_SafeAdd_def Let_def go_slice_def src_rest_def
          src_adv_def word_less_nat_alt min_def word_unat_eq_iff unat_of_nat_src)
  next
    case False
    then have "2 ^ 64 \<le> ?o + unat n \<or> unat (src_off z + n) = ?o + unat n"
      by (cases "?o + unat n < 2 ^ 64") (auto simp: unat_word_ariths)
    then have "(n > (- 1) - src_off z \<or> src_off z + n > of_nat ?L)"
      using ovf m False by (auto simp: word_less_nat_alt)
    then show ?thesis using False L m
      by (auto simp: Source_NextBytes_def Source_SafeAdd_def Let_def go_slice_def src_rest_def
          src_adv_def min_def)
  qed
qed

lemma Source_NextByte_eq:
  assumes "src_wf z"
  shows "Source_NextByte z =
    (case src_rest z of [] \<Rightarrow> Some ((0, True), z) | b # _ \<Rightarrow> Some ((b, False), src_adv z 1))"
proof -
  let ?o = "unat (src_off z)" and ?L = "length (src_s z)"
  have L: "?L < 2 ^ 63" "?o \<le> ?L" using assms by (auto simp: src_wf_def)
  have m: "unat (of_nat ?L :: u64) = ?L" using L by (simp add: unat_of_nat_src)
  show ?thesis
  proof (cases "?o < ?L")
    case True
    then have "src_rest z = src_s z ! ?o # drop (Suc ?o) (src_s z)"
      by (simp add: src_rest_def Cons_nth_drop_Suc)
    moreover have "src_off z + 1 = of_nat (Suc ?o)" by simp
    ultimately show ?thesis using True m
      by (simp add: Source_NextByte_def word_le_nat_alt idx_def src_adv_def min_def)
  next
    case False
    then show ?thesis using m L by (simp add: Source_NextByte_def word_le_nat_alt src_rest_def)
  qed
qed

lemma Source_NextUint16_eq:
  "src_wf z \<Longrightarrow> Source_NextUint16 z =
     Some (if length (src_rest z) < 2 then (0, True) else (of_nat (le_nat (take 2 (src_rest z))), False),
           src_adv z 2)"
  by (simp add: Source_NextUint16_def Source_NextBytes_eq)

lemma Source_NextUint32_eq:
  "src_wf z \<Longrightarrow> Source_NextUint32 z =
     Some (if length (src_rest z) < 4 then (0, True) else (of_nat (le_nat (take 4 (src_rest z))), False),
           src_adv z 4)"
  by (simp add: Source_NextUint32_def Source_NextBytes_eq)

lemma Source_NextUint64_eq:
  "src_wf z \<Longrightarrow> Source_NextUint64 z =
     Some (if length (src_rest z) < 8 then (0, True) else (of_nat (le_nat (take 8 (src_rest z))), False),
           src_adv z 8)"
  by (simp add: Source_NextUint64_def Source_NextBytes_eq)

definition varuint_enc :: "u64 \<Rightarrow> bytes" where
  "varuint_enc d =
     (if d < 0xFD then [ucast d]
      else if d \<le> 0xFFFF then 0xFD # le_bytes 2 (unat d)
      else if d \<le> 0xFFFFFFFF then 0xFE # le_bytes 4 (unat d)
      else 0xFF # le_bytes 8 (unat d))"

lemma length_varuint_enc: "length (varuint_enc d) = unat (getVarUintSize d)"
  by (simp add: varuint_enc_def getVarUintSize_def)

lemma Source_NextVarUint_enc:
  assumes "src_wf z" "src_rest z = varuint_enc d @ rest"
  shows "Source_NextVarUint z =
    Some ((d, getVarUintSize d, False, False), src_adv z (length (varuint_enc d)))"
proof -
  consider (a) "d < 0xFD" | (b) "\<not> d < 0xFD" "d \<le> 0xFFFF"
    | (c) "\<not> d \<le> 0xFFFF" "d \<le> 0xFFFFFFFF" | (d) "\<not> d \<le> 0xFFFFFFFF" by blast
  then show ?thesis
  proof cases
    case a
    then have "unat d < 0xFD" by (simp add: word_less_nat_alt)
    then have u: "unat (ucast d :: byte) = unat d" by (simp add: unat_ucast_mod)
    then have "(ucast (ucast d :: byte) :: u64) = d"
      by (simp add: word_unat_eq_iff unat_ucast_mod)
    moreover have "(ucast d :: byte) \<noteq> 0xFD" "(ucast d :: byte) \<noteq> 0xFE" "(ucast d :: byte) \<noteq> 0xFF"
      using u \<open>unat d < 0xFD\<close> by (auto simp: word_unat_eq_iff)
    ultimately show ?thesis using a assms
      by (simp add: Source_NextVarUint_def Source_NextByte_eq varuint_enc_def getVarUintSize_def)
  next
    case b
    then have "unat d < 2 ^ 16" by (simp add: word_le_nat_alt)
    then have "(ucast (of_nat (unat d mod 256 ^ 2) :: u16) :: u64) = d"
      by (simp add: word_unat_eq_iff unat_ucast_mod unat_of_nat)
    with b assms show ?thesis
      by (simp add: Source_NextVarUint_def Source_NextByte_eq varuint_enc_def Source_NextUint16_eq
          le_nat_le_bytes getVarUintSize_def numeral_3_eq_3 del: le_bytes.simps)
  next
    case c
    then have "unat d < 2 ^ 32" by (simp add: word_le_nat_alt)
    then have "(ucast (of_nat (unat d mod 256 ^ 4) :: u32) :: u64) = d"
      by (simp add: word_unat_eq_iff unat_ucast_mod unat_of_nat)
    moreover have "\<not> d < 0xFD" using c by (auto simp: word_less_nat_alt word_le_nat_alt)
    ultimately show ?thesis using c assms
      by (simp add: Source_NextVarUint_def Source_NextByte_eq varuint_enc_def Source_NextUint32_eq
          le_nat_le_bytes getVarUintSize_def numeral_3_eq_3 del: le_bytes.simps)
  next
    case d
    have "unat d < 2 ^ 64" by (rule unat_u64_less)
    then have "(of_nat (unat d mod 256 ^ 8) :: u64) = d"
      by (simp add: word_unat_eq_iff unat_of_nat)
    moreover have "\<not> d < 0xFD" "\<not> d \<le> 0xFFFF"
      using d by (auto simp: word_less_nat_alt word_le_nat_alt)
    ultimately show ?thesis using d assms
      by (simp add: Source_NextVarUint_def Source_NextByte_eq varuint_enc_def Source_NextUint64_eq
          le_nat_le_bytes getVarUintSize_def numeral_3_eq_3 del: le_bytes.simps)
  qed
qed

subsection \<open>Canonical integers and writers\<close>

lemma le_bytes_take:
  "n \<le> length bs \<Longrightarrow> le_bytes n (le_nat (take n bs)) = take n bs"
  using le_bytes_le_nat [of "take n bs"] by simp

lemma unat_of_nat_le_nat:
  assumes "n \<le> length bs" "256 ^ n \<le> (2::nat) ^ LENGTH('a)"
  shows "unat (of_nat (le_nat (take n bs)) :: 'a::len word) = le_nat (take n bs)"
  using le_nat_less [of "take n bs"] assms by (simp add: unat_of_nat)

lemma Source_NextVarUint_canonical:
  assumes "src_wf z" "Source_NextVarUint z = Some ((d, sz, False, False), z')"
  shows "src_rest z = varuint_enc d @ src_rest z' \<and> src_wf z' \<and> sz = getVarUintSize d"
proof (cases "src_rest z")
  case Nil
  with assms show ?thesis by (auto simp: Source_NextVarUint_def Source_NextByte_eq)
next
  case (Cons fb tl)
  note z = assms(1) and step = assms(2)
  consider "fb = 0xFD" | "fb = 0xFE" | "fb = 0xFF" | "fb \<noteq> 0xFD" "fb \<noteq> 0xFE" "fb \<noteq> 0xFF" by blast
  then show ?thesis
  proof cases
    case 1
    define v :: u16 where "v = of_nat (le_nat (take 2 tl))"
    have l: "2 \<le> length tl" and d: "d = ucast v" and s: "sz = 3" "getVarUintSize d = 3"
      and z': "z' = src_adv z 3"
      using step 1 z Cons by (auto simp: Source_NextVarUint_def Source_NextByte_eq
          Source_NextUint16_eq v_def numeral_3_eq_3 split: if_splits)
    have "unat d = le_nat (take 2 tl)" using unat_of_nat_le_nat [where 'a = 16, OF l]
      by (simp add: d v_def unat_ucast_up)
    moreover have "\<not> d < 0xFD" "d \<le> 0xFFFF"
      using s(2) by (auto simp: getVarUintSize_def split: if_splits)
    ultimately have "varuint_enc d = 0xFD # take 2 tl"
      using l by (simp add: varuint_enc_def le_bytes_take del: le_bytes.simps)
    then show ?thesis using Cons 1 z z' s by simp
  next
    case 2
    define v :: u32 where "v = of_nat (le_nat (take 4 tl))"
    have l: "4 \<le> length tl" and d: "d = ucast v" and s: "sz = 5" "getVarUintSize d = 5"
      and z': "z' = src_adv z 5"
      using step 2 z Cons by (auto simp: Source_NextVarUint_def Source_NextByte_eq
          Source_NextUint32_eq v_def split: if_splits)
    have "unat d = le_nat (take 4 tl)" using unat_of_nat_le_nat [where 'a = 32, OF l]
      by (simp add: d v_def unat_ucast_up)
    moreover have "\<not> d < 0xFD" "\<not> d \<le> 0xFFFF" "d \<le> 0xFFFFFFFF"
      using s(2) by (auto simp: getVarUintSize_def split: if_splits)
    ultimately have "varuint_enc d = 0xFE # take 4 tl"
      using l by (simp add: varuint_enc_def le_bytes_take del: le_bytes.simps)
    then show ?thesis using Cons 2 z z' s by simp
  next
    case 3
    have l: "8 \<le> length tl" and d: "d = of_nat (le_nat (take 8 tl))"
      and s: "sz = 9" "getVarUintSize d = 9" and z': "z' = src_adv z 9"
      using step 3 z Cons by (auto simp: Source_NextVarUint_def Source_NextByte_eq
          Source_NextUint64_eq split: if_splits)
    have "unat d = le_nat (take 8 tl)" using unat_of_nat_le_nat [where 'a = 64, OF l] by (simp add: d)
    moreover have "\<not> d < 0xFD" "\<not> d \<le> 0xFFFF" "\<not> d \<le> 0xFFFFFFFF"
      using s(2) by (auto simp: getVarUintSize_def split: if_splits)
    ultimately have "varuint_enc d = 0xFF # take 8 tl"
      using l by (simp add: varuint_enc_def le_bytes_take del: le_bytes.simps)
    then show ?thesis using Cons 3 z z' s by simp
  next
    case 4
    then have d: "d = ucast fb" and s: "sz = 1" "getVarUintSize d = 1" and z': "z' = src_adv z 1"
      using step z Cons by (auto simp: Source_NextVarUint_def Source_NextByte_eq split: if_splits)
    have "d < 0xFD" using s(2) by (auto simp: getVarUintSize_def split: if_splits)
    moreover have "(ucast d :: byte) = fb"
      using unat_byte_less [of fb] by (simp add: d word_unat_eq_iff unat_ucast_mod)
    ultimately have "varuint_enc d = [fb]" by (simp add: varuint_enc_def)
    then show ?thesis using Cons 4 z z' s by simp
  qed
qed

subsection \<open>Sink lemmas\<close>

definition sink_wf :: "ZeroCopySink \<Rightarrow> bool" where
  "sink_wf s \<longleftrightarrow> sink_len s \<le> length (sink_arr s)"

definition sink_cap :: "ZeroCopySink \<Rightarrow> int" where
  "sink_cap s = int (length (sink_arr s))"

definition emits :: "ZeroCopySink option \<Rightarrow> ZeroCopySink \<Rightarrow> bytes \<Rightarrow> nat \<Rightarrow> bool" where
  "emits r s bs k \<longleftrightarrow> (\<exists>s'. r = Some s' \<and> sink_wf s' \<and> Sink_Bytes s' = Sink_Bytes s @ bs \<and>
     sink_cap s' \<le> 2 * sink_cap s + int k)"

lemma sint_small: "n < 2 ^ 63 \<Longrightarrow> sint (of_nat n :: u64) = int n"
  by (simp add: sint_uint uint_nat unat_of_nat signed_take_bit_int_eq_self)

lemma Sink_NextBytes_fits:
  assumes "sink_wf s" "n < 2 ^ 63" "2 * sink_cap s + int n \<le> maxInt"
  shows "\<exists>s'. Sink_NextBytes s (of_nat n) = Some (sink_len s, s') \<and> sink_wf s' \<and>
    sink_len s' = sink_len s + n \<and> take (sink_len s) (sink_arr s') = Sink_Bytes s \<and>
    sink_cap s' \<le> 2 * sink_cap s + int n"
proof (cases "int n \<le> sink_cap s - int (sink_len s)")
  case True
  then show ?thesis using assms
    by (auto simp: Sink_NextBytes_def tryGrowByReslice_def sint_small Let_def sink_wf_def
        sink_cap_def Sink_Bytes_def)
next
  case False
  then show ?thesis using assms
    by (auto simp: Sink_NextBytes_def tryGrowByReslice_def sink_grow_def sint_small Let_def
        sink_wf_def sink_cap_def Sink_Bytes_def overwrite_def)
qed

lemma sink_poke_emits:
  assumes "sink_wf s'" "sink_len s' = sink_len s + length bs"
    "take (sink_len s) (sink_arr s') = Sink_Bytes s"
    "sink_cap s' \<le> 2 * sink_cap s + int (length bs)"
  shows "emits (Some (sink_poke s' (sink_len s) bs)) s bs (length bs)"
  using assms by (auto simp: emits_def sink_poke_def sink_wf_def sink_cap_def Sink_Bytes_def
      take_overwrite)

lemma Sink_WriteBytes_emits:
  assumes "sink_wf s" "length p < 2 ^ 63" "2 * sink_cap s + int (length p) \<le> maxInt"
  shows "emits (Sink_WriteBytes s p) s p (length p)"
  using Sink_NextBytes_fits [OF assms] sink_poke_emits by (auto simp: Sink_WriteBytes_def)

lemma Sink_WriteUint64_emits:
  assumes "sink_wf s" "2 * sink_cap s + 8 \<le> maxInt"
  shows "emits (Sink_WriteUint64 s d) s (le_bytes 8 (unat d)) 8"
  using Sink_NextBytes_fits [OF assms(1), of 8] assms(2)
    sink_poke_emits [where bs = "le_bytes 8 (unat d)"]
  by (auto simp: Sink_WriteUint64_def simp del: le_bytes.simps)

lemma Sink_WriteUint32_emits:
  assumes "sink_wf s" "2 * sink_cap s + 4 \<le> maxInt"
  shows "emits (Sink_WriteUint32 s d) s (le_bytes 4 (unat d)) 4"
  using Sink_NextBytes_fits [OF assms(1), of 4] assms(2)
    sink_poke_emits [where bs = "le_bytes 4 (unat d)"]
  by (auto simp: Sink_WriteUint32_def simp del: le_bytes.simps)

lemma Sink_WriteVarUint_emits:
  assumes "sink_wf s" "2 * sink_cap s + 9 \<le> maxInt"
  shows "\<exists>s'. Sink_WriteVarUint s d = Some (getVarUintSize d, s') \<and>
    emits (Some s') s (varuint_enc d) 9"
proof -
  obtain s1 where s1: "Sink_NextBytes s 9 = Some (sink_len s, s1)" "sink_wf s1"
      "sink_len s1 = sink_len s + 9" "take (sink_len s) (sink_arr s1) = Sink_Bytes s"
      "sink_cap s1 \<le> 2 * sink_cap s + 9"
    using Sink_NextBytes_fits [OF assms(1), of 9] assms(2) by auto
  have bk: "\<exists>s'. Sink_BackUp (sink_poke s1 (sink_len s) (varuint_enc d)) (9 - getVarUintSize d) = Some s'
      \<and> emits (Some s') s (varuint_enc d) 9"
  proof -
    have le: "unat (getVarUintSize d) \<le> 9" "length (varuint_enc d) \<le> 9"
      by (auto simp: getVarUintSize_def length_varuint_enc)
    have "sint (9 - getVarUintSize d) = 9 - int (length (varuint_enc d))"
      by (simp add: getVarUintSize_def length_varuint_enc)
    then show ?thesis using s1 le assms(1)
      by (auto simp: Sink_BackUp_def Let_def emits_def sink_poke_def sink_wf_def sink_cap_def
          Sink_Bytes_def overwrite_def nat_diff_distrib)
  qed
  moreover have "Sink_WriteVarUint s d = (case Sink_BackUp (sink_poke s1 (sink_len s) (varuint_enc d))
      (9 - getVarUintSize d) of None \<Rightarrow> None | Some s' \<Rightarrow> Some (getVarUintSize d, s'))"
  proof -
    have "unat (ucast d :: u16) = unat d" if "d \<le> 0xFFFF"
      using that by (simp add: unat_ucast_mod word_le_nat_alt)
    moreover have "unat (ucast d :: u32) = unat d" if "d \<le> 0xFFFFFFFF"
      using that by (simp add: unat_ucast_mod word_le_nat_alt)
    ultimately show ?thesis using s1(1)
      by (simp add: Sink_WriteVarUint_def varuint_enc_def getVarUintSize_def Let_def
          del: le_bytes.simps split: option.splits)
  qed
  ultimately show ?thesis by auto
qed

lemma emits_obtain:
  assumes "emits r s bs k"
  obtains s' where "r = Some s'" "sink_wf s'" "Sink_Bytes s' = Sink_Bytes s @ bs"
    "sink_cap s' \<le> 2 * sink_cap s + int k"
  using assms by (auto simp: emits_def)

lemma Sink_WriteVarBytes_emits:
  assumes "sink_wf s" "length d < 2 ^ 62" "4 * sink_cap s + 18 + int (length d) \<le> maxInt"
  shows "\<exists>sz s'. Sink_WriteVarBytes s d = Some (sz, s') \<and> sink_wf s' \<and>
    Sink_Bytes s' = Sink_Bytes s @ varuint_enc (of_nat (length d)) @ d \<and>
    sink_cap s' \<le> 4 * sink_cap s + 18 + int (length d)"
proof -
  have "0 \<le> sink_cap s" by (simp add: sink_cap_def)
  then obtain s1 where s1: "Sink_WriteVarUint s (of_nat (length d)) =
        Some (getVarUintSize (of_nat (length d)), s1)" "sink_wf s1"
      "Sink_Bytes s1 = Sink_Bytes s @ varuint_enc (of_nat (length d))"
      "sink_cap s1 \<le> 2 * sink_cap s + 9"
    using Sink_WriteVarUint_emits [OF assms(1), of "of_nat (length d)"] assms(3)
    by (auto elim: emits_obtain)
  have "emits (Sink_WriteBytes s1 d) s1 d (length d)"
    using s1 assms by (intro Sink_WriteBytes_emits) auto
  then show ?thesis using s1 by (auto simp: Sink_WriteVarBytes_def emits_def)
qed

lemma Source_NextVarBytes_enc:
  assumes "src_wf z" "src_rest z = varuint_enc (of_nat (length d)) @ d @ rest" "length d < 2 ^ 63"
  shows "\<exists>sz z'. Source_NextVarBytes z = Some ((d, sz, False, False), z') \<and>
    src_wf z' \<and> src_rest z' = rest"
proof -
  let ?n = "of_nat (length d) :: u64"
  have n: "unat ?n = length d" using assms(3) by (rule unat_of_nat_src)
  then have "(0 < ?n) = (d \<noteq> [])" by (auto simp: word_less_nat_alt)
  then show ?thesis using assms n Source_NextVarUint_enc [OF assms(1,2)]
    by (auto simp: Source_NextVarBytes_def Source_NextBytes_eq)
qed

lemma Source_ReadVarBytes_enc:
  assumes "src_wf z" "src_rest z = varuint_enc (of_nat (length d)) @ d @ rest" "length d < 2 ^ 63"
  shows "\<exists>z'. Source_ReadVarBytes z = Some (Inr d, z') \<and> src_wf z' \<and> src_rest z' = rest"
  using Source_NextVarBytes_enc [OF assms] by (auto simp: Source_ReadVarBytes_def)

subsection \<open>Properties\<close>

lemma sink_wf_New [simp]: "sink_wf (NewZeroCopySink None)" "sink_cap (NewZeroCopySink None) = 512"
  "Sink_Bytes (NewZeroCopySink None) = []"
  by (simp_all add: sink_wf_def sink_cap_def NewZeroCopySink_def Sink_Bytes_def)

text \<open>C28: a byte string written with \<^verbatim>\<open>WriteVarBytes\<close> into any well-formed sink with room to grow is
  appended to what the sink held, and a source positioned at that place reads exactly the same
  string back with \<^verbatim>\<open>ReadVarBytes\<close>, whatever follows it, and stops right behind it.\<close>
theorem codec_varbytes_roundtrip:
  assumes "sink_wf s" "length d < 2 ^ 62" "4 * sink_cap s + 18 + int (length d) \<le> maxInt"
    "length (Sink_Bytes s) + 9 + length d + length rest < 2 ^ 63"
  shows "\<exists>sz s' enc z'. Sink_WriteVarBytes s d = Some (sz, s') \<and> Sink_Bytes s' = Sink_Bytes s @ enc \<and>
    Source_ReadVarBytes (NewZeroCopySource (enc @ rest)) = Some (Inr d, z') \<and> src_rest z' = rest"
proof -
  let ?enc = "varuint_enc (of_nat (length d)) @ d"
  obtain sz s' where s': "Sink_WriteVarBytes s d = Some (sz, s')" "Sink_Bytes s' = Sink_Bytes s @ ?enc"
    using Sink_WriteVarBytes_emits [OF assms(1-3)] by auto
  have "length (varuint_enc (of_nat (length d))) \<le> 9" by (simp add: varuint_enc_def)
  then have "src_wf (NewZeroCopySource (?enc @ rest))" using assms(4) by (intro src_wf_New) simp
  then obtain z' where "Source_ReadVarBytes (NewZeroCopySource (?enc @ rest)) = Some (Inr d, z')" "src_rest z' = rest"
    using Source_ReadVarBytes_enc [of "NewZeroCopySource (?enc @ rest)" d rest] assms(2) by auto
  with s' show ?thesis by blast
qed

theorem codec_varbytes_roundtrip_witness:
  "\<exists>sz s' enc z'. Sink_WriteVarBytes (NewZeroCopySink None) [1, 2, 3] = Some (sz, s') \<and>
    Sink_Bytes s' = Sink_Bytes (NewZeroCopySink None) @ enc \<and>
    Source_ReadVarBytes (NewZeroCopySource (enc @ [7])) = Some (Inr [1, 2, 3], z') \<and> src_rest z' = [7]"
  by (rule codec_varbytes_roundtrip) (simp_all add: maxInt_def)

text \<open>C29: variable-length integers are canonical: \<^verbatim>\<open>NextVarUint\<close> returns the value \<open>d\<close> with neither
  \<^verbatim>\<open>irregular\<close> nor \<^verbatim>\<open>eof\<close> set and leaves \<open>rest\<close> unread if and only if its input is the encoding that
  \<^verbatim>\<open>WriteVarUint\<close> appends for \<open>d\<close>, followed by \<open>rest\<close>, and the size both report is the same.  So every
  encoding written is accepted, and no value has two accepted encodings.\<close>
theorem codec_varuint_canonical:
  assumes "src_wf z" "sink_wf s" "2 * sink_cap s + 9 \<le> maxInt"
  shows "\<exists>n s' enc. Sink_WriteVarUint s d = Some (n, s') \<and> Sink_Bytes s' = Sink_Bytes s @ enc \<and>
    (\<forall>sz rest. (\<exists>z'. Source_NextVarUint z = Some ((d, sz, False, False), z') \<and> src_rest z' = rest) \<longleftrightarrow>
      sz = n \<and> src_rest z = enc @ rest)"
proof -
  obtain s' where w: "Sink_WriteVarUint s d = Some (getVarUintSize d, s')" "Sink_Bytes s' = Sink_Bytes s @ varuint_enc d"
    using Sink_WriteVarUint_emits [OF assms(2,3), of d] by (auto simp: emits_def)
  have "(\<exists>z'. Source_NextVarUint z = Some ((d, sz, False, False), z') \<and> src_rest z' = rest) \<longleftrightarrow>
      sz = getVarUintSize d \<and> src_rest z = varuint_enc d @ rest" for sz rest
    using Source_NextVarUint_canonical [OF assms(1), of d sz] Source_NextVarUint_enc [OF assms(1), of d rest]
      src_rest_adv [OF assms(1), of "length (varuint_enc d)"] by auto
  with w show ?thesis by blast
qed

theorem codec_varuint_canonical_witness:
  "\<exists>n s' enc. Sink_WriteVarUint (NewZeroCopySink None) 0x1234 = Some (n, s') \<and>
    Sink_Bytes s' = Sink_Bytes (NewZeroCopySink None) @ enc \<and>
    (\<forall>sz rest. (\<exists>z'. Source_NextVarUint (NewZeroCopySource [0xFD, 0x34, 0x12, 9]) = Some ((0x1234, sz, False, False), z') \<and> src_rest z' = rest) \<longleftrightarrow>
      sz = n \<and> [0xFD, 0x34, 0x12, 9] = enc @ rest)"
  using codec_varuint_canonical [of "NewZeroCopySource [0xFD, 0x34, 0x12, 9]" "NewZeroCopySink None" "0x1234"]
  by (simp add: src_wf_New maxInt_def)

end
