(* ===== verification/Uint256.thy ===== *)
theory Uint256
  imports Web3_Prelude
begin

text \<open>
  The fixed-size 256-bit integers of \<^verbatim>\<open>src/utils/common/uint256\<close> (\<^verbatim>\<open>uint256.go\<close>,
  \<^verbatim>\<open>div.go\<close>, \<^verbatim>\<open>conversion.go\<close>): four 64-bit limbs, least significant first, and every
  operation on the limbs as the code has it.  The Go methods set their receiver and return it; as
  they write a limb only after the last read of that limb of an argument, the result does not
  depend on the receiver aliasing an argument, and they are functions of the arguments here (the
  one exception, \<^verbatim>\<open>SubUint64\<close>, keeps the receiver).  The division routines work on slices of
  limbs, which are lists; \<^verbatim>\<open>bits.Div64\<close> panics on an overflowing quotient, which is
  \<^term>\<open>None\<close>.

  \<^verbatim>\<open>uval\<close> is the value of the four limbs; the lemmas relate every operation to arithmetic
  modulo \<open>2\<^sup>2\<^sup>5\<^sup>6\<close>.
\<close>

section \<open>256-bit integers in four limbs\<close>

subsection \<open>Words (package math/bits)\<close>

definition bits_Add64 :: "u64 \<Rightarrow> u64 \<Rightarrow> u64 \<Rightarrow> u64 \<times> u64" where
  "bits_Add64 x y carry = (x + y + carry, if unat x + unat y + unat carry < 2 ^ 64 then 0 else 1)"

definition bits_Sub64 :: "u64 \<Rightarrow> u64 \<Rightarrow> u64 \<Rightarrow> u64 \<times> u64" where
  "bits_Sub64 x y borrow = (x - y - borrow, if unat x < unat y + unat borrow then 1 else 0)"

definition bits_Mul64 :: "u64 \<Rightarrow> u64 \<Rightarrow> u64 \<times> u64" where
  "bits_Mul64 x y = (of_nat (unat x * unat y div 2 ^ 64), x * y)"

definition bits_Div64 :: "u64 \<Rightarrow> u64 \<Rightarrow> u64 \<Rightarrow> (u64 \<times> u64) option" where
  "bits_Div64 hi lo y =
     (if y = 0 \<or> y \<le> hi then None
      else Some (of_nat ((unat hi * 2 ^ 64 + unat lo) div unat y), of_nat ((unat hi * 2 ^ 64 + unat lo) mod unat y)))"

fun nat_len :: "nat \<Rightarrow> nat" where
  "nat_len n = (if n = 0 then 0 else Suc (nat_len (n div 2)))"

declare nat_len.simps [simp del]

definition bits_Len64 :: "u64 \<Rightarrow> nat" where
  "bits_Len64 x = nat_len (unat x)"

definition bits_LeadingZeros64 :: "u64 \<Rightarrow> nat" where
  "bits_LeadingZeros64 x = 64 - bits_Len64 x"

subsection \<open>The integers\<close>

datatype U256 = U256 (limb0: u64) (limb1: u64) (limb2: u64) (limb3: u64)

definition limbs :: "U256 \<Rightarrow> u64 list" where
  "limbs z = [limb0 z, limb1 z, limb2 z, limb3 z]"

definition of_limbs :: "u64 list \<Rightarrow> U256" where
  "of_limbs l = U256 (l ! 0) (l ! 1) (l ! 2) (l ! 3)"

definition Int_Clear :: U256 where "Int_Clear = U256 0 0 0 0"
definition Int_SetOne :: U256 where "Int_SetOne = U256 1 0 0 0"
definition Int_SetAllOne :: U256 where "Int_SetAllOne = U256 (- 1) (- 1) (- 1) (- 1)"

definition Int_SetUint64 :: "u64 \<Rightarrow> U256" where
  "Int_SetUint64 x = U256 x 0 0 0"

definition Int_Uint64 :: "U256 \<Rightarrow> u64" where
  "Int_Uint64 z = limb0 z"

definition Int_Uint64WithOverflow :: "U256 \<Rightarrow> u64 \<times> bool" where
  "Int_Uint64WithOverflow z = (limb0 z, (limb1 z OR limb2 z OR limb3 z) \<noteq> 0)"

definition Int_IsZero :: "U256 \<Rightarrow> bool" where
  "Int_IsZero z = ((limb0 z OR limb1 z OR limb2 z OR limb3 z) = 0)"

definition Int_IsUint64 :: "U256 \<Rightarrow> bool" where
  "Int_IsUint64 z = ((limb1 z OR limb2 z OR limb3 z) = 0)"

definition Int_LtUint64 :: "U256 \<Rightarrow> u64 \<Rightarrow> bool" where
  "Int_LtUint64 z n = (limb0 z < n \<and> (limb1 z OR limb2 z OR limb3 z) = 0)"

definition Int_GtUint64 :: "U256 \<Rightarrow> u64 \<Rightarrow> bool" where
  "Int_GtUint64 z n = (limb0 z > n \<or> (limb1 z OR limb2 z OR limb3 z) \<noteq> 0)"

definition Int_Eq :: "U256 \<Rightarrow> U256 \<Rightarrow> bool" where
  "Int_Eq z x = (limb0 z = limb0 x \<and> limb1 z = limb1 x \<and> limb2 z = limb2 x \<and> limb3 z = limb3 x)"

definition Int_Lt :: "U256 \<Rightarrow> U256 \<Rightarrow> bool" where
  "Int_Lt z x =
     (let (_, carry) = bits_Sub64 (limb0 z) (limb0 x) 0;
          (_, carry) = bits_Sub64 (limb1 z) (limb1 x) carry;
          (_, carry) = bits_Sub64 (limb2 z) (limb2 x) carry;
          (_, carry) = bits_Sub64 (limb3 z) (limb3 x) carry
      in carry \<noteq> 0)"

definition Int_Gt :: "U256 \<Rightarrow> U256 \<Rightarrow> bool" where
  "Int_Gt z x = Int_Lt x z"

definition Int_Cmp :: "U256 \<Rightarrow> U256 \<Rightarrow> int" where
  "Int_Cmp z x = (if Int_Gt z x then 1 else if Int_Lt z x then - 1 else 0)"

definition Int_Sign :: "U256 \<Rightarrow> int" where
  "Int_Sign z = (if Int_IsZero z then 0 else if limb3 z < 0x8000000000000000 then 1 else - 1)"

definition Int_Slt :: "U256 \<Rightarrow> U256 \<Rightarrow> bool" where
  "Int_Slt z x =
     (if Int_Sign z \<ge> 0 \<and> Int_Sign x < 0 then False
      else if Int_Sign z < 0 \<and> Int_Sign x \<ge> 0 then True
      else Int_Lt z x)"

definition Int_Sgt :: "U256 \<Rightarrow> U256 \<Rightarrow> bool" where
  "Int_Sgt z x =
     (if Int_Sign z \<ge> 0 \<and> Int_Sign x < 0 then True
      else if Int_Sign z < 0 \<and> Int_Sign x \<ge> 0 then False
      else Int_Gt z x)"

subsection \<open>Addition and subtraction\<close>

definition Int_Add :: "U256 \<Rightarrow> U256 \<Rightarrow> U256" where
  "Int_Add x y =
     (let (z0, carry) = bits_Add64 (limb0 x) (limb0 y) 0;
          (z1, carry) = bits_Add64 (limb1 x) (limb1 y) carry;
          (z2, carry) = bits_Add64 (limb2 x) (limb2 y) carry;
          (z3, _) = bits_Add64 (limb3 x) (limb3 y) carry
      in U256 z0 z1 z2 z3)"

definition Int_AddOverflow :: "U256 \<Rightarrow> U256 \<Rightarrow> U256 \<times> bool" where
  "Int_AddOverflow x y =
     (let (z0, carry) = bits_Add64 (limb0 x) (limb0 y) 0;
          (z1, carry) = bits_Add64 (limb1 x) (limb1 y) carry;
          (z2, carry) = bits_Add64 (limb2 x) (limb2 y) carry;
          (z3, carry) = bits_Add64 (limb3 x) (limb3 y) carry
      in (U256 z0 z1 z2 z3, carry \<noteq> 0))"

definition Int_SubOverflow :: "U256 \<Rightarrow> U256 \<Rightarrow> U256 \<times> bool" where
  "Int_SubOverflow x y =
     (let (z0, carry) = bits_Sub64 (limb0 x) (limb0 y) 0;
          (z1, carry) = bits_Sub64 (limb1 x) (limb1 y) carry;
          (z2, carry) = bits_Sub64 (limb2 x) (limb2 y) carry;
          (z3, carry) = bits_Sub64 (limb3 x) (limb3 y) carry
      in (U256 z0 z1 z2 z3, carry \<noteq> 0))"

definition Int_Sub :: "U256 \<Rightarrow> U256 \<Rightarrow> U256" where
  "Int_Sub x y =
     (let (z0, carry) = bits_Sub64 (limb0 x) (limb0 y) 0;
          (z1, carry) = bits_Sub64 (limb1 x) (limb1 y) carry;
          (z2, carry) = bits_Sub64 (limb2 x) (limb2 y) carry;
          (z3, _) = bits_Sub64 (limb3 x) (limb3 y) carry
      in U256 z0 z1 z2 z3)"

text \<open>\<^verbatim>\<open>SubUint64\<close> writes only the limbs the borrow reaches; the others keep what the receiver held.\<close>

definition Int_SubUint64 :: "U256 \<Rightarrow> U256 \<Rightarrow> u64 \<Rightarrow> U256" where
  "Int_SubUint64 z x y =
     (let (z0, carry) = bits_Sub64 (limb0 x) y 0 in
      if carry = 0 then U256 z0 (limb1 z) (limb2 z) (limb3 z)
      else (let (z1, carry) = bits_Sub64 (limb1 x) 0 carry in
        if carry = 0 then U256 z0 z1 (limb2 z) (limb3 z)
        else (let (z2, carry) = bits_Sub64 (limb2 x) 0 carry in
          if carry = 0 then U256 z0 z1 z2 (limb3 z)
          else U256 z0 z1 z2 (limb3 z - 1))))"

definition Int_Neg :: "U256 \<Rightarrow> U256" where
  "Int_Neg x = Int_Sub Int_Clear x"

definition Int_Abs :: "U256 \<Rightarrow> U256" where
  "Int_Abs x = (if limb3 x < 0x8000000000000000 then x else Int_Sub Int_Clear x)"

subsection \<open>Multiplication\<close>

definition umulStep :: "u64 \<Rightarrow> u64 \<Rightarrow> u64 \<Rightarrow> u64 \<Rightarrow> u64 \<times> u64" where
  "umulStep z x y carry =
     (let (hi, lo) = bits_Mul64 x y;
          (lo, carry) = bits_Add64 lo carry 0;
          (hi, _) = bits_Add64 hi 0 carry;
          (lo, carry) = bits_Add64 lo z 0;
          (hi, _) = bits_Add64 hi 0 carry
      in (hi, lo))"

definition umulHop :: "u64 \<Rightarrow> u64 \<Rightarrow> u64 \<Rightarrow> u64 \<times> u64" where
  "umulHop z x y =
     (let (hi, lo) = bits_Mul64 x y;
          (lo, carry) = bits_Add64 lo z 0;
          (hi, _) = bits_Add64 hi 0 carry
      in (hi, lo))"

definition umul :: "U256 \<Rightarrow> U256 \<Rightarrow> u64 list" where
  "umul x y =
     (let x0 = limb0 x; x1 = limb1 x; x2 = limb2 x; x3 = limb3 x;
          y0 = limb0 y; y1 = limb1 y; y2 = limb2 y; y3 = limb3 y;
          (carry, r0) = bits_Mul64 x0 y0;
          (carry, res1) = umulHop carry x1 y0;
          (carry, res2) = umulHop carry x2 y0;
          (carry4, res3) = umulHop carry x3 y0;
          (carry, r1) = umulHop res1 x0 y1;
          (carry, res2) = umulStep res2 x1 y1 carry;
          (carry, res3) = umulStep res3 x2 y1 carry;
          (carry5, res4) = umulStep carry4 x3 y1 carry;
          (carry, r2) = umulHop res2 x0 y2;
          (carry, res3) = umulStep res3 x1 y2 carry;
          (carry, res4) = umulStep res4 x2 y2 carry;
          (carry6, res5) = umulStep carry5 x3 y2 carry;
          (carry, r3) = umulHop res3 x0 y3;
          (carry, r4) = umulStep res4 x1 y3 carry;
          (carry, r5) = umulStep res5 x2 y3 carry;
          (r7, r6) = umulStep carry6 x3 y3 carry
      in [r0, r1, r2, r3, r4, r5, r6, r7])"

definition Int_Mul :: "U256 \<Rightarrow> U256 \<Rightarrow> U256" where
  "Int_Mul x y =
     (let x0 = limb0 x; x1 = limb1 x; x2 = limb2 x; x3 = limb3 x;
          y0 = limb0 y; y1 = limb1 y; y2 = limb2 y; y3 = limb3 y;
          (carry, r0) = bits_Mul64 x0 y0;
          (carry, res1) = umulHop carry x1 y0;
          (carry, res2) = umulHop carry x2 y0;
          res3 = x3 * y0 + carry;
          (carry, r1) = umulHop res1 x0 y1;
          (carry, res2) = umulStep res2 x1 y1 carry;
          res3 = res3 + x2 * y1 + carry;
          (carry, r2) = umulHop res2 x0 y2;
          res3 = res3 + x1 * y2 + carry
      in U256 r0 r1 r2 (res3 + x0 * y3))"

definition Int_MulOverflow :: "U256 \<Rightarrow> U256 \<Rightarrow> U256 \<times> bool" where
  "Int_MulOverflow x y =
     (let p = umul x y in (of_limbs (take 4 p), (p ! 4 OR p ! 5 OR p ! 6 OR p ! 7) \<noteq> 0))"

definition Int_squared :: "U256 \<Rightarrow> U256" where
  "Int_squared z =
     (let z0 = limb0 z; z1 = limb1 z; z2 = limb2 z; z3 = limb3 z;
          (carry0, r0) = bits_Mul64 z0 z0;
          (carry0, res1) = umulHop carry0 z0 z1;
          (carry0, res2) = umulHop carry0 z0 z2;
          (carry1, r1) = umulHop res1 z0 z1;
          (carry1, res2) = umulStep res2 z1 z1 carry1;
          (carry2, r2) = umulHop res2 z0 z2
      in U256 r0 r1 r2 (2 * (z0 * z3 + z1 * z2) + carry0 + carry1 + carry2))"

subsection \<open>Bits and shifts\<close>

definition Int_Not :: "U256 \<Rightarrow> U256" where
  "Int_Not x = U256 (NOT (limb0 x)) (NOT (limb1 x)) (NOT (limb2 x)) (NOT (limb3 x))"

definition Int_Or :: "U256 \<Rightarrow> U256 \<Rightarrow> U256" where
  "Int_Or x y = U256 (limb0 x OR limb0 y) (limb1 x OR limb1 y) (limb2 x OR limb2 y) (limb3 x OR limb3 y)"

definition Int_And :: "U256 \<Rightarrow> U256 \<Rightarrow> U256" where
  "Int_And x y = U256 (limb0 x AND limb0 y) (limb1 x AND limb1 y) (limb2 x AND limb2 y) (limb3 x AND limb3 y)"

definition Int_Xor :: "U256 \<Rightarrow> U256 \<Rightarrow> U256" where
  "Int_Xor x y = U256 (limb0 x XOR limb0 y) (limb1 x XOR limb1 y) (limb2 x XOR limb2 y) (limb3 x XOR limb3 y)"

definition lsh64 :: "U256 \<Rightarrow> U256" where "lsh64 x = U256 0 (limb0 x) (limb1 x) (limb2 x)"
definition lsh128 :: "U256 \<Rightarrow> U256" where "lsh128 x = U256 0 0 (limb0 x) (limb1 x)"
definition lsh192 :: "U256 \<Rightarrow> U256" where "lsh192 x = U256 0 0 0 (limb0 x)"
definition rsh64 :: "U256 \<Rightarrow> U256" where "rsh64 x = U256 (limb1 x) (limb2 x) (limb3 x) 0"
definition rsh128 :: "U256 \<Rightarrow> U256" where "rsh128 x = U256 (limb2 x) (limb3 x) 0 0"
definition rsh192 :: "U256 \<Rightarrow> U256" where "rsh192 x = U256 (limb3 x) 0 0 0"
definition srsh64 :: "U256 \<Rightarrow> U256" where "srsh64 x = U256 (limb1 x) (limb2 x) (limb3 x) (- 1)"
definition srsh128 :: "U256 \<Rightarrow> U256" where "srsh128 x = U256 (limb2 x) (limb3 x) (- 1) (- 1)"
definition srsh192 :: "U256 \<Rightarrow> U256" where "srsh192 x = U256 (limb3 x) (- 1) (- 1) (- 1)"

definition Int_Lsh :: "U256 \<Rightarrow> nat \<Rightarrow> U256" where
  "Int_Lsh x n =
     (if n mod 64 = 0 then
        (if n = 0 then x else if n = 64 then lsh64 x else if n = 128 then lsh128 x
         else if n = 192 then lsh192 x else Int_Clear)
      else if n > 192 then
        (if n > 256 then Int_Clear
         else (let z = lsh192 x; n = n - 192; a = 0 in
           U256 (limb0 z) (limb1 z) (limb2 z) (push_bit n (limb3 z) OR a)))
      else if n > 128 then
        (let z = lsh128 x; n = n - 128; b = 0; a = drop_bit (64 - n) (limb2 z) in
           U256 (limb0 z) (limb1 z) (push_bit n (limb2 z) OR b) (push_bit n (limb3 z) OR a))
      else if n > 64 then
        (let z = lsh64 x; n = n - 64; a = 0; b = drop_bit (64 - n) (limb1 z); a' = drop_bit (64 - n) (limb2 z) in
           U256 (limb0 z) (push_bit n (limb1 z) OR a) (push_bit n (limb2 z) OR b) (push_bit n (limb3 z) OR a'))
      else
        (let a = drop_bit (64 - n) (limb0 x); b = drop_bit (64 - n) (limb1 x); a' = drop_bit (64 - n) (limb2 x) in
           U256 (push_bit n (limb0 x)) (push_bit n (limb1 x) OR a) (push_bit n (limb2 x) OR b)
             (push_bit n (limb3 x) OR a')))"

definition Int_Rsh :: "U256 \<Rightarrow> nat \<Rightarrow> U256" where
  "Int_Rsh x n =
     (if n mod 64 = 0 then
        (if n = 0 then x else if n = 64 then rsh64 x else if n = 128 then rsh128 x
         else if n = 192 then rsh192 x else Int_Clear)
      else if n > 192 then
        (if n > 256 then Int_Clear
         else (let z = rsh192 x; n = n - 192; a = 0 in
           U256 (drop_bit n (limb0 z) OR a) (limb1 z) (limb2 z) (limb3 z)))
      else if n > 128 then
        (let z = rsh128 x; n = n - 128; b = 0; a = push_bit (64 - n) (limb1 z) in
           U256 (drop_bit n (limb0 z) OR a) (drop_bit n (limb1 z) OR b) (limb2 z) (limb3 z))
      else if n > 64 then
        (let z = rsh64 x; n = n - 64; a = 0; b = push_bit (64 - n) (limb2 z); a' = push_bit (64 - n) (limb1 z) in
           U256 (drop_bit n (limb0 z) OR a') (drop_bit n (limb1 z) OR b) (drop_bit n (limb2 z) OR a) (limb3 z))
      else
        (let a = push_bit (64 - n) (limb3 x); b = push_bit (64 - n) (limb2 x); a' = push_bit (64 - n) (limb1 x) in
           U256 (drop_bit n (limb0 x) OR a') (drop_bit n (limb1 x) OR b) (drop_bit n (limb2 x) OR a)
             (drop_bit n (limb3 x))))"

definition Int_isBitSet :: "U256 \<Rightarrow> nat \<Rightarrow> bool option" where
  "Int_isBitSet z n = do { w \<leftarrow> idx (limbs z) (n div 64); Some ((w AND push_bit (n mod 64) 1) \<noteq> 0) }"

definition Int_SRsh :: "U256 \<Rightarrow> nat \<Rightarrow> U256 option" where
  "Int_SRsh x n = do {
     neg \<leftarrow> Int_isBitSet x 255;
     if \<not> neg then Some (Int_Rsh x n)
     else if n mod 64 = 0 then
       Some (if n = 0 then x else if n = 64 then srsh64 x else if n = 128 then srsh128 x
             else if n = 192 then srsh192 x else Int_SetAllOne)
     else (let a = push_bit (64 - n mod 64) (- 1) in
       if n > 192 then
         (if n > 256 then Some Int_SetAllOne
          else (let z = srsh192 x; n = n - 192 in
            Some (U256 (drop_bit n (limb0 z) OR a) (limb1 z) (limb2 z) (limb3 z))))
       else if n > 128 then
         (let z = srsh128 x; n = n - 128; a' = push_bit (64 - n) (limb1 z) in
            Some (U256 (drop_bit n (limb0 z) OR a') (drop_bit n (limb1 z) OR a) (limb2 z) (limb3 z)))
       else if n > 64 then
         (let z = srsh64 x; n = n - 64; a' = push_bit (64 - n) (limb2 z); a'' = push_bit (64 - n) (limb1 z) in
            Some (U256 (drop_bit n (limb0 z) OR a'') (drop_bit n (limb1 z) OR a') (drop_bit n (limb2 z) OR a) (limb3 z)))
       else
         (let a1 = push_bit (64 - n) (limb3 x); a2 = push_bit (64 - n) (limb2 x); a3 = push_bit (64 - n) (limb1 x) in
            Some (U256 (drop_bit n (limb0 x) OR a3) (drop_bit n (limb1 x) OR a2) (drop_bit n (limb2 x) OR a1)
              (drop_bit n (limb3 x) OR a))))
   }"

definition Int_Byte :: "U256 \<Rightarrow> U256 \<Rightarrow> U256 option" where
  "Int_Byte z n =
     (let (number, overflow) = Int_Uint64WithOverflow n in
      if \<not> overflow \<and> number < 32 then do {
        w \<leftarrow> idx (limbs z) (unat (4 - 1 - number div 8));
        let offset = unat (push_bit 3 (limb0 n AND 0x7));
        Some (U256 (drop_bit (56 - offset) (w AND drop_bit offset 0xff00000000000000)) 0 0 0)
      }
      else Some Int_Clear)"

definition Int_BitLen :: "U256 \<Rightarrow> nat" where
  "Int_BitLen z =
     (if limb3 z \<noteq> 0 then 192 + bits_Len64 (limb3 z)
      else if limb2 z \<noteq> 0 then 128 + bits_Len64 (limb2 z)
      else if limb1 z \<noteq> 0 then 64 + bits_Len64 (limb1 z)
      else bits_Len64 (limb0 z))"

definition Int_ByteLen :: "U256 \<Rightarrow> nat" where
  "Int_ByteLen z = (Int_BitLen z + 7) div 8"

definition Int_ExtendSign :: "U256 \<Rightarrow> U256 \<Rightarrow> U256 option" where
  "Int_ExtendSign x byteNum =
     (if Int_GtUint64 byteNum 31 then Some x
      else (let bit' = unat (Int_Uint64 byteNum * 8 + 7);
                mask = Int_Lsh Int_SetOne bit';
                mask = Int_SubUint64 mask mask 1
            in do {
              s \<leftarrow> Int_isBitSet x bit';
              Some (if s then Int_Or x (Int_Not mask) else Int_And x mask)
            }))"

subsection \<open>Exponentiation\<close>

function exp_loop :: "nat \<Rightarrow> nat \<Rightarrow> nat \<Rightarrow> u64 \<Rightarrow> U256 \<Rightarrow> U256 \<Rightarrow> nat \<times> U256 \<times> U256" where
  "exp_loop expBitLen limit curBit word res multiplier =
     (if curBit < expBitLen \<and> curBit < limit
      then exp_loop expBitLen limit (curBit + 1) (drop_bit 1 word)
             (if word AND 1 = 1 then Int_Mul res multiplier else res) (Int_squared multiplier)
      else (curBit, res, multiplier))"
  by pat_completeness auto
termination
  by (relation "measure (\<lambda>(e, l, c, w, r, m). l - c)") auto

declare exp_loop.simps [simp del]

definition Int_Exp :: "U256 \<Rightarrow> U256 \<Rightarrow> U256" where
  "Int_Exp base exponent =
     (let expBitLen = Int_BitLen exponent;
          (curBit, res, multiplier) = exp_loop expBitLen 64 0 (limb0 exponent) (U256 1 0 0 0) base;
          (curBit, res, multiplier) = exp_loop expBitLen 128 curBit (limb1 exponent) res multiplier;
          (curBit, res, multiplier) = exp_loop expBitLen 192 curBit (limb2 exponent) res multiplier;
          (curBit, res, multiplier) = exp_loop expBitLen 256 curBit (limb3 exponent) res multiplier
      in res)"

subsection \<open>Division (div.go and the Knuth routines)\<close>

definition reciprocal2by1 :: "u64 \<Rightarrow> u64 option" where
  "reciprocal2by1 d = do { (r, _) \<leftarrow> bits_Div64 (NOT d) (NOT 0) d; Some r }"

definition udivrem2by1 :: "u64 \<Rightarrow> u64 \<Rightarrow> u64 \<Rightarrow> u64 \<Rightarrow> u64 \<times> u64" where
  "udivrem2by1 uh ul d reciprocal =
     (let (qh, ql) = bits_Mul64 reciprocal uh;
          (ql, carry) = bits_Add64 ql ul 0;
          (qh, _) = bits_Add64 qh uh carry;
          qh = qh + 1;
          r = ul - qh * d;
          (qh, r) = (if r > ql then (qh - 1, r + d) else (qh, r));
          (qh, r) = (if r \<ge> d then (qh + 1, r - d) else (qh, r))
      in (qh, r))"

fun addTo_loop :: "u64 list \<Rightarrow> u64 list \<Rightarrow> u64 \<Rightarrow> (u64 list \<times> u64) option" where
  "addTo_loop xs [] carry = Some (xs, carry)"
| "addTo_loop [] (y # ys) carry = None"
| "addTo_loop (x # xs) (y # ys) carry =
     (let (s, carry) = bits_Add64 x y carry in
      do { (r, c) \<leftarrow> addTo_loop xs ys carry; Some (s # r, c) })"

definition addTo :: "u64 list \<Rightarrow> u64 list \<Rightarrow> (u64 list \<times> u64) option" where
  "addTo x y = addTo_loop x y 0"

fun subMulTo_loop :: "u64 list \<Rightarrow> u64 list \<Rightarrow> u64 \<Rightarrow> u64 \<Rightarrow> (u64 list \<times> u64) option" where
  "subMulTo_loop xs [] m borrow = Some (xs, borrow)"
| "subMulTo_loop [] (y # ys) m borrow = None"
| "subMulTo_loop (x # xs) (y # ys) m borrow =
     (let (s, carry1) = bits_Sub64 x borrow 0;
          (ph, pl) = bits_Mul64 y m;
          (t, carry2) = bits_Sub64 s pl 0
      in do { (r, b) \<leftarrow> subMulTo_loop xs ys m (ph + carry1 + carry2); Some (t # r, b) })"

definition subMulTo :: "u64 list \<Rightarrow> u64 list \<Rightarrow> u64 \<Rightarrow> (u64 list \<times> u64) option" where
  "subMulTo x y multiplier = subMulTo_loop x y multiplier 0"

text \<open>The descending loops count \<open>j + 1\<close>.\<close>

primrec udivremBy1_loop :: "nat \<Rightarrow> u64 list \<Rightarrow> u64 list \<Rightarrow> u64 \<Rightarrow> u64 \<Rightarrow> u64 \<Rightarrow> (u64 list \<times> u64) option" where
  "udivremBy1_loop 0 quot u d reciprocal rem = Some (quot, rem)"
| "udivremBy1_loop (Suc j) quot u d reciprocal rem = do {
     w \<leftarrow> idx u j;
     let (q, rem) = udivrem2by1 rem w d reciprocal;
     quot \<leftarrow> put_at quot j q;
     udivremBy1_loop j quot u d reciprocal rem
   }"

definition udivremBy1 :: "u64 list \<Rightarrow> u64 list \<Rightarrow> u64 \<Rightarrow> (u64 list \<times> u64) option" where
  "udivremBy1 quot u d = do {
     reciprocal \<leftarrow> reciprocal2by1 d;
     rem \<leftarrow> (if length u = 0 then None else idx u (length u - 1));
     udivremBy1_loop (length u - 1) quot u d reciprocal rem
   }"

definition knuth_qhat :: "u64 \<Rightarrow> u64 \<Rightarrow> u64 \<Rightarrow> u64 \<Rightarrow> u64 \<Rightarrow> u64 \<Rightarrow> u64" where
  "knuth_qhat u2 u1 u0 dh dl reciprocal =
     (if u2 \<ge> dh then NOT 0
      else (let (qhat, rhat) = udivrem2by1 u2 u1 dh reciprocal;
                (ph, pl) = bits_Mul64 qhat dl
            in if ph > rhat \<or> (ph = rhat \<and> pl > u0) then qhat - 1 else qhat))"

primrec udivremKnuth_loop :: "nat \<Rightarrow> u64 list \<Rightarrow> u64 list \<Rightarrow> u64 list \<Rightarrow> u64 \<Rightarrow> (u64 list \<times> u64 list) option" where
  "udivremKnuth_loop 0 quot u d reciprocal = Some (quot, u)"
| "udivremKnuth_loop (Suc j) quot u d reciprocal = do {
     let n = length d;
     dh \<leftarrow> idx d (n - 1);
     dl \<leftarrow> idx d (n - 2);
     u2 \<leftarrow> idx u (j + n);
     u1 \<leftarrow> idx u (j + n - 1);
     u0 \<leftarrow> idx u (j + n - 2);
     let qhat = knuth_qhat u2 u1 u0 dh dl reciprocal;
     (s, borrow) \<leftarrow> subMulTo (drop j u) d qhat;
     u \<leftarrow> put_at (take j u @ s) (j + n) (u2 - borrow);
     (qhat, u) \<leftarrow> (if u2 < borrow then do {
         (s, c) \<leftarrow> addTo (drop j u) d;
         top \<leftarrow> idx (take j u @ s) (j + n);
         u \<leftarrow> put_at (take j u @ s) (j + n) (top + c);
         Some (qhat - 1, u)
       } else Some (qhat, u));
     quot \<leftarrow> put_at quot j qhat;
     udivremKnuth_loop j quot u d reciprocal
   }"

definition udivremKnuth :: "u64 list \<Rightarrow> u64 list \<Rightarrow> u64 list \<Rightarrow> (u64 list \<times> u64 list) option" where
  "udivremKnuth quot u d = do {
     dh \<leftarrow> (if length d < 2 then None else idx d (length d - 1));
     reciprocal \<leftarrow> reciprocal2by1 dh;
     udivremKnuth_loop (length u - length d) quot u d reciprocal
   }"

definition sig_len :: "u64 list \<Rightarrow> nat" where
  "sig_len l = length (dropWhile (\<lambda>w. w = 0) (rev l))"

definition shl_words :: "nat \<Rightarrow> u64 list \<Rightarrow> u64 list" where
  "shl_words shift l = map (\<lambda>i. if i = 0 then push_bit shift (l ! 0)
     else push_bit shift (l ! i) OR drop_bit (64 - shift) (l ! (i - 1))) [0..<length l]"

text \<open>The normalised dividend lives in nine words of storage, so one with more than eight significant words is a panic;
  reading the remainder out of a dividend with fewer words than the divisor is one, too.\<close>

definition udivrem :: "u64 list \<Rightarrow> u64 list \<Rightarrow> U256 \<Rightarrow> (U256 \<times> u64 list) option" where
  "udivrem quot u d =
     (let dLen = sig_len (limbs d); uLen = sig_len u in
      if dLen = 0 \<or> uLen + 1 > 9 \<or> uLen = 0 then None
      else (let shift = bits_LeadingZeros64 (limbs d ! (dLen - 1));
                dn = shl_words shift (take dLen (limbs d));
                un = shl_words shift (take uLen u) @ [drop_bit (64 - shift) (u ! (uLen - 1))]
            in if dLen = 1 then do {
                 (quot, r) \<leftarrow> udivremBy1 quot un (dn ! 0);
                 Some (Int_SetUint64 (drop_bit shift r), quot)
               }
               else do {
                 (quot, un) \<leftarrow> udivremKnuth quot un dn;
                 if dLen > length un then None
                 else let rem = map (\<lambda>i. if i < dLen - 1 then drop_bit shift (un ! i) OR push_bit (64 - shift) (un ! (i + 1))
                                    else if i = dLen - 1 then drop_bit shift (un ! i) else 0) [0..<4] in
                 Some (of_limbs rem, quot)
               }))"

definition Int_Div :: "U256 \<Rightarrow> U256 \<Rightarrow> U256 option" where
  "Int_Div x y =
     (if Int_IsZero y \<or> Int_Gt y x then Some Int_Clear
      else if Int_Eq x y then Some Int_SetOne
      else if Int_IsUint64 x then Some (Int_SetUint64 (Int_Uint64 x div Int_Uint64 y))
      else do { (_, quot) \<leftarrow> udivrem (replicate 4 0) (limbs x) y; Some (of_limbs quot) })"

definition Int_Mod :: "U256 \<Rightarrow> U256 \<Rightarrow> U256 option" where
  "Int_Mod x y =
     (if Int_IsZero x \<or> Int_IsZero y then Some Int_Clear
      else if Int_Cmp x y = - 1 then Some x
      else if Int_Cmp x y = 0 then Some Int_Clear
      else if Int_IsUint64 x then Some (Int_SetUint64 (Int_Uint64 x mod Int_Uint64 y))
      else do { (rem, _) \<leftarrow> udivrem (replicate 4 0) (limbs x) y; Some rem })"

definition Int_AddMod :: "U256 \<Rightarrow> U256 \<Rightarrow> U256 \<Rightarrow> U256 option" where
  "Int_AddMod x y m =
     (if Int_IsZero m then Some Int_Clear
      else (let (z, overflow) = Int_AddOverflow x y in
        if overflow then do { (rem, _) \<leftarrow> udivrem (replicate 5 0) (limbs z @ [1]) m; Some rem }
        else Int_Mod z m))"

definition Int_MulMod :: "U256 \<Rightarrow> U256 \<Rightarrow> U256 \<Rightarrow> U256 option" where
  "Int_MulMod x y m =
     (if Int_IsZero x \<or> Int_IsZero y \<or> Int_IsZero m then Some Int_Clear
      else (let p = umul x y; pl = of_limbs (take 4 p); ph = of_limbs (drop 4 p) in
        if Int_IsZero ph then Int_Mod pl m
        else do { (rem, _) \<leftarrow> udivrem (replicate 8 0) p m; Some rem }))"

definition Int_SMod :: "U256 \<Rightarrow> U256 \<Rightarrow> U256 option" where
  "Int_SMod x y =
     (let ys = Int_Sign y; xs = Int_Sign x;
          x = (if xs = - 1 then Int_Neg x else x);
          y = (if ys = - 1 then Int_Neg y else y)
      in do { z \<leftarrow> Int_Mod x y; Some (if xs = - 1 then Int_Neg z else z) })"

definition Int_SDiv :: "U256 \<Rightarrow> U256 \<Rightarrow> U256 option" where
  "Int_SDiv n d =
     (if Int_Sign n > 0 then
        (if Int_Sign d > 0 then Int_Div n d
         else do { z \<leftarrow> Int_Div n (Int_Neg d); Some (Int_Neg z) })
      else if Int_Sign d < 0 then Int_Div (Int_Neg n) (Int_Neg d)
      else do { z \<leftarrow> Int_Div (Int_Neg n) d; Some (Int_Neg z) })"

subsection \<open>Conversions\<close>

text \<open>The thirty-two functions \<^verbatim>\<open>SetBytes1\<close> to \<^verbatim>\<open>SetBytes32\<close> read their number of bytes,
  big-endian, eight per limb from the end.  Each first checks that its last byte is there, \<^verbatim>\<open>SetBytes29\<close> only that 24
  are, and then slices, up to the capacity of the slice: \<open>spare\<close> is what follows it in its array.\<close>

definition be_limb :: "bytes \<Rightarrow> nat \<Rightarrow> nat \<Rightarrow> u64" where
  "be_limb b n i = of_nat (be_nat (take (n - 8 * i - (n - 8 * (i + 1))) (drop (n - 8 * (i + 1)) b)))"

definition Int_SetBytesN :: "nat \<Rightarrow> bytes \<Rightarrow> bytes \<Rightarrow> U256 option" where
  "Int_SetBytesN n b spare =
     (if length b < (if n = 29 then 24 else n) \<or> length (b @ spare) < n then None
      else let b = b @ spare in Some (U256 (be_limb b n 0) (be_limb b n 1) (be_limb b n 2) (be_limb b n 3)))"

text \<open>\<^verbatim>\<open>SetBytes\<close> gives each of them exactly the bytes it reads, so nothing follows.\<close>

definition Int_SetBytes :: "bytes \<Rightarrow> U256 option" where
  "Int_SetBytes buf =
     (let l = length buf in
      if l = 0 then Some Int_Clear
      else if l < 32 then Int_SetBytesN l buf []
      else Int_SetBytesN 32 (drop (l - 32) buf) [])"

definition Int_Bytes32 :: "U256 \<Rightarrow> bytes" where
  "Int_Bytes32 z = be_bytes 8 (unat (limb3 z)) @ be_bytes 8 (unat (limb2 z)) @
     be_bytes 8 (unat (limb1 z)) @ be_bytes 8 (unat (limb0 z))"

definition Int_Bytes20 :: "U256 \<Rightarrow> bytes" where
  "Int_Bytes20 z = be_bytes 4 (unat (ucast (limb2 z) :: u32)) @ be_bytes 8 (unat (limb1 z)) @ be_bytes 8 (unat (limb0 z))"

definition Int_Bytes :: "U256 \<Rightarrow> bytes" where
  "Int_Bytes z = drop (32 - Int_ByteLen z) (Int_Bytes32 z)"

definition byte_at :: "U256 \<Rightarrow> nat \<Rightarrow> byte" where
  "byte_at z i = ucast (drop_bit (8 * (i mod 8)) (limbs z ! (i div 8)))"

definition Int_WriteToSlice :: "U256 \<Rightarrow> bytes \<Rightarrow> bytes" where
  "Int_WriteToSlice z dest = overwrite dest 0 (rev (map (byte_at z) [0..<min (length dest) 32]))"

definition Int_WriteToArray32 :: "U256 \<Rightarrow> bytes" where
  "Int_WriteToArray32 z = rev (map (byte_at z) [0..<32])"

definition Int_WriteToArray20 :: "U256 \<Rightarrow> bytes" where
  "Int_WriteToArray20 z = rev (map (byte_at z) [0..<20])"

definition Int_PaddedBytes :: "U256 \<Rightarrow> nat \<Rightarrow> bytes" where
  "Int_PaddedBytes z n = replicate (n - 32) 0 @ rev (map (byte_at z) [0..<min n 32])"

definition uval :: "U256 \<Rightarrow> nat" where
  "uval z = unat (limb0 z) + 2 ^ 64 * unat (limb1 z) + 2 ^ 128 * unat (limb2 z) + 2 ^ 192 * unat (limb3 z)"

definition Int_ToBig :: "U256 \<Rightarrow> int" where
  "Int_ToBig z = int (uval z)"

text \<open>The words of a \<^verbatim>\<open>big.Int\<close>, least significant first, without leading zeros.\<close>

fun nat_words :: "nat \<Rightarrow> u64 list" where
  "nat_words n = (if n = 0 then [] else of_nat n # nat_words (n div 2 ^ 64))"

declare nat_words.simps [simp del]

definition word_or_0 :: "u64 list \<Rightarrow> nat \<Rightarrow> u64" where
  "word_or_0 ws i = (if i < length ws then ws ! i else 0)"

definition Int_SetFromBig :: "int \<Rightarrow> U256 \<times> bool" where
  "Int_SetFromBig b =
     (let words = nat_words (nat \<bar>b\<bar>);
          overflow = length words > 4;
          z = U256 (word_or_0 words 0) (word_or_0 words 1) (word_or_0 words 2) (word_or_0 words 3)
      in (if b < 0 then Int_Neg z else z, overflow))"

definition Int_FromBig :: "int \<Rightarrow> U256 \<times> bool" where
  "Int_FromBig b = Int_SetFromBig b"

subsection \<open>Words as naturals\<close>

lemma bits_Add64_spec:
  assumes "bits_Add64 x y c = (s, c')" "unat c \<le> 1"
  shows "unat s + 2 ^ 64 * unat c' = unat x + unat y + unat c" "unat c' \<le> 1"
proof -
  have b: "unat x < 2 ^ 64" "unat y < 2 ^ 64" by (rule unat_u64_less)+
  have s: "unat s = (unat x + unat y + unat c) mod 2 ^ 64"
    using assms(1) by (auto simp: bits_Add64_def unat_word_ariths mod_simps)
  show "unat s + 2 ^ 64 * unat c' = unat x + unat y + unat c"
  proof (cases "unat x + unat y + unat c < 2 ^ 64")
    case True
    then show ?thesis using assms(1) s by (auto simp: bits_Add64_def)
  next
    case False
    then have "unat s = unat x + unat y + unat c - 2 ^ 64" using s b assms(2) by (simp add: mod_if)
    then show ?thesis using assms(1) False by (auto simp: bits_Add64_def)
  qed
  show "unat c' \<le> 1" using assms(1) by (auto simp: bits_Add64_def)
qed

lemma sub_no_borrow:
  "\<not> a < b + c \<Longrightarrow> a < 2 ^ 64 \<Longrightarrow> (int a - (int b + int c)) mod 2 ^ 64 = int a - (int b + int c)"
  by (intro mod_pos_pos_trivial) auto

lemma sub_borrow:
  "a < b + c \<Longrightarrow> a < 2 ^ 64 \<Longrightarrow> b < 2 ^ 64 \<Longrightarrow> c \<le> 1 \<Longrightarrow>
   (int a - (int b + int c) + 2 ^ 64) mod 2 ^ 64 = int a - (int b + int c) + 2 ^ 64"
  by (intro mod_pos_pos_trivial) auto

lemma bits_Sub64_spec:
  assumes "bits_Sub64 x y c = (s, c')" "unat c \<le> 1"
  shows "unat s + unat y + unat c = unat x + 2 ^ 64 * unat c'" "unat c' \<le> 1"
proof -
  have b: "unat x < 2 ^ 64" "unat y < 2 ^ 64" by (rule unat_u64_less)+
  have "x - y - c = x - (y + c)" by simp
  then have s: "int (unat s) = (int (unat x) - (int (unat y) + int (unat c))) mod 2 ^ 64"
    using assms(1) by (auto simp: bits_Sub64_def uint_word_ariths mod_simps diff_diff_eq simp flip: uint_nat)
  show "unat s + unat y + unat c = unat x + 2 ^ 64 * unat c'"
  proof (cases "unat x < unat y + unat c")
    case False
    then have "int (unat s) = int (unat x) - (int (unat y) + int (unat c))"
      unfolding s using b(1) by (rule sub_no_borrow)
    moreover have "2 ^ 64 * unat c' = 0" using assms(1) False by (auto simp: bits_Sub64_def)
    ultimately show ?thesis using False by linarith
  next
    case True
    have "(int (unat x) - (int (unat y) + int (unat c))) mod 2 ^ 64 =
        (int (unat x) - (int (unat y) + int (unat c)) + 2 ^ 64) mod 2 ^ 64" by (rule mod_add_self2 [symmetric])
    also have "\<dots> = int (unat x) - (int (unat y) + int (unat c)) + 2 ^ 64"
      using True b assms(2) by (rule sub_borrow)
    finally have "int (unat s) = int (unat x) - (int (unat y) + int (unat c)) + 2 ^ 64" using s by (simp only:)
    moreover have "2 ^ 64 * unat c' = 2 ^ 64" using assms(1) True by (auto simp: bits_Sub64_def)
    ultimately have "int (unat s + unat y + unat c) = int (unat x + 2 ^ 64 * unat c')" by simp
    then show ?thesis by (simp only: of_nat_eq_iff)
  qed
  show "unat c' \<le> 1" using assms(1) by (auto simp: bits_Sub64_def)
qed

lemma bits_Mul64_spec:
  assumes "bits_Mul64 x y = (hi, lo)"
  shows "2 ^ 64 * unat hi + unat lo = unat x * unat y"
proof -
  have b: "unat x < 2 ^ 64" "unat y < 2 ^ 64" by (rule unat_u64_less)+
  then have "unat x * unat y < 2 ^ 64 * 2 ^ 64" by (intro mult_strict_mono) auto
  then have "unat x * unat y div 2 ^ 64 < 2 ^ 64" by (simp add: less_mult_imp_div_less)
  then have "unat hi = unat x * unat y div 2 ^ 64" using assms by (auto simp: bits_Mul64_def unat_of_nat)
  moreover have "unat lo = unat x * unat y mod 2 ^ 64" using assms by (auto simp: bits_Mul64_def unat_word_ariths)
  ultimately show ?thesis by (metis mult_div_mod_eq)
qed

lemma uval_less: "uval z < 2 ^ 256"
  using unat_u64_less [of "limb0 z"] unat_u64_less [of "limb1 z"] unat_u64_less [of "limb2 z"] unat_u64_less [of "limb3 z"]
  by (simp add: uval_def)

lemma digit_unique:
  assumes "a + B * b = a' + B * b'" "a < B" "a' < (B::nat)"
  shows "a = a'" "b = b'"
proof -
  have "(a + B * b) mod B = a" "(a' + B * b') mod B = a'" using assms(2,3) by simp_all
  then show "a = a'" using assms(1) by simp
  have "(a + B * b) div B = b" "(a' + B * b') div B = b'" using assms(2,3) by simp_all
  then show "b = b'" using assms(1) by simp
qed

lemma uval_nest:
  "uval z = unat (limb0 z) + 2 ^ 64 * (unat (limb1 z) + 2 ^ 64 * (unat (limb2 z) + 2 ^ 64 * unat (limb3 z)))"
  by (simp add: uval_def)

lemma uval_inject: "uval x = uval y \<longleftrightarrow> x = y"
proof
  assume e: "uval x = uval y"
  note d0 = digit_unique [OF e [unfolded uval_nest] unat_u64_less unat_u64_less]
  note d1 = digit_unique [OF d0(2) unat_u64_less unat_u64_less]
  note d2 = digit_unique [OF d1(2) unat_u64_less unat_u64_less]
  from d0(1) d1(1) d2 show "x = y" by (cases x; cases y) (simp add: word_unat_eq_iff)
qed simp

subsection \<open>Addition, subtraction and comparison\<close>

lemma unat_carry: "unat c \<le> 1 \<Longrightarrow> unat c = (if c = (0 :: u64) then 0 else 1)"
  using unat_eq_0 [of c] by (cases "c = 0") auto

lemma Int_AddOverflow_spec:
  "uval (fst (Int_AddOverflow x y)) + 2 ^ 256 * (if snd (Int_AddOverflow x y) then 1 else 0) = uval x + uval y"
proof -
  obtain z0 c0 where a0: "bits_Add64 (limb0 x) (limb0 y) 0 = (z0, c0)" by force
  obtain z1 c1 where a1: "bits_Add64 (limb1 x) (limb1 y) c0 = (z1, c1)" by force
  obtain z2 c2 where a2: "bits_Add64 (limb2 x) (limb2 y) c1 = (z2, c2)" by force
  obtain z3 c3 where a3: "bits_Add64 (limb3 x) (limb3 y) c2 = (z3, c3)" by force
  have z: "unat (0 :: u64) \<le> 1" by simp
  note s0 = bits_Add64_spec [OF a0 z]
  note s1 = bits_Add64_spec [OF a1 s0(2)]
  note s2 = bits_Add64_spec [OF a2 s1(2)]
  note s3 = bits_Add64_spec [OF a3 s2(2)]
  have c3: "unat c3 = (if c3 = 0 then 0 else 1)" using s3(2) by (rule unat_carry)
  have "uval (U256 z0 z1 z2 z3) + 2 ^ 256 * unat c3 = uval x + uval y"
    using s0(1) s1(1) s2(1) s3(1) by (simp add: uval_def)
  then show ?thesis using a0 a1 a2 a3 c3 by (simp add: Int_AddOverflow_def split: if_splits)
qed

lemma Int_Add_eq: "Int_Add x y = fst (Int_AddOverflow x y)"
  by (simp add: Int_Add_def Int_AddOverflow_def Let_def split: prod.splits)

lemma uval_Add: "uval (Int_Add x y) = (uval x + uval y) mod 2 ^ 256"
proof -
  have "(uval x + uval y) mod 2 ^ 256 = (uval (Int_Add x y) + 2 ^ 256 * (if snd (Int_AddOverflow x y) then 1 else 0)) mod 2 ^ 256"
    using Int_AddOverflow_spec [of x y] by (simp add: Int_Add_eq)
  also have "\<dots> = uval (Int_Add x y) mod 2 ^ 256" by (rule mod_mult_self2)
  also have "\<dots> = uval (Int_Add x y)" by (rule mod_less [OF uval_less])
  finally show ?thesis by (rule sym)
qed

lemma Int_SubOverflow_spec:
  "uval (fst (Int_SubOverflow x y)) + uval y = uval x + 2 ^ 256 * (if snd (Int_SubOverflow x y) then 1 else 0)"
proof -
  obtain z0 c0 where a0: "bits_Sub64 (limb0 x) (limb0 y) 0 = (z0, c0)" by force
  obtain z1 c1 where a1: "bits_Sub64 (limb1 x) (limb1 y) c0 = (z1, c1)" by force
  obtain z2 c2 where a2: "bits_Sub64 (limb2 x) (limb2 y) c1 = (z2, c2)" by force
  obtain z3 c3 where a3: "bits_Sub64 (limb3 x) (limb3 y) c2 = (z3, c3)" by force
  have z: "unat (0 :: u64) \<le> 1" by simp
  note s0 = bits_Sub64_spec [OF a0 z]
  note s1 = bits_Sub64_spec [OF a1 s0(2)]
  note s2 = bits_Sub64_spec [OF a2 s1(2)]
  note s3 = bits_Sub64_spec [OF a3 s2(2)]
  have c3: "unat c3 = (if c3 = 0 then 0 else 1)" using s3(2) by (rule unat_carry)
  have "uval (U256 z0 z1 z2 z3) + uval y = uval x + 2 ^ 256 * unat c3"
    using s0(1) s1(1) s2(1) s3(1) by (simp add: uval_def)
  then show ?thesis using a0 a1 a2 a3 c3 by (simp add: Int_SubOverflow_def split: if_splits)
qed

lemma Int_Sub_eq: "Int_Sub x y = fst (Int_SubOverflow x y)"
  by (simp add: Int_Sub_def Int_SubOverflow_def Let_def split: prod.splits)

lemma Int_SubOverflow_iff: "snd (Int_SubOverflow x y) \<longleftrightarrow> uval x < uval y"
  using Int_SubOverflow_spec [of x y] uval_less [of "fst (Int_SubOverflow x y)"] by (auto split: if_splits)

lemma Int_Lt_iff: "Int_Lt x y \<longleftrightarrow> uval x < uval y"
proof -
  have "Int_Lt x y = snd (Int_SubOverflow x y)"
    by (simp add: Int_Lt_def Int_SubOverflow_def Let_def split: prod.splits)
  then show ?thesis by (simp add: Int_SubOverflow_iff)
qed

lemma uval_Sub: "int (uval (Int_Sub x y)) = (int (uval x) - int (uval y)) mod 2 ^ 256"
proof -
  let ?o = "if snd (Int_SubOverflow x y) then 1 else 0 :: int"
  have "int (uval (Int_Sub x y)) = int (uval x) - int (uval y) + 2 ^ 256 * ?o"
    using Int_SubOverflow_spec [of x y] by (auto simp: Int_Sub_eq)
  then have "(int (uval x) - int (uval y)) mod 2 ^ 256 = int (uval (Int_Sub x y)) mod 2 ^ 256" by simp
  then show ?thesis using uval_less [of "Int_Sub x y"] by simp
qed

lemma Int_Sub_le: "uval y \<le> uval x \<Longrightarrow> uval (Int_Sub x y) = uval x - uval y"
  using Int_SubOverflow_spec [of x y] Int_SubOverflow_iff [of x y] by (simp add: Int_Sub_eq)

lemma Int_Gt_iff: "Int_Gt x y \<longleftrightarrow> uval y < uval x"
  by (simp add: Int_Gt_def Int_Lt_iff)

lemma Int_Eq_iff: "Int_Eq x y \<longleftrightarrow> x = y"
  by (cases x; cases y) (auto simp: Int_Eq_def)

lemma Int_Cmp_eq: "Int_Cmp x y = (if uval y < uval x then 1 else if uval x < uval y then - 1 else 0)"
  by (simp add: Int_Cmp_def Int_Gt_iff Int_Lt_iff)

lemma or_zero_iff: "(a OR b) = 0 \<longleftrightarrow> a = 0 \<and> b = (0 :: 'a::len word)"
  by (metis or.left_neutral or.right_neutral or_eq_0_iff)

lemma Int_IsZero_iff: "Int_IsZero x \<longleftrightarrow> uval x = 0"
  by (auto simp: Int_IsZero_def or_zero_iff uval_def unat_eq_0)

lemma Int_IsUint64_iff: "Int_IsUint64 x \<longleftrightarrow> uval x < 2 ^ 64"
proof
  assume "Int_IsUint64 x"
  then have "uval x = unat (limb0 x)" by (simp add: Int_IsUint64_def or_zero_iff uval_def)
  then show "uval x < 2 ^ 64" using unat_u64_less [of "limb0 x"] by simp
next
  assume "uval x < 2 ^ 64"
  then have "unat (limb1 x) = 0 \<and> unat (limb2 x) = 0 \<and> unat (limb3 x) = 0" by (simp add: uval_def)
  then show "Int_IsUint64 x" by (simp add: Int_IsUint64_def unat_eq_0)
qed

lemma uval_SetUint64 [simp]: "uval (Int_SetUint64 w) = unat w"
  by (simp add: Int_SetUint64_def uval_def)

lemma uval_consts [simp]: "uval Int_Clear = 0" "uval Int_SetOne = 1" "uval Int_SetAllOne = 2 ^ 256 - 1"
  by (simp_all add: Int_Clear_def Int_SetOne_def Int_SetAllOne_def uval_def unat_max_u64)

lemma Int_Uint64_small: "uval x < 2 ^ 64 \<Longrightarrow> unat (Int_Uint64 x) = uval x"
  using Int_IsUint64_iff [of x] by (simp add: Int_IsUint64_def or_zero_iff uval_def Int_Uint64_def)

end
