(* ===== verification/Uint256_Arith.thy ===== *)
theory Uint256_Arith
  imports Uint256
begin

text \<open>
  Arithmetic meaning of the limb operations of \<^verbatim>\<open>uint256.go\<close>: products, squares, powers and
  shifts of the four limbs are the products, squares, powers and shifts of the value modulo
  \<open>2\<^sup>2\<^sup>5\<^sup>6\<close>.  \<^verbatim>\<open>wval\<close> is the value of a list of limbs of any length, as the
  512-bit product and the division routines use them.
\<close>

subsection \<open>Multiplication\<close>

lemma mul64_bound: "unat (x :: u64) * unat (y :: u64) \<le> (2 ^ 64 - 1) * (2 ^ 64 - 1)"
proof -
  have "unat x \<le> 2 ^ 64 - 1" "unat y \<le> 2 ^ 64 - 1" using unat_u64_less [of x] unat_u64_less [of y] by auto
  then show ?thesis by (intro mult_le_mono)
qed

lemma umulHop_spec:
  assumes "umulHop z x y = (hi, lo)"
  shows "2 ^ 64 * unat hi + unat lo = unat z + unat x * unat y"
proof -
  obtain h l where m: "bits_Mul64 x y = (h, l)" by force
  obtain l' c where a: "bits_Add64 l z 0 = (l', c)" by force
  obtain h' c' where b: "bits_Add64 h 0 c = (h', c')" by force
  have z: "unat (0 :: u64) \<le> 1" by simp
  have r: "hi = h'" "lo = l'" using assms m a b by (simp_all add: umulHop_def)
  note ms = bits_Mul64_spec [OF m] and as = bits_Add64_spec [OF a z]
  note bs = bits_Add64_spec [OF b as(2)]
  have "unat z < 2 ^ 64" by (rule unat_u64_less)
  then have "unat c' = 0" using ms as bs mul64_bound [of x y] by simp
  then show ?thesis using ms as bs r by simp
qed

lemma umulStep_spec:
  assumes "umulStep z x y carry = (hi, lo)"
  shows "2 ^ 64 * unat hi + unat lo = unat z + unat x * unat y + unat carry"
proof -
  obtain h l where m: "bits_Mul64 x y = (h, l)" by force
  obtain l1 c1 where a: "bits_Add64 l carry 0 = (l1, c1)" by force
  obtain h1 d1 where b: "bits_Add64 h 0 c1 = (h1, d1)" by force
  obtain l2 c2 where c: "bits_Add64 l1 z 0 = (l2, c2)" by force
  obtain h2 d2 where d: "bits_Add64 h1 0 c2 = (h2, d2)" by force
  have z: "unat (0 :: u64) \<le> 1" by simp
  have r: "hi = h2" "lo = l2" using assms m a b c d by (simp_all add: umulStep_def)
  note ms = bits_Mul64_spec [OF m] and as = bits_Add64_spec [OF a z] and cs = bits_Add64_spec [OF c z]
  note bs = bits_Add64_spec [OF b as(2)] and ds = bits_Add64_spec [OF d cs(2)]
  have lt: "unat z < 2 ^ 64" "unat carry < 2 ^ 64" by (rule unat_u64_less)+
  have "unat d1 = 0" using ms as bs mul64_bound [of x y] lt by simp
  moreover have "unat d2 = 0" using ms as bs cs ds mul64_bound [of x y] lt by simp
  ultimately show ?thesis using ms as bs cs ds r by simp
qed

definition wval :: "u64 list \<Rightarrow> nat" where
  "wval ws = foldr (\<lambda>w n. unat w + 2 ^ 64 * n) ws 0"

lemma wval_simps [simp]: "wval [] = 0" "wval (w # ws) = unat w + 2 ^ 64 * wval ws"
  by (simp_all add: wval_def)

lemma umul_spec: "wval (umul x y) = uval x * uval y" "length (umul x y) = 8"
proof -
  let ?x0 = "limb0 x" let ?x1 = "limb1 x" let ?x2 = "limb2 x" let ?x3 = "limb3 x"
  let ?y0 = "limb0 y" let ?y1 = "limb1 y" let ?y2 = "limb2 y" let ?y3 = "limb3 y"
  obtain c0 r0 where a0: "bits_Mul64 ?x0 ?y0 = (c0, r0)" by force
  obtain c1 p1 where a1: "umulHop c0 ?x1 ?y0 = (c1, p1)" by force
  obtain c2 p2 where a2: "umulHop c1 ?x2 ?y0 = (c2, p2)" by force
  obtain c4 p3 where a3: "umulHop c2 ?x3 ?y0 = (c4, p3)" by force
  obtain d0 r1 where b0: "umulHop p1 ?x0 ?y1 = (d0, r1)" by force
  obtain d1 q2 where b1: "umulStep p2 ?x1 ?y1 d0 = (d1, q2)" by force
  obtain d2 q3 where b2: "umulStep p3 ?x2 ?y1 d1 = (d2, q3)" by force
  obtain c5 q4 where b3: "umulStep c4 ?x3 ?y1 d2 = (c5, q4)" by force
  obtain e0 r2 where f0: "umulHop q2 ?x0 ?y2 = (e0, r2)" by force
  obtain e1 s3 where f1: "umulStep q3 ?x1 ?y2 e0 = (e1, s3)" by force
  obtain e2 s4 where f2: "umulStep q4 ?x2 ?y2 e1 = (e2, s4)" by force
  obtain c6 s5 where f3: "umulStep c5 ?x3 ?y2 e2 = (c6, s5)" by force
  obtain g0 r3 where h0: "umulHop s3 ?x0 ?y3 = (g0, r3)" by force
  obtain g1 r4 where h1: "umulStep s4 ?x1 ?y3 g0 = (g1, r4)" by force
  obtain g2 r5 where h2: "umulStep s5 ?x2 ?y3 g1 = (g2, r5)" by force
  obtain r7 r6 where h3: "umulStep c6 ?x3 ?y3 g2 = (r7, r6)" by force
  have u: "umul x y = [r0, r1, r2, r3, r4, r5, r6, r7]"
    by (simp add: umul_def Let_def a0 a1 a2 a3 b0 b1 b2 b3 f0 f1 f2 f3 h0 h1 h2 h3)
  note eqs = bits_Mul64_spec [OF a0] umulHop_spec [OF a1] umulHop_spec [OF a2] umulHop_spec [OF a3]
    umulHop_spec [OF b0] umulStep_spec [OF b1] umulStep_spec [OF b2] umulStep_spec [OF b3]
    umulHop_spec [OF f0] umulStep_spec [OF f1] umulStep_spec [OF f2] umulStep_spec [OF f3]
    umulHop_spec [OF h0] umulStep_spec [OF h1] umulStep_spec [OF h2] umulStep_spec [OF h3]
  show "wval (umul x y) = uval x * uval y"
    unfolding u using eqs by (simp add: uval_def algebra_simps)
  show "length (umul x y) = 8" by (simp add: u)
qed

lemma mod_digit:
  assumes "z + B * t = v" "z < (B::nat)"
  shows "v mod B = z"
  using assms by (metis mod_less mod_mult_self2)

lemma uval_Mul: "uval (Int_Mul x y) = (uval x * uval y) mod 2 ^ 256"
proof -
  let ?x0 = "limb0 x" let ?x1 = "limb1 x" let ?x2 = "limb2 x" let ?x3 = "limb3 x"
  let ?y0 = "limb0 y" let ?y1 = "limb1 y" let ?y2 = "limb2 y" let ?y3 = "limb3 y"
  obtain c0 r0 where a0: "bits_Mul64 ?x0 ?y0 = (c0, r0)" by force
  obtain c1 p1 where a1: "umulHop c0 ?x1 ?y0 = (c1, p1)" by force
  obtain c2 p2 where a2: "umulHop c1 ?x2 ?y0 = (c2, p2)" by force
  obtain d0 r1 where b0: "umulHop p1 ?x0 ?y1 = (d0, r1)" by force
  obtain d1 q2 where b1: "umulStep p2 ?x1 ?y1 d0 = (d1, q2)" by force
  obtain e0 r2 where f0: "umulHop q2 ?x0 ?y2 = (e0, r2)" by force
  define r3 where "r3 = ?x3 * ?y0 + c2 + ?x2 * ?y1 + d1 + ?x1 * ?y2 + e0 + ?x0 * ?y3"
  define T where "T = unat ?x3 * unat ?y0 + unat c2 + unat ?x2 * unat ?y1 + unat d1 + unat ?x1 * unat ?y2 + unat e0 + unat ?x0 * unat ?y3"
  have u: "Int_Mul x y = U256 r0 r1 r2 r3"
    by (simp add: Int_Mul_def Let_def a0 a1 a2 b0 b1 f0 r3_def)
  note eqs = bits_Mul64_spec [OF a0] umulHop_spec [OF a1] umulHop_spec [OF a2]
    umulHop_spec [OF b0] umulStep_spec [OF b1] umulHop_spec [OF f0]
  have "r3 = of_nat T" by (simp add: r3_def T_def)
  then have "unat r3 = T mod 2 ^ 64" by (simp add: unat_of_nat)
  then have T: "T = unat r3 + 2 ^ 64 * (T div 2 ^ 64)" by (metis mod_mult_div_eq)
  define H where "H = unat ?x3 * unat ?y1 + unat ?x2 * unat ?y2 + unat ?x1 * unat ?y3 +
    2 ^ 64 * (unat ?x3 * unat ?y2 + unat ?x2 * unat ?y3) + 2 ^ 128 * (unat ?x3 * unat ?y3)"
  have low: "unat r0 + 2 ^ 64 * unat r1 + 2 ^ 128 * unat r2 + 2 ^ 192 * T + 2 ^ 256 * H = uval x * uval y"
    unfolding T_def H_def using eqs by (simp add: uval_def algebra_simps)
  have "uval (U256 r0 r1 r2 r3) + 2 ^ 256 * (T div 2 ^ 64 + H) = uval x * uval y"
    using low T by (simp add: uval_def algebra_simps)
  then show ?thesis unfolding u using uval_less mod_digit by metis
qed

lemma uval_squared: "uval (Int_squared z) = (uval z * uval z) mod 2 ^ 256"
proof -
  let ?z0 = "limb0 z" let ?z1 = "limb1 z" let ?z2 = "limb2 z" let ?z3 = "limb3 z"
  obtain c0 r0 where a0: "bits_Mul64 ?z0 ?z0 = (c0, r0)" by force
  obtain c1 p1 where a1: "umulHop c0 ?z0 ?z1 = (c1, p1)" by force
  obtain c2 p2 where a2: "umulHop c1 ?z0 ?z2 = (c2, p2)" by force
  obtain d0 r1 where b0: "umulHop p1 ?z0 ?z1 = (d0, r1)" by force
  obtain d1 q2 where b1: "umulStep p2 ?z1 ?z1 d0 = (d1, q2)" by force
  obtain e0 r2 where f0: "umulHop q2 ?z0 ?z2 = (e0, r2)" by force
  define r3 where "r3 = 2 * (?z0 * ?z3 + ?z1 * ?z2) + c2 + d1 + e0"
  define T where "T = 2 * (unat ?z0 * unat ?z3 + unat ?z1 * unat ?z2) + unat c2 + unat d1 + unat e0"
  have u: "Int_squared z = U256 r0 r1 r2 r3"
    by (simp add: Int_squared_def Let_def a0 a1 a2 b0 b1 f0 r3_def)
  note eqs = bits_Mul64_spec [OF a0] umulHop_spec [OF a1] umulHop_spec [OF a2]
    umulHop_spec [OF b0] umulStep_spec [OF b1] umulHop_spec [OF f0]
  have "r3 = of_nat T" by (simp add: r3_def T_def)
  then have "unat r3 = T mod 2 ^ 64" by (simp add: unat_of_nat)
  then have T: "T = unat r3 + 2 ^ 64 * (T div 2 ^ 64)" by (metis mod_mult_div_eq)
  define H where "H = 2 * (unat ?z3 * unat ?z1) + unat ?z2 * unat ?z2 +
    2 ^ 64 * (2 * (unat ?z3 * unat ?z2)) + 2 ^ 128 * (unat ?z3 * unat ?z3)"
  have low: "unat r0 + 2 ^ 64 * unat r1 + 2 ^ 128 * unat r2 + 2 ^ 192 * T + 2 ^ 256 * H = uval z * uval z"
    unfolding T_def H_def using eqs by (simp add: uval_def algebra_simps)
  have "uval (U256 r0 r1 r2 r3) + 2 ^ 256 * (T div 2 ^ 64 + H) = uval z * uval z"
    using low T by (simp add: uval_def algebra_simps)
  then show ?thesis unfolding u using uval_less mod_digit by metis
qed

subsection \<open>Exponentiation\<close>

lemma nat_len_less: "n < 2 ^ nat_len n"
proof (induction n rule: nat_len.induct)
  case (1 n)
  then show ?case by (subst nat_len.simps) auto
qed

lemma nat_len_le: "n < 2 ^ k \<Longrightarrow> nat_len n \<le> k"
proof (induction k arbitrary: n)
  case 0
  then show ?case by (subst nat_len.simps) simp
next
  case (Suc k)
  then show ?case by (subst nat_len.simps) simp
qed

lemma nat_len_ge: "2 ^ k \<le> n \<Longrightarrow> k < nat_len n"
  using nat_len_less [of n] by (meson le_less_trans not_le power_increasing_iff numeral_One one_less_numeral_iff semiring_norm(76) power_strict_increasing_iff)

lemma Len64_bounds: "unat w < 2 ^ bits_Len64 w" "bits_Len64 w \<le> 64" "w \<noteq> 0 \<Longrightarrow> 0 < bits_Len64 w"
  using nat_len_less [of "unat w"] nat_len_le [of "unat w" 64] unat_u64_less [of w] nat_len_ge [of 0 "unat w"]
  by (auto simp: bits_Len64_def unat_gt_0 Suc_le_eq)

lemma odd_and_1: "((w :: u64) AND 1 = 1) = (unat w mod 2 = 1)"
proof -
  have "(w AND 1 = 1) = bit w 0" by (simp add: and_one_eq mod_2_eq_odd bit_0)
  also have "bit w 0 = bit (unat w) 0" by (simp add: bit_unsigned_iff)
  finally show ?thesis by (simp add: bit_0 odd_iff_mod_2_eq_one)
qed

lemma unat_half: "unat (drop_bit 1 (w :: u64)) = unat w div 2"
  unfolding unat_drop_bit_eq by (simp add: drop_bit_eq_div)

lemma exp_loop_spec:
  assumes "exp_loop e l c w r m = (c', r', m')"
  shows "c' = c + (min e l - c) \<and> uval r' = uval r * uval m ^ (unat w mod 2 ^ (min e l - c)) mod 2 ^ 256 \<and>
    uval m' = uval m ^ 2 ^ (min e l - c) mod 2 ^ 256"
  using assms
proof (induction e l c w r m arbitrary: c' r' m' rule: exp_loop.induct)
  case (1 e l c w r m)
  let ?k = "min e l - c" and ?k' = "min e l - (c + 1)"
  show ?case
  proof (cases "c < e \<and> c < l")
    case False
    then have "?k = 0" by auto
    moreover have "c' = c" "r' = r" "m' = m" using "1.prems" False by (auto simp: exp_loop.simps [of e l c])
    ultimately show ?thesis using uval_less by simp
  next
    case True
    then have k: "?k = Suc ?k'" by auto
    let ?r = "if w AND 1 = 1 then Int_Mul r m else r"
    have st: "exp_loop e l (c + 1) (drop_bit 1 w) ?r (Int_squared m) = (c', r', m')"
      using "1.prems" True by (simp add: exp_loop.simps [of e l c])
    note IH = "1.IH" [OF True st]
    have sq: "uval (Int_squared m) ^ n mod 2 ^ 256 = uval m ^ (2 * n) mod 2 ^ 256" for n
      by (simp add: uval_squared power_mod power_mult power2_eq_square)
    have rr: "uval ?r mod 2 ^ 256 = uval r * uval m ^ (unat w mod 2) mod 2 ^ 256"
      by (cases "unat w mod 2 = 1") (auto simp: odd_and_1 uval_Mul)
    have w: "unat w mod 2 ^ ?k = unat w mod 2 + 2 * (unat (drop_bit 1 w) mod 2 ^ ?k')"
      unfolding k unat_half by (simp add: mod_mult2_eq)
    have "uval r' = uval ?r * uval (Int_squared m) ^ (unat (drop_bit 1 w) mod 2 ^ ?k') mod 2 ^ 256"
      using IH by blast
    also have "\<dots> = (uval ?r mod 2 ^ 256) * (uval (Int_squared m) ^ (unat (drop_bit 1 w) mod 2 ^ ?k') mod 2 ^ 256) mod 2 ^ 256"
      by (rule mod_mult_eq [symmetric])
    also have "\<dots> = uval r * uval m ^ (unat w mod 2) * uval m ^ (2 * (unat (drop_bit 1 w) mod 2 ^ ?k')) mod 2 ^ 256"
      unfolding rr sq by (rule mod_mult_eq)
    finally have "uval r' = uval r * uval m ^ (unat w mod 2 ^ ?k) mod 2 ^ 256"
      unfolding w power_add mult.assoc .
    moreover have "uval m' = uval m ^ 2 ^ ?k mod 2 ^ 256"
      using IH sq [of "2 ^ ?k'"] unfolding k by simp
    moreover have "c' = c + ?k" using IH k by simp
    ultimately show ?thesis by blast
  qed
qed

lemma BitLen_split:
  "(limb3 z \<noteq> 0 \<longrightarrow> Int_BitLen z = 192 + bits_Len64 (limb3 z)) \<and>
   (limb3 z = 0 \<and> limb2 z \<noteq> 0 \<longrightarrow> Int_BitLen z = 128 + bits_Len64 (limb2 z)) \<and>
   (limb3 z = 0 \<and> limb2 z = 0 \<and> limb1 z \<noteq> 0 \<longrightarrow> Int_BitLen z = 64 + bits_Len64 (limb1 z)) \<and>
   (limb3 z = 0 \<and> limb2 z = 0 \<and> limb1 z = 0 \<longrightarrow> Int_BitLen z = bits_Len64 (limb0 z))"
  by (simp add: Int_BitLen_def)

lemma Len64_mod: "bits_Len64 w \<le> k \<Longrightarrow> unat w mod 2 ^ k = unat w"
  by (rule mod_less, rule less_le_trans [OF Len64_bounds(1)]) (simp add: power_increasing)

lemma unat_mod64 [simp]: "unat (w :: u64) mod 18446744073709551616 = unat w"
  using unat_u64_less [of w] by simp

lemma exp_segments:
  fixes e :: U256
  defines "L \<equiv> Int_BitLen e"
  shows "unat (limb0 e) mod 2 ^ min L 64 +
     2 ^ min L 64 * (unat (limb1 e) mod 2 ^ (min L 128 - min L 64) +
       2 ^ (min L 128 - min L 64) * (unat (limb2 e) mod 2 ^ (min L 192 - min L 128) +
         2 ^ (min L 192 - min L 128) * (unat (limb3 e) mod 2 ^ (min L 256 - min L 192)))) = uval e"
proof -
  note b = Len64_bounds [of "limb0 e"] Len64_bounds [of "limb1 e"] Len64_bounds [of "limb2 e"] Len64_bounds [of "limb3 e"]
  consider (3) "limb3 e \<noteq> 0" | (2) "limb3 e = 0" "limb2 e \<noteq> 0" | (1) "limb3 e = 0" "limb2 e = 0" "limb1 e \<noteq> 0"
    | (0) "limb3 e = 0" "limb2 e = 0" "limb1 e = 0" by blast
  then show ?thesis
  proof cases
    case 3
    then have L: "L = 192 + bits_Len64 (limb3 e)" using BitLen_split [of e] by (simp add: L_def)
    then have "min L 64 = 64" "min L 128 = 128" "min L 192 = 192" "min L 256 - 192 = bits_Len64 (limb3 e)" using b by auto
    then show ?thesis by (simp add: Len64_mod uval_def)
  next
    case 2
    then have L: "L = 128 + bits_Len64 (limb2 e)" using BitLen_split [of e] by (simp add: L_def)
    then have "min L 64 = 64" "min L 128 = 128" "min L 192 = L" "min L 256 = L" "L - 128 = bits_Len64 (limb2 e)" using b by auto
    then show ?thesis using 2 by (simp add: Len64_mod uval_def)
  next
    case 1
    then have L: "L = 64 + bits_Len64 (limb1 e)" using BitLen_split [of e] by (simp add: L_def)
    then have "min L 64 = 64" "min L 128 = L" "min L 192 = L" "min L 256 = L" "L - 64 = bits_Len64 (limb1 e)" using b by auto
    then show ?thesis using 1 by (simp add: Len64_mod uval_def)
  next
    case 0
    then have L: "L = bits_Len64 (limb0 e)" using BitLen_split [of e] by (simp add: L_def)
    then have "min L 64 = L" "min L 128 = L" "min L 192 = L" "min L 256 = L" using b by auto
    then show ?thesis using 0 L by (simp add: Len64_mod uval_def)
  qed
qed

lemma pow_step:
  "(r * m ^ a mod M) * (m ^ 2 ^ k mod M) ^ b mod M = r * m ^ (a + 2 ^ k * b) mod (M::nat)"
proof -
  have "(r * m ^ a mod M) * (m ^ 2 ^ k mod M) ^ b mod M = (r * m ^ a mod M) * ((m ^ 2 ^ k mod M) ^ b mod M) mod M"
    by (rule mod_mult_right_eq [symmetric])
  also have "\<dots> = (r * m ^ a mod M) * ((m ^ 2 ^ k) ^ b mod M) mod M" by (simp only: power_mod)
  also have "\<dots> = r * m ^ a * (m ^ 2 ^ k) ^ b mod M" by (rule mod_mult_eq)
  finally show ?thesis by (simp only: power_add power_mult mult.assoc)
qed

lemma pow_mult_step: "(m ^ 2 ^ j mod M) ^ 2 ^ k mod M = m ^ 2 ^ (j + k) mod (M::nat)"
  by (simp add: power_mod power_mult power_add)

lemma uval_Exp: "uval (Int_Exp x e) = uval x ^ uval e mod 2 ^ 256"
proof -
  let ?L = "Int_BitLen e" and ?M = "2 ^ 256 :: nat"
  obtain c0 r0 m0 where s0: "exp_loop ?L 64 0 (limb0 e) (U256 1 0 0 0) x = (c0, r0, m0)" by (metis prod_cases3)
  obtain c1 r1 m1 where s1: "exp_loop ?L 128 c0 (limb1 e) r0 m0 = (c1, r1, m1)" by (metis prod_cases3)
  obtain c2 r2 m2 where s2: "exp_loop ?L 192 c1 (limb2 e) r1 m1 = (c2, r2, m2)" by (metis prod_cases3)
  obtain c3 r3 m3 where s3: "exp_loop ?L 256 c2 (limb3 e) r2 m2 = (c3, r3, m3)" by (metis prod_cases3)
  note p0 = exp_loop_spec [OF s0] and p1 = exp_loop_spec [OF s1] and p2 = exp_loop_spec [OF s2] and p3 = exp_loop_spec [OF s3]
  define k1 k2 k3 where "k1 = min ?L 128 - min ?L 64" "k2 = min ?L 192 - min ?L 128" "k3 = min ?L 256 - min ?L 192"
  define a0 a1 a2 a3 where "a0 = unat (limb0 e) mod 2 ^ min ?L 64" "a1 = unat (limb1 e) mod 2 ^ k1"
    "a2 = unat (limb2 e) mod 2 ^ k2" "a3 = unat (limb3 e) mod 2 ^ k3"
  have c: "c0 = min ?L 64" "c1 = min ?L 128" "c2 = min ?L 192" using p0 p1 p2 by auto
  have one: "uval (U256 1 0 0 0) = 1" by (simp add: uval_def)
  have r0: "uval r0 = 1 * uval x ^ a0 mod ?M" "uval m0 = uval x ^ 2 ^ min ?L 64 mod ?M"
    using p0 by (simp_all add: one a0_a1_a2_a3_def)
  have r1: "uval r1 = uval r0 * uval m0 ^ a1 mod ?M" "uval m1 = uval m0 ^ 2 ^ k1 mod ?M"
    using p1 c by (simp_all add: a0_a1_a2_a3_def k1_k2_k3_def)
  have r2: "uval r2 = uval r1 * uval m1 ^ a2 mod ?M" "uval m2 = uval m1 ^ 2 ^ k2 mod ?M"
    using p2 c by (simp_all add: a0_a1_a2_a3_def k1_k2_k3_def)
  have r3: "uval r3 = uval r2 * uval m2 ^ a3 mod ?M"
    using p3 c by (simp_all add: a0_a1_a2_a3_def k1_k2_k3_def)
  have m1: "uval m1 = uval x ^ 2 ^ (min ?L 64 + k1) mod ?M" unfolding r1 r0 by (rule pow_mult_step)
  have m2: "uval m2 = uval x ^ 2 ^ (min ?L 64 + k1 + k2) mod ?M" unfolding r2 m1 by (rule pow_mult_step)
  have R1: "uval r1 = 1 * uval x ^ (a0 + 2 ^ min ?L 64 * a1) mod ?M" unfolding r1(1) r0 by (rule pow_step)
  have R2: "uval r2 = 1 * uval x ^ (a0 + 2 ^ min ?L 64 * a1 + 2 ^ (min ?L 64 + k1) * a2) mod ?M"
    unfolding r2(1) R1 m1 by (rule pow_step)
  have R3: "uval r3 = 1 * uval x ^ (a0 + 2 ^ min ?L 64 * a1 + 2 ^ (min ?L 64 + k1) * a2 + 2 ^ (min ?L 64 + k1 + k2) * a3) mod ?M"
    unfolding r3(1) R2 m2 by (rule pow_step)
  have "a0 + 2 ^ min ?L 64 * a1 + 2 ^ (min ?L 64 + k1) * a2 + 2 ^ (min ?L 64 + k1 + k2) * a3 = uval e"
    using exp_segments [of e] by (simp add: a0_a1_a2_a3_def k1_k2_k3_def power_add algebra_simps)
  moreover have "Int_Exp x e = r3" by (simp add: Int_Exp_def Let_def s0 s1 s2 s3)
  ultimately show ?thesis using R3 by simp
qed

subsection \<open>Shifts\<close>

lemma unat_push: "unat (push_bit n (w :: u64)) = (unat w * 2 ^ n) mod 2 ^ 64"
  unfolding unsigned_push_bit_eq by (simp add: take_bit_eq_mod push_bit_eq_mult)

lemma unat_drop: "unat (drop_bit n (w :: u64)) = unat w div 2 ^ n"
  unfolding unat_drop_bit_eq by (simp add: drop_bit_eq_div)

lemma bit_u64: "bit (w :: u64) i \<Longrightarrow> i < 64"
  using bit_imp_le_length [of w i] by simp

lemma unat_disjoint_or:
  assumes "\<And>i. \<not> bit a i \<or> \<not> bit (b :: u64) i"
  shows "unat (a OR b) = unat a + unat b"
proof -
  have "unat a + unat b = (unat a OR unat b)"
    by (rule disjunctive_add) (use assms in \<open>simp add: bit_unsigned_iff\<close>)
  then show ?thesis by (simp add: unsigned_or_eq)
qed

lemma unat_shl_or:
  assumes "n \<le> 64"
  shows "unat (push_bit n a OR drop_bit (64 - n) (b :: u64)) = (unat a * 2 ^ n) mod 2 ^ 64 + unat b div 2 ^ (64 - n)"
proof -
  have "\<not> bit (push_bit n a) i \<or> \<not> bit (drop_bit (64 - n) b) i" for i
    using assms bit_u64 [of b "64 - n + i"] by (auto simp: bit_push_bit_iff bit_drop_bit_eq comp_def)
  then show ?thesis by (simp only: unat_disjoint_or unat_push unat_drop)
qed

lemma unat_shr_or:
  assumes "n \<le> 64"
  shows "unat (drop_bit n a OR push_bit (64 - n) (b :: u64)) = unat a div 2 ^ n + (unat b * 2 ^ (64 - n)) mod 2 ^ 64"
proof -
  have "unat (push_bit (64 - n) b OR drop_bit (64 - (64 - n)) a) = (unat b * 2 ^ (64 - n)) mod 2 ^ 64 + unat a div 2 ^ (64 - (64 - n))"
    by (rule unat_shl_or) simp
  then show ?thesis using assms by (simp add: or.commute add.commute)
qed

lemma shl_carry:
  assumes "n \<le> 64"
  shows "(a * 2 ^ n) mod 2 ^ 64 + 2 ^ 64 * (a div 2 ^ (64 - n)) = a * (2 :: nat) ^ n"
proof -
  have p: "(2 :: nat) ^ 64 = 2 ^ (64 - n) * 2 ^ n" using assms by (simp flip: power_add)
  have "a * 2 ^ n div 2 ^ 64 = a div 2 ^ (64 - n)" unfolding p by simp
  then show ?thesis by (metis mod_mult_div_eq)
qed

lemma shr_low:
  assumes "n \<le> 64"
  shows "(b * 2 ^ (64 - n)) mod 2 ^ 64 = (b mod 2 ^ n) * (2 :: nat) ^ (64 - n)"
proof -
  have p: "(2 :: nat) ^ 64 = 2 ^ n * 2 ^ (64 - n)" using assms by (simp flip: power_add)
  show ?thesis unfolding p by (rule mult_mod_left [symmetric])
qed

text \<open>One step of a multi-limb shift, as an equation between naturals.\<close>

lemma shl_limb:
  assumes "n \<le> 64"
  shows "unat (push_bit n a OR drop_bit (64 - n) (b :: u64)) + 2 ^ 64 * (unat a div 2 ^ (64 - n)) =
    unat a * 2 ^ n + unat b div 2 ^ (64 - n)"
  using unat_shl_or [OF assms, of a b] shl_carry [OF assms, of "unat a"] by linarith

lemma shl_limb0:
  assumes "n \<le> 64"
  shows "unat (push_bit n (a :: u64)) + 2 ^ 64 * (unat a div 2 ^ (64 - n)) = unat a * 2 ^ n"
  using shl_carry [OF assms, of "unat a"] by (simp only: unat_push)

definition lsh_small :: "U256 \<Rightarrow> nat \<Rightarrow> U256" where
  "lsh_small x n = U256 (push_bit n (limb0 x)) (push_bit n (limb1 x) OR drop_bit (64 - n) (limb0 x))
      (push_bit n (limb2 x) OR drop_bit (64 - n) (limb1 x)) (push_bit n (limb3 x) OR drop_bit (64 - n) (limb2 x))"

lemma uval_lsh_small:
  assumes "n \<le> 64"
  shows "uval (lsh_small x n) = (uval x * 2 ^ n) mod 2 ^ 256"
proof -
  define P where "P = (2 :: nat) ^ n"
  define d0 d1 d2 d3 where "d0 = unat (limb0 x) div 2 ^ (64 - n)" "d1 = unat (limb1 x) div 2 ^ (64 - n)"
    "d2 = unat (limb2 x) div 2 ^ (64 - n)" "d3 = unat (limb3 x) div 2 ^ (64 - n)"
  note e = shl_limb0 [OF assms, of "limb0 x"] shl_limb [OF assms, of "limb1 x" "limb0 x"]
    shl_limb [OF assms, of "limb2 x" "limb1 x"] shl_limb [OF assms, of "limb3 x" "limb2 x"]
  have "uval (lsh_small x n) + 2 ^ 256 * d3 = uval x * P"
    using e unfolding d0_d1_d2_d3_def [symmetric] P_def [symmetric] by (simp add: uval_def lsh_small_def algebra_simps)
  then show ?thesis using uval_less mod_digit unfolding P_def by metis
qed

lemma uval_lsh_limbs:
  "uval (lsh64 x) = (uval x * 2 ^ 64) mod 2 ^ 256" "uval (lsh128 x) = (uval x * 2 ^ 128) mod 2 ^ 256"
  "uval (lsh192 x) = (uval x * 2 ^ 192) mod 2 ^ 256"
proof -
  have "uval (lsh64 x) + 2 ^ 256 * unat (limb3 x) = uval x * 2 ^ 64" by (simp add: lsh64_def uval_def)
  then show "uval (lsh64 x) = (uval x * 2 ^ 64) mod 2 ^ 256" using uval_less mod_digit by metis
  have "uval (lsh128 x) + 2 ^ 256 * (unat (limb2 x) + 2 ^ 64 * unat (limb3 x)) = uval x * 2 ^ 128"
    by (simp add: lsh128_def uval_def)
  then show "uval (lsh128 x) = (uval x * 2 ^ 128) mod 2 ^ 256" using uval_less mod_digit by metis
  have "uval (lsh192 x) + 2 ^ 256 * (unat (limb1 x) + 2 ^ 64 * unat (limb2 x) + 2 ^ 128 * unat (limb3 x)) = uval x * 2 ^ 192"
    by (simp add: lsh192_def uval_def)
  then show "uval (lsh192 x) = (uval x * 2 ^ 192) mod 2 ^ 256" using uval_less mod_digit by metis
qed

lemma shift_cases:
  obtains "n = 0" | "n = (64::nat)" | "n = 128" | "n = 192" | "256 \<le> n"
  | "n mod 64 \<noteq> 0" "n < 64" | "n mod 64 \<noteq> 0" "64 < n" "n < 128" | "n mod 64 \<noteq> 0" "128 < n" "n < 192"
  | "n mod 64 \<noteq> 0" "192 < n" "n < 256"
proof -
  have "n = 0 \<or> n = 64 \<or> n = 128 \<or> n = 192 \<or> 256 \<le> n \<or> n mod 64 \<noteq> 0 \<and> n < 64 \<or> n mod 64 \<noteq> 0 \<and> 64 < n \<and> n < 128 \<or>
    n mod 64 \<noteq> 0 \<and> 128 < n \<and> n < 192 \<or> n mod 64 \<noteq> 0 \<and> 192 < n \<and> n < 256" by presburger
  then show thesis using that by blast
qed

text \<open>The branches of \<^verbatim>\<open>Lsh\<close>: whole limbs first, then the rest.\<close>

lemma Int_Lsh_cases:
  "n mod 64 \<noteq> 0 \<Longrightarrow> n < 64 \<Longrightarrow> Int_Lsh x n = lsh_small x n"
  "n mod 64 \<noteq> 0 \<Longrightarrow> 64 < n \<Longrightarrow> n < 128 \<Longrightarrow> Int_Lsh x n = lsh_small (lsh64 x) (n - 64)"
  "n mod 64 \<noteq> 0 \<Longrightarrow> 128 < n \<Longrightarrow> n < 192 \<Longrightarrow> Int_Lsh x n = lsh_small (lsh128 x) (n - 128)"
  "n mod 64 \<noteq> 0 \<Longrightarrow> 192 < n \<Longrightarrow> n < 256 \<Longrightarrow> Int_Lsh x n = lsh_small (lsh192 x) (n - 192)"
  by (simp_all add: Int_Lsh_def lsh_small_def lsh64_def lsh128_def lsh192_def Let_def)

lemma Int_Lsh_whole:
  "Int_Lsh x 0 = x" "Int_Lsh x 64 = lsh64 x" "Int_Lsh x 128 = lsh128 x" "Int_Lsh x 192 = lsh192 x"
  "256 \<le> n \<Longrightarrow> Int_Lsh x n = Int_Clear"
  by (auto simp: Int_Lsh_def)

lemma mult_shift: "k \<le> n \<Longrightarrow> ((v * 2 ^ k mod M) * 2 ^ (n - k)) mod M = v * 2 ^ n mod (M :: nat)"
  by (simp add: mod_mult_left_eq mult.assoc flip: power_add)

lemma uval_Lsh: "uval (Int_Lsh x n) = (uval x * 2 ^ n) mod 2 ^ 256"
proof (cases n rule: shift_cases)
  case 1
  then show ?thesis unfolding 1 Int_Lsh_whole by (simp only: power_0 mult_1_right mod_less [OF uval_less])
next
  case 5
  then have "(2 :: nat) ^ 256 dvd uval x * 2 ^ n" by (intro dvd_mult le_imp_power_dvd)
  then have "(uval x * 2 ^ n) mod 2 ^ 256 = 0" by (simp only: mod_eq_0_iff_dvd)
  then show ?thesis unfolding Int_Lsh_whole(5) [OF 5] by (simp only: uval_consts)
next
  case 6
  then show ?thesis unfolding Int_Lsh_cases(1) [OF 6] by (simp only: uval_lsh_small less_imp_le)
next
  case 7
  then show ?thesis unfolding Int_Lsh_cases(2) [OF 7] using uval_lsh_small [of "n - 64" "lsh64 x"] mult_shift [of 64 n "uval x" "2 ^ 256"]
    by (simp only: uval_lsh_limbs less_imp_le)
next
  case 8
  then show ?thesis unfolding Int_Lsh_cases(3) [OF 8] using uval_lsh_small [of "n - 128" "lsh128 x"] mult_shift [of 128 n "uval x" "2 ^ 256"]
    by (simp only: uval_lsh_limbs less_imp_le)
next
  case 9
  then show ?thesis unfolding Int_Lsh_cases(4) [OF 9] using uval_lsh_small [of "n - 192" "lsh192 x"] mult_shift [of 192 n "uval x" "2 ^ 256"]
    by (simp only: uval_lsh_limbs less_imp_le)
qed (simp_all only: Int_Lsh_whole uval_lsh_limbs)

lemma shr_limb:
  assumes "n \<le> 64"
  shows "2 ^ n * unat (drop_bit n a OR push_bit (64 - n) (b :: u64)) + unat a mod 2 ^ n = unat a + 2 ^ 64 * (unat b mod 2 ^ n)"
proof -
  have p: "(2 :: nat) ^ 64 = 2 ^ n * 2 ^ (64 - n)" using assms by (simp flip: power_add)
  have "2 ^ n * (unat a div 2 ^ n) + unat a mod 2 ^ n = unat a" by (rule mult_div_mod_eq)
  moreover have "unat (drop_bit n a OR push_bit (64 - n) b) = unat a div 2 ^ n + (unat b mod 2 ^ n) * 2 ^ (64 - n)"
    by (simp only: unat_shr_or [OF assms] shr_low [OF assms])
  ultimately show ?thesis unfolding p by (simp add: distrib_left mult_ac)
qed

lemma shr_limb3:
  "2 ^ n * unat (drop_bit n (a :: u64)) + unat a mod 2 ^ n = unat a"
  unfolding unat_drop by (rule mult_div_mod_eq)

definition rsh_small :: "U256 \<Rightarrow> nat \<Rightarrow> U256" where
  "rsh_small x n = U256 (drop_bit n (limb0 x) OR push_bit (64 - n) (limb1 x)) (drop_bit n (limb1 x) OR push_bit (64 - n) (limb2 x))
     (drop_bit n (limb2 x) OR push_bit (64 - n) (limb3 x)) (drop_bit n (limb3 x))"

lemma div_of_digits: "P * q + r = v \<Longrightarrow> r < P \<Longrightarrow> v div P = (q :: nat)"
  by (metis add.commute add_cancel_right_left div_less div_mult_self4 not_less0)

lemma uval_rsh_small:
  assumes "n \<le> 64"
  shows "uval (rsh_small x n) = uval x div 2 ^ n"
proof -
  define P where "P = (2 :: nat) ^ n"
  define m0 m1 m2 m3 where "m0 = unat (limb0 x) mod P" "m1 = unat (limb1 x) mod P"
    "m2 = unat (limb2 x) mod P" "m3 = unat (limb3 x) mod P"
  note e = shr_limb [OF assms, of "limb0 x" "limb1 x"] shr_limb [OF assms, of "limb1 x" "limb2 x"]
    shr_limb [OF assms, of "limb2 x" "limb3 x"] shr_limb3 [of n "limb3 x"]
  have "P * uval (rsh_small x n) + m0 = uval x"
    using e unfolding P_def [symmetric] m0_m1_m2_m3_def [symmetric] by (simp add: uval_def rsh_small_def algebra_simps)
  moreover have "m0 < P" by (simp add: m0_m1_m2_m3_def P_def)
  ultimately have "uval x div P = uval (rsh_small x n)" by (rule div_of_digits)
  then show ?thesis by (simp add: P_def)
qed

lemma uval_rsh_limbs:
  "uval (rsh64 x) = uval x div 2 ^ 64" "uval (rsh128 x) = uval x div 2 ^ 128" "uval (rsh192 x) = uval x div 2 ^ 192"
proof -
  have "2 ^ 64 * uval (rsh64 x) + unat (limb0 x) = uval x" by (simp add: rsh64_def uval_def)
  moreover have "unat (limb0 x) < 2 ^ 64" by (rule unat_u64_less)
  ultimately show "uval (rsh64 x) = uval x div 2 ^ 64" using div_of_digits by metis
  have "2 ^ 128 * uval (rsh128 x) + (unat (limb0 x) + 2 ^ 64 * unat (limb1 x)) = uval x" by (simp add: rsh128_def uval_def)
  moreover have "unat (limb0 x) + 2 ^ 64 * unat (limb1 x) < 2 ^ 128"
    using unat_u64_less [of "limb0 x"] unat_u64_less [of "limb1 x"] by simp
  ultimately show "uval (rsh128 x) = uval x div 2 ^ 128" using div_of_digits by metis
  have "2 ^ 192 * uval (rsh192 x) + (unat (limb0 x) + 2 ^ 64 * unat (limb1 x) + 2 ^ 128 * unat (limb2 x)) = uval x"
    by (simp add: rsh192_def uval_def)
  moreover have "unat (limb0 x) + 2 ^ 64 * unat (limb1 x) + 2 ^ 128 * unat (limb2 x) < 2 ^ 192"
    using unat_u64_less [of "limb0 x"] unat_u64_less [of "limb1 x"] unat_u64_less [of "limb2 x"] by simp
  ultimately show "uval (rsh192 x) = uval x div 2 ^ 192" using div_of_digits by metis
qed

text \<open>The branches of \<^verbatim>\<open>Rsh\<close>: whole limbs first, then the rest.\<close>

lemma Int_Rsh_cases:
  "n mod 64 \<noteq> 0 \<Longrightarrow> n < 64 \<Longrightarrow> Int_Rsh x n = rsh_small x n"
  "n mod 64 \<noteq> 0 \<Longrightarrow> 64 < n \<Longrightarrow> n < 128 \<Longrightarrow> Int_Rsh x n = rsh_small (rsh64 x) (n - 64)"
  "n mod 64 \<noteq> 0 \<Longrightarrow> 128 < n \<Longrightarrow> n < 192 \<Longrightarrow> Int_Rsh x n = rsh_small (rsh128 x) (n - 128)"
  "n mod 64 \<noteq> 0 \<Longrightarrow> 192 < n \<Longrightarrow> n < 256 \<Longrightarrow> Int_Rsh x n = rsh_small (rsh192 x) (n - 192)"
  by (simp_all add: Int_Rsh_def rsh_small_def rsh64_def rsh128_def rsh192_def Let_def)

lemma Int_Rsh_whole:
  "Int_Rsh x 0 = x" "Int_Rsh x 64 = rsh64 x" "Int_Rsh x 128 = rsh128 x" "Int_Rsh x 192 = rsh192 x"
  "256 \<le> n \<Longrightarrow> Int_Rsh x n = Int_Clear"
  by (auto simp: Int_Rsh_def)

lemma div_shift: "k \<le> n \<Longrightarrow> v div 2 ^ k div 2 ^ (n - k) = v div (2 :: nat) ^ n"
  by (simp flip: div_mult2_eq power_add)

lemma uval_Rsh: "uval (Int_Rsh x n) = uval x div 2 ^ n"
proof (cases n rule: shift_cases)
  case 5
  then have "uval x < 2 ^ n" using uval_less [of x] power_increasing [OF 5, of "2 :: nat"] by (simp only: less_le_trans)
  then show ?thesis using 5 by (simp add: Int_Rsh_whole)
next
  case 6
  then show ?thesis by (simp add: Int_Rsh_cases(1) uval_rsh_small)
next
  case 7
  then show ?thesis unfolding Int_Rsh_cases(2) [OF 7] using uval_rsh_small [of "n - 64" "rsh64 x"] div_shift [of 64 n "uval x"]
    by (simp only: uval_rsh_limbs less_imp_le)
next
  case 8
  then show ?thesis unfolding Int_Rsh_cases(3) [OF 8] using uval_rsh_small [of "n - 128" "rsh128 x"] div_shift [of 128 n "uval x"]
    by (simp only: uval_rsh_limbs less_imp_le)
next
  case 9
  then show ?thesis unfolding Int_Rsh_cases(4) [OF 9] using uval_rsh_small [of "n - 192" "rsh192 x"] div_shift [of 192 n "uval x"]
    by (simp only: uval_rsh_limbs less_imp_le)
qed (simp_all add: Int_Rsh_whole uval_rsh_limbs)

subsection \<open>Two's complement\<close>

lemma unat_not64: "unat (NOT (w :: u64)) = 2 ^ 64 - 1 - unat w"
proof -
  have "NOT w = - 1 - w" by (simp add: not_eq_complement)
  moreover have "unat (- 1 - w) = unat (- 1 :: u64) - unat w" by (rule unat_sub) simp
  ultimately show ?thesis by (simp add: unat_max_u64)
qed

lemma uval_Not: "uval (Int_Not x) = 2 ^ 256 - 1 - uval x"
  using unat_u64_less [of "limb0 x"] unat_u64_less [of "limb1 x"] unat_u64_less [of "limb2 x"] unat_u64_less [of "limb3 x"]
  by (simp add: Int_Not_def uval_def unat_not64)

definition sval :: "U256 \<Rightarrow> int" where
  "sval z = (if uval z < 2 ^ 255 then int (uval z) else int (uval z) - 2 ^ 256)"

lemma top_limb_iff: "limb3 z < 0x8000000000000000 \<longleftrightarrow> uval z < 2 ^ 255"
proof -
  note b = unat_u64_less [of "limb0 z"] unat_u64_less [of "limb1 z"] unat_u64_less [of "limb2 z"]
  show ?thesis
  proof (cases "unat (limb3 z) < 2 ^ 63")
    case True
    then have "uval z < 2 ^ 255" using b by (simp add: uval_def)
    then show ?thesis using True by (simp add: word_less_nat_alt)
  next
    case False
    then have "\<not> uval z < 2 ^ 255" using b by (simp add: uval_def)
    then show ?thesis using False by (simp add: word_less_nat_alt)
  qed
qed

definition is_neg :: "U256 \<Rightarrow> bool" where
  "is_neg z \<longleftrightarrow> \<not> uval z < 2 ^ 255"

lemma sval_pos: "\<not> is_neg z \<Longrightarrow> sval z = int (uval z)"
  and sval_neg: "is_neg z \<Longrightarrow> sval z = int (uval z) - 2 ^ 256"
  by (simp_all only: sval_def is_neg_def if_True if_False not_not)

lemma int_uval_less: "int (uval z) < 2 ^ 256"
  using uval_less [of z] by (metis of_nat_less_iff of_nat_numeral of_nat_power)

lemma sval_sign: "sval z < 0 \<longleftrightarrow> is_neg z"
proof (cases "is_neg z")
  case True
  then have "sval z < 0" unfolding sval_neg [OF True] using int_uval_less [of z] by (simp only: diff_less_0_iff_less)
  then show ?thesis using True by simp
next
  case False
  then show ?thesis by (simp add: sval_pos)
qed

lemma Int_Sign_eq: "Int_Sign z = sgn (sval z)"
proof (cases "is_neg z")
  case False
  then show ?thesis using sval_pos [OF False] unfolding Int_Sign_def Int_IsZero_iff top_limb_iff is_neg_def by simp
next
  case True
  then have "uval z \<noteq> 0" by (intro notI) (simp add: is_neg_def)
  moreover have "sgn (sval z) = - 1" using True by (simp add: sval_sign)
  ultimately show ?thesis using True unfolding Int_Sign_def Int_IsZero_iff top_limb_iff is_neg_def by simp
qed

lemma sval_less_iff:
  "sval x < sval y \<longleftrightarrow> (if \<not> is_neg x \<and> is_neg y then False else if is_neg x \<and> \<not> is_neg y then True else uval x < uval y)"
proof (cases "is_neg x = is_neg y")
  case True
  then show ?thesis by (cases "is_neg x") (simp_all add: sval_pos sval_neg)
next
  case False
  then show ?thesis using sval_sign [of x] sval_sign [of y] by (cases "is_neg x") auto
qed

lemma Int_Slt_iff: "Int_Slt x y \<longleftrightarrow> sval x < sval y" and Int_Sgt_iff: "Int_Sgt x y \<longleftrightarrow> sval y < sval x"
  unfolding Int_Slt_def Int_Sgt_def sval_less_iff Int_Lt_iff Int_Gt_iff Int_Sign_eq sgn_less
  by (auto simp: sval_sign not_less [symmetric])

lemma uval_Neg: "int (uval (Int_Neg x)) = (- int (uval x)) mod 2 ^ 256"
  by (simp add: Int_Neg_def uval_Sub)

lemma sval_mod: "sval z mod 2 ^ 256 = int (uval z)"
proof -
  have "sval z mod 2 ^ 256 = int (uval z) mod 2 ^ 256"
    unfolding sval_def by (simp only: minus_mod_self2 if_cancel split: if_splits) simp
  then show ?thesis using int_uval_less [of z] by (simp only: mod_pos_pos_trivial of_nat_0_le_iff)
qed

lemma and_1_shl: "(w :: u64) AND push_bit k 1 = 0 \<longleftrightarrow> \<not> bit w k"
  by (simp add: and_exp_eq_0_iff_not_bit push_bit_of_1)

lemma bit_63_iff: "bit (w :: u64) 63 \<longleftrightarrow> \<not> w < 0x8000000000000000"
proof -
  have "bit (unat w) 63 \<longleftrightarrow> unat w div 2 ^ 63 mod 2 = 1" by (simp add: bit_iff_odd odd_iff_mod_2_eq_one)
  also have "\<dots> \<longleftrightarrow> \<not> unat w < 2 ^ 63"
    using unat_u64_less [of w] by (auto simp: div_eq_0_iff)
  finally show ?thesis by (simp add: bit_unsigned_iff word_less_nat_alt)
qed

lemma Int_isBitSet_255: "Int_isBitSet z 255 = Some (is_neg z)"
proof -
  have "limb3 z AND push_bit 63 1 \<noteq> 0 \<longleftrightarrow> is_neg z"
    by (simp only: and_1_shl bit_63_iff top_limb_iff is_neg_def not_not)
  moreover have "idx (limbs z) (255 div 64) = Some (limb3 z)" by (simp add: idx_def limbs_def numeral_3_eq_3)
  moreover have "(255 :: nat) mod 64 = 63" by simp
  ultimately show ?thesis by (simp only: Int_isBitSet_def bind.bind_lunit)
qed

subsection \<open>Conversions\<close>

lemma be_limb_of: "of_nat (be_nat (be_bytes 8 (unat (w :: u64)))) = w"
  using be_nat_be_bytes [of 8 "unat w"] unat_u64_less [of w] by simp

lemma SetBytes32_Bytes32: "Int_SetBytesN 32 (Int_Bytes32 z) rest = Some z"
proof -
  have "be_limb (Int_Bytes32 z @ rest) 32 0 = limb0 z" "be_limb (Int_Bytes32 z @ rest) 32 1 = limb1 z"
    "be_limb (Int_Bytes32 z @ rest) 32 2 = limb2 z" "be_limb (Int_Bytes32 z @ rest) 32 3 = limb3 z"
    using be_limb_of by (simp_all add: be_limb_def Int_Bytes32_def)
  then show ?thesis by (cases z) (simp add: Int_SetBytesN_def Int_Bytes32_def Let_def)
qed

lemma length_Bytes32 [simp]: "length (Int_Bytes32 z) = 32"
  by (simp add: Int_Bytes32_def)

lemma word_or_0_nat_words: "word_or_0 (nat_words n) i = of_nat (n div 2 ^ (64 * i))"
proof (induction i arbitrary: n)
  case 0
  then show ?case by (subst nat_words.simps) (simp add: word_or_0_def)
next
  case (Suc i)
  have "word_or_0 (nat_words n) (Suc i) = word_or_0 (nat_words (n div 2 ^ 64)) i"
    by (subst nat_words.simps) (auto simp: word_or_0_def nat_words.simps [of 0])
  also have "\<dots> = of_nat (n div 2 ^ 64 div 2 ^ (64 * i))" by (rule Suc)
  also have "n div 2 ^ 64 div 2 ^ (64 * i) = n div 2 ^ (64 * Suc i)"
    by (simp only: div_mult2_eq [symmetric] power_add [symmetric] mult_Suc_right)
  finally show ?case .
qed

lemma uval_of_words:
  "uval (U256 (word_or_0 (nat_words n) 0) (word_or_0 (nat_words n) 1) (word_or_0 (nat_words n) 2) (word_or_0 (nat_words n) 3)) = n mod 2 ^ 256"
proof -
  define M where "M = (2 :: nat) ^ 64"
  have w: "unat (word_or_0 (nat_words n) i) = n div M ^ i mod M" for i
    by (simp only: word_or_0_nat_words M_def unat_of_nat power_mult) simp
  have "n mod (M * (M * (M * M))) = n mod M + M * (n div M mod M + M * (n div M ^ 2 mod M + M * (n div M ^ 3 mod M)))"
    by (simp only: mod_mult2_eq div_mult2_eq power2_eq_square power3_eq_cube mult.assoc ac_simps)
  moreover have "M * (M * (M * M)) = 2 ^ 256" by (simp add: M_def)
  ultimately show ?thesis using w [of 0] w [of 1] w [of 2] w [of 3]
    unfolding uval_nest by (simp only: U256.sel M_def [symmetric] power_0 div_by_1 power_one_right)
qed

lemma uval_FromBig: "int (uval (fst (Int_FromBig b))) = b mod 2 ^ 256"
proof (cases "b < 0")
  case False
  then have "\<bar>b\<bar> = b" by simp
  then have "uval (fst (Int_FromBig b)) = nat b mod 2 ^ 256"
    using False uval_of_words [of "nat b"] unfolding Int_FromBig_def Int_SetFromBig_def Let_def
    by (simp only: fst_conv if_False)
  then show ?thesis using False by (simp only: of_nat_mod of_nat_power of_nat_numeral int_nat_eq not_less if_True)
next
  case True
  then have "fst (Int_FromBig b) = Int_Neg (U256 (word_or_0 (nat_words (nat (- b))) 0) (word_or_0 (nat_words (nat (- b))) 1)
      (word_or_0 (nat_words (nat (- b))) 2) (word_or_0 (nat_words (nat (- b))) 3))"
    by (simp add: Int_FromBig_def Int_SetFromBig_def Let_def)
  then have "int (uval (fst (Int_FromBig b))) = (- (int (nat (- b)) mod 2 ^ 256)) mod 2 ^ 256"
    using uval_of_words [of "nat (- b)"] by (simp only: uval_Neg of_nat_mod of_nat_power of_nat_numeral)
  then show ?thesis using True by (simp only: mod_minus_eq) simp
qed

lemma FromBig_overflow_iff: "snd (Int_FromBig b) \<longleftrightarrow> 2 ^ 256 \<le> nat \<bar>b\<bar>"
proof -
  have len: "length (nat_words n) > k \<longleftrightarrow> 2 ^ (64 * k) \<le> n" for n k
  proof (induction k arbitrary: n)
    case 0
    then show ?case by (subst nat_words.simps) auto
  next
    case (Suc k)
    have "length (nat_words n) > Suc k \<longleftrightarrow> length (nat_words (n div 2 ^ 64)) > k"
      by (subst nat_words.simps) (auto simp: nat_words.simps [of 0])
    also have "\<dots> \<longleftrightarrow> 2 ^ (64 * k) \<le> n div 2 ^ 64" by (rule Suc)
    also have "\<dots> \<longleftrightarrow> 2 ^ (64 * k) * 2 ^ 64 \<le> n" by (rule less_eq_div_iff_mult_less_eq) simp
    also have "(2 :: nat) ^ (64 * k) * 2 ^ 64 = 2 ^ (64 * Suc k)" by (simp add: power_add)
    finally show ?case .
  qed
  show ?thesis using len [where k = 4] by (simp add: Int_FromBig_def Int_SetFromBig_def Let_def)
qed

end
