(* ===== verification/Web3_Types.thy ===== *)
theory Web3_Types
  imports Uint256
begin

text \<open>
  The byte-array types and helpers the storage layer and the virtual machine share: addresses and
  hashes of \<^verbatim>\<open>src/structs.go\<close> (arrays of 20 and 32 bytes, here byte lists of that length), the
  padding helpers of \<^verbatim>\<open>src/utils/common/bytes.go\<close> and the overflow-checked arithmetic of
  \<^verbatim>\<open>src/utils/common/math/integer.go\<close>.
\<close>

section \<open>Addresses, hashes and logs\<close>

definition HashLength :: nat where "HashLength = 32"
definition AddressLength :: nat where "AddressLength = 20"

definition zero_hash :: bytes where "zero_hash = replicate HashLength 0"
definition zero_address :: bytes where "zero_address = replicate AddressLength 0"

text \<open>\<^verbatim>\<open>SetBytes\<close> copies the last bytes of \<open>b\<close> to the end of the receiver and leaves the others.\<close>

definition Hash_SetBytes :: "bytes \<Rightarrow> bytes \<Rightarrow> bytes" where
  "Hash_SetBytes h b =
     (let b = (if length b > HashLength then drop (length b - HashLength) b else b)
      in overwrite h (HashLength - length b) b)"

definition Address_SetBytes :: "bytes \<Rightarrow> bytes \<Rightarrow> bytes" where
  "Address_SetBytes a b =
     (let b = (if length b > AddressLength then drop (length b - AddressLength) b else b)
      in overwrite a (AddressLength - length b) b)"

definition BytesToHash :: "bytes \<Rightarrow> bytes" where
  "BytesToHash b = Hash_SetBytes zero_hash b"

definition BytesToAddress :: "bytes \<Rightarrow> bytes" where
  "BytesToAddress b = Address_SetBytes zero_address b"

definition Hash_IsEmpty :: "bytes \<Rightarrow> bool" where
  "Hash_IsEmpty h \<longleftrightarrow> h = zero_hash"

record StorageLog =
  sl_Address :: bytes
  sl_Topics :: "bytes list"
  sl_Data :: bytes

section \<open>Padding and checked arithmetic\<close>

definition RightPadBytes :: "bytes \<Rightarrow> int \<Rightarrow> bytes" where
  "RightPadBytes b l = (if l \<le> int (length b) then b else b @ replicate (nat l - length b) 0)"

definition LeftPadBytes :: "bytes \<Rightarrow> int \<Rightarrow> bytes" where
  "LeftPadBytes b l = (if l \<le> int (length b) then b else replicate (nat l - length b) 0 @ b)"

definition SafeSub :: "u64 \<Rightarrow> u64 \<Rightarrow> u64 \<times> bool" where
  "SafeSub x y = (let (diff, borrowOut) = bits_Sub64 x y 0 in (diff, borrowOut \<noteq> 0))"

definition SafeAdd :: "u64 \<Rightarrow> u64 \<Rightarrow> u64 \<times> bool" where
  "SafeAdd x y = (let (s, carryOut) = bits_Add64 x y 0 in (s, carryOut \<noteq> 0))"

definition SafeMul :: "u64 \<Rightarrow> u64 \<Rightarrow> u64 \<times> bool" where
  "SafeMul x y = (let (hi, lo) = bits_Mul64 x y in (lo, hi \<noteq> 0))"

subsection \<open>Lemmas\<close>

lemma length_zero_hash [simp]: "length zero_hash = 32" "length zero_address = 20"
  by (simp_all add: zero_hash_def zero_address_def HashLength_def AddressLength_def)

lemma BytesToHash_eq:
  "BytesToHash b = replicate (32 - length b) 0 @ drop (length b - 32) b"
  by (simp add: BytesToHash_def Hash_SetBytes_def zero_hash_def HashLength_def Let_def overwrite_def)

lemma BytesToAddress_eq:
  "BytesToAddress b = replicate (20 - length b) 0 @ drop (length b - 20) b"
  by (simp add: BytesToAddress_def Address_SetBytes_def zero_address_def AddressLength_def Let_def overwrite_def)

lemma length_BytesToHash [simp]: "length (BytesToHash b) = 32"
  by (simp add: BytesToHash_eq)

lemma length_BytesToAddress [simp]: "length (BytesToAddress b) = 20"
  by (simp add: BytesToAddress_eq)

lemma BytesToHash_id [simp]: "length b = 32 \<Longrightarrow> BytesToHash b = b"
  by (simp add: BytesToHash_eq)

lemma BytesToAddress_id [simp]: "length b = 20 \<Longrightarrow> BytesToAddress b = b"
  by (simp add: BytesToAddress_eq)

lemma BytesToHash_Nil [simp]: "BytesToHash [] = zero_hash"
  by (simp add: BytesToHash_eq zero_hash_def HashLength_def)

lemma SafeAdd_spec:
  "SafeAdd x y = (s, ov) \<Longrightarrow> (ov \<longleftrightarrow> 2 ^ 64 \<le> unat x + unat y) \<and> (\<not> ov \<longrightarrow> unat s = unat x + unat y)"
proof -
  assume a: "SafeAdd x y = (s, ov)"
  obtain s' c where b: "bits_Add64 x y 0 = (s', c)" by fastforce
  have "unat s + 2 ^ 64 * unat c = unat x + unat y" "unat c \<le> 1" "ov = (c \<noteq> 0)"
    using bits_Add64_spec [OF b] a b by (auto simp: SafeAdd_def)
  moreover have "unat s < 2 ^ 64" by (rule unat_u64_less)
  moreover have "(c = 0) = (unat c = 0)" by (simp add: unat_eq_zero)
  ultimately show ?thesis by (cases "unat c") auto
qed

end
