(* ===== verification/StateDB.thy ===== *)
theory StateDB
  imports CacheDB Codec Uint256_Arith Web3_Types
begin

text \<open>
  The state database of \<^verbatim>\<open>src/evm/storage/statedb.go\<close>: the account records and their encoding, the
  balance handle, contract storage, logs, the refund counter, self-destructed accounts and the
  stack of snapshots, over the transaction cache.  A nil \<^verbatim>\<open>Balance\<close> pointer is \<^term>\<open>None\<close>, and using
  it is a panic.  The keys of the map \<^verbatim>\<open>Suicided\<close> are a list without duplicates; every value the
  code stores there is \<^verbatim>\<open>true\<close>, and ranging over it visits the keys in the order
  \<^verbatim>\<open>lib_range\<close> gives.  \<^verbatim>\<open>DeepClone\<close> copies the pointer to the random source, so reverting to a
  snapshot keeps the current state of that source.
\<close>

section \<open>Accounts\<close>

record EthAccount =
  ea_Nonce :: u64
  ea_Balance :: "U256 option"
  ea_Code :: bytes
  ea_CodeHash :: bytes

definition no_account :: EthAccount where
  "no_account = \<lparr>ea_Nonce = 0, ea_Balance = None, ea_Code = [], ea_CodeHash = zero_hash\<rparr>"

definition EthAccount_IsEmpty :: "EthAccount \<Rightarrow> bool" where
  "EthAccount_IsEmpty self \<longleftrightarrow> ea_Nonce self = 0 \<and> ea_CodeHash self = zero_hash"

definition EthAccount_Serialization :: "EthAccount \<Rightarrow> ZeroCopySink \<Rightarrow> ZeroCopySink option" where
  "EthAccount_Serialization self sink = do {
     s1 \<leftarrow> Sink_WriteUint64 sink (ea_Nonce self);
     bal \<leftarrow> ea_Balance self;
     s2 \<leftarrow> Sink_WriteBytes s1 (Int_Bytes32 bal);
     (_, s3) \<leftarrow> Sink_WriteVarBytes s2 (ea_Code self);
     Sink_WriteHash s3 (ea_CodeHash self)
   }"

definition EthAccount_Deserialization ::
  "EthAccount \<Rightarrow> ZeroCopySource \<Rightarrow> (db_error option \<times> EthAccount) option" where
  "EthAccount_Deserialization self src = do {
     ((nonce, _), z1) \<leftarrow> Source_NextUint64 src;
     ((raw, _), z2) \<leftarrow> Source_NextBytes z1 32;
     bal \<leftarrow> Int_SetBytesN 32 raw [];
     (r, z3) \<leftarrow> Source_ReadVarBytes z2;
     let code = (case r of Inl _ \<Rightarrow> [] | Inr c \<Rightarrow> c);
     ((hash, eof), z4) \<leftarrow> Source_NextHash z3;
     let acct = self\<lparr>ea_Nonce := nonce, ea_Balance := Some bal, ea_Code := code\<rparr>;
     Some (if eof then (Some ErrEOF, acct) else (None, acct\<lparr>ea_CodeHash := hash\<rparr>))
   }"

definition CacheDB_GetEthAccount ::
  "('st, 'it) PersistStore \<Rightarrow> 'st CacheDB \<Rightarrow> bytes \<Rightarrow> ((EthAccount \<times> db_error option) \<times> 'st CacheDB) option" where
  "CacheDB_GetEthAccount ps self addr = do {
     (r, self) \<leftarrow> cache_get ps self ST_ETH_ACCOUNT addr;
     case r of
       Inl err \<Rightarrow> Some ((no_account, Some err), self)
     | Inr v \<Rightarrow>
         (if length v = 0 then Some ((no_account, None), self)
          else do {
            (err, val) \<leftarrow> EthAccount_Deserialization no_account (NewZeroCopySource v);
            Some ((val, err), self)
          })
   }"

definition CacheDB_PutEthAccount :: "'st CacheDB \<Rightarrow> bytes \<Rightarrow> EthAccount \<Rightarrow> 'st CacheDB option" where
  "CacheDB_PutEthAccount self addr val = do {
     raw \<leftarrow> (if \<not> EthAccount_IsEmpty val then SerializeToBytes [EthAccount_Serialization val] else Some []);
     cache_put self ST_ETH_ACCOUNT addr raw
   }"

definition CacheDB_DelEthAccount :: "'st CacheDB \<Rightarrow> bytes \<Rightarrow> 'st CacheDB option" where
  "CacheDB_DelEthAccount self addr = cache_put self ST_ETH_ACCOUNT addr []"

subsection \<open>The balance handle\<close>

definition balance_update ::
  "('st, 'it) PersistStore \<Rightarrow> (U256 option \<Rightarrow> U256 \<Rightarrow> U256 option) \<Rightarrow> 'st CacheDB \<Rightarrow> bytes \<Rightarrow> int \<Rightarrow>
   (db_error option \<times> 'st CacheDB) option" where
  "balance_update ps f cache addr val = do {
     ((acct, err), cache) \<leftarrow> CacheDB_GetEthAccount ps cache addr;
     case err of
       Some e \<Rightarrow> Some (Some e, cache)
     | None \<Rightarrow> do {
         let v = fst (Int_FromBig val);
         bal \<leftarrow> f (ea_Balance acct) v;
         cache \<leftarrow> CacheDB_PutEthAccount cache addr (acct\<lparr>ea_Balance := Some bal\<rparr>);
         Some (None, cache)
       }
   }"

definition balanceHandle_SubBalance ::
  "('st, 'it) PersistStore \<Rightarrow> 'st CacheDB \<Rightarrow> bytes \<Rightarrow> int \<Rightarrow> (db_error option \<times> 'st CacheDB) option" where
  "balanceHandle_SubBalance ps = balance_update ps (\<lambda>b v. map_option (\<lambda>b. Int_Sub b v) b)"

definition balanceHandle_AddBalance ::
  "('st, 'it) PersistStore \<Rightarrow> 'st CacheDB \<Rightarrow> bytes \<Rightarrow> int \<Rightarrow> (db_error option \<times> 'st CacheDB) option" where
  "balanceHandle_AddBalance ps = balance_update ps (\<lambda>b v. map_option (\<lambda>b. Int_Add b v) b)"

definition balanceHandle_SetBalance ::
  "('st, 'it) PersistStore \<Rightarrow> 'st CacheDB \<Rightarrow> bytes \<Rightarrow> int \<Rightarrow> (db_error option \<times> 'st CacheDB) option" where
  "balanceHandle_SetBalance ps = balance_update ps (\<lambda>b v. Some v)"

definition balanceHandle_GetBalance ::
  "('st, 'it) PersistStore \<Rightarrow> 'st CacheDB \<Rightarrow> bytes \<Rightarrow> ((db_error + int) \<times> 'st CacheDB) option" where
  "balanceHandle_GetBalance ps cache addr = do {
     ((acct, err), cache) \<leftarrow> CacheDB_GetEthAccount ps cache addr;
     case err of
       Some e \<Rightarrow> Some (Inl e, cache)
     | None \<Rightarrow> do { b \<leftarrow> ea_Balance acct; Some (Inr (Int_ToBig b), cache) }
   }"

section \<open>The state database\<close>

record snapshot =
  sn_changes :: MemDB
  sn_suicided :: "bytes list"
  sn_logsSize :: nat
  sn_refund :: u64

record 'st StateDB =
  sd_cacheDB :: "'st CacheDB"
  sd_Suicided :: "bytes list"
  sd_logs :: "StorageLog list"
  sd_thash :: bytes
  sd_bhash :: bytes
  sd_txIndex :: int
  sd_refund :: u64
  sd_snapshots :: "snapshot list"

definition NewStateDB :: "'st CacheDB \<Rightarrow> bytes \<Rightarrow> bytes \<Rightarrow> 'st StateDB" where
  "NewStateDB cache thash bhash =
     \<lparr>sd_cacheDB = cache, sd_Suicided = [], sd_logs = [], sd_thash = thash, sd_bhash = bhash,
      sd_txIndex = 0, sd_refund = 0, sd_snapshots = []\<rparr>"

definition StateDB_Prepare :: "'st StateDB \<Rightarrow> bytes \<Rightarrow> bytes \<Rightarrow> 'st StateDB" where
  "StateDB_Prepare self thash bhash = self\<lparr>sd_thash := thash, sd_bhash := bhash\<rparr>"

definition StateDB_DbErr :: "'st StateDB \<Rightarrow> db_error option" where
  "StateDB_DbErr self = OverlayDB_Error (cd_backend (sd_cacheDB self))"

definition StateDB_BlockHash :: "'st StateDB \<Rightarrow> bytes" where
  "StateDB_BlockHash self = sd_bhash self"

definition StateDB_GetLogs :: "'st StateDB \<Rightarrow> StorageLog list" where
  "StateDB_GetLogs self = sd_logs self"

definition set_db_err :: "'st StateDB \<Rightarrow> db_error \<Rightarrow> 'st StateDB" where
  "set_db_err self err = self\<lparr>sd_cacheDB := CacheDB_SetDbErr (sd_cacheDB self) err\<rparr>"

primrec clean_suicided ::
  "go_libs \<Rightarrow> ('st, 'it) PersistStore \<Rightarrow> bytes list \<Rightarrow> 'st CacheDB \<Rightarrow> (db_error option \<times> 'st CacheDB) option" where
  "clean_suicided L ps [] cache = Some (None, cache)"
| "clean_suicided L ps (addr # addrs) cache = do {
     cache \<leftarrow> CacheDB_DelEthAccount cache addr;
     (err, cache) \<leftarrow> CleanContractStorageData L ps cache addr;
     case err of
       Some e \<Rightarrow> Some (Some e, cache)
     | None \<Rightarrow> clean_suicided L ps addrs cache
   }"

definition StateDB_CommitToCacheDB ::
  "go_libs \<Rightarrow> ('st, 'it) PersistStore \<Rightarrow> 'st StateDB \<Rightarrow> (db_error option \<times> 'st StateDB) option" where
  "StateDB_CommitToCacheDB L ps self = do {
     (err, cache) \<leftarrow> clean_suicided L ps (lib_range L (sd_Suicided self)) (sd_cacheDB self);
     let self = self\<lparr>sd_cacheDB := cache\<rparr>;
     case err of
       Some e \<Rightarrow> Some (Some e, self)
     | None \<Rightarrow> Some (None, self\<lparr>sd_Suicided := [], sd_snapshots := []\<rparr>)
   }"

definition StateDB_Commit ::
  "go_libs \<Rightarrow> ('st, 'it) PersistStore \<Rightarrow> 'st StateDB \<Rightarrow> (db_error option \<times> 'st StateDB) option" where
  "StateDB_Commit L ps self = do {
     (err, self) \<leftarrow> StateDB_CommitToCacheDB L ps self;
     case err of
       Some e \<Rightarrow> Some (Some e, self)
     | None \<Rightarrow> do {
         cache \<leftarrow> CacheDB_Commit L (sd_cacheDB self);
         Some (None, self\<lparr>sd_cacheDB := cache\<rparr>)
       }
   }"

definition StateDB_AddRefund :: "'st StateDB \<Rightarrow> u64 \<Rightarrow> 'st StateDB" where
  "StateDB_AddRefund self gas = self\<lparr>sd_refund := sd_refund self + gas\<rparr>"

definition StateDB_SubRefund :: "'st StateDB \<Rightarrow> u64 \<Rightarrow> 'st StateDB option" where
  "StateDB_SubRefund self gas =
     (if gas > sd_refund self then None else Some (self\<lparr>sd_refund := sd_refund self - gas\<rparr>))"

definition StateDB_GetRefund :: "'st StateDB \<Rightarrow> u64" where
  "StateDB_GetRefund self = sd_refund self"

definition genKey :: "bytes \<Rightarrow> bytes \<Rightarrow> bytes" where
  "genKey contract key = [] @ contract @ key"

definition StateDB_GetState ::
  "('st, 'it) PersistStore \<Rightarrow> 'st StateDB \<Rightarrow> bytes \<Rightarrow> bytes \<Rightarrow> (bytes \<times> 'st StateDB) option" where
  "StateDB_GetState ps self contract key = do {
     (r, cache) \<leftarrow> CacheDB_Get ps (sd_cacheDB self) (genKey contract key);
     let self = self\<lparr>sd_cacheDB := cache\<rparr>;
     Some (case r of Inl err \<Rightarrow> (BytesToHash [], set_db_err self err) | Inr v \<Rightarrow> (BytesToHash v, self))
   }"

definition StateDB_SetState :: "'st StateDB \<Rightarrow> bytes \<Rightarrow> bytes \<Rightarrow> bytes \<Rightarrow> 'st StateDB option" where
  "StateDB_SetState self contract key val = do {
     cache \<leftarrow> CacheDB_Put (sd_cacheDB self) (genKey contract key) val;
     Some (self\<lparr>sd_cacheDB := cache\<rparr>)
   }"

definition StateDB_GetCommittedState ::
  "('st, 'it) PersistStore \<Rightarrow> 'st StateDB \<Rightarrow> bytes \<Rightarrow> bytes \<Rightarrow> (bytes \<times> 'st StateDB) option" where
  "StateDB_GetCommittedState ps self addr key = do {
     let k = GenAccountStateKey addr key;
     ((v, err), od) \<leftarrow> OverlayDB_Get ps (cd_backend (sd_cacheDB self)) k;
     let self = self\<lparr>sd_cacheDB := (sd_cacheDB self)\<lparr>cd_backend := od\<rparr>\<rparr>;
     Some (BytesToHash v, case err of Some e \<Rightarrow> set_db_err self e | None \<Rightarrow> self)
   }"

definition StateDB_getEthAccount ::
  "('st, 'it) PersistStore \<Rightarrow> 'st StateDB \<Rightarrow> bytes \<Rightarrow> (EthAccount \<times> 'st StateDB) option" where
  "StateDB_getEthAccount ps self addr = do {
     ((acct, err), cache) \<leftarrow> CacheDB_GetEthAccount ps (sd_cacheDB self) addr;
     let self = self\<lparr>sd_cacheDB := cache\<rparr>;
     Some (case err of Some e \<Rightarrow> (no_account, set_db_err self e) | None \<Rightarrow> (acct, self))
   }"

definition put_account :: "'st StateDB \<Rightarrow> bytes \<Rightarrow> EthAccount \<Rightarrow> 'st StateDB option" where
  "put_account self addr acct = do {
     cache \<leftarrow> CacheDB_PutEthAccount (sd_cacheDB self) addr acct;
     Some (self\<lparr>sd_cacheDB := cache\<rparr>)
   }"

definition StateDB_GetNonce ::
  "('st, 'it) PersistStore \<Rightarrow> 'st StateDB \<Rightarrow> bytes \<Rightarrow> (u64 \<times> 'st StateDB) option" where
  "StateDB_GetNonce ps self addr = do { (a, self) \<leftarrow> StateDB_getEthAccount ps self addr; Some (ea_Nonce a, self) }"

definition StateDB_SetNonce ::
  "('st, 'it) PersistStore \<Rightarrow> 'st StateDB \<Rightarrow> bytes \<Rightarrow> u64 \<Rightarrow> 'st StateDB option" where
  "StateDB_SetNonce ps self addr nonce = do {
     (a, self) \<leftarrow> StateDB_getEthAccount ps self addr;
     put_account self addr (a\<lparr>ea_Nonce := nonce\<rparr>)
   }"

definition StateDB_GetCodeHash ::
  "('st, 'it) PersistStore \<Rightarrow> 'st StateDB \<Rightarrow> bytes \<Rightarrow> (bytes \<times> 'st StateDB) option" where
  "StateDB_GetCodeHash ps self addr = do { (a, self) \<leftarrow> StateDB_getEthAccount ps self addr; Some (ea_CodeHash a, self) }"

definition StateDB_GetCode ::
  "('st, 'it) PersistStore \<Rightarrow> 'st StateDB \<Rightarrow> bytes \<Rightarrow> (bytes \<times> 'st StateDB) option" where
  "StateDB_GetCode ps self addr = do { (a, self) \<leftarrow> StateDB_getEthAccount ps self addr; Some (ea_Code a, self) }"

definition StateDB_SetCode ::
  "go_libs \<Rightarrow> ('st, 'it) PersistStore \<Rightarrow> 'st StateDB \<Rightarrow> bytes \<Rightarrow> bytes \<Rightarrow> 'st StateDB option" where
  "StateDB_SetCode L ps self addr code = do {
     let codeHash = lib_Keccak256 L code;
     (a, self) \<leftarrow> StateDB_getEthAccount ps self addr;
     put_account self addr (a\<lparr>ea_CodeHash := codeHash, ea_Code := code\<rparr>)
   }"

definition StateDB_GetCodeSize ::
  "('st, 'it) PersistStore \<Rightarrow> 'st StateDB \<Rightarrow> bytes \<Rightarrow> (nat \<times> 'st StateDB) option" where
  "StateDB_GetCodeSize ps self addr = do { (c, self) \<leftarrow> StateDB_GetCode ps self addr; Some (length c, self) }"

definition with_balance_err ::
  "'st StateDB \<Rightarrow> (db_error option \<times> 'st CacheDB) option \<Rightarrow> 'st StateDB option" where
  "with_balance_err self r = do {
     (err, cache) \<leftarrow> r;
     let self = self\<lparr>sd_cacheDB := cache\<rparr>;
     Some (case err of Some e \<Rightarrow> set_db_err self e | None \<Rightarrow> self)
   }"

definition StateDB_SubBalance ::
  "('st, 'it) PersistStore \<Rightarrow> 'st StateDB \<Rightarrow> bytes \<Rightarrow> int \<Rightarrow> 'st StateDB option" where
  "StateDB_SubBalance ps self addr val = with_balance_err self (balanceHandle_SubBalance ps (sd_cacheDB self) addr val)"

definition StateDB_AddBalance ::
  "('st, 'it) PersistStore \<Rightarrow> 'st StateDB \<Rightarrow> bytes \<Rightarrow> int \<Rightarrow> 'st StateDB option" where
  "StateDB_AddBalance ps self addr val = with_balance_err self (balanceHandle_AddBalance ps (sd_cacheDB self) addr val)"

definition StateDB_GetBalance ::
  "('st, 'it) PersistStore \<Rightarrow> 'st StateDB \<Rightarrow> bytes \<Rightarrow> (int \<times> 'st StateDB) option" where
  "StateDB_GetBalance ps self addr = do {
     (r, cache) \<leftarrow> balanceHandle_GetBalance ps (sd_cacheDB self) addr;
     let self = self\<lparr>sd_cacheDB := cache\<rparr>;
     Some (case r of Inl e \<Rightarrow> (0, set_db_err self e) | Inr b \<Rightarrow> (b, self))
   }"

definition StateDB_Suicide ::
  "('st, 'it) PersistStore \<Rightarrow> 'st StateDB \<Rightarrow> bytes \<Rightarrow> (bool \<times> 'st StateDB) option" where
  "StateDB_Suicide ps self addr = do {
     (acct, self) \<leftarrow> StateDB_getEthAccount ps self addr;
     if EthAccount_IsEmpty acct then Some (False, self)
     else do {
       let self = self\<lparr>sd_Suicided := List.insert addr (sd_Suicided self)\<rparr>;
       self \<leftarrow> with_balance_err self (balanceHandle_SetBalance ps (sd_cacheDB self) addr 0);
       Some (True, self)
     }
   }"

definition StateDB_HasSuicided :: "'st StateDB \<Rightarrow> bytes \<Rightarrow> bool" where
  "StateDB_HasSuicided self addr \<longleftrightarrow> addr \<in> set (sd_Suicided self)"

definition StateDB_Exist ::
  "('st, 'it) PersistStore \<Rightarrow> 'st StateDB \<Rightarrow> bytes \<Rightarrow> (bool \<times> 'st StateDB) option" where
  "StateDB_Exist ps self addr =
     (if addr \<in> set (sd_Suicided self) then Some (True, self)
      else do {
        (acct, self) \<leftarrow> StateDB_getEthAccount ps self addr;
        (r, cache) \<leftarrow> balanceHandle_GetBalance ps (sd_cacheDB self) addr;
        let self = self\<lparr>sd_cacheDB := cache\<rparr>;
        Some (case r of
            Inl e \<Rightarrow> (False, set_db_err self e)
          | Inr bal \<Rightarrow> (\<not> EthAccount_IsEmpty acct \<or> sgn bal > 0, self))
      })"

definition StateDB_Empty ::
  "('st, 'it) PersistStore \<Rightarrow> 'st StateDB \<Rightarrow> bytes \<Rightarrow> (bool \<times> 'st StateDB) option" where
  "StateDB_Empty ps self addr = do {
     (acct, self) \<leftarrow> StateDB_getEthAccount ps self addr;
     (r, cache) \<leftarrow> balanceHandle_GetBalance ps (sd_cacheDB self) addr;
     let self = self\<lparr>sd_cacheDB := cache\<rparr>;
     Some (case r of
         Inl e \<Rightarrow> (False, set_db_err self e)
       | Inr bal \<Rightarrow> (EthAccount_IsEmpty acct \<and> sgn bal = 0, self))
   }"

definition StateDB_AddLog :: "'st StateDB \<Rightarrow> StorageLog \<Rightarrow> 'st StateDB" where
  "StateDB_AddLog self log = self\<lparr>sd_logs := sd_logs self @ [log]\<rparr>"

definition StateDB_AddPreimage :: "'st StateDB \<Rightarrow> bytes \<Rightarrow> bytes \<Rightarrow> 'st StateDB" where
  "StateDB_AddPreimage self hash preimage = self"

definition StateDB_ForEachStorage :: "'st StateDB \<Rightarrow> bytes \<Rightarrow> 'st StateDB option" where
  "StateDB_ForEachStorage self addr = None"

definition StateDB_CreateAccount :: "'st StateDB \<Rightarrow> bytes \<Rightarrow> 'st StateDB" where
  "StateDB_CreateAccount self addr = self"

definition StateDB_Snapshot :: "'st StateDB \<Rightarrow> nat \<times> 'st StateDB" where
  "StateDB_Snapshot self =
     (let sn = \<lparr>sn_changes = MemDB_DeepClone (cd_memdb (sd_cacheDB self)), sn_suicided = sd_Suicided self,
                sn_logsSize = length (sd_logs self), sn_refund = sd_refund self\<rparr>;
          snapshots = sd_snapshots self @ [sn]
      in (length snapshots - 1, self\<lparr>sd_snapshots := snapshots\<rparr>))"

definition StateDB_RevertToSnapshot :: "'st StateDB \<Rightarrow> nat \<Rightarrow> 'st StateDB option" where
  "StateDB_RevertToSnapshot self i =
     (if i + 1 > length (sd_snapshots self) then None
      else do {
        sn \<leftarrow> idx (sd_snapshots self) i;
        logs \<leftarrow> go_slice (sd_logs self) 0 (sn_logsSize sn);
        let cache = sd_cacheDB self;
        Some (self\<lparr>sd_snapshots := take i (sd_snapshots self),
          sd_cacheDB := cache\<lparr>cd_memdb := (sn_changes sn)\<lparr>rnd := rnd (cd_memdb cache)\<rparr>\<rparr>,
          sd_Suicided := sn_suicided sn, sd_refund := sn_refund sn, sd_logs := logs\<rparr>)
      })"

subsection \<open>The account encoding\<close>

definition account_enc :: "u64 \<Rightarrow> U256 \<Rightarrow> bytes \<Rightarrow> bytes \<Rightarrow> bytes" where
  "account_enc nonce bal code hash =
     le_bytes 8 (unat nonce) @ Int_Bytes32 bal @ varuint_enc (of_nat (length code)) @ code @ hash"

definition account_wf :: "EthAccount \<Rightarrow> bool" where
  "account_wf a \<longleftrightarrow> ea_Balance a \<noteq> None \<and> length (ea_CodeHash a) = 32 \<and> length (ea_Code a) < 2 ^ 59"

definition encode_account :: "EthAccount \<Rightarrow> bytes" where
  "encode_account a = account_enc (ea_Nonce a) (the (ea_Balance a)) (ea_Code a) (ea_CodeHash a)"

lemma SerializeToBytes_account:
  assumes "account_wf a"
  shows "SerializeToBytes [EthAccount_Serialization a] = Some (encode_account a)"
proof -
  let ?s = "NewZeroCopySink None"
  obtain b where b: "ea_Balance a = Some b" using assms by (auto simp: account_wf_def)
  obtain s1 where s1: "Sink_WriteUint64 ?s (ea_Nonce a) = Some s1" "sink_wf s1"
    "Sink_Bytes s1 = le_bytes 8 (unat (ea_Nonce a))" "sink_cap s1 \<le> 2 * 512 + 8"
    using Sink_WriteUint64_emits [of ?s "ea_Nonce a"] by (auto simp: maxInt_def elim!: emits_obtain)
  obtain s2 where s2: "Sink_WriteBytes s1 (Int_Bytes32 b) = Some s2" "sink_wf s2"
    "Sink_Bytes s2 = Sink_Bytes s1 @ Int_Bytes32 b" "sink_cap s2 \<le> 2 * (2 * 512 + 8) + 32"
    using Sink_WriteBytes_emits [of s1 "Int_Bytes32 b"] s1(2,4) by (auto simp: maxInt_def elim!: emits_obtain)
  have c: "length (ea_Code a) < 2 ^ 59" "length (ea_CodeHash a) = 32" using assms by (auto simp: account_wf_def)
  obtain sz s3 where s3: "Sink_WriteVarBytes s2 (ea_Code a) = Some (sz, s3)" "sink_wf s3"
    "Sink_Bytes s3 = Sink_Bytes s2 @ varuint_enc (of_nat (length (ea_Code a))) @ ea_Code a"
    "sink_cap s3 \<le> 4 * sink_cap s2 + 18 + int (length (ea_Code a))"
    using Sink_WriteVarBytes_emits [of s2 "ea_Code a"] s2(2,4) c by (auto simp: maxInt_def)
  obtain s4 where s4: "Sink_WriteBytes s3 (ea_CodeHash a) = Some s4"
    "Sink_Bytes s4 = Sink_Bytes s3 @ ea_CodeHash a"
    using Sink_WriteBytes_emits [of s3 "ea_CodeHash a"] s3(2,4) s2(4) c by (auto simp: maxInt_def elim!: emits_obtain)
  show ?thesis
    using b s1(1,3) s2(1,3) s3(1,3) s4
    by (simp add: SerializeToBytes_def EthAccount_Serialization_def Sink_WriteHash_def encode_account_def account_enc_def)
qed

lemma length_encode_account:
  "account_wf a \<Longrightarrow> 72 < length (encode_account a) \<and> length (encode_account a) < 2 ^ 60"
  by (auto simp: encode_account_def account_enc_def account_wf_def varuint_enc_def)

lemma Deserialization_account:
  assumes "account_wf a"
  shows "EthAccount_Deserialization z (NewZeroCopySource (encode_account a)) = Some (None, a)"
proof -
  obtain b where b: "ea_Balance a = Some b" using assms by (auto simp: account_wf_def)
  have c: "length (ea_Code a) < 2 ^ 63" "length (ea_CodeHash a) = 32" using assms by (auto simp: account_wf_def)
  let ?z = "NewZeroCopySource (encode_account a)"
  have wf: "src_wf ?z" using length_encode_account [OF assms] by (intro src_wf_New) simp
  have e: "src_rest ?z = le_bytes 8 (unat (ea_Nonce a)) @ Int_Bytes32 b @
      varuint_enc (of_nat (length (ea_Code a))) @ ea_Code a @ ea_CodeHash a"
    using b by (simp add: encode_account_def account_enc_def)
  have n: "(of_nat (le_nat (take 8 (src_rest ?z))) :: u64) = ea_Nonce a"
    unfolding e using unat_u64_less [of "ea_Nonce a"] by (simp add: le_nat_le_bytes del: le_bytes.simps)
  let ?z1 = "src_adv ?z 8"
  have r1: "src_rest ?z1 = Int_Bytes32 b @ varuint_enc (of_nat (length (ea_Code a))) @ ea_Code a @ ea_CodeHash a"
    unfolding src_rest_adv [OF wf] e by (simp del: le_bytes.simps)
  let ?z2 = "src_adv ?z1 32"
  have r2: "src_rest ?z2 = varuint_enc (of_nat (length (ea_Code a))) @ ea_Code a @ ea_CodeHash a"
    using wf r1 by (simp del: src_adv_adv)
  obtain z3 where z3: "Source_ReadVarBytes ?z2 = Some (Inr (ea_Code a), z3)" "src_wf z3" "src_rest z3 = ea_CodeHash a"
    using Source_ReadVarBytes_enc [OF _ r2 c(1)] wf by auto
  have u: "Source_NextUint64 ?z = Some ((ea_Nonce a, False), ?z1)"
    using Source_NextUint64_eq [OF wf] n e by (simp del: src_rest_New le_bytes.simps)
  have v: "Source_NextBytes ?z1 32 = Some ((Int_Bytes32 b, False), ?z2)"
    using Source_NextBytes_eq [of ?z1 32] wf r1 by (simp del: src_adv_adv)
  have w: "Source_NextHash z3 = Some ((ea_CodeHash a, False), src_adv z3 32)"
    using z3 c by (simp add: Source_NextHash_def Source_NextBytes_eq)
  note x = SetBytes32_Bytes32
  show ?thesis unfolding EthAccount_Deserialization_def
    using b by (simp add: u v w x z3(1) del: src_adv_adv)
qed

end
