(* ===== verification/Evm_Params.thy ===== *)
theory Evm_Params
  imports StateDB
begin

text \<open>
  The constants and configuration of the virtual machine: the gas schedule of
  \<^verbatim>\<open>src/evm/params/protocol_params.go\<close>, the opcodes of \<^verbatim>\<open>src/evm/opcodes.go\<close> with their names in
  both directions, the fork rules of \<^verbatim>\<open>src/evm/params/config.go\<close> and the error values of
  \<^verbatim>\<open>src/evm/errors\<close> and \<^verbatim>\<open>src/evm/errors.go\<close>.  Gas amounts and opcodes are abbreviations, so a
  program and its cost are numerals to the simplifier.  The opcodes named AND, OR, XOR and NOT carry
  a suffix.
\<close>

section \<open>Gas schedule\<close>

abbreviation CallValueTransferGas :: u64 where "CallValueTransferGas \<equiv> 9000"
abbreviation CallNewAccountGas :: u64 where "CallNewAccountGas \<equiv> 25000"
abbreviation TxGas :: u64 where "TxGas \<equiv> 21000"
abbreviation TxGasContractCreation :: u64 where "TxGasContractCreation \<equiv> 53000"
abbreviation TxDataZeroGas :: u64 where "TxDataZeroGas \<equiv> 4"
abbreviation QuadCoeffDiv :: u64 where "QuadCoeffDiv \<equiv> 512"
abbreviation LogDataGas :: u64 where "LogDataGas \<equiv> 8"
abbreviation CallStipend :: u64 where "CallStipend \<equiv> 2300"
abbreviation Sha3Gas :: u64 where "Sha3Gas \<equiv> 30"
abbreviation Sha3WordGas :: u64 where "Sha3WordGas \<equiv> 6"
abbreviation SstoreSetGas :: u64 where "SstoreSetGas \<equiv> 20000"
abbreviation SstoreResetGas :: u64 where "SstoreResetGas \<equiv> 5000"
abbreviation SstoreClearGas :: u64 where "SstoreClearGas \<equiv> 5000"
abbreviation SstoreRefundGas :: u64 where "SstoreRefundGas \<equiv> 15000"
abbreviation NetSstoreNoopGas :: u64 where "NetSstoreNoopGas \<equiv> 200"
abbreviation NetSstoreInitGas :: u64 where "NetSstoreInitGas \<equiv> 20000"
abbreviation NetSstoreCleanGas :: u64 where "NetSstoreCleanGas \<equiv> 5000"
abbreviation NetSstoreDirtyGas :: u64 where "NetSstoreDirtyGas \<equiv> 200"
abbreviation NetSstoreClearRefund :: u64 where "NetSstoreClearRefund \<equiv> 15000"
abbreviation NetSstoreResetRefund :: u64 where "NetSstoreResetRefund \<equiv> 4800"
abbreviation NetSstoreResetClearRefund :: u64 where "NetSstoreResetClearRefund \<equiv> 19800"
abbreviation SstoreSentryGasEIP2200 :: u64 where "SstoreSentryGasEIP2200 \<equiv> 2300"
abbreviation SstoreSetGasEIP2200 :: u64 where "SstoreSetGasEIP2200 \<equiv> 20000"
abbreviation SstoreResetGasEIP2200 :: u64 where "SstoreResetGasEIP2200 \<equiv> 5000"
abbreviation SstoreClearsScheduleRefundEIP2200 :: u64 where "SstoreClearsScheduleRefundEIP2200 \<equiv> 15000"
abbreviation JumpdestGas :: u64 where "JumpdestGas \<equiv> 1"
abbreviation CreateDataGas :: u64 where "CreateDataGas \<equiv> 200"
abbreviation CallCreateDepth :: u64 where "CallCreateDepth \<equiv> 1024"
abbreviation ExpGas :: u64 where "ExpGas \<equiv> 10"
abbreviation LogGas :: u64 where "LogGas \<equiv> 375"
abbreviation CopyGas :: u64 where "CopyGas \<equiv> 3"
abbreviation StackLimit :: u64 where "StackLimit \<equiv> 1024"
abbreviation LogTopicGas :: u64 where "LogTopicGas \<equiv> 375"
abbreviation CreateGas :: u64 where "CreateGas \<equiv> 32000"
abbreviation Create2Gas :: u64 where "Create2Gas \<equiv> 32000"
abbreviation SelfdestructRefundGas :: u64 where "SelfdestructRefundGas \<equiv> 24000"
abbreviation MemoryGas :: u64 where "MemoryGas \<equiv> 3"
abbreviation TxDataNonZeroGasFrontier :: u64 where "TxDataNonZeroGasFrontier \<equiv> 68"
abbreviation TxDataNonZeroGasEIP2028 :: u64 where "TxDataNonZeroGasEIP2028 \<equiv> 16"
abbreviation CallGasFrontier :: u64 where "CallGasFrontier \<equiv> 40"
abbreviation CallGasEIP150 :: u64 where "CallGasEIP150 \<equiv> 700"
abbreviation BalanceGasFrontier :: u64 where "BalanceGasFrontier \<equiv> 20"
abbreviation BalanceGasEIP150 :: u64 where "BalanceGasEIP150 \<equiv> 400"
abbreviation BalanceGasEIP1884 :: u64 where "BalanceGasEIP1884 \<equiv> 700"
abbreviation ExtcodeSizeGasFrontier :: u64 where "ExtcodeSizeGasFrontier \<equiv> 20"
abbreviation ExtcodeSizeGasEIP150 :: u64 where "ExtcodeSizeGasEIP150 \<equiv> 700"
abbreviation SloadGasFrontier :: u64 where "SloadGasFrontier \<equiv> 50"
abbreviation SloadGasEIP150 :: u64 where "SloadGasEIP150 \<equiv> 200"
abbreviation SloadGasEIP1884 :: u64 where "SloadGasEIP1884 \<equiv> 800"
abbreviation SloadGasEIP2200 :: u64 where "SloadGasEIP2200 \<equiv> 800"
abbreviation ExtcodeHashGasConstantinople :: u64 where "ExtcodeHashGasConstantinople \<equiv> 400"
abbreviation ExtcodeHashGasEIP1884 :: u64 where "ExtcodeHashGasEIP1884 \<equiv> 700"
abbreviation SelfdestructGasEIP150 :: u64 where "SelfdestructGasEIP150 \<equiv> 5000"
abbreviation ExpByteFrontier :: u64 where "ExpByteFrontier \<equiv> 10"
abbreviation ExpByteEIP158 :: u64 where "ExpByteEIP158 \<equiv> 50"
abbreviation ExtcodeCopyBaseFrontier :: u64 where "ExtcodeCopyBaseFrontier \<equiv> 20"
abbreviation ExtcodeCopyBaseEIP150 :: u64 where "ExtcodeCopyBaseEIP150 \<equiv> 700"
abbreviation CreateBySelfdestructGas :: u64 where "CreateBySelfdestructGas \<equiv> 25000"
abbreviation MaxCodeSize :: nat where "MaxCodeSize \<equiv> 24576"
abbreviation EcrecoverGas :: u64 where "EcrecoverGas \<equiv> 3000"
abbreviation Sha256BaseGas :: u64 where "Sha256BaseGas \<equiv> 60"
abbreviation Sha256PerWordGas :: u64 where "Sha256PerWordGas \<equiv> 12"
abbreviation Ripemd160BaseGas :: u64 where "Ripemd160BaseGas \<equiv> 600"
abbreviation Ripemd160PerWordGas :: u64 where "Ripemd160PerWordGas \<equiv> 120"
abbreviation IdentityBaseGas :: u64 where "IdentityBaseGas \<equiv> 15"
abbreviation IdentityPerWordGas :: u64 where "IdentityPerWordGas \<equiv> 3"
abbreviation Bn256AddGasByzantium :: u64 where "Bn256AddGasByzantium \<equiv> 500"
abbreviation Bn256AddGasIstanbul :: u64 where "Bn256AddGasIstanbul \<equiv> 150"
abbreviation Bn256ScalarMulGasByzantium :: u64 where "Bn256ScalarMulGasByzantium \<equiv> 40000"
abbreviation Bn256ScalarMulGasIstanbul :: u64 where "Bn256ScalarMulGasIstanbul \<equiv> 6000"
abbreviation Bn256PairingBaseGasByzantium :: u64 where "Bn256PairingBaseGasByzantium \<equiv> 100000"
abbreviation Bn256PairingBaseGasIstanbul :: u64 where "Bn256PairingBaseGasIstanbul \<equiv> 45000"
abbreviation Bn256PairingPerPointGasByzantium :: u64 where "Bn256PairingPerPointGasByzantium \<equiv> 80000"
abbreviation Bn256PairingPerPointGasIstanbul :: u64 where "Bn256PairingPerPointGasIstanbul \<equiv> 34000"
abbreviation Bls12381G1AddGas :: u64 where "Bls12381G1AddGas \<equiv> 600"
abbreviation Bls12381G1MulGas :: u64 where "Bls12381G1MulGas \<equiv> 12000"
abbreviation Bls12381G2AddGas :: u64 where "Bls12381G2AddGas \<equiv> 4500"
abbreviation Bls12381G2MulGas :: u64 where "Bls12381G2MulGas \<equiv> 55000"
abbreviation Bls12381PairingBaseGas :: u64 where "Bls12381PairingBaseGas \<equiv> 115000"
abbreviation Bls12381PairingPerPairGas :: u64 where "Bls12381PairingPerPairGas \<equiv> 23000"
abbreviation Bls12381MapG1Gas :: u64 where "Bls12381MapG1Gas \<equiv> 5500"
abbreviation Bls12381MapG2Gas :: u64 where "Bls12381MapG2Gas \<equiv> 110000"
abbreviation GasQuickStep :: u64 where "GasQuickStep \<equiv> 2"
abbreviation GasFastestStep :: u64 where "GasFastestStep \<equiv> 3"
abbreviation GasFastStep :: u64 where "GasFastStep \<equiv> 5"
abbreviation GasMidStep :: u64 where "GasMidStep \<equiv> 8"
abbreviation GasSlowStep :: u64 where "GasSlowStep \<equiv> 10"
abbreviation GasExtStep :: u64 where "GasExtStep \<equiv> 20"

definition Bls12381MultiExpDiscountTable :: "u64 list" where
  "Bls12381MultiExpDiscountTable =
    [1200, 888, 764, 641, 594, 547, 500, 453, 438, 423, 408, 394, 379, 364, 349, 334,
     330, 326, 322, 318, 314, 310, 306, 302, 298, 294, 289, 285, 281, 277, 273, 269,
     268, 266, 265, 263, 262, 260, 259, 257, 256, 254, 253, 251, 250, 248, 247, 245,
     244, 242, 241, 239, 238, 236, 235, 233, 232, 231, 229, 228, 226, 225, 223, 222,
     221, 220, 219, 219, 218, 217, 216, 216, 215, 214, 213, 213, 212, 211, 211, 210,
     209, 208, 208, 207, 206, 205, 205, 204, 203, 202, 202, 201, 200, 199, 199, 198,
     197, 196, 196, 195, 194, 193, 193, 192, 191, 191, 190, 189, 188, 188, 187, 186,
     185, 185, 184, 183, 182, 182, 181, 180, 179, 179, 178, 177, 176, 176, 175, 174]"

section \<open>Opcodes\<close>

type_synonym OpCode = byte

abbreviation STOP :: OpCode where "STOP \<equiv> 0x00"
abbreviation ADD :: OpCode where "ADD \<equiv> 0x01"
abbreviation MUL :: OpCode where "MUL \<equiv> 0x02"
abbreviation SUB :: OpCode where "SUB \<equiv> 0x03"
abbreviation DIV :: OpCode where "DIV \<equiv> 0x04"
abbreviation SDIV :: OpCode where "SDIV \<equiv> 0x05"
abbreviation MOD :: OpCode where "MOD \<equiv> 0x06"
abbreviation SMOD :: OpCode where "SMOD \<equiv> 0x07"
abbreviation ADDMOD :: OpCode where "ADDMOD \<equiv> 0x08"
abbreviation MULMOD :: OpCode where "MULMOD \<equiv> 0x09"
abbreviation EXP :: OpCode where "EXP \<equiv> 0x0A"
abbreviation SIGNEXTEND :: OpCode where "SIGNEXTEND \<equiv> 0x0B"
abbreviation LT :: OpCode where "LT \<equiv> 0x10"
abbreviation GT :: OpCode where "GT \<equiv> 0x11"
abbreviation SLT :: OpCode where "SLT \<equiv> 0x12"
abbreviation SGT :: OpCode where "SGT \<equiv> 0x13"
abbreviation EQ :: OpCode where "EQ \<equiv> 0x14"
abbreviation ISZERO :: OpCode where "ISZERO \<equiv> 0x15"
abbreviation AND_op :: OpCode where "AND_op \<equiv> 0x16"
abbreviation OR_op :: OpCode where "OR_op \<equiv> 0x17"
abbreviation XOR_op :: OpCode where "XOR_op \<equiv> 0x18"
abbreviation NOT_op :: OpCode where "NOT_op \<equiv> 0x19"
abbreviation BYTE :: OpCode where "BYTE \<equiv> 0x1A"
abbreviation SHL :: OpCode where "SHL \<equiv> 0x1B"
abbreviation SHR :: OpCode where "SHR \<equiv> 0x1C"
abbreviation SAR :: OpCode where "SAR \<equiv> 0x1D"
abbreviation SHA3 :: OpCode where "SHA3 \<equiv> 0x20"
abbreviation ADDRESS :: OpCode where "ADDRESS \<equiv> 0x30"
abbreviation BALANCE :: OpCode where "BALANCE \<equiv> 0x31"
abbreviation ORIGIN :: OpCode where "ORIGIN \<equiv> 0x32"
abbreviation CALLER :: OpCode where "CALLER \<equiv> 0x33"
abbreviation CALLVALUE :: OpCode where "CALLVALUE \<equiv> 0x34"
abbreviation CALLDATALOAD :: OpCode where "CALLDATALOAD \<equiv> 0x35"
abbreviation CALLDATASIZE :: OpCode where "CALLDATASIZE \<equiv> 0x36"
abbreviation CALLDATACOPY :: OpCode where "CALLDATACOPY \<equiv> 0x37"
abbreviation CODESIZE :: OpCode where "CODESIZE \<equiv> 0x38"
abbreviation CODECOPY :: OpCode where "CODECOPY \<equiv> 0x39"
abbreviation GASPRICE :: OpCode where "GASPRICE \<equiv> 0x3A"
abbreviation EXTCODESIZE :: OpCode where "EXTCODESIZE \<equiv> 0x3B"
abbreviation EXTCODECOPY :: OpCode where "EXTCODECOPY \<equiv> 0x3C"
abbreviation RETURNDATASIZE :: OpCode where "RETURNDATASIZE \<equiv> 0x3D"
abbreviation RETURNDATACOPY :: OpCode where "RETURNDATACOPY \<equiv> 0x3E"
abbreviation EXTCODEHASH :: OpCode where "EXTCODEHASH \<equiv> 0x3F"
abbreviation BLOCKHASH :: OpCode where "BLOCKHASH \<equiv> 0x40"
abbreviation COINBASE :: OpCode where "COINBASE \<equiv> 0x41"
abbreviation TIMESTAMP :: OpCode where "TIMESTAMP \<equiv> 0x42"
abbreviation NUMBER :: OpCode where "NUMBER \<equiv> 0x43"
abbreviation DIFFICULTY :: OpCode where "DIFFICULTY \<equiv> 0x44"
abbreviation GASLIMIT :: OpCode where "GASLIMIT \<equiv> 0x45"
abbreviation CHAINID :: OpCode where "CHAINID \<equiv> 0x46"
abbreviation SELFBALANCE :: OpCode where "SELFBALANCE \<equiv> 0x47"
abbreviation POP :: OpCode where "POP \<equiv> 0x50"
abbreviation MLOAD :: OpCode where "MLOAD \<equiv> 0x51"
abbreviation MSTORE :: OpCode where "MSTORE \<equiv> 0x52"
abbreviation MSTORE8 :: OpCode where "MSTORE8 \<equiv> 0x53"
abbreviation SLOAD :: OpCode where "SLOAD \<equiv> 0x54"
abbreviation SSTORE :: OpCode where "SSTORE \<equiv> 0x55"
abbreviation JUMP :: OpCode where "JUMP \<equiv> 0x56"
abbreviation JUMPI :: OpCode where "JUMPI \<equiv> 0x57"
abbreviation PC :: OpCode where "PC \<equiv> 0x58"
abbreviation MSIZE :: OpCode where "MSIZE \<equiv> 0x59"
abbreviation GAS :: OpCode where "GAS \<equiv> 0x5A"
abbreviation JUMPDEST :: OpCode where "JUMPDEST \<equiv> 0x5B"
abbreviation BEGINSUB :: OpCode where "BEGINSUB \<equiv> 0x5C"
abbreviation RETURNSUB :: OpCode where "RETURNSUB \<equiv> 0x5D"
abbreviation JUMPSUB :: OpCode where "JUMPSUB \<equiv> 0x5E"
abbreviation PUSH1 :: OpCode where "PUSH1 \<equiv> 0x60"
abbreviation PUSH2 :: OpCode where "PUSH2 \<equiv> 0x61"
abbreviation PUSH3 :: OpCode where "PUSH3 \<equiv> 0x62"
abbreviation PUSH4 :: OpCode where "PUSH4 \<equiv> 0x63"
abbreviation PUSH5 :: OpCode where "PUSH5 \<equiv> 0x64"
abbreviation PUSH6 :: OpCode where "PUSH6 \<equiv> 0x65"
abbreviation PUSH7 :: OpCode where "PUSH7 \<equiv> 0x66"
abbreviation PUSH8 :: OpCode where "PUSH8 \<equiv> 0x67"
abbreviation PUSH9 :: OpCode where "PUSH9 \<equiv> 0x68"
abbreviation PUSH10 :: OpCode where "PUSH10 \<equiv> 0x69"
abbreviation PUSH11 :: OpCode where "PUSH11 \<equiv> 0x6A"
abbreviation PUSH12 :: OpCode where "PUSH12 \<equiv> 0x6B"
abbreviation PUSH13 :: OpCode where "PUSH13 \<equiv> 0x6C"
abbreviation PUSH14 :: OpCode where "PUSH14 \<equiv> 0x6D"
abbreviation PUSH15 :: OpCode where "PUSH15 \<equiv> 0x6E"
abbreviation PUSH16 :: OpCode where "PUSH16 \<equiv> 0x6F"
abbreviation PUSH17 :: OpCode where "PUSH17 \<equiv> 0x70"
abbreviation PUSH18 :: OpCode where "PUSH18 \<equiv> 0x71"
abbreviation PUSH19 :: OpCode where "PUSH19 \<equiv> 0x72"
abbreviation PUSH20 :: OpCode where "PUSH20 \<equiv> 0x73"
abbreviation PUSH21 :: OpCode where "PUSH21 \<equiv> 0x74"
abbreviation PUSH22 :: OpCode where "PUSH22 \<equiv> 0x75"
abbreviation PUSH23 :: OpCode where "PUSH23 \<equiv> 0x76"
abbreviation PUSH24 :: OpCode where "PUSH24 \<equiv> 0x77"
abbreviation PUSH25 :: OpCode where "PUSH25 \<equiv> 0x78"
abbreviation PUSH26 :: OpCode where "PUSH26 \<equiv> 0x79"
abbreviation PUSH27 :: OpCode where "PUSH27 \<equiv> 0x7A"
abbreviation PUSH28 :: OpCode where "PUSH28 \<equiv> 0x7B"
abbreviation PUSH29 :: OpCode where "PUSH29 \<equiv> 0x7C"
abbreviation PUSH30 :: OpCode where "PUSH30 \<equiv> 0x7D"
abbreviation PUSH31 :: OpCode where "PUSH31 \<equiv> 0x7E"
abbreviation PUSH32 :: OpCode where "PUSH32 \<equiv> 0x7F"
abbreviation DUP1 :: OpCode where "DUP1 \<equiv> 0x80"
abbreviation DUP2 :: OpCode where "DUP2 \<equiv> 0x81"
abbreviation DUP3 :: OpCode where "DUP3 \<equiv> 0x82"
abbreviation DUP4 :: OpCode where "DUP4 \<equiv> 0x83"
abbreviation DUP5 :: OpCode where "DUP5 \<equiv> 0x84"
abbreviation DUP6 :: OpCode where "DUP6 \<equiv> 0x85"
abbreviation DUP7 :: OpCode where "DUP7 \<equiv> 0x86"
abbreviation DUP8 :: OpCode where "DUP8 \<equiv> 0x87"
abbreviation DUP9 :: OpCode where "DUP9 \<equiv> 0x88"
abbreviation DUP10 :: OpCode where "DUP10 \<equiv> 0x89"
abbreviation DUP11 :: OpCode where "DUP11 \<equiv> 0x8A"
abbreviation DUP12 :: OpCode where "DUP12 \<equiv> 0x8B"
abbreviation DUP13 :: OpCode where "DUP13 \<equiv> 0x8C"
abbreviation DUP14 :: OpCode where "DUP14 \<equiv> 0x8D"
abbreviation DUP15 :: OpCode where "DUP15 \<equiv> 0x8E"
abbreviation DUP16 :: OpCode where "DUP16 \<equiv> 0x8F"
abbreviation SWAP1 :: OpCode where "SWAP1 \<equiv> 0x90"
abbreviation SWAP2 :: OpCode where "SWAP2 \<equiv> 0x91"
abbreviation SWAP3 :: OpCode where "SWAP3 \<equiv> 0x92"
abbreviation SWAP4 :: OpCode where "SWAP4 \<equiv> 0x93"
abbreviation SWAP5 :: OpCode where "SWAP5 \<equiv> 0x94"
abbreviation SWAP6 :: OpCode where "SWAP6 \<equiv> 0x95"
abbreviation SWAP7 :: OpCode where "SWAP7 \<equiv> 0x96"
abbreviation SWAP8 :: OpCode where "SWAP8 \<equiv> 0x97"
abbreviation SWAP9 :: OpCode where "SWAP9 \<equiv> 0x98"
abbreviation SWAP10 :: OpCode where "SWAP10 \<equiv> 0x99"
abbreviation SWAP11 :: OpCode where "SWAP11 \<equiv> 0x9A"
abbreviation SWAP12 :: OpCode where "SWAP12 \<equiv> 0x9B"
abbreviation SWAP13 :: OpCode where "SWAP13 \<equiv> 0x9C"
abbreviation SWAP14 :: OpCode where "SWAP14 \<equiv> 0x9D"
abbreviation SWAP15 :: OpCode where "SWAP15 \<equiv> 0x9E"
abbreviation SWAP16 :: OpCode where "SWAP16 \<equiv> 0x9F"
abbreviation LOG0 :: OpCode where "LOG0 \<equiv> 0xA0"
abbreviation LOG1 :: OpCode where "LOG1 \<equiv> 0xA1"
abbreviation LOG2 :: OpCode where "LOG2 \<equiv> 0xA2"
abbreviation LOG3 :: OpCode where "LOG3 \<equiv> 0xA3"
abbreviation LOG4 :: OpCode where "LOG4 \<equiv> 0xA4"
abbreviation PUSH :: OpCode where "PUSH \<equiv> 0xB0"
abbreviation DUP :: OpCode where "DUP \<equiv> 0xB1"
abbreviation SWAP :: OpCode where "SWAP \<equiv> 0xB2"
abbreviation CREATE :: OpCode where "CREATE \<equiv> 0xF0"
abbreviation CALL :: OpCode where "CALL \<equiv> 0xF1"
abbreviation CALLCODE :: OpCode where "CALLCODE \<equiv> 0xF2"
abbreviation RETURN :: OpCode where "RETURN \<equiv> 0xF3"
abbreviation DELEGATECALL :: OpCode where "DELEGATECALL \<equiv> 0xF4"
abbreviation CREATE2 :: OpCode where "CREATE2 \<equiv> 0xF5"
abbreviation STATICCALL :: OpCode where "STATICCALL \<equiv> 0xFA"
abbreviation REVERT :: OpCode where "REVERT \<equiv> 0xFD"
abbreviation SELFDESTRUCT :: OpCode where "SELFDESTRUCT \<equiv> 0xFF"

definition IsPush :: "OpCode \<Rightarrow> bool" where
  "IsPush op \<longleftrightarrow> op \<in> set [PUSH1, PUSH2, PUSH3, PUSH4, PUSH5, PUSH6, PUSH7, PUSH8, PUSH9, PUSH10, PUSH11, PUSH12, PUSH13, PUSH14,
     PUSH15, PUSH16, PUSH17, PUSH18, PUSH19, PUSH20, PUSH21, PUSH22, PUSH23, PUSH24, PUSH25, PUSH26, PUSH27,
     PUSH28, PUSH29, PUSH30, PUSH31, PUSH32]"

definition IsStaticJump :: "OpCode \<Rightarrow> bool" where
  "IsStaticJump op \<longleftrightarrow> op = JUMP"

definition opCodeToString :: "(OpCode \<times> string) list" where
  "opCodeToString = [
     (STOP, ''STOP''), (ADD, ''ADD''), (MUL, ''MUL''), (SUB, ''SUB''), (DIV, ''DIV''), (SDIV, ''SDIV''),
     (MOD, ''MOD''), (SMOD, ''SMOD''), (EXP, ''EXP''), (NOT_op, ''NOT''), (LT, ''LT''), (GT, ''GT''),
     (SLT, ''SLT''), (SGT, ''SGT''), (EQ, ''EQ''), (ISZERO, ''ISZERO''), (SIGNEXTEND, ''SIGNEXTEND''),
     (AND_op, ''AND''), (OR_op, ''OR''), (XOR_op, ''XOR''), (BYTE, ''BYTE''), (SHL, ''SHL''), (SHR, ''SHR''),
     (SAR, ''SAR''), (ADDMOD, ''ADDMOD''), (MULMOD, ''MULMOD''), (SHA3, ''SHA3''), (ADDRESS, ''ADDRESS''),
     (BALANCE, ''BALANCE''), (ORIGIN, ''ORIGIN''), (CALLER, ''CALLER''), (CALLVALUE, ''CALLVALUE''),
     (CALLDATALOAD, ''CALLDATALOAD''), (CALLDATASIZE, ''CALLDATASIZE''), (CALLDATACOPY, ''CALLDATACOPY''),
     (CODESIZE, ''CODESIZE''), (CODECOPY, ''CODECOPY''), (GASPRICE, ''GASPRICE''),
     (EXTCODESIZE, ''EXTCODESIZE''), (EXTCODECOPY, ''EXTCODECOPY''), (RETURNDATASIZE, ''RETURNDATASIZE''),
     (RETURNDATACOPY, ''RETURNDATACOPY''), (EXTCODEHASH, ''EXTCODEHASH''), (BLOCKHASH, ''BLOCKHASH''),
     (COINBASE, ''COINBASE''), (TIMESTAMP, ''TIMESTAMP''), (NUMBER, ''NUMBER''),
     (DIFFICULTY, ''DIFFICULTY''), (GASLIMIT, ''GASLIMIT''), (CHAINID, ''CHAINID''),
     (SELFBALANCE, ''SELFBALANCE''), (POP, ''POP''), (MLOAD, ''MLOAD''), (MSTORE, ''MSTORE''),
     (MSTORE8, ''MSTORE8''), (SLOAD, ''SLOAD''), (SSTORE, ''SSTORE''), (JUMP, ''JUMP''), (JUMPI, ''JUMPI''),
     (PC, ''PC''), (MSIZE, ''MSIZE''), (GAS, ''GAS''), (JUMPDEST, ''JUMPDEST''), (BEGINSUB, ''BEGINSUB''),
     (JUMPSUB, ''JUMPSUB''), (RETURNSUB, ''RETURNSUB''), (PUSH1, ''PUSH1''), (PUSH2, ''PUSH2''),
     (PUSH3, ''PUSH3''), (PUSH4, ''PUSH4''), (PUSH5, ''PUSH5''), (PUSH6, ''PUSH6''), (PUSH7, ''PUSH7''),
     (PUSH8, ''PUSH8''), (PUSH9, ''PUSH9''), (PUSH10, ''PUSH10''), (PUSH11, ''PUSH11''),
     (PUSH12, ''PUSH12''), (PUSH13, ''PUSH13''), (PUSH14, ''PUSH14''), (PUSH15, ''PUSH15''),
     (PUSH16, ''PUSH16''), (PUSH17, ''PUSH17''), (PUSH18, ''PUSH18''), (PUSH19, ''PUSH19''),
     (PUSH20, ''PUSH20''), (PUSH21, ''PUSH21''), (PUSH22, ''PUSH22''), (PUSH23, ''PUSH23''),
     (PUSH24, ''PUSH24''), (PUSH25, ''PUSH25''), (PUSH26, ''PUSH26''), (PUSH27, ''PUSH27''),
     (PUSH28, ''PUSH28''), (PUSH29, ''PUSH29''), (PUSH30, ''PUSH30''), (PUSH31, ''PUSH31''),
     (PUSH32, ''PUSH32''), (DUP1, ''DUP1''), (DUP2, ''DUP2''), (DUP3, ''DUP3''), (DUP4, ''DUP4''),
     (DUP5, ''DUP5''), (DUP6, ''DUP6''), (DUP7, ''DUP7''), (DUP8, ''DUP8''), (DUP9, ''DUP9''),
     (DUP10, ''DUP10''), (DUP11, ''DUP11''), (DUP12, ''DUP12''), (DUP13, ''DUP13''), (DUP14, ''DUP14''),
     (DUP15, ''DUP15''), (DUP16, ''DUP16''), (SWAP1, ''SWAP1''), (SWAP2, ''SWAP2''), (SWAP3, ''SWAP3''),
     (SWAP4, ''SWAP4''), (SWAP5, ''SWAP5''), (SWAP6, ''SWAP6''), (SWAP7, ''SWAP7''), (SWAP8, ''SWAP8''),
     (SWAP9, ''SWAP9''), (SWAP10, ''SWAP10''), (SWAP11, ''SWAP11''), (SWAP12, ''SWAP12''),
     (SWAP13, ''SWAP13''), (SWAP14, ''SWAP14''), (SWAP15, ''SWAP15''), (SWAP16, ''SWAP16''),
     (LOG0, ''LOG0''), (LOG1, ''LOG1''), (LOG2, ''LOG2''), (LOG3, ''LOG3''), (LOG4, ''LOG4''),
     (CREATE, ''CREATE''), (CALL, ''CALL''), (RETURN, ''RETURN''), (CALLCODE, ''CALLCODE''),
     (DELEGATECALL, ''DELEGATECALL''), (CREATE2, ''CREATE2''), (STATICCALL, ''STATICCALL''),
     (REVERT, ''REVERT''), (SELFDESTRUCT, ''SELFDESTRUCT''), (PUSH, ''PUSH''), (DUP, ''DUP''),
     (SWAP, ''SWAP'')]"

text \<open>\<^verbatim>\<open>fmt.Sprintf("%x", n)\<close> for a byte.\<close>

definition hex_char :: "nat \<Rightarrow> char" where
  "hex_char d = ''0123456789abcdef'' ! d"

definition hex_byte :: "byte \<Rightarrow> string" where
  "hex_byte b = (let n = unat b in if n < 16 then [hex_char n] else [hex_char (n div 16), hex_char (n mod 16)])"

definition OpCode_String :: "OpCode \<Rightarrow> string" where
  "OpCode_String op =
     (case map_of opCodeToString op of
        None \<Rightarrow> ''opcode 0x'' @ hex_byte op @ '' not defined''
      | Some str \<Rightarrow> (if length str = 0 then ''opcode 0x'' @ hex_byte op @ '' not defined'' else str))"

definition stringToOp :: "(string \<times> OpCode) list" where
  "stringToOp = [
     (''STOP'', STOP), (''ADD'', ADD), (''MUL'', MUL), (''SUB'', SUB), (''DIV'', DIV), (''SDIV'', SDIV),
     (''MOD'', MOD), (''SMOD'', SMOD), (''EXP'', EXP), (''NOT'', NOT_op), (''LT'', LT), (''GT'', GT),
     (''SLT'', SLT), (''SGT'', SGT), (''EQ'', EQ), (''ISZERO'', ISZERO), (''SIGNEXTEND'', SIGNEXTEND),
     (''AND'', AND_op), (''OR'', OR_op), (''XOR'', XOR_op), (''BYTE'', BYTE), (''SHL'', SHL), (''SHR'', SHR),
     (''SAR'', SAR), (''ADDMOD'', ADDMOD), (''MULMOD'', MULMOD), (''SHA3'', SHA3), (''ADDRESS'', ADDRESS),
     (''BALANCE'', BALANCE), (''ORIGIN'', ORIGIN), (''CALLER'', CALLER), (''CALLVALUE'', CALLVALUE),
     (''CALLDATALOAD'', CALLDATALOAD), (''CALLDATASIZE'', CALLDATASIZE), (''CALLDATACOPY'', CALLDATACOPY),
     (''CHAINID'', CHAINID), (''DELEGATECALL'', DELEGATECALL), (''STATICCALL'', STATICCALL),
     (''CODESIZE'', CODESIZE), (''CODECOPY'', CODECOPY), (''GASPRICE'', GASPRICE),
     (''EXTCODESIZE'', EXTCODESIZE), (''EXTCODECOPY'', EXTCODECOPY), (''RETURNDATASIZE'', RETURNDATASIZE),
     (''RETURNDATACOPY'', RETURNDATACOPY), (''EXTCODEHASH'', EXTCODEHASH), (''BLOCKHASH'', BLOCKHASH),
     (''COINBASE'', COINBASE), (''TIMESTAMP'', TIMESTAMP), (''NUMBER'', NUMBER),
     (''DIFFICULTY'', DIFFICULTY), (''GASLIMIT'', GASLIMIT), (''SELFBALANCE'', SELFBALANCE), (''POP'', POP),
     (''MLOAD'', MLOAD), (''MSTORE'', MSTORE), (''MSTORE8'', MSTORE8), (''SLOAD'', SLOAD),
     (''SSTORE'', SSTORE), (''JUMP'', JUMP), (''JUMPI'', JUMPI), (''PC'', PC), (''MSIZE'', MSIZE),
     (''GAS'', GAS), (''JUMPDEST'', JUMPDEST), (''BEGINSUB'', BEGINSUB), (''RETURNSUB'', RETURNSUB),
     (''JUMPSUB'', JUMPSUB), (''PUSH1'', PUSH1), (''PUSH2'', PUSH2), (''PUSH3'', PUSH3), (''PUSH4'', PUSH4),
     (''PUSH5'', PUSH5), (''PUSH6'', PUSH6), (''PUSH7'', PUSH7), (''PUSH8'', PUSH8), (''PUSH9'', PUSH9),
     (''PUSH10'', PUSH10), (''PUSH11'', PUSH11), (''PUSH12'', PUSH12), (''PUSH13'', PUSH13),
     (''PUSH14'', PUSH14), (''PUSH15'', PUSH15), (''PUSH16'', PUSH16), (''PUSH17'', PUSH17),
     (''PUSH18'', PUSH18), (''PUSH19'', PUSH19), (''PUSH20'', PUSH20), (''PUSH21'', PUSH21),
     (''PUSH22'', PUSH22), (''PUSH23'', PUSH23), (''PUSH24'', PUSH24), (''PUSH25'', PUSH25),
     (''PUSH26'', PUSH26), (''PUSH27'', PUSH27), (''PUSH28'', PUSH28), (''PUSH29'', PUSH29),
     (''PUSH30'', PUSH30), (''PUSH31'', PUSH31), (''PUSH32'', PUSH32), (''DUP1'', DUP1), (''DUP2'', DUP2),
     (''DUP3'', DUP3), (''DUP4'', DUP4), (''DUP5'', DUP5), (''DUP6'', DUP6), (''DUP7'', DUP7),
     (''DUP8'', DUP8), (''DUP9'', DUP9), (''DUP10'', DUP10), (''DUP11'', DUP11), (''DUP12'', DUP12),
     (''DUP13'', DUP13), (''DUP14'', DUP14), (''DUP15'', DUP15), (''DUP16'', DUP16), (''SWAP1'', SWAP1),
     (''SWAP2'', SWAP2), (''SWAP3'', SWAP3), (''SWAP4'', SWAP4), (''SWAP5'', SWAP5), (''SWAP6'', SWAP6),
     (''SWAP7'', SWAP7), (''SWAP8'', SWAP8), (''SWAP9'', SWAP9), (''SWAP10'', SWAP10), (''SWAP11'', SWAP11),
     (''SWAP12'', SWAP12), (''SWAP13'', SWAP13), (''SWAP14'', SWAP14), (''SWAP15'', SWAP15),
     (''SWAP16'', SWAP16), (''LOG0'', LOG0), (''LOG1'', LOG1), (''LOG2'', LOG2), (''LOG3'', LOG3),
     (''LOG4'', LOG4), (''CREATE'', CREATE), (''CREATE2'', CREATE2), (''CALL'', CALL), (''RETURN'', RETURN),
     (''CALLCODE'', CALLCODE), (''REVERT'', REVERT), (''SELFDESTRUCT'', SELFDESTRUCT)]"

definition StringToOp :: "string \<Rightarrow> OpCode" where
  "StringToOp str = (case map_of stringToOp str of Some op \<Rightarrow> op | None \<Rightarrow> STOP)"

section \<open>Errors\<close>

datatype evm_error =
    ErrInvalidSubroutineEntry | ErrOutOfGas | ErrCodeStoreOutOfGas | ErrDepth | ErrInsufficientBalance
  | ErrContractAddressCollision | ErrExecutionReverted | ErrMaxCodeSizeExceeded | ErrInvalidJump
  | ErrWriteProtection | ErrReturnDataOutOfBounds | ErrGasUintOverflow | ErrInvalidRetsub | ErrReturnStackExceeded
  | ErrStackUnderflow nat int | ErrStackOverflow nat int | ErrInvalidOpCode OpCode
  | ErrReentrancySentry
  | ErrBadPairingInput | ErrBlake2FInvalidInputLength | ErrBlake2FInvalidFinalFlag
  | ErrBLS12381InvalidInputLength | ErrBLS12381InvalidFieldElementTopBytes
  | ErrBLS12381G1PointSubgroup | ErrBLS12381G2PointSubgroup | ErrInvalidFieldElementLength
  | ErrCrypto string

section \<open>Chain configuration\<close>

record ChainConfig =
  cc_ChainID :: "int option"
  cc_HomesteadBlock :: "int option"
  cc_DAOForkBlock :: "int option"
  cc_DAOForkSupport :: bool
  cc_EIP150Block :: "int option"
  cc_EIP155Block :: "int option"
  cc_EIP158Block :: "int option"
  cc_ByzantiumBlock :: "int option"
  cc_ConstantinopleBlock :: "int option"
  cc_PetersburgBlock :: "int option"
  cc_IstanbulBlock :: "int option"
  cc_MuirGlacierBlock :: "int option"
  cc_YoloV2Block :: "int option"

definition isForked :: "int option \<Rightarrow> int option \<Rightarrow> bool" where
  "isForked s head = (case (s, head) of (Some s, Some head) \<Rightarrow> s \<le> head | _ \<Rightarrow> False)"

definition IsHomestead :: "ChainConfig \<Rightarrow> int \<Rightarrow> bool" where
  "IsHomestead c num = isForked (cc_HomesteadBlock c) (Some num)"
definition IsDAOFork :: "ChainConfig \<Rightarrow> int \<Rightarrow> bool" where
  "IsDAOFork c num = isForked (cc_DAOForkBlock c) (Some num)"
definition IsEIP150 :: "ChainConfig \<Rightarrow> int \<Rightarrow> bool" where
  "IsEIP150 c num = isForked (cc_EIP150Block c) (Some num)"
definition IsEIP155 :: "ChainConfig \<Rightarrow> int \<Rightarrow> bool" where
  "IsEIP155 c num = isForked (cc_EIP155Block c) (Some num)"
definition IsEIP158 :: "ChainConfig \<Rightarrow> int \<Rightarrow> bool" where
  "IsEIP158 c num = isForked (cc_EIP158Block c) (Some num)"
definition IsByzantium :: "ChainConfig \<Rightarrow> int \<Rightarrow> bool" where
  "IsByzantium c num = isForked (cc_ByzantiumBlock c) (Some num)"
definition IsConstantinople :: "ChainConfig \<Rightarrow> int \<Rightarrow> bool" where
  "IsConstantinople c num = isForked (cc_ConstantinopleBlock c) (Some num)"
definition IsMuirGlacier :: "ChainConfig \<Rightarrow> int \<Rightarrow> bool" where
  "IsMuirGlacier c num = isForked (cc_MuirGlacierBlock c) (Some num)"
definition IsPetersburg :: "ChainConfig \<Rightarrow> int \<Rightarrow> bool" where
  "IsPetersburg c num = (isForked (cc_PetersburgBlock c) (Some num) \<or>
     cc_PetersburgBlock c = None \<and> isForked (cc_ConstantinopleBlock c) (Some num))"
definition IsIstanbul :: "ChainConfig \<Rightarrow> int \<Rightarrow> bool" where
  "IsIstanbul c num = isForked (cc_IstanbulBlock c) (Some num)"
definition IsYoloV2 :: "ChainConfig \<Rightarrow> int \<Rightarrow> bool" where
  "IsYoloV2 c num = isForked (cc_YoloV2Block c) (Some num)"

record Rules =
  r_ChainID :: int
  r_IsHomestead :: bool
  r_IsEIP150 :: bool
  r_IsEIP155 :: bool
  r_IsEIP158 :: bool
  r_IsByzantium :: bool
  r_IsConstantinople :: bool
  r_IsPetersburg :: bool
  r_IsIstanbul :: bool
  r_IsYoloV2 :: bool

definition ChainConfig_Rules :: "ChainConfig \<Rightarrow> int \<Rightarrow> Rules" where
  "ChainConfig_Rules c num =
     \<lparr>r_ChainID = (case cc_ChainID c of None \<Rightarrow> 0 | Some i \<Rightarrow> i), r_IsHomestead = IsHomestead c num,
      r_IsEIP150 = IsEIP150 c num, r_IsEIP155 = IsEIP155 c num, r_IsEIP158 = IsEIP158 c num,
      r_IsByzantium = IsByzantium c num, r_IsConstantinople = IsConstantinople c num,
      r_IsPetersburg = IsPetersburg c num, r_IsIstanbul = IsIstanbul c num, r_IsYoloV2 = IsYoloV2 c num\<rparr>"

definition GetChainConfig :: "u64 \<Rightarrow> ChainConfig" where
  "GetChainConfig chainId =
     \<lparr>cc_ChainID = Some (sint chainId), cc_HomesteadBlock = Some 0, cc_DAOForkBlock = None, cc_DAOForkSupport = True,
      cc_EIP150Block = Some 0, cc_EIP155Block = Some 0, cc_EIP158Block = Some 0, cc_ByzantiumBlock = Some 0,
      cc_ConstantinopleBlock = Some 0, cc_PetersburgBlock = Some 0, cc_IstanbulBlock = Some 0,
      cc_MuirGlacierBlock = Some 0, cc_YoloV2Block = None\<rparr>"

subsection \<open>Changing a configuration\<close>

definition configNumEqual :: "int option \<Rightarrow> int option \<Rightarrow> bool" where
  "configNumEqual x y \<longleftrightarrow> (case x of None \<Rightarrow> y = None | Some a \<Rightarrow> (case y of None \<Rightarrow> False | Some b \<Rightarrow> a = b))"

definition isForkIncompatible :: "int option \<Rightarrow> int option \<Rightarrow> int \<Rightarrow> bool" where
  "isForkIncompatible s1 s2 head \<longleftrightarrow> (isForked s1 (Some head) \<or> isForked s2 (Some head)) \<and> \<not> configNumEqual s1 s2"

record ConfigCompatError =
  ce_What :: string
  ce_StoredConfig :: "int option"
  ce_NewConfig :: "int option"
  ce_RewindTo :: u64

definition newCompatError :: "string \<Rightarrow> int option \<Rightarrow> int option \<Rightarrow> ConfigCompatError" where
  "newCompatError what storedblock newblock =
     (let rew = (case (storedblock, newblock) of
          (None, _) \<Rightarrow> newblock
        | (Some s, None) \<Rightarrow> storedblock
        | (Some s, Some n) \<Rightarrow> if s < n then storedblock else newblock)
      in \<lparr>ce_What = what, ce_StoredConfig = storedblock, ce_NewConfig = newblock,
          ce_RewindTo = (case rew of Some r \<Rightarrow> if sgn r > 0 then of_int r - 1 else 0 | None \<Rightarrow> 0)\<rparr>)"

definition checkCompatible_one :: "ChainConfig \<Rightarrow> ChainConfig \<Rightarrow> int \<Rightarrow> ConfigCompatError option" where
  "checkCompatible_one c newcfg head =
     (if isForkIncompatible (cc_HomesteadBlock c) (cc_HomesteadBlock newcfg) head
      then Some (newCompatError ''Homestead fork block'' (cc_HomesteadBlock c) (cc_HomesteadBlock newcfg))
      else if isForkIncompatible (cc_DAOForkBlock c) (cc_DAOForkBlock newcfg) head
      then Some (newCompatError ''DAO fork block'' (cc_DAOForkBlock c) (cc_DAOForkBlock newcfg))
      else if IsDAOFork c head \<and> cc_DAOForkSupport c \<noteq> cc_DAOForkSupport newcfg
      then Some (newCompatError ''DAO fork support flag'' (cc_DAOForkBlock c) (cc_DAOForkBlock newcfg))
      else if isForkIncompatible (cc_EIP150Block c) (cc_EIP150Block newcfg) head
      then Some (newCompatError ''EIP150 fork block'' (cc_EIP150Block c) (cc_EIP150Block newcfg))
      else if isForkIncompatible (cc_EIP155Block c) (cc_EIP155Block newcfg) head
      then Some (newCompatError ''EIP155 fork block'' (cc_EIP155Block c) (cc_EIP155Block newcfg))
      else if isForkIncompatible (cc_EIP158Block c) (cc_EIP158Block newcfg) head
      then Some (newCompatError ''EIP158 fork block'' (cc_EIP158Block c) (cc_EIP158Block newcfg))
      else if IsEIP158 c head \<and> \<not> configNumEqual (cc_ChainID c) (cc_ChainID newcfg)
      then Some (newCompatError ''EIP158 chain ID'' (cc_EIP158Block c) (cc_EIP158Block newcfg))
      else if isForkIncompatible (cc_ByzantiumBlock c) (cc_ByzantiumBlock newcfg) head
      then Some (newCompatError ''Byzantium fork block'' (cc_ByzantiumBlock c) (cc_ByzantiumBlock newcfg))
      else if isForkIncompatible (cc_ConstantinopleBlock c) (cc_ConstantinopleBlock newcfg) head
      then Some (newCompatError ''Constantinople fork block'' (cc_ConstantinopleBlock c) (cc_ConstantinopleBlock newcfg))
      else if isForkIncompatible (cc_PetersburgBlock c) (cc_PetersburgBlock newcfg) head \<and>
              isForkIncompatible (cc_ConstantinopleBlock c) (cc_PetersburgBlock newcfg) head
      then Some (newCompatError ''Petersburg fork block'' (cc_PetersburgBlock c) (cc_PetersburgBlock newcfg))
      else if isForkIncompatible (cc_IstanbulBlock c) (cc_IstanbulBlock newcfg) head
      then Some (newCompatError ''Istanbul fork block'' (cc_IstanbulBlock c) (cc_IstanbulBlock newcfg))
      else if isForkIncompatible (cc_MuirGlacierBlock c) (cc_MuirGlacierBlock newcfg) head
      then Some (newCompatError ''Muir Glacier fork block'' (cc_MuirGlacierBlock c) (cc_MuirGlacierBlock newcfg))
      else if isForkIncompatible (cc_YoloV2Block c) (cc_YoloV2Block newcfg) head
      then Some (newCompatError ''YOLOv2 fork block'' (cc_YoloV2Block c) (cc_YoloV2Block newcfg))
      else None)"

text \<open>The loop of \<^verbatim>\<open>CheckCompatible\<close>: lower the head to the rewind point of the conflict found until
  none is left or the same point comes up again.\<close>

partial_function (option) CheckCompatible_loop ::
  "ChainConfig \<Rightarrow> ChainConfig \<Rightarrow> u64 \<Rightarrow> ConfigCompatError option \<Rightarrow> ConfigCompatError option option" where [code]:
  "CheckCompatible_loop c newcfg bhead lasterr =
     (case checkCompatible_one c newcfg (uint bhead) of
        None \<Rightarrow> Some lasterr
      | Some err \<Rightarrow>
          (if lasterr \<noteq> None \<and> ce_RewindTo err = ce_RewindTo (the lasterr) then Some lasterr
           else CheckCompatible_loop c newcfg (ce_RewindTo err) (Some err)))"

definition CheckCompatible :: "ChainConfig \<Rightarrow> ChainConfig \<Rightarrow> u64 \<Rightarrow> ConfigCompatError option option" where
  "CheckCompatible c newcfg height = CheckCompatible_loop c newcfg height None"

type_synonym fork = "string \<times> int option \<times> bool"

datatype fork_error = ForkNotEnabled string string "int option" | ForkOrder string "int option" string "int option"

fun CheckConfigForkOrder_loop :: "fork option \<Rightarrow> fork list \<Rightarrow> fork_error option" where
  "CheckConfigForkOrder_loop lastFork [] = None"
| "CheckConfigForkOrder_loop lastFork ((name, block, optnl) # forks) =
     (let bad = (case lastFork of
          None \<Rightarrow> None
        | Some (lname, lblock, _) \<Rightarrow>
            (if lblock = None \<and> block \<noteq> None then Some (ForkNotEnabled lname name block)
             else (case (lblock, block) of
                (Some l, Some b) \<Rightarrow> if l > b then Some (ForkOrder lname lblock name block) else None
              | _ \<Rightarrow> None)))
      in case bad of
           Some e \<Rightarrow> Some e
         | None \<Rightarrow> CheckConfigForkOrder_loop (if \<not> optnl \<or> block \<noteq> None then Some (name, block, optnl) else lastFork) forks)"

definition CheckConfigForkOrder :: "ChainConfig \<Rightarrow> fork_error option" where
  "CheckConfigForkOrder c = CheckConfigForkOrder_loop None
     [(''homesteadBlock'', cc_HomesteadBlock c, False), (''daoForkBlock'', cc_DAOForkBlock c, True),
      (''eip150Block'', cc_EIP150Block c, False), (''eip155Block'', cc_EIP155Block c, False),
      (''eip158Block'', cc_EIP158Block c, False), (''byzantiumBlock'', cc_ByzantiumBlock c, False),
      (''constantinopleBlock'', cc_ConstantinopleBlock c, False), (''petersburgBlock'', cc_PetersburgBlock c, False),
      (''istanbulBlock'', cc_IstanbulBlock c, False), (''muirGlacierBlock'', cc_MuirGlacierBlock c, True),
      (''yoloV2Block'', cc_YoloV2Block c, False)]"

end
