(* ===== verification/Evm_Base.thy ===== *)
theory Evm_Base
  imports Evm_Params
begin

text \<open>
  The data structures the interpreter works on: the operand stack and return stack of
  \<^verbatim>\<open>src/evm/stack.go\<close>, the memory of \<^verbatim>\<open>src/evm/memory.go\<close>, the helpers of
  \<^verbatim>\<open>src/evm/common.go\<close>, the jump-destination analysis of \<^verbatim>\<open>src/evm/analysis.go\<close>, the contract of
  \<^verbatim>\<open>src/evm/contract.go\<close>, and the memory-size and stack-size functions of \<^verbatim>\<open>memory_table.go\<close>,
  \<^verbatim>\<open>stack_table.go\<close> and \<^verbatim>\<open>gas.go\<close>.  A stack is a list with its top first, so the slice
  \<^verbatim>\<open>Data()\<close> is its reversal.  An access the Go runtime refuses is \<^term>\<open>None\<close>.  The capacity of a
  memory slice is not modelled: reading above its length is a panic here, which the resizing the
  interpreter does before every instruction keeps out of reach.
\<close>

section \<open>Stacks\<close>

type_synonym Stack = "U256 list"
type_synonym ReturnStack = "u32 list"

definition Stack_Data :: "Stack \<Rightarrow> U256 list" where
  "Stack_Data st = rev st"

definition Stack_push :: "Stack \<Rightarrow> U256 \<Rightarrow> Stack" where
  "Stack_push st d = d # st"

definition Stack_pushN :: "Stack \<Rightarrow> U256 list \<Rightarrow> Stack" where
  "Stack_pushN st ds = rev ds @ st"

definition Stack_pop :: "Stack \<Rightarrow> (U256 \<times> Stack) option" where
  "Stack_pop st = (case st of [] \<Rightarrow> None | d # st' \<Rightarrow> Some (d, st'))"

definition Stack_len :: "Stack \<Rightarrow> nat" where
  "Stack_len st = length st"

definition Stack_swap :: "Stack \<Rightarrow> nat \<Rightarrow> Stack option" where
  "Stack_swap st n =
     (if n = 0 then None
      else do { a \<leftarrow> idx st (n - 1); b \<leftarrow> idx st 0; Some (st[n - 1 := b, 0 := a]) })"

definition Stack_dup :: "Stack \<Rightarrow> nat \<Rightarrow> Stack option" where
  "Stack_dup st n = (if n = 0 then None else do { a \<leftarrow> idx st (n - 1); Some (Stack_push st a) })"

definition Stack_peek :: "Stack \<Rightarrow> U256 option" where
  "Stack_peek st = idx st 0"

definition Stack_Back :: "Stack \<Rightarrow> nat \<Rightarrow> U256 option" where
  "Stack_Back st n = idx st n"

definition ReturnStack_push :: "ReturnStack \<Rightarrow> u32 \<Rightarrow> ReturnStack" where
  "ReturnStack_push st d = d # st"

definition ReturnStack_pop :: "ReturnStack \<Rightarrow> (u32 \<times> ReturnStack) option" where
  "ReturnStack_pop st = (case st of [] \<Rightarrow> None | d # st' \<Rightarrow> Some (d, st'))"

section \<open>Memory\<close>

record Memory =
  m_store :: bytes
  m_lastGasCost :: u64

definition NewMemory :: Memory where
  "NewMemory = \<lparr>m_store = [], m_lastGasCost = 0\<rparr>"

definition Memory_Set :: "Memory \<Rightarrow> u64 \<Rightarrow> u64 \<Rightarrow> bytes \<Rightarrow> Memory option" where
  "Memory_Set m offset sz val =
     (if sz > 0 then
        if unat (offset + sz) > length (m_store m) then None
        else do {
          _ \<leftarrow> go_slice (m_store m) (unat offset) (unat (offset + sz));
          Some (m\<lparr>m_store := overwrite (m_store m) (unat offset) (take (unat sz) val)\<rparr>)
        }
      else Some m)"

definition Memory_Set32 :: "Memory \<Rightarrow> u64 \<Rightarrow> U256 \<Rightarrow> Memory option" where
  "Memory_Set32 m offset val =
     (if unat (offset + 32) > length (m_store m) then None
      else do {
        _ \<leftarrow> go_slice (m_store m) (unat offset) (unat (offset + 32));
        let s = overwrite (m_store m) (unat offset) (replicate 32 0);
        tl \<leftarrow> go_slice s (unat offset) (length s);
        Some (m\<lparr>m_store := overwrite s (unat offset) (Int_WriteToSlice val tl)\<rparr>)
      })"

definition Memory_Len :: "Memory \<Rightarrow> nat" where
  "Memory_Len m = length (m_store m)"

definition Memory_Resize :: "Memory \<Rightarrow> u64 \<Rightarrow> Memory" where
  "Memory_Resize m sz =
     (if Memory_Len m < unat sz then m\<lparr>m_store := m_store m @ replicate (unat sz - Memory_Len m) 0\<rparr> else m)"

definition Memory_GetPtr :: "Memory \<Rightarrow> int \<Rightarrow> int \<Rightarrow> bytes option" where
  "Memory_GetPtr m offset sz =
     (if sz = 0 then Some []
      else if int (length (m_store m)) > offset then
        (if offset < 0 \<or> offset + sz < 0 then None
         else go_slice (m_store m) (nat offset) (nat (offset + sz)))
      else Some [])"

definition Memory_GetCopy :: "Memory \<Rightarrow> int \<Rightarrow> int \<Rightarrow> bytes option" where
  "Memory_GetCopy m offset sz =
     (if sz = 0 then Some []
      else if int (length (m_store m)) > offset then
        (if sz < 0 \<or> offset < 0 \<or> offset + sz < 0 then None
         else go_slice (m_store m) (nat offset) (nat (offset + sz)))
      else Some [])"

definition Memory_Data :: "Memory \<Rightarrow> bytes" where
  "Memory_Data m = m_store m"

section \<open>Sizes and padding\<close>

definition calcMemSize64WithUint :: "U256 \<Rightarrow> u64 \<Rightarrow> u64 \<times> bool" where
  "calcMemSize64WithUint off length64 =
     (if length64 = 0 then (0, False)
      else let (offset64, overflow) = Int_Uint64WithOverflow off in
        if overflow then (0, True)
        else let val = offset64 + length64 in (val, val < offset64))"

definition calcMemSize64 :: "U256 \<Rightarrow> U256 \<Rightarrow> u64 \<times> bool" where
  "calcMemSize64 off l =
     (if \<not> Int_IsUint64 l then (0, True) else calcMemSize64WithUint off (Int_Uint64 l))"

definition getData :: "bytes \<Rightarrow> u64 \<Rightarrow> u64 \<Rightarrow> bytes option" where
  "getData data start sz =
     (let len = of_nat (length data);
          start = (if start > len then len else start);
          end' = start + sz;
          end' = (if end' > len then len else end')
      in do {
        d \<leftarrow> go_slice data (unat start) (unat end');
        Some (RightPadBytes d (sint sz))
      })"

definition toWordSize :: "u64 \<Rightarrow> u64" where
  "toWordSize sz = (if sz > 0xFFFFFFFFFFFFFFFF - 31 then 0xFFFFFFFFFFFFFFFF div 32 + 1 else (sz + 31) div 32)"

primrec allZero :: "bytes \<Rightarrow> bool" where
  "allZero [] = True"
| "allZero (b # bs) = (if b \<noteq> 0 then False else allZero bs)"

section \<open>Jump-destination analysis\<close>

type_synonym bitvec = bytes

definition bitvec_set :: "bitvec \<Rightarrow> u64 \<Rightarrow> bitvec option" where
  "bitvec_set bits pos = do {
     b \<leftarrow> idx bits (unat pos div 8);
     put_at bits (unat pos div 8) (b OR drop_bit (unat pos mod 8) 0x80)
   }"

definition bitvec_set8 :: "bitvec \<Rightarrow> u64 \<Rightarrow> bitvec option" where
  "bitvec_set8 bits pos = do {
     b \<leftarrow> idx bits (unat pos div 8);
     bits \<leftarrow> put_at bits (unat pos div 8) (b OR drop_bit (unat pos mod 8) 0xFF);
     b' \<leftarrow> idx bits (unat pos div 8 + 1);
     put_at bits (unat pos div 8 + 1) (b' OR NOT (drop_bit (unat pos mod 8) 0xFF))
   }"

definition codeSegment :: "bitvec \<Rightarrow> u64 \<Rightarrow> bool option" where
  "codeSegment bits pos = do {
     b \<leftarrow> idx bits (unat pos div 8);
     Some (b AND drop_bit (unat pos mod 8) 0x80 = 0)
   }"

partial_function (option) codeBitmap_loop8 :: "bitvec \<Rightarrow> u64 \<Rightarrow> byte \<Rightarrow> (bitvec \<times> u64 \<times> byte) option" where [code]:
  "codeBitmap_loop8 bits pc numbits =
     (if numbits \<ge> 8 then do {
        bits \<leftarrow> bitvec_set8 bits pc;
        codeBitmap_loop8 bits (pc + 8) (numbits - 8)
      } else Some (bits, pc, numbits))"

partial_function (option) codeBitmap_loop1 :: "bitvec \<Rightarrow> u64 \<Rightarrow> byte \<Rightarrow> (bitvec \<times> u64) option" where [code]:
  "codeBitmap_loop1 bits pc numbits =
     (if numbits > 0 then do {
        bits \<leftarrow> bitvec_set bits pc;
        codeBitmap_loop1 bits (pc + 1) (numbits - 1)
      } else Some (bits, pc))"

partial_function (option) codeBitmap_loop :: "bytes \<Rightarrow> bitvec \<Rightarrow> u64 \<Rightarrow> bitvec option" where [code]:
  "codeBitmap_loop code bits pc =
     (if unat pc < length code then do {
        op \<leftarrow> idx code (unat pc);
        if op \<ge> PUSH1 \<and> op \<le> PUSH32 then do {
          (bits, pc, numbits) \<leftarrow> codeBitmap_loop8 bits (pc + 1) (op - PUSH1 + 1);
          (bits, pc) \<leftarrow> codeBitmap_loop1 bits pc numbits;
          codeBitmap_loop code bits pc
        } else codeBitmap_loop code bits (pc + 1)
      } else Some bits)"

definition codeBitmap :: "bytes \<Rightarrow> bitvec option" where
  "codeBitmap code = codeBitmap_loop code (replicate (length code div 8 + 1 + 4) 0) 0"

section \<open>Contracts\<close>

text \<open>A \<^verbatim>\<open>ContractRef\<close> is an account or the contract that makes a call.  Of a calling contract only its
  address, caller and value are read through the interface, none of which change after its creation.\<close>

datatype ContractRef = AccountRef bytes | ContractObj bytes bytes "int option"

primrec ContractRef_Address :: "ContractRef \<Rightarrow> bytes" where
  "ContractRef_Address (AccountRef a) = a"
| "ContractRef_Address (ContractObj a c v) = a"

record Contract =
  ct_CallerAddress :: bytes
  ct_caller :: ContractRef
  ct_self :: ContractRef
  ct_analysis :: "bitvec option"
  ct_Code :: bytes
  ct_CodeHash :: bytes
  ct_CodeAddr :: "bytes option"
  ct_Input :: bytes
  ct_Gas :: u64
  ct_value :: "int option"

text \<open>The map of analyses is shared by all the contracts of a call tree: it is passed as state, and a
  contract whose caller is an account starts a new one.\<close>

type_synonym jumpdests = "bytes \<rightharpoonup> bitvec"

definition NewContract ::
  "ContractRef \<Rightarrow> ContractRef \<Rightarrow> int option \<Rightarrow> u64 \<Rightarrow> jumpdests \<Rightarrow> Contract \<times> jumpdests" where
  "NewContract clr object val gas jd =
     (\<lparr>ct_CallerAddress = ContractRef_Address clr, ct_caller = clr, ct_self = object, ct_analysis = None,
       ct_Code = [], ct_CodeHash = zero_hash, ct_CodeAddr = None, ct_Input = [], ct_Gas = gas, ct_value = val\<rparr>,
      case clr of ContractObj _ _ _ \<Rightarrow> jd | AccountRef _ \<Rightarrow> Map.empty)"

definition Contract_isCode :: "Contract \<Rightarrow> jumpdests \<Rightarrow> u64 \<Rightarrow> (bool \<times> Contract \<times> jumpdests) option" where
  "Contract_isCode c jd udest =
     (case ct_analysis c of
        Some a \<Rightarrow> do { b \<leftarrow> codeSegment a udest; Some (b, c, jd) }
      | None \<Rightarrow>
          if ct_CodeHash c \<noteq> zero_hash then do {
            (analysis, jd) \<leftarrow> (case jd (ct_CodeHash c) of
                Some a \<Rightarrow> Some (a, jd)
              | None \<Rightarrow> do { a \<leftarrow> codeBitmap (ct_Code c); Some (a, jd(ct_CodeHash c \<mapsto> a)) });
            b \<leftarrow> codeSegment analysis udest;
            Some (b, c\<lparr>ct_analysis := Some analysis\<rparr>, jd)
          } else do {
            a \<leftarrow> codeBitmap (ct_Code c);
            b \<leftarrow> codeSegment a udest;
            Some (b, c\<lparr>ct_analysis := Some a\<rparr>, jd)
          })"

definition Contract_validJumpdest :: "Contract \<Rightarrow> jumpdests \<Rightarrow> U256 \<Rightarrow> (bool \<times> Contract \<times> jumpdests) option" where
  "Contract_validJumpdest c jd dest =
     (let (udest, overflow) = Int_Uint64WithOverflow dest in
      if overflow \<or> unat udest \<ge> length (ct_Code c) then Some (False, c, jd)
      else do {
        op \<leftarrow> idx (ct_Code c) (unat udest);
        if op \<noteq> JUMPDEST then Some (False, c, jd) else Contract_isCode c jd udest
      })"

definition Contract_validJumpSubdest :: "Contract \<Rightarrow> jumpdests \<Rightarrow> u64 \<Rightarrow> (bool \<times> Contract \<times> jumpdests) option" where
  "Contract_validJumpSubdest c jd udest =
     (if sint udest < 0 \<or> unat udest \<ge> length (ct_Code c) then Some (False, c, jd)
      else do {
        op \<leftarrow> idx (ct_Code c) (unat udest);
        if op \<noteq> BEGINSUB then Some (False, c, jd) else Contract_isCode c jd udest
      })"

definition Contract_AsDelegate :: "Contract \<Rightarrow> Contract option" where
  "Contract_AsDelegate c =
     (case ct_caller c of
        AccountRef _ \<Rightarrow> None
      | ContractObj _ parentCaller parentValue \<Rightarrow>
          Some (c\<lparr>ct_CallerAddress := parentCaller, ct_value := parentValue\<rparr>))"

definition Contract_GetByte :: "Contract \<Rightarrow> u64 \<Rightarrow> byte" where
  "Contract_GetByte c n = (if unat n < length (ct_Code c) then ct_Code c ! unat n else 0)"

definition Contract_GetOp :: "Contract \<Rightarrow> u64 \<Rightarrow> OpCode" where
  "Contract_GetOp c n = Contract_GetByte c n"

definition Contract_Caller :: "Contract \<Rightarrow> bytes" where
  "Contract_Caller c = ct_CallerAddress c"

definition Contract_UseGas :: "Contract \<Rightarrow> u64 \<Rightarrow> bool \<times> Contract" where
  "Contract_UseGas c gas =
     (if ct_Gas c < gas then (False, c) else (True, c\<lparr>ct_Gas := ct_Gas c - gas\<rparr>))"

definition Contract_Address :: "Contract \<Rightarrow> bytes" where
  "Contract_Address c = ContractRef_Address (ct_self c)"

definition Contract_Value :: "Contract \<Rightarrow> int option" where
  "Contract_Value c = ct_value c"

definition Contract_SetCallCode :: "Contract \<Rightarrow> bytes option \<Rightarrow> bytes \<Rightarrow> bytes \<Rightarrow> Contract" where
  "Contract_SetCallCode c addr hash code = c\<lparr>ct_Code := code, ct_CodeHash := hash, ct_CodeAddr := addr\<rparr>"

text \<open>The contract a call instruction passes as the caller of the call.\<close>

definition as_caller :: "Contract \<Rightarrow> ContractRef" where
  "as_caller c = ContractObj (Contract_Address c) (ct_CallerAddress c) (ct_value c)"

record codeAndHash =
  ch_code :: bytes
  ch_hash :: bytes

definition Contract_SetCodeOptionalHash :: "Contract \<Rightarrow> bytes option \<Rightarrow> codeAndHash \<Rightarrow> Contract" where
  "Contract_SetCodeOptionalHash c addr ch =
     c\<lparr>ct_Code := ch_code ch, ct_CodeHash := ch_hash ch, ct_CodeAddr := addr\<rparr>"

section \<open>Call gas and the memory and stack tables\<close>

definition callGas :: "bool \<Rightarrow> u64 \<Rightarrow> u64 \<Rightarrow> U256 \<Rightarrow> evm_error + u64" where
  "callGas isEip150 availableGas base callCost =
     (let availableGas = availableGas - base;
          gas = availableGas - availableGas div 64
      in if isEip150 \<and> (\<not> Int_IsUint64 callCost \<or> gas < Int_Uint64 callCost) then Inr gas
         else if \<not> Int_IsUint64 callCost then Inl ErrGasUintOverflow
         else Inr (Int_Uint64 callCost))"

text \<open>The memory an instruction reads or writes: the offset and the length at two stack positions.\<close>

definition mem_range :: "nat \<Rightarrow> nat \<Rightarrow> Stack \<Rightarrow> (u64 \<times> bool) option" where
  "mem_range i j st = do { off \<leftarrow> Stack_Back st i; l \<leftarrow> Stack_Back st j; Some (calcMemSize64 off l) }"

definition mem_range_fixed :: "nat \<Rightarrow> u64 \<Rightarrow> Stack \<Rightarrow> (u64 \<times> bool) option" where
  "mem_range_fixed i l st = do { off \<leftarrow> Stack_Back st i; Some (calcMemSize64WithUint off l) }"

definition mem_range_max :: "(Stack \<Rightarrow> (u64 \<times> bool) option) \<Rightarrow> (Stack \<Rightarrow> (u64 \<times> bool) option) \<Rightarrow> Stack \<Rightarrow> (u64 \<times> bool) option" where
  "mem_range_max f g st = do {
     (x, overflow) \<leftarrow> f st;
     if overflow then Some (0, True)
     else do {
       (y, overflow) \<leftarrow> g st;
       if overflow then Some (0, True) else if x > y then Some (x, False) else Some (y, False)
     }
   }"

type_synonym memorySizeFunc = "Stack \<Rightarrow> (u64 \<times> bool) option"

definition memorySha3 :: memorySizeFunc where "memorySha3 = mem_range 0 1"
definition memoryCallDataCopy :: memorySizeFunc where "memoryCallDataCopy = mem_range 0 2"
definition memoryReturnDataCopy :: memorySizeFunc where "memoryReturnDataCopy = mem_range 0 2"
definition memoryCodeCopy :: memorySizeFunc where "memoryCodeCopy = mem_range 0 2"
definition memoryExtCodeCopy :: memorySizeFunc where "memoryExtCodeCopy = mem_range 1 3"
definition memoryMLoad :: memorySizeFunc where "memoryMLoad = mem_range_fixed 0 32"
definition memoryMStore8 :: memorySizeFunc where "memoryMStore8 = mem_range_fixed 0 1"
definition memoryMStore :: memorySizeFunc where "memoryMStore = mem_range_fixed 0 32"
definition memoryCreate :: memorySizeFunc where "memoryCreate = mem_range 1 2"
definition memoryCreate2 :: memorySizeFunc where "memoryCreate2 = mem_range 1 2"
definition memoryCall :: memorySizeFunc where "memoryCall = mem_range_max (mem_range 5 6) (mem_range 3 4)"
definition memoryDelegateCall :: memorySizeFunc where
  "memoryDelegateCall = mem_range_max (mem_range 4 5) (mem_range 2 3)"
definition memoryStaticCall :: memorySizeFunc where
  "memoryStaticCall = mem_range_max (mem_range 4 5) (mem_range 2 3)"
definition memoryReturn :: memorySizeFunc where "memoryReturn = mem_range 0 1"
definition memoryRevert :: memorySizeFunc where "memoryRevert = mem_range 0 1"
definition memoryLog :: memorySizeFunc where "memoryLog = mem_range 0 1"

definition minStack :: "int \<Rightarrow> int \<Rightarrow> int" where "minStack pops push = pops"
definition maxStack :: "int \<Rightarrow> int \<Rightarrow> int" where "maxStack pop push = sint StackLimit + pop - push"
definition minSwapStack :: "int \<Rightarrow> int" where "minSwapStack n = minStack n n"
definition maxSwapStack :: "int \<Rightarrow> int" where "maxSwapStack n = maxStack n n"
definition minDupStack :: "int \<Rightarrow> int" where "minDupStack n = minStack n (n + 1)"
definition maxDupStack :: "int \<Rightarrow> int" where "maxDupStack n = maxStack n (n + 1)"

end
