(* ===== verification/Precompiles.thy ===== *)
theory Precompiles
  imports Evm_Base
begin

text \<open>
  The precompiled contracts of \<^verbatim>\<open>src/evm/contracts.go\<close> and \<^verbatim>\<open>contracts_console.go\<close>, with the
  BLAKE2b compression function of \<^verbatim>\<open>src/crypto/blake2b/blake2b_generic.go\<close> and the address
  derivations and signature checks of \<^verbatim>\<open>src/crypto/crypto.go\<close>.  Third-party code (secp256k1
  recovery, RIPEMD-160, RLP), the pairing-friendly curve arithmetic of \<^verbatim>\<open>src/crypto/bn256\<close> and
  \<^verbatim>\<open>src/crypto/bls12381\<close>, and the ABI decoding the console contract prints with are the fields of
  one record of parameters.
\<close>

section \<open>Parameters\<close>

text \<open>A curve point is the list of its coordinates.\<close>

type_synonym curve_point = "nat list"

record crypto_libs =
  cl_RecoverCompact :: "bytes \<Rightarrow> bytes \<Rightarrow> bytes option"
  cl_Ripemd160 :: "bytes \<Rightarrow> bytes"
  cl_rlp_address_nonce :: "bytes \<Rightarrow> u64 \<Rightarrow> bytes"
  cl_bn_G1_Unmarshal :: "bytes \<Rightarrow> evm_error + curve_point"
  cl_bn_G2_Unmarshal :: "bytes \<Rightarrow> evm_error + curve_point"
  cl_bn_Add :: "curve_point \<Rightarrow> curve_point \<Rightarrow> curve_point"
  cl_bn_ScalarMult :: "curve_point \<Rightarrow> int \<Rightarrow> curve_point"
  cl_bn_Marshal :: "curve_point \<Rightarrow> bytes"
  cl_bn_PairingCheck :: "curve_point list \<Rightarrow> curve_point list \<Rightarrow> bool"
  cl_G1_DecodePoint :: "bytes \<Rightarrow> evm_error + curve_point"
  cl_G1_EncodePoint :: "curve_point \<Rightarrow> bytes"
  cl_G1_Add :: "curve_point \<Rightarrow> curve_point \<Rightarrow> curve_point"
  cl_G1_MulScalar :: "curve_point \<Rightarrow> int \<Rightarrow> curve_point"
  cl_G1_MultiExp :: "curve_point list \<Rightarrow> int list \<Rightarrow> curve_point"
  cl_G1_MapToCurve :: "bytes \<Rightarrow> evm_error + curve_point"
  cl_G1_InCorrectSubgroup :: "curve_point \<Rightarrow> bool"
  cl_G2_DecodePoint :: "bytes \<Rightarrow> evm_error + curve_point"
  cl_G2_EncodePoint :: "curve_point \<Rightarrow> bytes"
  cl_G2_Add :: "curve_point \<Rightarrow> curve_point \<Rightarrow> curve_point"
  cl_G2_MulScalar :: "curve_point \<Rightarrow> int \<Rightarrow> curve_point"
  cl_G2_MultiExp :: "curve_point list \<Rightarrow> int list \<Rightarrow> curve_point"
  cl_G2_MapToCurve :: "bytes \<Rightarrow> evm_error + curve_point"
  cl_G2_InCorrectSubgroup :: "curve_point \<Rightarrow> bool"
  cl_Pairing_Check :: "(curve_point \<times> curve_point) list \<Rightarrow> bool"
  cl_console_decodes :: "bytes \<Rightarrow> bool"

section \<open>Big integers and byte strings\<close>

definition big_SetBytes :: "bytes \<Rightarrow> int" where "big_SetBytes b = int (be_nat b)"
definition big_Uint64 :: "int \<Rightarrow> u64" where "big_Uint64 x = of_nat (nat \<bar>x\<bar>)"
definition big_BitLen :: "int \<Rightarrow> nat" where "big_BitLen x = nat_len (nat \<bar>x\<bar>)"
definition big_Bytes :: "int \<Rightarrow> bytes" where
  "big_Bytes x = be_bytes ((big_BitLen x + 7) div 8) (nat \<bar>x\<bar>)"
definition BigMax :: "int \<Rightarrow> int \<Rightarrow> int" where "BigMax x y = (if x < y then y else x)"

text \<open>Binding in \<^verbatim>\<open>([]byte, error)\<close> results: an error ends the function.\<close>

definition ebind :: "'e + 'a \<Rightarrow> ('a \<Rightarrow> 'e + 'b) \<Rightarrow> 'e + 'b" where
  "ebind r f = (case r of Inl e \<Rightarrow> Inl e | Inr a \<Rightarrow> f a)"

section \<open>Signatures and addresses\<close>

definition secp256k1N :: int where
  "secp256k1N = 0xfffffffffffffffffffffffffffffffebaaedce6af48a03bbfd25e8cd0364141"

definition secp256k1halfN :: int where "secp256k1halfN = secp256k1N div 2"

definition ValidateSignatureValues :: "byte \<Rightarrow> int \<Rightarrow> int \<Rightarrow> bool \<Rightarrow> bool" where
  "ValidateSignatureValues v r s homestead =
     (if r < 1 \<or> s < 1 then False
      else if homestead \<and> s > secp256k1halfN then False
      else r < secp256k1N \<and> s < secp256k1N \<and> (v = 0 \<or> v = 1))"

definition SigToPub :: "crypto_libs \<Rightarrow> bytes \<Rightarrow> bytes \<Rightarrow> bytes option option" where
  "SigToPub C hash sig = do {
     v \<leftarrow> idx sig 64;
     Some (cl_RecoverCompact C ((v + 27) # take 64 sig) hash)
   }"

text \<open>The parameter returns the recovered key in its serialized form.\<close>

definition Ecrecover :: "crypto_libs \<Rightarrow> bytes \<Rightarrow> bytes \<Rightarrow> bytes option option" where
  "Ecrecover C hash sig = SigToPub C hash sig"

definition CreateAddress :: "go_libs \<Rightarrow> crypto_libs \<Rightarrow> bytes \<Rightarrow> u64 \<Rightarrow> bytes option" where
  "CreateAddress L C b nonce = do {
     let h = lib_Keccak256 L (cl_rlp_address_nonce C b nonce);
     t \<leftarrow> go_slice h 12 (length h);
     Some (BytesToAddress t)
   }"

definition CreateAddress2 :: "go_libs \<Rightarrow> bytes \<Rightarrow> bytes \<Rightarrow> bytes \<Rightarrow> bytes option" where
  "CreateAddress2 L b salt inithash = do {
     let h = lib_Keccak256 L ([0xff] @ b @ salt @ inithash);
     t \<leftarrow> go_slice h 12 (length h);
     Some (BytesToAddress t)
   }"

section \<open>The BLAKE2b compression function\<close>

definition blake2b_precomputed :: "nat list list" where
  "blake2b_precomputed = [
     [0, 2, 4, 6, 1, 3, 5, 7, 8, 10, 12, 14, 9, 11, 13, 15],
     [14, 4, 9, 13, 10, 8, 15, 6, 1, 0, 11, 5, 12, 2, 7, 3],
     [11, 12, 5, 15, 8, 0, 2, 13, 10, 3, 7, 9, 14, 6, 1, 4],
     [7, 3, 13, 11, 9, 1, 12, 14, 2, 5, 4, 15, 6, 10, 0, 8],
     [9, 5, 2, 10, 0, 7, 4, 15, 14, 11, 6, 3, 1, 12, 8, 13],
     [2, 6, 0, 8, 12, 10, 11, 3, 4, 7, 15, 1, 13, 5, 14, 9],
     [12, 1, 14, 4, 5, 15, 13, 10, 0, 6, 9, 8, 7, 3, 2, 11],
     [13, 7, 12, 3, 11, 14, 1, 9, 5, 15, 8, 2, 0, 4, 6, 10],
     [6, 14, 11, 0, 15, 9, 3, 8, 12, 13, 1, 10, 2, 7, 4, 5],
     [10, 8, 7, 1, 2, 4, 6, 5, 15, 9, 3, 13, 11, 14, 12, 0]]"

definition blake2b_iv :: "u64 list" where
  "blake2b_iv = [0x6a09e667f3bcc908, 0xbb67ae8584caa73b, 0x3c6ef372fe94f82b, 0xa54ff53a5f1d36f1,
     0x510e527fade682d1, 0x9b05688c2b3e6c1f, 0x1f83d9abfb41bd6b, 0x5be0cd19137e2179]"

text \<open>The seven assignments the source repeats for each quadruple of variables \<open>va\<close>, \<open>vb\<close>, \<open>vc\<close>, \<open>vd\<close>:
  two additions into \<open>va\<close>, then the two xor-and-rotate steps by \<open>r1\<close> and \<open>r2\<close>.\<close>

definition blake2b_mix ::
  "u64 list \<Rightarrow> nat list \<Rightarrow> nat \<times> nat \<times> nat \<times> nat \<times> nat \<times> nat \<times> nat \<Rightarrow> u64 list \<Rightarrow> u64 list" where
  "blake2b_mix m s q v = (case q of (k, a, b, c, d, r1, r2) \<Rightarrow>
     let va = v ! a + m ! (s ! k) + v ! b;
         vd = word_rotr r1 (v ! d XOR va);
         vc = v ! c + vd;
         vb = word_rotr r2 (v ! b XOR vc)
     in v[a := va, d := vd, c := vc, b := vb])"

definition blake2b_schedule :: "(nat \<times> nat \<times> nat \<times> nat \<times> nat \<times> nat \<times> nat) list" where
  "blake2b_schedule =
     [(0, 0, 4, 8, 12, 32, 24), (1, 1, 5, 9, 13, 32, 24), (2, 2, 6, 10, 14, 32, 24), (3, 3, 7, 11, 15, 32, 24),
      (4, 0, 4, 8, 12, 16, 63), (5, 1, 5, 9, 13, 16, 63), (6, 2, 6, 10, 14, 16, 63), (7, 3, 7, 11, 15, 16, 63),
      (8, 0, 5, 10, 15, 32, 24), (9, 1, 6, 11, 12, 32, 24), (10, 2, 7, 8, 13, 32, 24), (11, 3, 4, 9, 14, 32, 24),
      (12, 0, 5, 10, 15, 16, 63), (13, 1, 6, 11, 12, 16, 63), (14, 2, 7, 8, 13, 16, 63), (15, 3, 4, 9, 14, 16, 63)]"

definition fGeneric :: "u64 list \<Rightarrow> u64 list \<Rightarrow> u64 \<Rightarrow> u64 \<Rightarrow> u64 \<Rightarrow> u64 \<Rightarrow> u64 list" where
  "fGeneric h m c0 c1 flag rounds =
     (let v = h @ blake2b_iv;
          v = v[12 := v ! 12 XOR c0, 13 := v ! 13 XOR c1, 14 := v ! 14 XOR flag];
          v = foldl (\<lambda>v i. foldl (\<lambda>v q. blake2b_mix m (blake2b_precomputed ! (i mod 10)) q v) v blake2b_schedule)
                v [0..<nat (sint rounds)]
      in map (\<lambda>i. h ! i XOR (v ! i XOR v ! (i + 8))) [0..<8])"

definition blake2b_F :: "u64 list \<Rightarrow> u64 list \<Rightarrow> u64 list \<Rightarrow> bool \<Rightarrow> u32 \<Rightarrow> u64 list" where
  "blake2b_F h m c final rounds =
     (let flag = (if final then 0xFFFFFFFFFFFFFFFF else 0)
      in fGeneric h m (c ! 0) (c ! 1) flag (ucast rounds))"

section \<open>The contracts\<close>

datatype precompile =
    P_ecrecover | P_sha256hash | P_ripemd160hash | P_dataCopy | P_bigModExp bool
  | P_bn256AddByzantium | P_bn256AddIstanbul | P_bn256ScalarMulByzantium | P_bn256ScalarMulIstanbul
  | P_bn256PairingByzantium | P_bn256PairingIstanbul | P_blake2F
  | P_bls12381G1Add | P_bls12381G1Mul | P_bls12381G1MultiExp
  | P_bls12381G2Add | P_bls12381G2Mul | P_bls12381G2MultiExp
  | P_bls12381Pairing | P_bls12381MapG1 | P_bls12381MapG2 | P_Console

text \<open>What a call returns: bytes of its own, or the very slice it was given as input.\<close>

datatype go_ret = Fresh bytes | SameAsInput

definition ret_bytes :: "bytes \<Rightarrow> go_ret \<Rightarrow> bytes" where
  "ret_bytes input r = (case r of Fresh b \<Rightarrow> b | SameAsInput \<Rightarrow> input)"

definition ecrecover_Run :: "go_libs \<Rightarrow> crypto_libs \<Rightarrow> bytes \<Rightarrow> bytes option" where
  "ecrecover_Run L C input = do {
     let input = RightPadBytes input 128;
     rb \<leftarrow> go_slice input 64 96;
     sb \<leftarrow> go_slice input 96 128;
     v \<leftarrow> idx input 63;
     let v = v - 27;
     pad \<leftarrow> go_slice input 32 63;
     if \<not> allZero pad \<or> \<not> ValidateSignatureValues v (big_SetBytes rb) (big_SetBytes sb) False then Some []
     else do {
       sig \<leftarrow> go_slice input 64 128;
       hash \<leftarrow> go_slice input 0 32;
       pub \<leftarrow> Ecrecover C hash (sig @ [v]);
       case pub of
         None \<Rightarrow> Some []
       | Some pubKey \<Rightarrow> do {
           p \<leftarrow> go_slice pubKey 1 (length pubKey);
           let h = lib_Keccak256 L p;
           t \<leftarrow> go_slice h 12 (length h);
           Some (LeftPadBytes t 32)
         }
     }
   }"

definition modexpMultComplexity :: "int \<Rightarrow> int" where
  "modexpMultComplexity x =
     (if x \<le> 64 then x * x
      else if x \<le> 1024 then x * x div 4 + (96 * x - 3072)
      else x * x div 16 + (480 * x - 199680))"

definition bigModExp_RequiredGas :: "bool \<Rightarrow> bytes \<Rightarrow> u64 option" where
  "bigModExp_RequiredGas eip2565 input = do {
     baseLenB \<leftarrow> getData input 0 32;
     expLenB \<leftarrow> getData input 32 32;
     modLenB \<leftarrow> getData input 64 32;
     let baseLen = big_SetBytes baseLenB;
     let expLen = big_SetBytes expLenB;
     let modLen = big_SetBytes modLenB;
     let input = (if length input > 96 then drop 96 input else []);
     expHead \<leftarrow>
       (if int (length input) \<le> baseLen then Some 0
        else if expLen > 32 then map_option big_SetBytes (getData input (big_Uint64 baseLen) 32)
        else map_option big_SetBytes (getData input (big_Uint64 baseLen) (big_Uint64 expLen)));
     let msb = (if big_BitLen expHead > 0 then big_BitLen expHead - 1 else 0);
     let adjExpLen = (if expLen > 32 then 8 * (expLen - 32) else 0) + int msb;
     let gas = BigMax modLen baseLen;
     if eip2565 then do {
       let gas = (gas + 7) div 8;
       let gas = gas * gas * BigMax adjExpLen 1 div 3;
       Some (if big_BitLen gas > 64 then 0xFFFFFFFFFFFFFFFF
             else if big_Uint64 gas < 200 then 200 else big_Uint64 gas)
     } else do {
       let gas = modexpMultComplexity gas * BigMax adjExpLen 1 div 20;
       Some (if big_BitLen gas > 64 then 0xFFFFFFFFFFFFFFFF else big_Uint64 gas)
     }
   }"

definition bigModExp_Run :: "bytes \<Rightarrow> bytes option" where
  "bigModExp_Run input = do {
     baseLenB \<leftarrow> getData input 0 32;
     expLenB \<leftarrow> getData input 32 32;
     modLenB \<leftarrow> getData input 64 32;
     let baseLen = big_Uint64 (big_SetBytes baseLenB);
     let expLen = big_Uint64 (big_SetBytes expLenB);
     let modLen = big_Uint64 (big_SetBytes modLenB);
     let input = (if length input > 96 then drop 96 input else []);
     if baseLen = 0 \<and> modLen = 0 then Some []
     else do {
       baseB \<leftarrow> getData input 0 baseLen;
       expB \<leftarrow> getData input baseLen expLen;
       modB \<leftarrow> getData input (baseLen + expLen) modLen;
       let base = big_SetBytes baseB;
       let exp = big_SetBytes expB;
       let md = big_SetBytes modB;
       if big_BitLen md = 0 then Some (LeftPadBytes [] (sint modLen))
       else Some (LeftPadBytes (big_Bytes (base ^ nat exp mod md)) (sint modLen))
     }
   }"

definition runBn256Add :: "crypto_libs \<Rightarrow> bytes \<Rightarrow> (evm_error + bytes) option" where
  "runBn256Add C input = do {
     xb \<leftarrow> getData input 0 64;
     yb \<leftarrow> getData input 64 64;
     Some (ebind (cl_bn_G1_Unmarshal C xb) (\<lambda>x.
           ebind (cl_bn_G1_Unmarshal C yb) (\<lambda>y. Inr (cl_bn_Marshal C (cl_bn_Add C x y)))))
   }"

definition runBn256ScalarMul :: "crypto_libs \<Rightarrow> bytes \<Rightarrow> (evm_error + bytes) option" where
  "runBn256ScalarMul C input = do {
     pb \<leftarrow> getData input 0 64;
     kb \<leftarrow> getData input 64 32;
     Some (ebind (cl_bn_G1_Unmarshal C pb) (\<lambda>p. Inr (cl_bn_Marshal C (cl_bn_ScalarMult C p (big_SetBytes kb)))))
   }"

definition true32Byte :: bytes where "true32Byte = replicate 31 0 @ [1]"
definition false32Byte :: bytes where "false32Byte = replicate 32 0"

primrec bn256_points ::
  "crypto_libs \<Rightarrow> bytes \<Rightarrow> nat list \<Rightarrow> (evm_error + (curve_point list \<times> curve_point list))" where
  "bn256_points C input [] = Inr ([], [])"
| "bn256_points C input (i # is) =
     ebind (cl_bn_G1_Unmarshal C (take 64 (drop i input))) (\<lambda>c.
     ebind (cl_bn_G2_Unmarshal C (take 128 (drop (i + 64) input))) (\<lambda>t.
     ebind (bn256_points C input is) (\<lambda>(cs, ts). Inr (c # cs, t # ts))))"

definition runBn256Pairing :: "crypto_libs \<Rightarrow> bytes \<Rightarrow> evm_error + bytes" where
  "runBn256Pairing C input =
     (if length input mod 192 > 0 then Inl ErrBadPairingInput
      else ebind (bn256_points C input (map (\<lambda>i. 192 * i) [0..<length input div 192])) (\<lambda>(cs, ts).
        Inr (if cl_bn_PairingCheck C cs ts then true32Byte else false32Byte)))"

definition blake2F_RequiredGas :: "bytes \<Rightarrow> u64" where
  "blake2F_RequiredGas input = (if length input \<noteq> 213 then 0 else of_nat (be_nat (take 4 input)))"

definition blake2F_Run :: "bytes \<Rightarrow> evm_error + bytes" where
  "blake2F_Run input =
     (if length input \<noteq> 213 then Inl ErrBlake2FInvalidInputLength
      else if input ! 212 \<noteq> 0 \<and> input ! 212 \<noteq> 1 then Inl ErrBlake2FInvalidFinalFlag
      else
        let rounds = of_nat (be_nat (take 4 input));
            final = (input ! 212 = 1);
            le64 = (\<lambda>off. of_nat (le_nat (take 8 (drop off input))) :: u64);
            h = map (\<lambda>i. le64 (4 + i * 8)) [0..<8];
            m = map (\<lambda>i. le64 (68 + i * 8)) [0..<16];
            t = [le64 196, le64 204];
            h = blake2b_F h m t final rounds
        in Inr (concat (map (\<lambda>w. le_bytes 8 (unat w)) h)))"

subsection \<open>BLS12-381\<close>

definition multiexp_gas :: "nat \<Rightarrow> u64 \<Rightarrow> u64" where
  "multiexp_gas k mulGas =
     (if k = 0 then 0
      else let dLen = length Bls12381MultiExpDiscountTable;
               discount = (if k < dLen then Bls12381MultiExpDiscountTable ! (k - 1)
                           else Bls12381MultiExpDiscountTable ! (dLen - 1))
           in of_nat k * mulGas * discount div 1000)"

definition bls12381G1Add_Run :: "crypto_libs \<Rightarrow> bytes \<Rightarrow> evm_error + bytes" where
  "bls12381G1Add_Run C input =
     (if length input \<noteq> 256 then Inl ErrBLS12381InvalidInputLength
      else ebind (cl_G1_DecodePoint C (take 128 input)) (\<lambda>p0.
           ebind (cl_G1_DecodePoint C (drop 128 input)) (\<lambda>p1.
           Inr (cl_G1_EncodePoint C (cl_G1_Add C p0 p1)))))"

definition bls12381G1Mul_Run :: "crypto_libs \<Rightarrow> bytes \<Rightarrow> evm_error + bytes" where
  "bls12381G1Mul_Run C input =
     (if length input \<noteq> 160 then Inl ErrBLS12381InvalidInputLength
      else ebind (cl_G1_DecodePoint C (take 128 input)) (\<lambda>p0.
           Inr (cl_G1_EncodePoint C (cl_G1_MulScalar C p0 (big_SetBytes (drop 128 input))))))"

primrec decode_pairs ::
  "(bytes \<Rightarrow> evm_error + curve_point) \<Rightarrow> nat \<Rightarrow> bytes \<Rightarrow> nat list \<Rightarrow> evm_error + (curve_point list \<times> int list)" where
  "decode_pairs decode plen input [] = Inr ([], [])"
| "decode_pairs decode plen input (off # offs) =
     ebind (decode (take plen (drop off input))) (\<lambda>p.
     ebind (decode_pairs decode plen input offs) (\<lambda>(ps, es).
       Inr (p # ps, big_SetBytes (take 32 (drop (off + plen) input)) # es)))"

definition bls12381G1MultiExp_Run :: "crypto_libs \<Rightarrow> bytes \<Rightarrow> evm_error + bytes" where
  "bls12381G1MultiExp_Run C input =
     (let k = length input div 160 in
      if length input = 0 \<or> length input mod 160 \<noteq> 0 then Inl ErrBLS12381InvalidInputLength
      else ebind (decode_pairs (cl_G1_DecodePoint C) 128 input (map (\<lambda>i. 160 * i) [0..<k])) (\<lambda>(points, scalars).
           Inr (cl_G1_EncodePoint C (cl_G1_MultiExp C points scalars))))"

definition bls12381G2Add_Run :: "crypto_libs \<Rightarrow> bytes \<Rightarrow> evm_error + bytes" where
  "bls12381G2Add_Run C input =
     (if length input \<noteq> 512 then Inl ErrBLS12381InvalidInputLength
      else ebind (cl_G2_DecodePoint C (take 256 input)) (\<lambda>p0.
           ebind (cl_G2_DecodePoint C (drop 256 input)) (\<lambda>p1.
           Inr (cl_G2_EncodePoint C (cl_G2_Add C p0 p1)))))"

definition bls12381G2Mul_Run :: "crypto_libs \<Rightarrow> bytes \<Rightarrow> evm_error + bytes" where
  "bls12381G2Mul_Run C input =
     (if length input \<noteq> 288 then Inl ErrBLS12381InvalidInputLength
      else ebind (cl_G2_DecodePoint C (take 256 input)) (\<lambda>p0.
           Inr (cl_G2_EncodePoint C (cl_G2_MulScalar C p0 (big_SetBytes (drop 256 input))))))"

definition bls12381G2MultiExp_Run :: "crypto_libs \<Rightarrow> bytes \<Rightarrow> evm_error + bytes" where
  "bls12381G2MultiExp_Run C input =
     (let k = length input div 288 in
      if length input = 0 \<or> length input mod 288 \<noteq> 0 then Inl ErrBLS12381InvalidInputLength
      else ebind (decode_pairs (cl_G2_DecodePoint C) 256 input (map (\<lambda>i. 288 * i) [0..<k])) (\<lambda>(points, scalars).
           Inr (cl_G2_EncodePoint C (cl_G2_MultiExp C points scalars))))"

primrec bls12381_pairs ::
  "crypto_libs \<Rightarrow> bytes \<Rightarrow> nat list \<Rightarrow> evm_error + (curve_point \<times> curve_point) list" where
  "bls12381_pairs C input [] = Inr []"
| "bls12381_pairs C input (off # offs) =
     ebind (cl_G1_DecodePoint C (take 128 (drop off input))) (\<lambda>p1.
     ebind (cl_G2_DecodePoint C (take 256 (drop (off + 128) input))) (\<lambda>p2.
     if \<not> cl_G1_InCorrectSubgroup C p1 then Inl ErrBLS12381G1PointSubgroup
     else if \<not> cl_G2_InCorrectSubgroup C p2 then Inl ErrBLS12381G2PointSubgroup
     else ebind (bls12381_pairs C input offs) (\<lambda>pairs. Inr ((p1, p2) # pairs))))"

definition bls12381Pairing_Run :: "crypto_libs \<Rightarrow> bytes \<Rightarrow> evm_error + bytes" where
  "bls12381Pairing_Run C input =
     (let k = length input div 384 in
      if length input = 0 \<or> length input mod 384 \<noteq> 0 then Inl ErrBLS12381InvalidInputLength
      else ebind (bls12381_pairs C input (map (\<lambda>i. 384 * i) [0..<k])) (\<lambda>pairs.
           Inr ((replicate 32 0)[31 := if cl_Pairing_Check C pairs then 1 else 0])))"

definition decodeBLS12381FieldElement :: "bytes \<Rightarrow> evm_error + bytes" where
  "decodeBLS12381FieldElement inp =
     (if length inp \<noteq> 64 then Inl ErrInvalidFieldElementLength
      else if \<exists>i \<in> set [0..<16]. inp ! i \<noteq> 0 then Inl ErrBLS12381InvalidFieldElementTopBytes
      else Inr (drop 16 inp))"

definition bls12381MapG1_Run :: "crypto_libs \<Rightarrow> bytes \<Rightarrow> evm_error + bytes" where
  "bls12381MapG1_Run C input =
     (if length input \<noteq> 64 then Inl ErrBLS12381InvalidInputLength
      else ebind (decodeBLS12381FieldElement input) (\<lambda>fe.
           ebind (cl_G1_MapToCurve C fe) (\<lambda>r. Inr (cl_G1_EncodePoint C r))))"

definition bls12381MapG2_Run :: "crypto_libs \<Rightarrow> bytes \<Rightarrow> evm_error + bytes" where
  "bls12381MapG2_Run C input =
     (if length input \<noteq> 128 then Inl ErrBLS12381InvalidInputLength
      else ebind (decodeBLS12381FieldElement (take 64 input)) (\<lambda>c0.
           ebind (decodeBLS12381FieldElement (drop 64 input)) (\<lambda>c1.
           ebind (cl_G2_MapToCurve C (c1 @ c0)) (\<lambda>r. Inr (cl_G2_EncodePoint C r)))))"

subsection \<open>The console contract\<close>

text \<open>\<^verbatim>\<open>utils.Ensure\<close> panics when the arguments of a known method do not decode.\<close>

definition Console_Run :: "crypto_libs \<Rightarrow> bytes \<Rightarrow> bytes option" where
  "Console_Run C input = do {
     _ \<leftarrow> go_slice input 0 4;
     if cl_console_decodes C input then Some [] else None
   }"

definition ConsoleAddress :: bytes where
  "ConsoleAddress = replicate 9 0 @ [0x63, 0x6F, 0x6e, 0x73, 0x6F, 0x6c, 0x65, 0x2e, 0x6c, 0x6f, 0x67]"

section \<open>Dispatch\<close>

definition word_gas :: "bytes \<Rightarrow> u64 \<Rightarrow> u64 \<Rightarrow> u64" where
  "word_gas input perWord base = of_nat (length input + 31) div 32 * perWord + base"

fun RequiredGas :: "precompile \<Rightarrow> bytes \<Rightarrow> u64 option" where
  "RequiredGas P_ecrecover input = Some EcrecoverGas"
| "RequiredGas P_sha256hash input = Some (word_gas input Sha256PerWordGas Sha256BaseGas)"
| "RequiredGas P_ripemd160hash input = Some (word_gas input Ripemd160PerWordGas Ripemd160BaseGas)"
| "RequiredGas P_dataCopy input = Some (word_gas input IdentityPerWordGas IdentityBaseGas)"
| "RequiredGas (P_bigModExp eip2565) input = bigModExp_RequiredGas eip2565 input"
| "RequiredGas P_bn256AddByzantium input = Some Bn256AddGasByzantium"
| "RequiredGas P_bn256AddIstanbul input = Some Bn256AddGasIstanbul"
| "RequiredGas P_bn256ScalarMulByzantium input = Some Bn256ScalarMulGasByzantium"
| "RequiredGas P_bn256ScalarMulIstanbul input = Some Bn256ScalarMulGasIstanbul"
| "RequiredGas P_bn256PairingByzantium input =
     Some (Bn256PairingBaseGasByzantium + of_nat (length input div 192) * Bn256PairingPerPointGasByzantium)"
| "RequiredGas P_bn256PairingIstanbul input =
     Some (Bn256PairingBaseGasIstanbul + of_nat (length input div 192) * Bn256PairingPerPointGasIstanbul)"
| "RequiredGas P_blake2F input = Some (blake2F_RequiredGas input)"
| "RequiredGas P_bls12381G1Add input = Some Bls12381G1AddGas"
| "RequiredGas P_bls12381G1Mul input = Some Bls12381G1MulGas"
| "RequiredGas P_bls12381G1MultiExp input = Some (multiexp_gas (length input div 160) Bls12381G1MulGas)"
| "RequiredGas P_bls12381G2Add input = Some Bls12381G2AddGas"
| "RequiredGas P_bls12381G2Mul input = Some Bls12381G2MulGas"
| "RequiredGas P_bls12381G2MultiExp input = Some (multiexp_gas (length input div 288) Bls12381G2MulGas)"
| "RequiredGas P_bls12381Pairing input =
     Some (Bls12381PairingBaseGas + of_nat (length input div 384) * Bls12381PairingPerPairGas)"
| "RequiredGas P_bls12381MapG1 input = Some Bls12381MapG1Gas"
| "RequiredGas P_bls12381MapG2 input = Some Bls12381MapG2Gas"
| "RequiredGas P_Console input = Some 0"

text \<open>Every \<^verbatim>\<open>Run\<close> but the one of the data copy returns a slice of its own.\<close>

definition fresh :: "'e + bytes \<Rightarrow> 'e + go_ret" where
  "fresh r = (case r of Inl e \<Rightarrow> Inl e | Inr b \<Rightarrow> Inr (Fresh b))"

fun precompile_Run :: "go_libs \<Rightarrow> crypto_libs \<Rightarrow> precompile \<Rightarrow> bytes \<Rightarrow> (evm_error + go_ret) option" where
  "precompile_Run L C P_ecrecover input = map_option (\<lambda>b. Inr (Fresh b)) (ecrecover_Run L C input)"
| "precompile_Run L C P_sha256hash input = Some (Inr (Fresh (lib_Sha256 L input)))"
| "precompile_Run L C P_ripemd160hash input = Some (Inr (Fresh (LeftPadBytes (cl_Ripemd160 C input) 32)))"
| "precompile_Run L C P_dataCopy input = Some (Inr SameAsInput)"
| "precompile_Run L C (P_bigModExp eip2565) input = map_option (\<lambda>b. Inr (Fresh b)) (bigModExp_Run input)"
| "precompile_Run L C P_bn256AddByzantium input = map_option fresh (runBn256Add C input)"
| "precompile_Run L C P_bn256AddIstanbul input = map_option fresh (runBn256Add C input)"
| "precompile_Run L C P_bn256ScalarMulByzantium input = map_option fresh (runBn256ScalarMul C input)"
| "precompile_Run L C P_bn256ScalarMulIstanbul input = map_option fresh (runBn256ScalarMul C input)"
| "precompile_Run L C P_bn256PairingByzantium input = Some (fresh (runBn256Pairing C input))"
| "precompile_Run L C P_bn256PairingIstanbul input = Some (fresh (runBn256Pairing C input))"
| "precompile_Run L C P_blake2F input = Some (fresh (blake2F_Run input))"
| "precompile_Run L C P_bls12381G1Add input = Some (fresh (bls12381G1Add_Run C input))"
| "precompile_Run L C P_bls12381G1Mul input = Some (fresh (bls12381G1Mul_Run C input))"
| "precompile_Run L C P_bls12381G1MultiExp input = Some (fresh (bls12381G1MultiExp_Run C input))"
| "precompile_Run L C P_bls12381G2Add input = Some (fresh (bls12381G2Add_Run C input))"
| "precompile_Run L C P_bls12381G2Mul input = Some (fresh (bls12381G2Mul_Run C input))"
| "precompile_Run L C P_bls12381G2MultiExp input = Some (fresh (bls12381G2MultiExp_Run C input))"
| "precompile_Run L C P_bls12381Pairing input = Some (fresh (bls12381Pairing_Run C input))"
| "precompile_Run L C P_bls12381MapG1 input = Some (fresh (bls12381MapG1_Run C input))"
| "precompile_Run L C P_bls12381MapG2 input = Some (fresh (bls12381MapG2_Run C input))"
| "precompile_Run L C P_Console input = map_option (\<lambda>b. Inr (Fresh b)) (Console_Run C input)"

definition RunPrecompiledContract ::
  "go_libs \<Rightarrow> crypto_libs \<Rightarrow> precompile \<Rightarrow> bytes \<Rightarrow> u64 \<Rightarrow> (go_ret \<times> u64 \<times> evm_error option) option" where
  "RunPrecompiledContract L C p input suppliedGas = do {
     gasCost \<leftarrow> RequiredGas p input;
     if suppliedGas < gasCost then Some (Fresh [], 0, Some ErrOutOfGas)
     else do {
       let suppliedGas = suppliedGas - gasCost;
       output \<leftarrow> precompile_Run L C p input;
       Some (case output of
           Inl e \<Rightarrow> (Fresh [], suppliedGas, Some e)
         | Inr r \<Rightarrow> (r, suppliedGas, None))
     }
   }"

section \<open>The sets of each fork\<close>

definition PrecompiledContractsHomestead :: "(bytes \<times> precompile) list" where
  "PrecompiledContractsHomestead =
     [(BytesToAddress [1], P_ecrecover), (BytesToAddress [2], P_sha256hash),
      (BytesToAddress [3], P_ripemd160hash), (BytesToAddress [4], P_dataCopy)]"

definition PrecompiledContractsByzantium :: "(bytes \<times> precompile) list" where
  "PrecompiledContractsByzantium =
     [(BytesToAddress [1], P_ecrecover), (BytesToAddress [2], P_sha256hash),
      (BytesToAddress [3], P_ripemd160hash), (BytesToAddress [4], P_dataCopy),
      (BytesToAddress [5], P_bigModExp False), (BytesToAddress [6], P_bn256AddByzantium),
      (BytesToAddress [7], P_bn256ScalarMulByzantium), (BytesToAddress [8], P_bn256PairingByzantium)]"

definition PrecompiledContractsIstanbul :: "(bytes \<times> precompile) list" where
  "PrecompiledContractsIstanbul =
     [(BytesToAddress [1], P_ecrecover), (BytesToAddress [2], P_sha256hash),
      (BytesToAddress [3], P_ripemd160hash), (BytesToAddress [4], P_dataCopy),
      (BytesToAddress [5], P_bigModExp False), (BytesToAddress [6], P_bn256AddIstanbul),
      (BytesToAddress [7], P_bn256ScalarMulIstanbul), (BytesToAddress [8], P_bn256PairingIstanbul),
      (BytesToAddress [9], P_blake2F)]"

definition PrecompiledContractsYoloV2 :: "(bytes \<times> precompile) list" where
  "PrecompiledContractsYoloV2 =
     [(BytesToAddress [1], P_ecrecover), (BytesToAddress [2], P_sha256hash),
      (BytesToAddress [3], P_ripemd160hash), (BytesToAddress [4], P_dataCopy),
      (BytesToAddress [5], P_bigModExp False), (BytesToAddress [6], P_bn256AddIstanbul),
      (BytesToAddress [7], P_bn256ScalarMulIstanbul), (BytesToAddress [8], P_bn256PairingIstanbul),
      (BytesToAddress [9], P_blake2F), (BytesToAddress [10], P_bls12381G1Add),
      (BytesToAddress [11], P_bls12381G1Mul), (BytesToAddress [12], P_bls12381G1MultiExp),
      (BytesToAddress [13], P_bls12381G2Add), (BytesToAddress [14], P_bls12381G2Mul),
      (BytesToAddress [15], P_bls12381G2MultiExp), (BytesToAddress [16], P_bls12381Pairing),
      (BytesToAddress [17], P_bls12381MapG1), (BytesToAddress [18], P_bls12381MapG2)]"

text \<open>The address lists the package initialiser builds, ranging over each map in the order the runtime
  picks.  The second loop assigns the Homestead list from the still empty Byzantium one.\<close>

record precompiled_addresses =
  pa_YoloV2 :: "bytes list"
  pa_Istanbul :: "bytes list"
  pa_Byzantium :: "bytes list"
  pa_Homestead :: "bytes list"

definition init_addresses :: "go_libs \<Rightarrow> precompiled_addresses" where
  "init_addresses L =
     (let a = \<lparr>pa_YoloV2 = [], pa_Istanbul = [], pa_Byzantium = [], pa_Homestead = []\<rparr>;
          a = foldl (\<lambda>a k. a\<lparr>pa_Homestead := pa_Homestead a @ [k]\<rparr>) a (lib_range L (map fst PrecompiledContractsHomestead));
          a = foldl (\<lambda>a k. a\<lparr>pa_Homestead := pa_Byzantium a @ [k]\<rparr>) a (lib_range L (map fst PrecompiledContractsByzantium));
          a = foldl (\<lambda>a k. a\<lparr>pa_Istanbul := pa_Istanbul a @ [k]\<rparr>) a (lib_range L (map fst PrecompiledContractsIstanbul));
          a = foldl (\<lambda>a k. a\<lparr>pa_YoloV2 := pa_YoloV2 a @ [k]\<rparr>) a (lib_range L (map fst PrecompiledContractsYoloV2))
      in a)"

definition ActivePrecompiles :: "go_libs \<Rightarrow> Rules \<Rightarrow> bytes list" where
  "ActivePrecompiles L r =
     (let a = init_addresses L in
      if r_IsYoloV2 r then pa_YoloV2 a
      else if r_IsIstanbul r then pa_Istanbul a
      else if r_IsByzantium r then pa_Byzantium a
      else pa_Homestead a)"

definition EVM_precompile :: "Rules \<Rightarrow> bytes \<Rightarrow> precompile option" where
  "EVM_precompile r addr =
     (let precompiles =
        (if r_IsYoloV2 r then PrecompiledContractsYoloV2
         else if r_IsIstanbul r then PrecompiledContractsIstanbul
         else if r_IsByzantium r then PrecompiledContractsByzantium
         else PrecompiledContractsHomestead)
      in map_of (precompiles @ [(ConsoleAddress, P_Console)]) addr)"

end
