(* ===== verification/Evm_Gas.thy ===== *)
theory Evm_Gas
  imports Precompiles
begin

text \<open>
  The virtual machine's environment and state (\<^verbatim>\<open>src/evm/evm.go\<close>, \<^verbatim>\<open>src/evm/interpreter.go\<close>) and the
  dynamic gas functions of \<^verbatim>\<open>src/evm/gas_table.go\<close>.  What a run never assigns (block and
  transaction context, chain rules, configuration, and the libraries and store the code is linked
  with) is the record \<open>EVM\<close>; what it assigns (state database, call depth, read-only flag,
  return data, \<^verbatim>\<open>callGasTemp\<close>, the shared jump-destination analyses) is the record \<open>EVM_state\<close>.
  The tracer hooks of debug mode are left out.
\<close>

section \<open>Environment and state\<close>

record 'st BlockContext =
  bc_CanTransfer :: "'st StateDB \<Rightarrow> bytes \<Rightarrow> int \<Rightarrow> (bool \<times> 'st StateDB) option"
  bc_Transfer :: "'st StateDB \<Rightarrow> bytes \<Rightarrow> bytes \<Rightarrow> int \<Rightarrow> 'st StateDB option"
  bc_GetHash :: "u64 \<Rightarrow> bytes option"
  bc_Coinbase :: bytes
  bc_GasLimit :: u64
  bc_BlockNumber :: int
  bc_Time :: int
  bc_Difficulty :: int

record TxContext =
  tx_Origin :: bytes
  tx_GasPrice :: int

record Config =
  cfg_NoRecursion :: bool
  cfg_EnablePreimageRecording :: bool
  cfg_ExtraEips :: "int list"

record ('st, 'it) EVM =
  evm_libs :: go_libs
  evm_crypto :: crypto_libs
  evm_store :: "('st, 'it) PersistStore"
  evm_Context :: "'st BlockContext"
  evm_TxContext :: TxContext
  evm_chainConfig :: ChainConfig
  evm_chainRules :: Rules
  evm_vmConfig :: Config

text \<open>\<open>es_abort\<close> is when a concurrent \<^verbatim>\<open>Cancel\<close> becomes visible: after that many loads of the flag, or
  never.\<close>

record 'st EVM_state =
  es_StateDB :: "'st StateDB"
  es_depth :: nat
  es_abort :: "nat option"
  es_callGasTemp :: u64
  es_readOnly :: bool
  es_returnData :: bytes
  es_jumpdests :: jumpdests

definition EVM_Cancel :: "'st EVM_state \<Rightarrow> 'st EVM_state" where
  "EVM_Cancel s = s\<lparr>es_abort := Some 0\<rparr>"

definition load_abort :: "'st EVM_state \<Rightarrow> bool \<times> 'st EVM_state" where
  "load_abort s =
     (case es_abort s of
        None \<Rightarrow> (False, s)
      | Some 0 \<Rightarrow> (True, s)
      | Some (Suc n) \<Rightarrow> (False, s\<lparr>es_abort := Some n\<rparr>))"

definition with_db :: "'st EVM_state \<Rightarrow> 'st StateDB \<Rightarrow> 'st EVM_state" where
  "with_db s db = s\<lparr>es_StateDB := db\<rparr>"

section \<open>Gas functions\<close>

type_synonym ('st, 'it) gasFunc =
  "('st, 'it) EVM \<Rightarrow> Contract \<Rightarrow> Stack \<Rightarrow> Memory \<Rightarrow> u64 \<Rightarrow> 'st EVM_state \<Rightarrow>
     ((evm_error + u64) \<times> Memory \<times> 'st EVM_state) option"

definition memoryGasCost :: "Memory \<Rightarrow> u64 \<Rightarrow> (evm_error + u64) \<times> Memory" where
  "memoryGasCost mem newMemSize =
     (if newMemSize = 0 then (Inr 0, mem)
      else if newMemSize > 0x1FFFFFFFE0 then (Inl ErrGasUintOverflow, mem)
      else
        let newMemSizeWords = toWordSize newMemSize;
            newMemSize = newMemSizeWords * 32
        in if unat newMemSize > Memory_Len mem then
             let square = newMemSizeWords * newMemSizeWords;
                 linCoef = newMemSizeWords * MemoryGas;
                 quadCoef = square div QuadCoeffDiv;
                 newTotalFee = linCoef + quadCoef;
                 fee = newTotalFee - m_lastGasCost mem
             in (Inr fee, mem\<lparr>m_lastGasCost := newTotalFee\<rparr>)
           else (Inr 0, mem))"

text \<open>Addition and multiplication that end a gas function with an error on overflow.\<close>

definition gas_add :: "u64 \<Rightarrow> u64 \<Rightarrow> evm_error + u64" where
  "gas_add x y = (let (r, overflow) = SafeAdd x y in if overflow then Inl ErrGasUintOverflow else Inr r)"

definition gas_mul :: "u64 \<Rightarrow> u64 \<Rightarrow> evm_error + u64" where
  "gas_mul x y = (let (r, overflow) = SafeMul x y in if overflow then Inl ErrGasUintOverflow else Inr r)"

definition gas_u64 :: "U256 \<Rightarrow> evm_error + u64" where
  "gas_u64 x = (let (r, overflow) = Int_Uint64WithOverflow x in if overflow then Inl ErrGasUintOverflow else Inr r)"

text \<open>The memory cost plus a price per word of the size at a stack position.\<close>

definition memory_word_gas :: "nat \<Rightarrow> u64 \<Rightarrow> ('st, 'it) gasFunc" where
  "memory_word_gas pos price E c st mem memorySize s =
     (let (g, mem) = memoryGasCost mem memorySize in
      case g of
        Inl e \<Rightarrow> Some (Inl e, mem, s)
      | Inr gas \<Rightarrow> do {
          sz \<leftarrow> Stack_Back st pos;
          Some (ebind (gas_u64 sz) (\<lambda>w. ebind (gas_mul (toWordSize w) price) (\<lambda>w. gas_add gas w)), mem, s)
        })"

definition memoryCopierGas :: "nat \<Rightarrow> ('st, 'it) gasFunc" where
  "memoryCopierGas stackpos = memory_word_gas stackpos CopyGas"

definition gasCallDataCopy :: "('st, 'it) gasFunc" where "gasCallDataCopy = memoryCopierGas 2"
definition gasCodeCopy :: "('st, 'it) gasFunc" where "gasCodeCopy = memoryCopierGas 2"
definition gasExtCodeCopy :: "('st, 'it) gasFunc" where "gasExtCodeCopy = memoryCopierGas 3"
definition gasReturnDataCopy :: "('st, 'it) gasFunc" where "gasReturnDataCopy = memoryCopierGas 2"

text \<open>The net-metered part \<^verbatim>\<open>gasSStore\<close> and \<^verbatim>\<open>gasSStoreEIP2200\<close> share, with their constants.\<close>

definition net_sstore_gas ::
  "('st, 'it) EVM \<Rightarrow> Contract \<Rightarrow> U256 \<Rightarrow> bytes \<Rightarrow> bytes \<Rightarrow> 'st StateDB \<Rightarrow>
     u64 \<Rightarrow> u64 \<Rightarrow> u64 \<Rightarrow> u64 \<Rightarrow> u64 \<Rightarrow> u64 \<Rightarrow> u64 \<Rightarrow> (u64 \<times> 'st StateDB) option" where
  "net_sstore_gas E c x current val db noop init clean dirty clearRefund resetClearRefund resetRefund =
     (if current = val then Some (noop, db)
      else do {
        (original, db) \<leftarrow> StateDB_GetCommittedState (evm_store E) db (Contract_Address c) (Int_Bytes32 x);
        if original = current then
          (if original = zero_hash then Some (init, db)
           else Some (clean, if val = zero_hash then StateDB_AddRefund db clearRefund else db))
        else do {
          db \<leftarrow> (if original \<noteq> zero_hash then
                  if current = zero_hash then StateDB_SubRefund db clearRefund
                  else if val = zero_hash then Some (StateDB_AddRefund db clearRefund)
                  else Some db
                else Some db);
          let db = (if original = val then
                      if original = zero_hash then StateDB_AddRefund db resetClearRefund
                      else StateDB_AddRefund db resetRefund
                    else db);
          Some (dirty, db)
        }
      })"

definition gasSStore :: "('st, 'it) gasFunc" where
  "gasSStore E c st mem memorySize s = do {
     y \<leftarrow> Stack_Back st 1;
     x \<leftarrow> Stack_Back st 0;
     (current, db) \<leftarrow> StateDB_GetState (evm_store E) (es_StateDB s) (Contract_Address c) (Int_Bytes32 x);
     if r_IsPetersburg (evm_chainRules E) \<or> \<not> r_IsConstantinople (evm_chainRules E) then
       Some (if current = zero_hash \<and> Int_Sign y \<noteq> 0 then (Inr SstoreSetGas, mem, with_db s db)
             else if current \<noteq> zero_hash \<and> Int_Sign y = 0 then
               (Inr SstoreClearGas, mem, with_db s (StateDB_AddRefund db SstoreRefundGas))
             else (Inr SstoreResetGas, mem, with_db s db))
     else do {
       (gas, db) \<leftarrow> net_sstore_gas E c x current (Int_Bytes32 y) db
         NetSstoreNoopGas NetSstoreInitGas NetSstoreCleanGas NetSstoreDirtyGas
         NetSstoreClearRefund NetSstoreResetClearRefund NetSstoreResetRefund;
       Some (Inr gas, mem, with_db s db)
     }
   }"

definition gasSStoreEIP2200 :: "('st, 'it) gasFunc" where
  "gasSStoreEIP2200 E c st mem memorySize s =
     (if ct_Gas c \<le> SstoreSentryGasEIP2200 then Some (Inl ErrReentrancySentry, mem, s)
      else do {
        y \<leftarrow> Stack_Back st 1;
        x \<leftarrow> Stack_Back st 0;
        (current, db) \<leftarrow> StateDB_GetState (evm_store E) (es_StateDB s) (Contract_Address c) (Int_Bytes32 x);
        (gas, db) \<leftarrow> net_sstore_gas E c x current (Int_Bytes32 y) db
          SloadGasEIP2200 SstoreSetGasEIP2200 SstoreResetGasEIP2200 SloadGasEIP2200
          SstoreClearsScheduleRefundEIP2200 (SstoreSetGasEIP2200 - SloadGasEIP2200)
          (SstoreResetGasEIP2200 - SloadGasEIP2200);
        Some (Inr gas, mem, with_db s db)
      })"

definition makeGasLog :: "u64 \<Rightarrow> ('st, 'it) gasFunc" where
  "makeGasLog n E c st mem memorySize s = do {
     b \<leftarrow> Stack_Back st 1;
     case gas_u64 b of
       Inl e \<Rightarrow> Some (Inl e, mem, s)
     | Inr requestedSize \<Rightarrow>
         (let (g, mem) = memoryGasCost mem memorySize in
          Some (ebind g (\<lambda>gas.
                ebind (gas_add gas LogGas) (\<lambda>gas.
                ebind (gas_add gas (n * LogTopicGas)) (\<lambda>gas.
                ebind (gas_mul requestedSize LogDataGas) (\<lambda>memorySizeGas.
                gas_add gas memorySizeGas)))), mem, s))
   }"

definition gasSha3 :: "('st, 'it) gasFunc" where "gasSha3 = memory_word_gas 1 Sha3WordGas"

definition pureMemoryGascost :: "('st, 'it) gasFunc" where
  "pureMemoryGascost E c st mem memorySize s = (let (g, mem) = memoryGasCost mem memorySize in Some (g, mem, s))"

definition gasReturn :: "('st, 'it) gasFunc" where "gasReturn = pureMemoryGascost"
definition gasRevert :: "('st, 'it) gasFunc" where "gasRevert = pureMemoryGascost"
definition gasMLoad :: "('st, 'it) gasFunc" where "gasMLoad = pureMemoryGascost"
definition gasMStore8 :: "('st, 'it) gasFunc" where "gasMStore8 = pureMemoryGascost"
definition gasMStore :: "('st, 'it) gasFunc" where "gasMStore = pureMemoryGascost"
definition gasCreate :: "('st, 'it) gasFunc" where "gasCreate = pureMemoryGascost"

definition gasCreate2 :: "('st, 'it) gasFunc" where "gasCreate2 = memory_word_gas 2 Sha3WordGas"

definition exp_gas :: "u64 \<Rightarrow> ('st, 'it) gasFunc" where
  "exp_gas byteGas E c st mem memorySize s = do {
     e \<leftarrow> idx st 1;
     let expByteLen = of_nat ((Int_BitLen e + 7) div 8);
     Some (gas_add (expByteLen * byteGas) ExpGas, mem, s)
   }"

definition gasExpFrontier :: "('st, 'it) gasFunc" where "gasExpFrontier = exp_gas ExpByteFrontier"
definition gasExpEIP158 :: "('st, 'it) gasFunc" where "gasExpEIP158 = exp_gas ExpByteEIP158"

text \<open>The tail the four call instructions share: \<^verbatim>\<open>callGasTemp\<close> from \<^verbatim>\<open>callGas\<close>, added to the base cost.\<close>

definition add_call_gas ::
  "('st, 'it) EVM \<Rightarrow> Contract \<Rightarrow> Stack \<Rightarrow> u64 \<Rightarrow> 'st EVM_state \<Rightarrow> ((evm_error + u64) \<times> 'st EVM_state) option" where
  "add_call_gas E c st gas s = do {
     requested \<leftarrow> Stack_Back st 0;
     Some (case callGas (r_IsEIP150 (evm_chainRules E)) (ct_Gas c) gas requested of
         Inl e \<Rightarrow> (Inl e, s\<lparr>es_callGasTemp := 0\<rparr>)
       | Inr g \<Rightarrow> (gas_add gas g, s\<lparr>es_callGasTemp := g\<rparr>))
   }"

definition gas_memory_then_call ::
  "('st, 'it) EVM \<Rightarrow> Contract \<Rightarrow> Stack \<Rightarrow> Memory \<Rightarrow> u64 \<Rightarrow> u64 \<Rightarrow> 'st EVM_state \<Rightarrow>
     ((evm_error + u64) \<times> Memory \<times> 'st EVM_state) option" where
  "gas_memory_then_call E c st mem memorySize gas s =
     (let (m, mem) = memoryGasCost mem memorySize in
      case ebind m (\<lambda>memoryGas. gas_add gas memoryGas) of
        Inl e \<Rightarrow> Some (Inl e, mem, s)
      | Inr gas \<Rightarrow> do { (r, s) \<leftarrow> add_call_gas E c st gas s; Some (r, mem, s) })"

definition gasCall :: "('st, 'it) gasFunc" where
  "gasCall E c st mem memorySize s = do {
     v \<leftarrow> Stack_Back st 2;
     a \<leftarrow> Stack_Back st 1;
     let transfersValue = (\<not> Int_IsZero v);
     let address = Int_Bytes20 a;
     (gas, s) \<leftarrow>
       (if r_IsEIP158 (evm_chainRules E) then
          if transfersValue then do {
            (empty, db) \<leftarrow> StateDB_Empty (evm_store E) (es_StateDB s) address;
            Some (if empty then CallNewAccountGas else 0, with_db s db)
          } else Some (0, s)
        else do {
          (exist, db) \<leftarrow> StateDB_Exist (evm_store E) (es_StateDB s) address;
          Some (if exist then 0 else CallNewAccountGas, with_db s db)
        });
     let gas = (if transfersValue then gas + CallValueTransferGas else gas);
     gas_memory_then_call E c st mem memorySize gas s
   }"

definition gasCallCode :: "('st, 'it) gasFunc" where
  "gasCallCode E c st mem memorySize s = do {
     v \<leftarrow> Stack_Back st 2;
     gas_memory_then_call E c st mem memorySize (if Int_Sign v \<noteq> 0 then CallValueTransferGas else 0) s
   }"

definition gasDelegateCall :: "('st, 'it) gasFunc" where
  "gasDelegateCall E c st mem memorySize s =
     (let (m, mem) = memoryGasCost mem memorySize in
      case m of
        Inl e \<Rightarrow> Some (Inl e, mem, s)
      | Inr gas \<Rightarrow> do { (r, s) \<leftarrow> add_call_gas E c st gas s; Some (r, mem, s) })"

definition gasStaticCall :: "('st, 'it) gasFunc" where
  "gasStaticCall E c st mem memorySize s =
     (let (m, mem) = memoryGasCost mem memorySize in
      case m of
        Inl e \<Rightarrow> Some (Inl e, mem, s)
      | Inr gas \<Rightarrow> do { (r, s) \<leftarrow> add_call_gas E c st gas s; Some (r, mem, s) })"

definition gasSelfdestruct :: "('st, 'it) gasFunc" where
  "gasSelfdestruct E c st mem memorySize s = do {
     (gas, db) \<leftarrow>
       (if r_IsEIP150 (evm_chainRules E) then do {
          a \<leftarrow> Stack_Back st 0;
          let address = Int_Bytes20 a;
          if r_IsEIP158 (evm_chainRules E) then do {
            (empty, db) \<leftarrow> StateDB_Empty (evm_store E) (es_StateDB s) address;
            if empty then do {
              (bal, db) \<leftarrow> StateDB_GetBalance (evm_store E) db (Contract_Address c);
              Some (if sgn bal \<noteq> 0 then SelfdestructGasEIP150 + CreateBySelfdestructGas else SelfdestructGasEIP150, db)
            } else Some (SelfdestructGasEIP150, db)
          } else do {
            (exist, db) \<leftarrow> StateDB_Exist (evm_store E) (es_StateDB s) address;
            Some (if exist then SelfdestructGasEIP150 else SelfdestructGasEIP150 + CreateBySelfdestructGas, db)
          }
        } else Some (0, es_StateDB s));
     let db = (if StateDB_HasSuicided db (Contract_Address c) then db
               else StateDB_AddRefund db SelfdestructRefundGas);
     Some (Inr gas, mem, with_db s db)
   }"

end
