(* ===== verification/Evm_Ops.thy ===== *)
theory Evm_Ops
  imports Evm_Gas
begin

text \<open>
  The instructions of \<^verbatim>\<open>src/evm/instructions.go\<close> and \<^verbatim>\<open>src/evm/eips.go\<close> that do not enter another
  contract.  An instruction maps the program counter, the per-call context and the machine state to
  its result, or to \<^term>\<open>None\<close> where the Go code panics.
\<close>

section \<open>Instructions\<close>

record callCtx =
  cx_memory :: Memory
  cx_stack :: Stack
  cx_rstack :: ReturnStack
  cx_contract :: Contract

type_synonym 'st op_result = "(evm_error + bytes) \<times> u64 \<times> callCtx \<times> 'st EVM_state"
type_synonym ('st, 'it) simple_op = "('st, 'it) EVM \<Rightarrow> u64 \<Rightarrow> callCtx \<Rightarrow> 'st EVM_state \<Rightarrow> 'st op_result option"

text \<open>Shapes many instructions share: one that only changes the stack, one that overwrites the top with a
  function of it, and one that pops its first operand and overwrites the second.\<close>

definition stack_op :: "(Stack \<Rightarrow> Stack option) \<Rightarrow> ('st, 'it) simple_op" where
  "stack_op f E pc cx s = do { st \<leftarrow> f (cx_stack cx); Some (Inr [], pc, cx\<lparr>cx_stack := st\<rparr>, s) }"

definition unop :: "(U256 \<Rightarrow> U256 option) \<Rightarrow> ('st, 'it) simple_op" where
  "unop f = stack_op (\<lambda>st. do { x \<leftarrow> Stack_peek st; r \<leftarrow> f x; Some (st[0 := r]) })"

definition binop :: "(U256 \<Rightarrow> U256 \<Rightarrow> U256 option) \<Rightarrow> ('st, 'it) simple_op" where
  "binop f = stack_op (\<lambda>st. do {
     (x, st) \<leftarrow> Stack_pop st;
     y \<leftarrow> Stack_peek st;
     r \<leftarrow> f x y;
     Some (st[0 := r])
   })"

definition ternop :: "(U256 \<Rightarrow> U256 \<Rightarrow> U256 \<Rightarrow> U256 option) \<Rightarrow> ('st, 'it) simple_op" where
  "ternop f = stack_op (\<lambda>st. do {
     (x, st) \<leftarrow> Stack_pop st;
     (y, st) \<leftarrow> Stack_pop st;
     z \<leftarrow> Stack_peek st;
     r \<leftarrow> f x y z;
     Some (st[0 := r])
   })"

definition pushop :: "(('st, 'it) EVM \<Rightarrow> u64 \<Rightarrow> callCtx \<Rightarrow> 'st EVM_state \<Rightarrow> U256 option) \<Rightarrow> ('st, 'it) simple_op" where
  "pushop f E pc cx s = do { v \<leftarrow> f E pc cx s; Some (Inr [], pc, cx\<lparr>cx_stack := Stack_push (cx_stack cx) v\<rparr>, s) }"

definition of_bool256 :: "bool \<Rightarrow> U256" where
  "of_bool256 b = (if b then Int_SetOne else Int_Clear)"

subsection \<open>Arithmetic and comparison\<close>

definition opAdd :: "('st, 'it) simple_op" where "opAdd = binop (\<lambda>x y. Some (Int_Add x y))"
definition opSub :: "('st, 'it) simple_op" where "opSub = binop (\<lambda>x y. Some (Int_Sub x y))"
definition opMul :: "('st, 'it) simple_op" where "opMul = binop (\<lambda>x y. Some (Int_Mul x y))"
definition opDiv :: "('st, 'it) simple_op" where "opDiv = binop Int_Div"
definition opSdiv :: "('st, 'it) simple_op" where "opSdiv = binop Int_SDiv"
definition opMod :: "('st, 'it) simple_op" where "opMod = binop Int_Mod"
definition opSmod :: "('st, 'it) simple_op" where "opSmod = binop Int_SMod"
definition opExp :: "('st, 'it) simple_op" where "opExp = binop (\<lambda>base exponent. Some (Int_Exp base exponent))"
definition opSignExtend :: "('st, 'it) simple_op" where "opSignExtend = binop (\<lambda>bk num. Int_ExtendSign num bk)"
definition opNot :: "('st, 'it) simple_op" where "opNot = unop (\<lambda>x. Some (Int_Not x))"
definition opLt :: "('st, 'it) simple_op" where "opLt = binop (\<lambda>x y. Some (of_bool256 (Int_Lt x y)))"
definition opGt :: "('st, 'it) simple_op" where "opGt = binop (\<lambda>x y. Some (of_bool256 (Int_Gt x y)))"
definition opSlt :: "('st, 'it) simple_op" where "opSlt = binop (\<lambda>x y. Some (of_bool256 (Int_Slt x y)))"
definition opSgt :: "('st, 'it) simple_op" where "opSgt = binop (\<lambda>x y. Some (of_bool256 (Int_Sgt x y)))"
definition opEq :: "('st, 'it) simple_op" where "opEq = binop (\<lambda>x y. Some (of_bool256 (Int_Eq x y)))"
definition opIszero :: "('st, 'it) simple_op" where "opIszero = unop (\<lambda>x. Some (of_bool256 (Int_IsZero x)))"
definition opAnd :: "('st, 'it) simple_op" where "opAnd = binop (\<lambda>x y. Some (Int_And x y))"
definition opOr :: "('st, 'it) simple_op" where "opOr = binop (\<lambda>x y. Some (Int_Or x y))"
definition opXor :: "('st, 'it) simple_op" where "opXor = binop (\<lambda>x y. Some (Int_Xor x y))"
definition opByte :: "('st, 'it) simple_op" where "opByte = binop (\<lambda>th val. Int_Byte val th)"

definition opAddmod :: "('st, 'it) simple_op" where
  "opAddmod = ternop (\<lambda>x y z. if Int_IsZero z then Some Int_Clear else Int_AddMod x y z)"

definition opMulmod :: "('st, 'it) simple_op" where "opMulmod = ternop Int_MulMod"

definition opSHL :: "('st, 'it) simple_op" where
  "opSHL = binop (\<lambda>shift val. Some (if Int_LtUint64 shift 256 then Int_Lsh val (unat (Int_Uint64 shift)) else Int_Clear))"

definition opSHR :: "('st, 'it) simple_op" where
  "opSHR = binop (\<lambda>shift val. Some (if Int_LtUint64 shift 256 then Int_Rsh val (unat (Int_Uint64 shift)) else Int_Clear))"

definition opSAR :: "('st, 'it) simple_op" where
  "opSAR = binop (\<lambda>shift val.
     if Int_GtUint64 shift 256 then Some (if Int_Sign val \<ge> 0 then Int_Clear else Int_SetAllOne)
     else Int_SRsh val (unat (Int_Uint64 shift)))"

subsection \<open>Hashing, accounts, call data and code\<close>

definition opSha3 :: "('st, 'it) simple_op" where
  "opSha3 E pc cx s = do {
     (offset, st) \<leftarrow> Stack_pop (cx_stack cx);
     sz \<leftarrow> Stack_peek st;
     data \<leftarrow> Memory_GetPtr (cx_memory cx) (sint (Int_Uint64 offset)) (sint (Int_Uint64 sz));
     let hash = lib_Keccak256 (evm_libs E) data;
     let s = (if cfg_EnablePreimageRecording (evm_vmConfig E)
              then with_db s (StateDB_AddPreimage (es_StateDB s) hash data) else s);
     v \<leftarrow> Int_SetBytes hash;
     Some (Inr [], pc, cx\<lparr>cx_stack := st[0 := v]\<rparr>, s)
   }"

definition opAddress :: "('st, 'it) simple_op" where
  "opAddress = pushop (\<lambda>E pc cx s. Int_SetBytes (Contract_Address (cx_contract cx)))"

definition opBalance :: "('st, 'it) simple_op" where
  "opBalance E pc cx s = do {
     slot \<leftarrow> Stack_peek (cx_stack cx);
     (bal, db) \<leftarrow> StateDB_GetBalance (evm_store E) (es_StateDB s) (Int_Bytes20 slot);
     Some (Inr [], pc, cx\<lparr>cx_stack := (cx_stack cx)[0 := fst (Int_SetFromBig bal)]\<rparr>, with_db s db)
   }"

definition opOrigin :: "('st, 'it) simple_op" where
  "opOrigin = pushop (\<lambda>E pc cx s. Int_SetBytes (tx_Origin (evm_TxContext E)))"

definition opCaller :: "('st, 'it) simple_op" where
  "opCaller = pushop (\<lambda>E pc cx s. Int_SetBytes (Contract_Caller (cx_contract cx)))"

definition opCallValue :: "('st, 'it) simple_op" where
  "opCallValue = pushop (\<lambda>E pc cx s. do { v \<leftarrow> ct_value (cx_contract cx); Some (fst (Int_FromBig v)) })"

definition opCallDataLoad :: "('st, 'it) simple_op" where
  "opCallDataLoad E pc cx s = do {
     x \<leftarrow> Stack_peek (cx_stack cx);
     let (offset, overflow) = Int_Uint64WithOverflow x;
     v \<leftarrow> (if \<not> overflow then do { data \<leftarrow> getData (ct_Input (cx_contract cx)) offset 32; Int_SetBytes data }
           else Some Int_Clear);
     Some (Inr [], pc, cx\<lparr>cx_stack := (cx_stack cx)[0 := v]\<rparr>, s)
   }"

definition opCallDataSize :: "('st, 'it) simple_op" where
  "opCallDataSize = pushop (\<lambda>E pc cx s. Some (Int_SetUint64 (of_nat (length (ct_Input (cx_contract cx))))))"

text \<open>An offset beyond 64 bits reads as the largest one, past the end of any slice.\<close>

definition clamp_offset :: "U256 \<Rightarrow> u64" where
  "clamp_offset x = (let (o64, overflow) = Int_Uint64WithOverflow x in if overflow then 0xffffffffffffffff else o64)"

definition copy_to_memory :: "bytes \<Rightarrow> Memory \<Rightarrow> U256 \<Rightarrow> U256 \<Rightarrow> U256 \<Rightarrow> Memory option" where
  "copy_to_memory source mem memOffset dataOffset len = do {
     data \<leftarrow> getData source (clamp_offset dataOffset) (Int_Uint64 len);
     Memory_Set mem (Int_Uint64 memOffset) (Int_Uint64 len) data
   }"

definition opCallDataCopy :: "('st, 'it) simple_op" where
  "opCallDataCopy E pc cx s = do {
     (memOffset, st) \<leftarrow> Stack_pop (cx_stack cx);
     (dataOffset, st) \<leftarrow> Stack_pop st;
     (len, st) \<leftarrow> Stack_pop st;
     mem \<leftarrow> copy_to_memory (ct_Input (cx_contract cx)) (cx_memory cx) memOffset dataOffset len;
     Some (Inr [], pc, cx\<lparr>cx_stack := st, cx_memory := mem\<rparr>, s)
   }"

definition opReturnDataSize :: "('st, 'it) simple_op" where
  "opReturnDataSize = pushop (\<lambda>E pc cx s. Some (Int_SetUint64 (of_nat (length (es_returnData s)))))"

definition opReturnDataCopy :: "('st, 'it) simple_op" where
  "opReturnDataCopy E pc cx s = do {
     (memOffset, st) \<leftarrow> Stack_pop (cx_stack cx);
     (dataOffset, st) \<leftarrow> Stack_pop st;
     (len, st) \<leftarrow> Stack_pop st;
     let cx = cx\<lparr>cx_stack := st\<rparr>;
     let (offset64, overflow) = Int_Uint64WithOverflow dataOffset;
     if overflow then Some (Inl ErrReturnDataOutOfBounds, pc, cx, s)
     else do {
       let (end64, overflow) = Int_Uint64WithOverflow (Int_Add dataOffset len);
       if overflow \<or> length (es_returnData s) < unat end64 then Some (Inl ErrReturnDataOutOfBounds, pc, cx, s)
       else do {
         data \<leftarrow> go_slice (es_returnData s) (unat offset64) (unat end64);
         mem \<leftarrow> Memory_Set (cx_memory cx) (Int_Uint64 memOffset) (Int_Uint64 len) data;
         Some (Inr [], pc, cx\<lparr>cx_memory := mem\<rparr>, s)
       }
     }
   }"

definition opExtCodeSize :: "('st, 'it) simple_op" where
  "opExtCodeSize E pc cx s = do {
     slot \<leftarrow> Stack_peek (cx_stack cx);
     (n, db) \<leftarrow> StateDB_GetCodeSize (evm_store E) (es_StateDB s) (Int_Bytes20 slot);
     Some (Inr [], pc, cx\<lparr>cx_stack := (cx_stack cx)[0 := Int_SetUint64 (of_nat n)]\<rparr>, with_db s db)
   }"

definition opCodeSize :: "('st, 'it) simple_op" where
  "opCodeSize = pushop (\<lambda>E pc cx s. Some (Int_SetUint64 (of_nat (length (ct_Code (cx_contract cx))))))"

definition opCodeCopy :: "('st, 'it) simple_op" where
  "opCodeCopy E pc cx s = do {
     (memOffset, st) \<leftarrow> Stack_pop (cx_stack cx);
     (codeOffset, st) \<leftarrow> Stack_pop st;
     (len, st) \<leftarrow> Stack_pop st;
     mem \<leftarrow> copy_to_memory (ct_Code (cx_contract cx)) (cx_memory cx) memOffset codeOffset len;
     Some (Inr [], pc, cx\<lparr>cx_stack := st, cx_memory := mem\<rparr>, s)
   }"

definition opExtCodeCopy :: "('st, 'it) simple_op" where
  "opExtCodeCopy E pc cx s = do {
     (a, st) \<leftarrow> Stack_pop (cx_stack cx);
     (memOffset, st) \<leftarrow> Stack_pop st;
     (codeOffset, st) \<leftarrow> Stack_pop st;
     (len, st) \<leftarrow> Stack_pop st;
     (code, db) \<leftarrow> StateDB_GetCode (evm_store E) (es_StateDB s) (Int_Bytes20 a);
     mem \<leftarrow> copy_to_memory code (cx_memory cx) memOffset codeOffset len;
     Some (Inr [], pc, cx\<lparr>cx_stack := st, cx_memory := mem\<rparr>, with_db s db)
   }"

definition opExtCodeHash :: "('st, 'it) simple_op" where
  "opExtCodeHash E pc cx s = do {
     slot \<leftarrow> Stack_peek (cx_stack cx);
     (empty, db) \<leftarrow> StateDB_Empty (evm_store E) (es_StateDB s) (Int_Bytes20 slot);
     if empty then Some (Inr [], pc, cx\<lparr>cx_stack := (cx_stack cx)[0 := Int_Clear]\<rparr>, with_db s db)
     else do {
       (hash, db) \<leftarrow> StateDB_GetCodeHash (evm_store E) db (Int_Bytes20 slot);
       v \<leftarrow> Int_SetBytes hash;
       Some (Inr [], pc, cx\<lparr>cx_stack := (cx_stack cx)[0 := v]\<rparr>, with_db s db)
     }
   }"

subsection \<open>Block information\<close>

definition opGasprice :: "('st, 'it) simple_op" where
  "opGasprice = pushop (\<lambda>E pc cx s. Some (fst (Int_FromBig (tx_GasPrice (evm_TxContext E)))))"

definition opBlockhash :: "('st, 'it) simple_op" where
  "opBlockhash = (\<lambda>E. unop (\<lambda>num.
     let (num64, overflow) = Int_Uint64WithOverflow num;
         upper = big_Uint64 (bc_BlockNumber (evm_Context E));
         lower = (if upper < 257 then 0 else upper - 256)
     in if overflow then Some Int_Clear
        else if num64 \<ge> lower \<and> num64 < upper then do { h \<leftarrow> bc_GetHash (evm_Context E) num64; Int_SetBytes h }
        else Some Int_Clear) E)"

definition opCoinbase :: "('st, 'it) simple_op" where
  "opCoinbase = pushop (\<lambda>E pc cx s. Int_SetBytes (bc_Coinbase (evm_Context E)))"
definition opTimestamp :: "('st, 'it) simple_op" where
  "opTimestamp = pushop (\<lambda>E pc cx s. Some (fst (Int_FromBig (bc_Time (evm_Context E)))))"
definition opNumber :: "('st, 'it) simple_op" where
  "opNumber = pushop (\<lambda>E pc cx s. Some (fst (Int_FromBig (bc_BlockNumber (evm_Context E)))))"
definition opDifficulty :: "('st, 'it) simple_op" where
  "opDifficulty = pushop (\<lambda>E pc cx s. Some (fst (Int_FromBig (bc_Difficulty (evm_Context E)))))"
definition opGasLimit :: "('st, 'it) simple_op" where
  "opGasLimit = pushop (\<lambda>E pc cx s. Some (Int_SetUint64 (bc_GasLimit (evm_Context E))))"

definition opSelfBalance :: "('st, 'it) simple_op" where
  "opSelfBalance E pc cx s = do {
     (bal, db) \<leftarrow> StateDB_GetBalance (evm_store E) (es_StateDB s) (Contract_Address (cx_contract cx));
     Some (Inr [], pc, cx\<lparr>cx_stack := Stack_push (cx_stack cx) (fst (Int_FromBig bal))\<rparr>, with_db s db)
   }"

definition opChainID :: "('st, 'it) simple_op" where
  "opChainID = pushop (\<lambda>E pc cx s. do { i \<leftarrow> cc_ChainID (evm_chainConfig E); Some (fst (Int_FromBig i)) })"

subsection \<open>Stack, memory and storage\<close>

definition opPop :: "('st, 'it) simple_op" where
  "opPop = stack_op (\<lambda>st. do { (_, st) \<leftarrow> Stack_pop st; Some st })"

definition opMload :: "('st, 'it) simple_op" where
  "opMload E pc cx s = do {
     v \<leftarrow> Stack_peek (cx_stack cx);
     data \<leftarrow> Memory_GetPtr (cx_memory cx) (sint (Int_Uint64 v)) 32;
     r \<leftarrow> Int_SetBytes data;
     Some (Inr [], pc, cx\<lparr>cx_stack := (cx_stack cx)[0 := r]\<rparr>, s)
   }"

definition opMstore :: "('st, 'it) simple_op" where
  "opMstore E pc cx s = do {
     (mStart, st) \<leftarrow> Stack_pop (cx_stack cx);
     (val, st) \<leftarrow> Stack_pop st;
     mem \<leftarrow> Memory_Set32 (cx_memory cx) (Int_Uint64 mStart) val;
     Some (Inr [], pc, cx\<lparr>cx_stack := st, cx_memory := mem\<rparr>, s)
   }"

definition opMstore8 :: "('st, 'it) simple_op" where
  "opMstore8 E pc cx s = do {
     (off, st) \<leftarrow> Stack_pop (cx_stack cx);
     (val, st) \<leftarrow> Stack_pop st;
     store \<leftarrow> put_at (m_store (cx_memory cx)) (unat (Int_Uint64 off)) (ucast (Int_Uint64 val));
     Some (Inr [], pc, cx\<lparr>cx_stack := st, cx_memory := (cx_memory cx)\<lparr>m_store := store\<rparr>\<rparr>, s)
   }"

definition opSload :: "('st, 'it) simple_op" where
  "opSload E pc cx s = do {
     loc \<leftarrow> Stack_peek (cx_stack cx);
     (val, db) \<leftarrow> StateDB_GetState (evm_store E) (es_StateDB s) (Contract_Address (cx_contract cx)) (Int_Bytes32 loc);
     v \<leftarrow> Int_SetBytes val;
     Some (Inr [], pc, cx\<lparr>cx_stack := (cx_stack cx)[0 := v]\<rparr>, with_db s db)
   }"

definition opSstore :: "('st, 'it) simple_op" where
  "opSstore E pc cx s = do {
     (loc, st) \<leftarrow> Stack_pop (cx_stack cx);
     (val, st) \<leftarrow> Stack_pop st;
     db \<leftarrow> StateDB_SetState (es_StateDB s) (Contract_Address (cx_contract cx)) (Int_Bytes32 loc) (Int_Bytes32 val);
     Some (Inr [], pc, cx\<lparr>cx_stack := st\<rparr>, with_db s db)
   }"

subsection \<open>Control flow\<close>

definition jump_to :: "U256 \<Rightarrow> ('st, 'it) simple_op" where
  "jump_to pos E pc cx s = do {
     (ok, c, jd) \<leftarrow> Contract_validJumpdest (cx_contract cx) (es_jumpdests s) pos;
     let cx = cx\<lparr>cx_contract := c\<rparr>;
     let s = s\<lparr>es_jumpdests := jd\<rparr>;
     Some (if \<not> ok then (Inl ErrInvalidJump, pc, cx, s) else (Inr [], Int_Uint64 pos, cx, s))
   }"

definition opJump :: "('st, 'it) simple_op" where
  "opJump E pc cx s = do {
     (pos, st) \<leftarrow> Stack_pop (cx_stack cx);
     jump_to pos E pc (cx\<lparr>cx_stack := st\<rparr>) s
   }"

definition opJumpi :: "('st, 'it) simple_op" where
  "opJumpi E pc cx s = do {
     (pos, st) \<leftarrow> Stack_pop (cx_stack cx);
     (cond, st) \<leftarrow> Stack_pop st;
     let cx = cx\<lparr>cx_stack := st\<rparr>;
     if \<not> Int_IsZero cond then jump_to pos E pc cx s else Some (Inr [], pc + 1, cx, s)
   }"

definition opJumpdest :: "('st, 'it) simple_op" where "opJumpdest E pc cx s = Some (Inr [], pc, cx, s)"

definition opBeginSub :: "('st, 'it) simple_op" where
  "opBeginSub E pc cx s = Some (Inl ErrInvalidSubroutineEntry, pc, cx, s)"

definition opJumpSub :: "('st, 'it) simple_op" where
  "opJumpSub E pc cx s =
     (if length (cx_rstack cx) \<ge> 1023 then Some (Inl ErrReturnStackExceeded, pc, cx, s)
      else do {
        (pos, st) \<leftarrow> Stack_pop (cx_stack cx);
        let cx = cx\<lparr>cx_stack := st\<rparr>;
        if \<not> Int_IsUint64 pos then Some (Inl ErrInvalidJump, pc, cx, s)
        else do {
          (ok, c, jd) \<leftarrow> Contract_validJumpSubdest (cx_contract cx) (es_jumpdests s) (Int_Uint64 pos);
          let cx = cx\<lparr>cx_contract := c\<rparr>;
          let s = s\<lparr>es_jumpdests := jd\<rparr>;
          Some (if \<not> ok then (Inl ErrInvalidJump, pc, cx, s)
                else (Inr [], Int_Uint64 pos + 1, cx\<lparr>cx_rstack := ReturnStack_push (cx_rstack cx) (ucast pc)\<rparr>, s))
        }
      })"

definition opReturnSub :: "('st, 'it) simple_op" where
  "opReturnSub E pc cx s =
     (if length (cx_rstack cx) = 0 then Some (Inl ErrInvalidRetsub, pc, cx, s)
      else do {
        (r, rst) \<leftarrow> ReturnStack_pop (cx_rstack cx);
        Some (Inr [], ucast r + 1, cx\<lparr>cx_rstack := rst\<rparr>, s)
      })"

definition opPc :: "('st, 'it) simple_op" where "opPc = pushop (\<lambda>E pc cx s. Some (Int_SetUint64 pc))"
definition opMsize :: "('st, 'it) simple_op" where
  "opMsize = pushop (\<lambda>E pc cx s. Some (Int_SetUint64 (of_nat (Memory_Len (cx_memory cx)))))"
definition opGas :: "('st, 'it) simple_op" where
  "opGas = pushop (\<lambda>E pc cx s. Some (Int_SetUint64 (ct_Gas (cx_contract cx))))"

definition return_memory :: "('st, 'it) simple_op" where
  "return_memory E pc cx s = do {
     (offset, st) \<leftarrow> Stack_pop (cx_stack cx);
     (sz, st) \<leftarrow> Stack_pop st;
     ret \<leftarrow> Memory_GetPtr (cx_memory cx) (sint (Int_Uint64 offset)) (sint (Int_Uint64 sz));
     Some (Inr ret, pc, cx\<lparr>cx_stack := st\<rparr>, s)
   }"

definition opReturn :: "('st, 'it) simple_op" where "opReturn = return_memory"
definition opRevert :: "('st, 'it) simple_op" where "opRevert = return_memory"
definition opStop :: "('st, 'it) simple_op" where "opStop E pc cx s = Some (Inr [], pc, cx, s)"

definition opSuicide :: "('st, 'it) simple_op" where
  "opSuicide E pc cx s = do {
     (beneficiary, st) \<leftarrow> Stack_pop (cx_stack cx);
     (balance, db) \<leftarrow> StateDB_GetBalance (evm_store E) (es_StateDB s) (Contract_Address (cx_contract cx));
     db \<leftarrow> StateDB_AddBalance (evm_store E) db (Int_Bytes20 beneficiary) balance;
     (_, db) \<leftarrow> StateDB_Suicide (evm_store E) db (Contract_Address (cx_contract cx));
     Some (Inr [], pc, cx\<lparr>cx_stack := st\<rparr>, with_db s db)
   }"

subsection \<open>Logs, pushes, duplications and swaps\<close>

primrec pop_topics :: "nat \<Rightarrow> Stack \<Rightarrow> (bytes list \<times> Stack) option" where
  "pop_topics 0 st = Some ([], st)"
| "pop_topics (Suc n) st = do {
     (addr, st) \<leftarrow> Stack_pop st;
     (topics, st) \<leftarrow> pop_topics n st;
     Some (Int_Bytes32 addr # topics, st)
   }"

definition makeLog :: "nat \<Rightarrow> ('st, 'it) simple_op" where
  "makeLog n E pc cx s = do {
     (mStart, st) \<leftarrow> Stack_pop (cx_stack cx);
     (mSize, st) \<leftarrow> Stack_pop st;
     (topics, st) \<leftarrow> pop_topics n st;
     d \<leftarrow> Memory_GetCopy (cx_memory cx) (sint (Int_Uint64 mStart)) (sint (Int_Uint64 mSize));
     let db = StateDB_AddLog (es_StateDB s)
       \<lparr>sl_Address = Contract_Address (cx_contract cx), sl_Topics = topics, sl_Data = d\<rparr>;
     Some (Inr [], pc, cx\<lparr>cx_stack := st\<rparr>, with_db s db)
   }"

definition opPush1 :: "('st, 'it) simple_op" where
  "opPush1 E pc cx s =
     (let code = ct_Code (cx_contract cx);
          pc = pc + 1;
          v = (if unat pc < length code then Int_SetUint64 (ucast (code ! unat pc)) else Int_Clear)
      in Some (Inr [], pc, cx\<lparr>cx_stack := Stack_push (cx_stack cx) v\<rparr>, s))"

definition makePush :: "u64 \<Rightarrow> int \<Rightarrow> ('st, 'it) simple_op" where
  "makePush n pushByteSize E pc cx s = do {
     let code = ct_Code (cx_contract cx);
     let codeLen = int (length code);
     let startMin = (if sint (pc + 1) < codeLen then sint (pc + 1) else codeLen);
     let endMin = (if startMin + pushByteSize < codeLen then startMin + pushByteSize else codeLen);
     d \<leftarrow> (if startMin < 0 then None else go_slice code (nat startMin) (nat endMin));
     v \<leftarrow> Int_SetBytes (RightPadBytes d pushByteSize);
     Some (Inr [], pc + n, cx\<lparr>cx_stack := Stack_push (cx_stack cx) v\<rparr>, s)
   }"

definition makeDup :: "nat \<Rightarrow> ('st, 'it) simple_op" where
  "makeDup n = stack_op (\<lambda>st. Stack_dup st n)"

definition makeSwap :: "nat \<Rightarrow> ('st, 'it) simple_op" where
  "makeSwap n = (let n = n + 1 in stack_op (\<lambda>st. Stack_swap st n))"

end
