(* ===== verification/Evm_Call.thy ===== *)
theory Evm_Call
  imports Evm_Ops
begin

text \<open>
  Message calls and contract creation: the methods \<^verbatim>\<open>Call\<close>, \<^verbatim>\<open>CallCode\<close>, \<^verbatim>\<open>DelegateCall\<close>,
  \<^verbatim>\<open>StaticCall\<close>, \<^verbatim>\<open>create\<close>, \<^verbatim>\<open>Create\<close> and \<^verbatim>\<open>Create2\<close> of \<^verbatim>\<open>src/evm/evm.go\<close> and the six instructions of
  \<^verbatim>\<open>src/evm/instructions.go\<close> that use them.  The interpreter they call back into is their first
  argument, so that the recursion is tied once, in the interpreter's own theory.  Its result is
  an outcome: a value, a panic, or the exhaustion of the step budget the interpreter is given.
\<close>

section \<open>Outcomes\<close>

datatype 'a outcome = Done 'a | Panicked | Exhausted

definition obind :: "'a outcome \<Rightarrow> ('a \<Rightarrow> 'b outcome) \<Rightarrow> 'b outcome" where
  "obind r f = (case r of Done a \<Rightarrow> f a | Panicked \<Rightarrow> Panicked | Exhausted \<Rightarrow> Exhausted)"

definition of_opt :: "'a option \<Rightarrow> 'a outcome" where
  "of_opt r = (case r of Some a \<Rightarrow> Done a | None \<Rightarrow> Panicked)"

type_synonym 'st runner =
  "Contract \<Rightarrow> bytes \<Rightarrow> bool \<Rightarrow> 'st EVM_state \<Rightarrow> ((bytes \<times> evm_error option) \<times> Contract \<times> 'st EVM_state) outcome"

type_synonym 'st call_result = "((go_ret \<times> u64 \<times> evm_error option) \<times> 'st EVM_state) outcome"

section \<open>Message calls\<close>

text \<open>The end of the four call methods: an error reverts to the snapshot and, unless it is a revert, takes
  the remaining gas.\<close>

definition settle_call ::
  "nat \<Rightarrow> go_ret \<times> u64 \<times> evm_error option \<Rightarrow> 'st EVM_state \<Rightarrow> 'st call_result" where
  "settle_call snap r s = (case r of (ret, gas, err) \<Rightarrow>
     (case err of
        None \<Rightarrow> Done ((ret, gas, None), s)
      | Some e \<Rightarrow>
          obind (of_opt (StateDB_RevertToSnapshot (es_StateDB s) snap)) (\<lambda>db.
            Done ((ret, if e \<noteq> ErrExecutionReverted then 0 else gas, Some e), with_db s db))))"

definition run_contract ::
  "'st runner \<Rightarrow> Contract \<Rightarrow> bytes \<Rightarrow> bool \<Rightarrow> 'st EVM_state \<Rightarrow> 'st call_result" where
  "run_contract run c input readOnly s =
     obind (run c input readOnly s) (\<lambda>((ret, err), c, s). Done ((Fresh ret, ct_Gas c, err), s))"

definition run_precompile ::
  "('st, 'it) EVM \<Rightarrow> precompile \<Rightarrow> bytes \<Rightarrow> u64 \<Rightarrow> 'st EVM_state \<Rightarrow> 'st call_result" where
  "run_precompile E p input gas s =
     obind (of_opt (RunPrecompiledContract (evm_libs E) (evm_crypto E) p input gas)) (\<lambda>r. Done (r, s))"

definition EVM_Call ::
  "'st runner \<Rightarrow> ('st, 'it) EVM \<Rightarrow> ContractRef \<Rightarrow> bytes \<Rightarrow> bytes \<Rightarrow> u64 \<Rightarrow> int \<Rightarrow> 'st EVM_state \<Rightarrow> 'st call_result" where
  "EVM_Call run E clr addr input gas val s =
     (if cfg_NoRecursion (evm_vmConfig E) \<and> es_depth s > 0 then Done ((Fresh [], gas, None), s)
      else if es_depth s > unat CallCreateDepth then Done ((Fresh [], gas, Some ErrDepth), s)
      else
        obind (of_opt (if sgn val \<noteq> 0
                       then bc_CanTransfer (evm_Context E) (es_StateDB s) (ContractRef_Address clr) val
                       else Some (True, es_StateDB s))) (\<lambda>(ok, db).
        if \<not> ok then Done ((Fresh [], gas, Some ErrInsufficientBalance), with_db s db)
        else
          let (snap, db) = StateDB_Snapshot db;
              p = EVM_precompile (evm_chainRules E) addr
          in obind (of_opt (StateDB_Exist (evm_store E) db addr)) (\<lambda>(exist, db).
             if \<not> exist \<and> p = None \<and> r_IsEIP158 (evm_chainRules E) \<and> sgn val = 0
             then Done ((Fresh [], gas, None), with_db s db)
             else
               let db = (if \<not> exist then StateDB_CreateAccount db addr else db) in
               obind (of_opt (bc_Transfer (evm_Context E) db (ContractRef_Address clr) addr val)) (\<lambda>db.
               obind (case p of
                   Some p \<Rightarrow> run_precompile E p input gas (with_db s db)
                 | None \<Rightarrow>
                     obind (of_opt (StateDB_GetCode (evm_store E) db addr)) (\<lambda>(code, db).
                     if length code = 0 then Done ((Fresh [], gas, None), with_db s db)
                     else
                       obind (of_opt (StateDB_GetCodeHash (evm_store E) db addr)) (\<lambda>(hash, db).
                       let (c, jd) = NewContract clr (AccountRef addr) (Some val) gas (es_jumpdests s);
                           c = Contract_SetCallCode c (Some addr) hash code
                       in run_contract run c input False (with_db (s\<lparr>es_jumpdests := jd\<rparr>) db))))
               (\<lambda>(r, s). settle_call snap r s)))))"

text \<open>What \<^verbatim>\<open>CallCode\<close>, \<^verbatim>\<open>DelegateCall\<close> and \<^verbatim>\<open>StaticCall\<close> do after taking their snapshot: run a precompiled
  contract, or the code at the address in the contract they made.\<close>

definition run_code_at ::
  "'st runner \<Rightarrow> ('st, 'it) EVM \<Rightarrow> Contract option \<Rightarrow> bytes \<Rightarrow> bytes \<Rightarrow> u64 \<Rightarrow> bool \<Rightarrow> nat \<Rightarrow> 'st EVM_state \<Rightarrow>
     'st call_result" where
  "run_code_at run E c addr input gas readOnly snap s =
     obind (case EVM_precompile (evm_chainRules E) addr of
         Some p \<Rightarrow> run_precompile E p input gas s
       | None \<Rightarrow>
           obind (of_opt c) (\<lambda>c.
           obind (of_opt (StateDB_GetCodeHash (evm_store E) (es_StateDB s) addr)) (\<lambda>(hash, db).
           obind (of_opt (StateDB_GetCode (evm_store E) db addr)) (\<lambda>(code, db).
             run_contract run (Contract_SetCallCode c (Some addr) hash code) input readOnly (with_db s db)))))
     (\<lambda>(r, s). settle_call snap r s)"

definition EVM_CallCode ::
  "'st runner \<Rightarrow> ('st, 'it) EVM \<Rightarrow> ContractRef \<Rightarrow> bytes \<Rightarrow> bytes \<Rightarrow> u64 \<Rightarrow> int \<Rightarrow> 'st EVM_state \<Rightarrow> 'st call_result" where
  "EVM_CallCode run E clr addr input gas val s =
     (if cfg_NoRecursion (evm_vmConfig E) \<and> es_depth s > 0 then Done ((Fresh [], gas, None), s)
      else if es_depth s > unat CallCreateDepth then Done ((Fresh [], gas, Some ErrDepth), s)
      else
        obind (of_opt (bc_CanTransfer (evm_Context E) (es_StateDB s) (ContractRef_Address clr) val)) (\<lambda>(ok, db).
        if \<not> ok then Done ((Fresh [], gas, Some ErrInsufficientBalance), with_db s db)
        else
          let (snap, db) = StateDB_Snapshot db;
              (c, jd) = NewContract clr (AccountRef (ContractRef_Address clr)) (Some val) gas (es_jumpdests s)
          in run_code_at run E (Some c) addr input gas False snap (with_db (s\<lparr>es_jumpdests := jd\<rparr>) db)))"

definition EVM_DelegateCall ::
  "'st runner \<Rightarrow> ('st, 'it) EVM \<Rightarrow> ContractRef \<Rightarrow> bytes \<Rightarrow> bytes \<Rightarrow> u64 \<Rightarrow> 'st EVM_state \<Rightarrow> 'st call_result" where
  "EVM_DelegateCall run E clr addr input gas s =
     (if cfg_NoRecursion (evm_vmConfig E) \<and> es_depth s > 0 then Done ((Fresh [], gas, None), s)
      else if es_depth s > unat CallCreateDepth then Done ((Fresh [], gas, Some ErrDepth), s)
      else
        let (snap, db) = StateDB_Snapshot (es_StateDB s);
            (c, jd) = NewContract clr (AccountRef (ContractRef_Address clr)) None gas (es_jumpdests s)
        in run_code_at run E (Contract_AsDelegate c) addr input gas False snap (with_db (s\<lparr>es_jumpdests := jd\<rparr>) db))"

definition EVM_StaticCall ::
  "'st runner \<Rightarrow> ('st, 'it) EVM \<Rightarrow> ContractRef \<Rightarrow> bytes \<Rightarrow> bytes \<Rightarrow> u64 \<Rightarrow> 'st EVM_state \<Rightarrow> 'st call_result" where
  "EVM_StaticCall run E clr addr input gas s =
     (if cfg_NoRecursion (evm_vmConfig E) \<and> es_depth s > 0 then Done ((Fresh [], gas, None), s)
      else if es_depth s > unat CallCreateDepth then Done ((Fresh [], gas, Some ErrDepth), s)
      else
        let (snap, db) = StateDB_Snapshot (es_StateDB s) in
        obind (of_opt (StateDB_AddBalance (evm_store E) db addr 0)) (\<lambda>db.
        let (c, jd) = NewContract clr (AccountRef addr) (Some 0) gas (es_jumpdests s)
        in run_code_at run E (Some c) addr input gas True snap (with_db (s\<lparr>es_jumpdests := jd\<rparr>) db)))"

section \<open>Contract creation\<close>

type_synonym 'st create_result = "((bytes \<times> bytes \<times> u64 \<times> evm_error option) \<times> 'st EVM_state) outcome"

definition codeAndHash_Hash :: "go_libs \<Rightarrow> codeAndHash \<Rightarrow> codeAndHash" where
  "codeAndHash_Hash L ch = (if ch_hash ch = zero_hash then ch\<lparr>ch_hash := lib_Keccak256 L (ch_code ch)\<rparr> else ch)"

definition emptyCodeHash :: "go_libs \<Rightarrow> bytes" where
  "emptyCodeHash L = lib_Keccak256 L []"

text \<open>The end of \<^verbatim>\<open>create\<close>, after the initialisation code has run: store the returned code against its
  price, and undo everything when that or the run failed.\<close>

definition settle_create ::
  "('st, 'it) EVM \<Rightarrow> nat \<Rightarrow> bytes \<Rightarrow> (bytes \<times> evm_error option) \<times> Contract \<times> 'st EVM_state \<Rightarrow> 'st create_result" where
  "settle_create E snap address r = (case r of ((ret, err), c, s) \<Rightarrow>
     let rules = evm_chainRules E;
         maxCodeSizeExceeded = (r_IsEIP158 rules \<and> length ret > MaxCodeSize)
     in obind (if err = None \<and> \<not> maxCodeSizeExceeded then
                 let (ok, c') = Contract_UseGas c (of_nat (length ret) * CreateDataGas) in
                 if ok then
                   obind (of_opt (StateDB_SetCode (evm_libs E) (evm_store E) (es_StateDB s) address ret)) (\<lambda>db.
                     Done (err, c', with_db s db))
                 else Done (Some ErrCodeStoreOutOfGas, c', s)
               else Done (err, c, s)) (\<lambda>(err, c, s).
        obind (if maxCodeSizeExceeded \<or>
                  (err \<noteq> None \<and> (r_IsHomestead rules \<or> err \<noteq> Some ErrCodeStoreOutOfGas)) then
                 obind (of_opt (StateDB_RevertToSnapshot (es_StateDB s) snap)) (\<lambda>db.
                   Done (if err \<noteq> Some ErrExecutionReverted then snd (Contract_UseGas c (ct_Gas c)) else c, with_db s db))
               else Done (c, s)) (\<lambda>(c, s).
        let err = (if maxCodeSizeExceeded \<and> err = None then Some ErrMaxCodeSizeExceeded else err)
        in Done ((ret, address, ct_Gas c, err), s))))"

definition EVM_create ::
  "'st runner \<Rightarrow> ('st, 'it) EVM \<Rightarrow> ContractRef \<Rightarrow> codeAndHash \<Rightarrow> u64 \<Rightarrow> int \<Rightarrow> bytes \<Rightarrow> 'st EVM_state \<Rightarrow> 'st create_result" where
  "EVM_create run E clr ch gas val address s =
     (if es_depth s > unat CallCreateDepth then Done (([], zero_address, gas, Some ErrDepth), s)
      else
        obind (of_opt (bc_CanTransfer (evm_Context E) (es_StateDB s) (ContractRef_Address clr) val)) (\<lambda>(ok, db).
        if \<not> ok then Done (([], zero_address, gas, Some ErrInsufficientBalance), with_db s db)
        else
          obind (of_opt (StateDB_GetNonce (evm_store E) db (ContractRef_Address clr))) (\<lambda>(nonce, db).
          obind (of_opt (StateDB_SetNonce (evm_store E) db (ContractRef_Address clr) (nonce + 1))) (\<lambda>db.
          obind (of_opt (StateDB_GetCodeHash (evm_store E) db address)) (\<lambda>(contractHash, db).
          obind (of_opt (StateDB_GetNonce (evm_store E) db address)) (\<lambda>(n, db).
          if n \<noteq> 0 \<or> (contractHash \<noteq> zero_hash \<and> contractHash \<noteq> emptyCodeHash (evm_libs E))
          then Done (([], zero_address, 0, Some ErrContractAddressCollision), with_db s db)
          else
            let (snap, db) = StateDB_Snapshot db;
                db = StateDB_CreateAccount db address
            in obind (of_opt (if r_IsEIP158 (evm_chainRules E)
                              then StateDB_SetNonce (evm_store E) db address 1 else Some db)) (\<lambda>db.
               obind (of_opt (bc_Transfer (evm_Context E) db (ContractRef_Address clr) address val)) (\<lambda>db.
               let (c, jd) = NewContract clr (AccountRef address) (Some val) gas (es_jumpdests s);
                   c = Contract_SetCodeOptionalHash c (Some address) ch;
                   s = with_db (s\<lparr>es_jumpdests := jd\<rparr>) db
               in if cfg_NoRecursion (evm_vmConfig E) \<and> es_depth s > 0
                  then Done (([], address, gas, None), s)
                  else obind (run c [] False s) (\<lambda>r. settle_create E snap address r)))))))))"

definition EVM_Create ::
  "'st runner \<Rightarrow> ('st, 'it) EVM \<Rightarrow> ContractRef \<Rightarrow> bytes \<Rightarrow> u64 \<Rightarrow> int \<Rightarrow> 'st EVM_state \<Rightarrow> 'st create_result" where
  "EVM_Create run E clr code gas val s =
     obind (of_opt (StateDB_GetNonce (evm_store E) (es_StateDB s) (ContractRef_Address clr))) (\<lambda>(nonce, db).
     obind (of_opt (CreateAddress (evm_libs E) (evm_crypto E) (ContractRef_Address clr) nonce)) (\<lambda>contractAddr.
       EVM_create run E clr \<lparr>ch_code = code, ch_hash = zero_hash\<rparr> gas val contractAddr (with_db s db)))"

definition EVM_Create2 ::
  "'st runner \<Rightarrow> ('st, 'it) EVM \<Rightarrow> ContractRef \<Rightarrow> bytes \<Rightarrow> u64 \<Rightarrow> int \<Rightarrow> U256 \<Rightarrow> 'st EVM_state \<Rightarrow> 'st create_result" where
  "EVM_Create2 run E clr code gas endowment salt s =
     (let ch = codeAndHash_Hash (evm_libs E) \<lparr>ch_code = code, ch_hash = zero_hash\<rparr> in
      obind (of_opt (CreateAddress2 (evm_libs E) (ContractRef_Address clr) (Int_Bytes32 salt) (ch_hash ch))) (\<lambda>contractAddr.
        EVM_create run E clr ch gas endowment contractAddr s))"

section \<open>The instructions that call\<close>

type_synonym ('st, 'it) executionFunc =
  "'st runner \<Rightarrow> ('st, 'it) EVM \<Rightarrow> u64 \<Rightarrow> callCtx \<Rightarrow> 'st EVM_state \<Rightarrow> 'st op_result outcome"

definition lift_op :: "('st, 'it) simple_op \<Rightarrow> ('st, 'it) executionFunc" where
  "lift_op f run E pc cx s = of_opt (f E pc cx s)"

definition finish_create ::
  "u64 \<Rightarrow> callCtx \<Rightarrow> bool \<Rightarrow> (bytes \<times> bytes \<times> u64 \<times> evm_error option) \<times> 'st EVM_state \<Rightarrow> 'st op_result outcome" where
  "finish_create pc cx failed r = (case r of ((res, addr, returnGas, suberr), s) \<Rightarrow>
     obind (of_opt (if failed then Some Int_Clear else Int_SetBytes addr)) (\<lambda>stackvalue.
     let c = cx_contract cx;
         cx = cx\<lparr>cx_stack := Stack_push (cx_stack cx) stackvalue, cx_contract := c\<lparr>ct_Gas := ct_Gas c + returnGas\<rparr>\<rparr>
     in Done (Inr (if suberr = Some ErrExecutionReverted then res else []), pc, cx, s)))"

definition opCreate :: "('st, 'it) executionFunc" where
  "opCreate run E pc cx s =
     obind (of_opt (do {
       (val, st) \<leftarrow> Stack_pop (cx_stack cx);
       (offset, st) \<leftarrow> Stack_pop st;
       (sz, st) \<leftarrow> Stack_pop st;
       input \<leftarrow> Memory_GetCopy (cx_memory cx) (sint (Int_Uint64 offset)) (sint (Int_Uint64 sz));
       Some (val, input, st)
     })) (\<lambda>(val, input, st).
     let gas = ct_Gas (cx_contract cx);
         gas = (if r_IsEIP150 (evm_chainRules E) then gas - gas div 64 else gas);
         (_, c) = Contract_UseGas (cx_contract cx) gas;
         cx = cx\<lparr>cx_stack := st, cx_contract := c\<rparr>
     in obind (EVM_Create run E (as_caller c) input gas (Int_ToBig val) s) (\<lambda>((res, addr, returnGas, suberr), s).
        finish_create pc cx
          (r_IsHomestead (evm_chainRules E) \<and> suberr = Some ErrCodeStoreOutOfGas \<or>
           suberr \<noteq> None \<and> suberr \<noteq> Some ErrCodeStoreOutOfGas)
          ((res, addr, returnGas, suberr), s)))"

definition opCreate2 :: "('st, 'it) executionFunc" where
  "opCreate2 run E pc cx s =
     obind (of_opt (do {
       (endowment, st) \<leftarrow> Stack_pop (cx_stack cx);
       (offset, st) \<leftarrow> Stack_pop st;
       (sz, st) \<leftarrow> Stack_pop st;
       (salt, st) \<leftarrow> Stack_pop st;
       input \<leftarrow> Memory_GetCopy (cx_memory cx) (sint (Int_Uint64 offset)) (sint (Int_Uint64 sz));
       Some (endowment, input, salt, st)
     })) (\<lambda>(endowment, input, salt, st).
     let gas = ct_Gas (cx_contract cx);
         gas = gas - gas div 64;
         (_, c) = Contract_UseGas (cx_contract cx) gas;
         cx = cx\<lparr>cx_stack := st, cx_contract := c\<rparr>
     in obind (EVM_Create2 run E (as_caller c) input gas (Int_ToBig endowment) salt s) (\<lambda>((res, addr, returnGas, suberr), s).
        finish_create pc cx (suberr \<noteq> None) ((res, addr, returnGas, suberr), s)))"

text \<open>The operands of a call instruction: the callee, the input and output windows of the memory, the input
  itself, and the stack below them.  The gas operand is popped and not used, and \<open>hasValue\<close> tells
  whether the instruction has a value operand.\<close>

record call_args =
  ca_addr :: bytes
  ca_value :: U256
  ca_inOffset :: u64
  ca_inSize :: u64
  ca_retOffset :: u64
  ca_retSize :: u64
  ca_args :: bytes
  ca_stack :: Stack

definition pop_call_args :: "bool \<Rightarrow> callCtx \<Rightarrow> call_args option" where
  "pop_call_args hasValue cx = do {
     (_, st) \<leftarrow> Stack_pop (cx_stack cx);
     (addr, st) \<leftarrow> Stack_pop st;
     (val, st) \<leftarrow> (if hasValue then Stack_pop st else Some (Int_Clear, st));
     (inOffset, st) \<leftarrow> Stack_pop st;
     (inSize, st) \<leftarrow> Stack_pop st;
     (retOffset, st) \<leftarrow> Stack_pop st;
     (retSize, st) \<leftarrow> Stack_pop st;
     args \<leftarrow> Memory_GetPtr (cx_memory cx) (sint (Int_Uint64 inOffset)) (sint (Int_Uint64 inSize));
     Some \<lparr>ca_addr = Int_Bytes20 addr, ca_value = val, ca_inOffset = Int_Uint64 inOffset, ca_inSize = Int_Uint64 inSize,
       ca_retOffset = Int_Uint64 retOffset, ca_retSize = Int_Uint64 retSize, ca_args = args, ca_stack = st\<rparr>
   }"

text \<open>The returned slice is copied into the output window before the interpreter copies it as the return
  data.  A slice that is the input window itself is read again after that write.\<close>

definition finish_call ::
  "u64 \<Rightarrow> callCtx \<Rightarrow> call_args \<Rightarrow> (go_ret \<times> u64 \<times> evm_error option) \<times> 'st EVM_state \<Rightarrow> 'st op_result outcome" where
  "finish_call pc cx a r = (case r of ((ret, returnGas, err), s) \<Rightarrow>
     let temp = (if err \<noteq> None then Int_Clear else Int_SetOne);
         c = cx_contract cx
     in obind (of_opt (if err = None \<or> err = Some ErrExecutionReverted
                       then Memory_Set (cx_memory cx) (ca_retOffset a) (ca_retSize a) (ret_bytes (ca_args a) ret)
                       else Some (cx_memory cx))) (\<lambda>mem.
        obind (of_opt (case ret of
            Fresh b \<Rightarrow> Some b
          | SameAsInput \<Rightarrow> Memory_GetPtr mem (sint (ca_inOffset a)) (sint (ca_inSize a)))) (\<lambda>res.
        Done (Inr res, pc,
          cx\<lparr>cx_stack := Stack_push (ca_stack a) temp, cx_memory := mem,
             cx_contract := c\<lparr>ct_Gas := ct_Gas c + returnGas\<rparr>\<rparr>, s))))"

definition with_stipend :: "u64 \<Rightarrow> U256 \<Rightarrow> u64" where
  "with_stipend gas val = (if \<not> Int_IsZero val then gas + CallStipend else gas)"

definition opCall :: "('st, 'it) executionFunc" where
  "opCall run E pc cx s =
     obind (of_opt (pop_call_args True cx)) (\<lambda>a.
     obind (EVM_Call run E (as_caller (cx_contract cx)) (ca_addr a) (ca_args a)
              (with_stipend (es_callGasTemp s) (ca_value a)) (Int_ToBig (ca_value a)) s) (\<lambda>r.
     finish_call pc cx a r))"

definition opCallCode :: "('st, 'it) executionFunc" where
  "opCallCode run E pc cx s =
     obind (of_opt (pop_call_args True cx)) (\<lambda>a.
     obind (EVM_CallCode run E (as_caller (cx_contract cx)) (ca_addr a) (ca_args a)
              (with_stipend (es_callGasTemp s) (ca_value a)) (Int_ToBig (ca_value a)) s) (\<lambda>r.
     finish_call pc cx a r))"

definition opDelegateCall :: "('st, 'it) executionFunc" where
  "opDelegateCall run E pc cx s =
     obind (of_opt (pop_call_args False cx)) (\<lambda>a.
     obind (EVM_DelegateCall run E (as_caller (cx_contract cx)) (ca_addr a) (ca_args a) (es_callGasTemp s) s) (\<lambda>r.
     finish_call pc cx a r))"

definition opStaticCall :: "('st, 'it) executionFunc" where
  "opStaticCall run E pc cx s =
     obind (of_opt (pop_call_args False cx)) (\<lambda>a.
     obind (EVM_StaticCall run E (as_caller (cx_contract cx)) (ca_addr a) (ca_args a) (es_callGasTemp s) s) (\<lambda>r.
     finish_call pc cx a r))"

end
