(* ===== verification/Evm_Tables.thy ===== *)
theory Evm_Tables
  imports Evm_Call
begin

text \<open>
  The instruction tables of \<^verbatim>\<open>src/evm/jump_table.go\<close>, one per fork, and the improvement proposals of
  \<^verbatim>\<open>src/evm/eips.go\<close> that extend them.  A table is a partial function from opcodes, as the array of
  pointers is.  Assigning a field of an entry that is not there is a nil dereference, so the
  functions that build a table from an older one return an option.
\<close>

section \<open>Operations\<close>

record ('st, 'it) operation =
  op_execute :: "('st, 'it) executionFunc"
  op_constantGas :: u64
  op_dynamicGas :: "('st, 'it) gasFunc option"
  op_minStack :: int
  op_maxStack :: int
  op_memorySize :: "memorySizeFunc option"
  op_halts :: bool
  op_jumps :: bool
  op_writes :: bool
  op_reverts :: bool
  op_returns :: bool

definition mk_op :: "('st, 'it) executionFunc \<Rightarrow> u64 \<Rightarrow> int \<Rightarrow> int \<Rightarrow> ('st, 'it) operation" where
  "mk_op f gas mn mx =
     \<lparr>op_execute = f, op_constantGas = gas, op_dynamicGas = None, op_minStack = mn, op_maxStack = mx,
      op_memorySize = None, op_halts = False, op_jumps = False, op_writes = False, op_reverts = False,
      op_returns = False\<rparr>"

type_synonym ('st, 'it) JumpTable = "OpCode \<rightharpoonup> ('st, 'it) operation"

definition update_op ::
  "OpCode \<Rightarrow> (('st, 'it) operation \<Rightarrow> ('st, 'it) operation) \<Rightarrow> ('st, 'it) JumpTable \<Rightarrow> ('st, 'it) JumpTable option" where
  "update_op op f jt = do { o' \<leftarrow> jt op; Some (jt(op \<mapsto> f o')) }"

definition set_constantGas :: "OpCode \<Rightarrow> u64 \<Rightarrow> ('st, 'it) JumpTable \<Rightarrow> ('st, 'it) JumpTable option" where
  "set_constantGas op gas = update_op op (\<lambda>o'. o'\<lparr>op_constantGas := gas\<rparr>)"

definition set_dynamicGas :: "OpCode \<Rightarrow> ('st, 'it) gasFunc \<Rightarrow> ('st, 'it) JumpTable \<Rightarrow> ('st, 'it) JumpTable option" where
  "set_dynamicGas op gas = update_op op (\<lambda>o'. o'\<lparr>op_dynamicGas := Some gas\<rparr>)"

section \<open>The Frontier table\<close>

definition frontier_arithmetic :: "(OpCode \<times> ('st, 'it) operation) list" where
  "frontier_arithmetic = [
     (STOP, (mk_op (lift_op opStop) 0 (minStack 0 0) (maxStack 0 0))\<lparr>op_halts := True\<rparr>),
     (ADD, mk_op (lift_op opAdd) GasFastestStep (minStack 2 1) (maxStack 2 1)),
     (MUL, mk_op (lift_op opMul) GasFastStep (minStack 2 1) (maxStack 2 1)),
     (SUB, mk_op (lift_op opSub) GasFastestStep (minStack 2 1) (maxStack 2 1)),
     (DIV, mk_op (lift_op opDiv) GasFastStep (minStack 2 1) (maxStack 2 1)),
     (SDIV, mk_op (lift_op opSdiv) GasFastStep (minStack 2 1) (maxStack 2 1)),
     (MOD, mk_op (lift_op opMod) GasFastStep (minStack 2 1) (maxStack 2 1)),
     (SMOD, mk_op (lift_op opSmod) GasFastStep (minStack 2 1) (maxStack 2 1)),
     (ADDMOD, mk_op (lift_op opAddmod) GasMidStep (minStack 3 1) (maxStack 3 1)),
     (MULMOD, mk_op (lift_op opMulmod) GasMidStep (minStack 3 1) (maxStack 3 1)),
     (EXP, (mk_op (lift_op opExp) 0 (minStack 2 1) (maxStack 2 1))\<lparr>op_dynamicGas := Some gasExpFrontier\<rparr>),
     (SIGNEXTEND, mk_op (lift_op opSignExtend) GasFastStep (minStack 2 1) (maxStack 2 1)),
     (LT, mk_op (lift_op opLt) GasFastestStep (minStack 2 1) (maxStack 2 1)),
     (GT, mk_op (lift_op opGt) GasFastestStep (minStack 2 1) (maxStack 2 1)),
     (SLT, mk_op (lift_op opSlt) GasFastestStep (minStack 2 1) (maxStack 2 1)),
     (SGT, mk_op (lift_op opSgt) GasFastestStep (minStack 2 1) (maxStack 2 1)),
     (EQ, mk_op (lift_op opEq) GasFastestStep (minStack 2 1) (maxStack 2 1)),
     (ISZERO, mk_op (lift_op opIszero) GasFastestStep (minStack 1 1) (maxStack 1 1)),
     (AND_op, mk_op (lift_op opAnd) GasFastestStep (minStack 2 1) (maxStack 2 1)),
     (XOR_op, mk_op (lift_op opXor) GasFastestStep (minStack 2 1) (maxStack 2 1)),
     (OR_op, mk_op (lift_op opOr) GasFastestStep (minStack 2 1) (maxStack 2 1)),
     (NOT_op, mk_op (lift_op opNot) GasFastestStep (minStack 1 1) (maxStack 1 1)),
     (BYTE, mk_op (lift_op opByte) GasFastestStep (minStack 2 1) (maxStack 2 1)),
     (SHA3, (mk_op (lift_op opSha3) Sha3Gas (minStack 2 1) (maxStack 2 1))\<lparr>op_dynamicGas := Some gasSha3, op_memorySize := Some memorySha3\<rparr>)]"

definition frontier_environment :: "(OpCode \<times> ('st, 'it) operation) list" where
  "frontier_environment = [
     (ADDRESS, mk_op (lift_op opAddress) GasQuickStep (minStack 0 1) (maxStack 0 1)),
     (BALANCE, mk_op (lift_op opBalance) BalanceGasFrontier (minStack 1 1) (maxStack 1 1)),
     (ORIGIN, mk_op (lift_op opOrigin) GasQuickStep (minStack 0 1) (maxStack 0 1)),
     (CALLER, mk_op (lift_op opCaller) GasQuickStep (minStack 0 1) (maxStack 0 1)),
     (CALLVALUE, mk_op (lift_op opCallValue) GasQuickStep (minStack 0 1) (maxStack 0 1)),
     (CALLDATALOAD, mk_op (lift_op opCallDataLoad) GasFastestStep (minStack 1 1) (maxStack 1 1)),
     (CALLDATASIZE, mk_op (lift_op opCallDataSize) GasQuickStep (minStack 0 1) (maxStack 0 1)),
     (CALLDATACOPY, (mk_op (lift_op opCallDataCopy) GasFastestStep (minStack 3 0) (maxStack 3 0))\<lparr>op_dynamicGas := Some gasCallDataCopy, op_memorySize := Some memoryCallDataCopy\<rparr>),
     (CODESIZE, mk_op (lift_op opCodeSize) GasQuickStep (minStack 0 1) (maxStack 0 1)),
     (CODECOPY, (mk_op (lift_op opCodeCopy) GasFastestStep (minStack 3 0) (maxStack 3 0))\<lparr>op_dynamicGas := Some gasCodeCopy, op_memorySize := Some memoryCodeCopy\<rparr>),
     (GASPRICE, mk_op (lift_op opGasprice) GasQuickStep (minStack 0 1) (maxStack 0 1)),
     (EXTCODESIZE, mk_op (lift_op opExtCodeSize) ExtcodeSizeGasFrontier (minStack 1 1) (maxStack 1 1)),
     (EXTCODECOPY, (mk_op (lift_op opExtCodeCopy) ExtcodeCopyBaseFrontier (minStack 4 0) (maxStack 4 0))\<lparr>op_dynamicGas := Some gasExtCodeCopy, op_memorySize := Some memoryExtCodeCopy\<rparr>),
     (BLOCKHASH, mk_op (lift_op opBlockhash) GasExtStep (minStack 1 1) (maxStack 1 1)),
     (COINBASE, mk_op (lift_op opCoinbase) GasQuickStep (minStack 0 1) (maxStack 0 1)),
     (TIMESTAMP, mk_op (lift_op opTimestamp) GasQuickStep (minStack 0 1) (maxStack 0 1)),
     (NUMBER, mk_op (lift_op opNumber) GasQuickStep (minStack 0 1) (maxStack 0 1)),
     (DIFFICULTY, mk_op (lift_op opDifficulty) GasQuickStep (minStack 0 1) (maxStack 0 1)),
     (GASLIMIT, mk_op (lift_op opGasLimit) GasQuickStep (minStack 0 1) (maxStack 0 1))]"

definition frontier_memory_flow :: "(OpCode \<times> ('st, 'it) operation) list" where
  "frontier_memory_flow = [
     (POP, mk_op (lift_op opPop) GasQuickStep (minStack 1 0) (maxStack 1 0)),
     (MLOAD, (mk_op (lift_op opMload) GasFastestStep (minStack 1 1) (maxStack 1 1))\<lparr>op_dynamicGas := Some gasMLoad, op_memorySize := Some memoryMLoad\<rparr>),
     (MSTORE, (mk_op (lift_op opMstore) GasFastestStep (minStack 2 0) (maxStack 2 0))\<lparr>op_dynamicGas := Some gasMStore, op_memorySize := Some memoryMStore\<rparr>),
     (MSTORE8, (mk_op (lift_op opMstore8) GasFastestStep (minStack 2 0) (maxStack 2 0))\<lparr>op_dynamicGas := Some gasMStore8, op_memorySize := Some memoryMStore8\<rparr>),
     (SLOAD, mk_op (lift_op opSload) SloadGasFrontier (minStack 1 1) (maxStack 1 1)),
     (SSTORE, (mk_op (lift_op opSstore) 0 (minStack 2 0) (maxStack 2 0))\<lparr>op_dynamicGas := Some gasSStore, op_writes := True\<rparr>),
     (JUMP, (mk_op (lift_op opJump) GasMidStep (minStack 1 0) (maxStack 1 0))\<lparr>op_jumps := True\<rparr>),
     (JUMPI, (mk_op (lift_op opJumpi) GasSlowStep (minStack 2 0) (maxStack 2 0))\<lparr>op_jumps := True\<rparr>),
     (PC, mk_op (lift_op opPc) GasQuickStep (minStack 0 1) (maxStack 0 1)),
     (MSIZE, mk_op (lift_op opMsize) GasQuickStep (minStack 0 1) (maxStack 0 1)),
     (GAS, mk_op (lift_op opGas) GasQuickStep (minStack 0 1) (maxStack 0 1)),
     (JUMPDEST, mk_op (lift_op opJumpdest) JumpdestGas (minStack 0 0) (maxStack 0 0))]"

definition frontier_push_low :: "(OpCode \<times> ('st, 'it) operation) list" where
  "frontier_push_low = [
     (PUSH1, mk_op (lift_op opPush1) GasFastestStep (minStack 0 1) (maxStack 0 1)),
     (PUSH2, mk_op (lift_op (makePush 2 2)) GasFastestStep (minStack 0 1) (maxStack 0 1)),
     (PUSH3, mk_op (lift_op (makePush 3 3)) GasFastestStep (minStack 0 1) (maxStack 0 1)),
     (PUSH4, mk_op (lift_op (makePush 4 4)) GasFastestStep (minStack 0 1) (maxStack 0 1)),
     (PUSH5, mk_op (lift_op (makePush 5 5)) GasFastestStep (minStack 0 1) (maxStack 0 1)),
     (PUSH6, mk_op (lift_op (makePush 6 6)) GasFastestStep (minStack 0 1) (maxStack 0 1)),
     (PUSH7, mk_op (lift_op (makePush 7 7)) GasFastestStep (minStack 0 1) (maxStack 0 1)),
     (PUSH8, mk_op (lift_op (makePush 8 8)) GasFastestStep (minStack 0 1) (maxStack 0 1)),
     (PUSH9, mk_op (lift_op (makePush 9 9)) GasFastestStep (minStack 0 1) (maxStack 0 1)),
     (PUSH10, mk_op (lift_op (makePush 10 10)) GasFastestStep (minStack 0 1) (maxStack 0 1)),
     (PUSH11, mk_op (lift_op (makePush 11 11)) GasFastestStep (minStack 0 1) (maxStack 0 1)),
     (PUSH12, mk_op (lift_op (makePush 12 12)) GasFastestStep (minStack 0 1) (maxStack 0 1)),
     (PUSH13, mk_op (lift_op (makePush 13 13)) GasFastestStep (minStack 0 1) (maxStack 0 1)),
     (PUSH14, mk_op (lift_op (makePush 14 14)) GasFastestStep (minStack 0 1) (maxStack 0 1)),
     (PUSH15, mk_op (lift_op (makePush 15 15)) GasFastestStep (minStack 0 1) (maxStack 0 1)),
     (PUSH16, mk_op (lift_op (makePush 16 16)) GasFastestStep (minStack 0 1) (maxStack 0 1))]"

definition frontier_push_high :: "(OpCode \<times> ('st, 'it) operation) list" where
  "frontier_push_high = [
     (PUSH17, mk_op (lift_op (makePush 17 17)) GasFastestStep (minStack 0 1) (maxStack 0 1)),
     (PUSH18, mk_op (lift_op (makePush 18 18)) GasFastestStep (minStack 0 1) (maxStack 0 1)),
     (PUSH19, mk_op (lift_op (makePush 19 19)) GasFastestStep (minStack 0 1) (maxStack 0 1)),
     (PUSH20, mk_op (lift_op (makePush 20 20)) GasFastestStep (minStack 0 1) (maxStack 0 1)),
     (PUSH21, mk_op (lift_op (makePush 21 21)) GasFastestStep (minStack 0 1) (maxStack 0 1)),
     (PUSH22, mk_op (lift_op (makePush 22 22)) GasFastestStep (minStack 0 1) (maxStack 0 1)),
     (PUSH23, mk_op (lift_op (makePush 23 23)) GasFastestStep (minStack 0 1) (maxStack 0 1)),
     (PUSH24, mk_op (lift_op (makePush 24 24)) GasFastestStep (minStack 0 1) (maxStack 0 1)),
     (PUSH25, mk_op (lift_op (makePush 25 25)) GasFastestStep (minStack 0 1) (maxStack 0 1)),
     (PUSH26, mk_op (lift_op (makePush 26 26)) GasFastestStep (minStack 0 1) (maxStack 0 1)),
     (PUSH27, mk_op (lift_op (makePush 27 27)) GasFastestStep (minStack 0 1) (maxStack 0 1)),
     (PUSH28, mk_op (lift_op (makePush 28 28)) GasFastestStep (minStack 0 1) (maxStack 0 1)),
     (PUSH29, mk_op (lift_op (makePush 29 29)) GasFastestStep (minStack 0 1) (maxStack 0 1)),
     (PUSH30, mk_op (lift_op (makePush 30 30)) GasFastestStep (minStack 0 1) (maxStack 0 1)),
     (PUSH31, mk_op (lift_op (makePush 31 31)) GasFastestStep (minStack 0 1) (maxStack 0 1)),
     (PUSH32, mk_op (lift_op (makePush 32 32)) GasFastestStep (minStack 0 1) (maxStack 0 1))]"

definition frontier_dup :: "(OpCode \<times> ('st, 'it) operation) list" where
  "frontier_dup = [
     (DUP1, mk_op (lift_op (makeDup 1)) GasFastestStep (minDupStack 1) (maxDupStack 1)),
     (DUP2, mk_op (lift_op (makeDup 2)) GasFastestStep (minDupStack 2) (maxDupStack 2)),
     (DUP3, mk_op (lift_op (makeDup 3)) GasFastestStep (minDupStack 3) (maxDupStack 3)),
     (DUP4, mk_op (lift_op (makeDup 4)) GasFastestStep (minDupStack 4) (maxDupStack 4)),
     (DUP5, mk_op (lift_op (makeDup 5)) GasFastestStep (minDupStack 5) (maxDupStack 5)),
     (DUP6, mk_op (lift_op (makeDup 6)) GasFastestStep (minDupStack 6) (maxDupStack 6)),
     (DUP7, mk_op (lift_op (makeDup 7)) GasFastestStep (minDupStack 7) (maxDupStack 7)),
     (DUP8, mk_op (lift_op (makeDup 8)) GasFastestStep (minDupStack 8) (maxDupStack 8)),
     (DUP9, mk_op (lift_op (makeDup 9)) GasFastestStep (minDupStack 9) (maxDupStack 9)),
     (DUP10, mk_op (lift_op (makeDup 10)) GasFastestStep (minDupStack 10) (maxDupStack 10)),
     (DUP11, mk_op (lift_op (makeDup 11)) GasFastestStep (minDupStack 11) (maxDupStack 11)),
     (DUP12, mk_op (lift_op (makeDup 12)) GasFastestStep (minDupStack 12) (maxDupStack 12)),
     (DUP13, mk_op (lift_op (makeDup 13)) GasFastestStep (minDupStack 13) (maxDupStack 13)),
     (DUP14, mk_op (lift_op (makeDup 14)) GasFastestStep (minDupStack 14) (maxDupStack 14)),
     (DUP15, mk_op (lift_op (makeDup 15)) GasFastestStep (minDupStack 15) (maxDupStack 15)),
     (DUP16, mk_op (lift_op (makeDup 16)) GasFastestStep (minDupStack 16) (maxDupStack 16))]"

definition frontier_swap :: "(OpCode \<times> ('st, 'it) operation) list" where
  "frontier_swap = [
     (SWAP1, mk_op (lift_op (makeSwap 1)) GasFastestStep (minSwapStack 2) (maxSwapStack 2)),
     (SWAP2, mk_op (lift_op (makeSwap 2)) GasFastestStep (minSwapStack 3) (maxSwapStack 3)),
     (SWAP3, mk_op (lift_op (makeSwap 3)) GasFastestStep (minSwapStack 4) (maxSwapStack 4)),
     (SWAP4, mk_op (lift_op (makeSwap 4)) GasFastestStep (minSwapStack 5) (maxSwapStack 5)),
     (SWAP5, mk_op (lift_op (makeSwap 5)) GasFastestStep (minSwapStack 6) (maxSwapStack 6)),
     (SWAP6, mk_op (lift_op (makeSwap 6)) GasFastestStep (minSwapStack 7) (maxSwapStack 7)),
     (SWAP7, mk_op (lift_op (makeSwap 7)) GasFastestStep (minSwapStack 8) (maxSwapStack 8)),
     (SWAP8, mk_op (lift_op (makeSwap 8)) GasFastestStep (minSwapStack 9) (maxSwapStack 9)),
     (SWAP9, mk_op (lift_op (makeSwap 9)) GasFastestStep (minSwapStack 10) (maxSwapStack 10)),
     (SWAP10, mk_op (lift_op (makeSwap 10)) GasFastestStep (minSwapStack 11) (maxSwapStack 11)),
     (SWAP11, mk_op (lift_op (makeSwap 11)) GasFastestStep (minSwapStack 12) (maxSwapStack 12)),
     (SWAP12, mk_op (lift_op (makeSwap 12)) GasFastestStep (minSwapStack 13) (maxSwapStack 13)),
     (SWAP13, mk_op (lift_op (makeSwap 13)) GasFastestStep (minSwapStack 14) (maxSwapStack 14)),
     (SWAP14, mk_op (lift_op (makeSwap 14)) GasFastestStep (minSwapStack 15) (maxSwapStack 15)),
     (SWAP15, mk_op (lift_op (makeSwap 15)) GasFastestStep (minSwapStack 16) (maxSwapStack 16)),
     (SWAP16, mk_op (lift_op (makeSwap 16)) GasFastestStep (minSwapStack 17) (maxSwapStack 17))]"

definition frontier_log_call :: "(OpCode \<times> ('st, 'it) operation) list" where
  "frontier_log_call = [
     (LOG0, (mk_op (lift_op (makeLog 0)) 0 (minStack 2 0) (maxStack 2 0))\<lparr>op_dynamicGas := Some (makeGasLog 0), op_memorySize := Some memoryLog, op_writes := True\<rparr>),
     (LOG1, (mk_op (lift_op (makeLog 1)) 0 (minStack 3 0) (maxStack 3 0))\<lparr>op_dynamicGas := Some (makeGasLog 1), op_memorySize := Some memoryLog, op_writes := True\<rparr>),
     (LOG2, (mk_op (lift_op (makeLog 2)) 0 (minStack 4 0) (maxStack 4 0))\<lparr>op_dynamicGas := Some (makeGasLog 2), op_memorySize := Some memoryLog, op_writes := True\<rparr>),
     (LOG3, (mk_op (lift_op (makeLog 3)) 0 (minStack 5 0) (maxStack 5 0))\<lparr>op_dynamicGas := Some (makeGasLog 3), op_memorySize := Some memoryLog, op_writes := True\<rparr>),
     (LOG4, (mk_op (lift_op (makeLog 4)) 0 (minStack 6 0) (maxStack 6 0))\<lparr>op_dynamicGas := Some (makeGasLog 4), op_memorySize := Some memoryLog, op_writes := True\<rparr>),
     (CREATE, (mk_op (opCreate) CreateGas (minStack 3 1) (maxStack 3 1))\<lparr>op_dynamicGas := Some gasCreate, op_memorySize := Some memoryCreate, op_writes := True, op_returns := True\<rparr>),
     (CALL, (mk_op (opCall) CallGasFrontier (minStack 7 1) (maxStack 7 1))\<lparr>op_dynamicGas := Some gasCall, op_memorySize := Some memoryCall, op_returns := True\<rparr>),
     (CALLCODE, (mk_op (opCallCode) CallGasFrontier (minStack 7 1) (maxStack 7 1))\<lparr>op_dynamicGas := Some gasCallCode, op_memorySize := Some memoryCall, op_returns := True\<rparr>),
     (RETURN, (mk_op (lift_op opReturn) 0 (minStack 2 0) (maxStack 2 0))\<lparr>op_dynamicGas := Some gasReturn, op_memorySize := Some memoryReturn, op_halts := True\<rparr>),
     (SELFDESTRUCT, (mk_op (lift_op opSuicide) 0 (minStack 1 0) (maxStack 1 0))\<lparr>op_dynamicGas := Some gasSelfdestruct, op_halts := True, op_writes := True\<rparr>)]"

definition frontier_entries :: "(OpCode \<times> ('st, 'it) operation) list" where
  "frontier_entries = frontier_arithmetic @ frontier_environment @ frontier_memory_flow @ frontier_push_low @
     frontier_push_high @ frontier_dup @ frontier_swap @ frontier_log_call"

definition newFrontierInstructionSet :: "('st, 'it) JumpTable" where
  "newFrontierInstructionSet = map_of frontier_entries"

section \<open>Later forks\<close>

definition newHomesteadInstructionSet :: "('st, 'it) JumpTable" where
  "newHomesteadInstructionSet = (newFrontierInstructionSet)(
     DELEGATECALL \<mapsto> (mk_op (opDelegateCall) CallGasFrontier (minStack 6 1) (maxStack 6 1))\<lparr>op_dynamicGas := Some gasDelegateCall, op_memorySize := Some memoryDelegateCall, op_returns := True\<rparr>)"

definition newTangerineWhistleInstructionSet :: "('st, 'it) JumpTable option" where
  "newTangerineWhistleInstructionSet = do {
     let jt = newHomesteadInstructionSet;
     jt \<leftarrow> set_constantGas BALANCE BalanceGasEIP150 jt;
     jt \<leftarrow> set_constantGas EXTCODESIZE ExtcodeSizeGasEIP150 jt;
     jt \<leftarrow> set_constantGas SLOAD SloadGasEIP150 jt;
     jt \<leftarrow> set_constantGas EXTCODECOPY ExtcodeCopyBaseEIP150 jt;
     jt \<leftarrow> set_constantGas CALL CallGasEIP150 jt;
     jt \<leftarrow> set_constantGas CALLCODE CallGasEIP150 jt;
     set_constantGas DELEGATECALL CallGasEIP150 jt
   }"

definition newSpuriousDragonInstructionSet :: "('st, 'it) JumpTable option" where
  "newSpuriousDragonInstructionSet = do {
     jt \<leftarrow> newTangerineWhistleInstructionSet;
     set_dynamicGas EXP gasExpEIP158 jt
   }"

definition byzantium_entries :: "(OpCode \<times> ('st, 'it) operation) list" where
  "byzantium_entries = [
     (STATICCALL, (mk_op (opStaticCall) CallGasEIP150 (minStack 6 1) (maxStack 6 1))\<lparr>op_dynamicGas := Some gasStaticCall, op_memorySize := Some memoryStaticCall, op_returns := True\<rparr>),
     (RETURNDATASIZE, mk_op (lift_op opReturnDataSize) GasQuickStep (minStack 0 1) (maxStack 0 1)),
     (RETURNDATACOPY, (mk_op (lift_op opReturnDataCopy) GasFastestStep (minStack 3 0) (maxStack 3 0))\<lparr>op_dynamicGas := Some gasReturnDataCopy, op_memorySize := Some memoryReturnDataCopy\<rparr>),
     (REVERT, (mk_op (lift_op opRevert) 0 (minStack 2 0) (maxStack 2 0))\<lparr>op_dynamicGas := Some gasRevert, op_memorySize := Some memoryRevert, op_reverts := True, op_returns := True\<rparr>)]"

definition newByzantiumInstructionSet :: "('st, 'it) JumpTable option" where
  "newByzantiumInstructionSet = do { jt \<leftarrow> newSpuriousDragonInstructionSet; Some (jt ++ map_of byzantium_entries) }"

definition constantinople_entries :: "(OpCode \<times> ('st, 'it) operation) list" where
  "constantinople_entries = [
     (SHL, mk_op (lift_op opSHL) GasFastestStep (minStack 2 1) (maxStack 2 1)),
     (SHR, mk_op (lift_op opSHR) GasFastestStep (minStack 2 1) (maxStack 2 1)),
     (SAR, mk_op (lift_op opSAR) GasFastestStep (minStack 2 1) (maxStack 2 1)),
     (EXTCODEHASH, mk_op (lift_op opExtCodeHash) ExtcodeHashGasConstantinople (minStack 1 1) (maxStack 1 1)),
     (CREATE2, (mk_op (opCreate2) Create2Gas (minStack 4 1) (maxStack 4 1))\<lparr>op_dynamicGas := Some gasCreate2, op_memorySize := Some memoryCreate2, op_writes := True, op_returns := True\<rparr>)]"

definition newConstantinopleInstructionSet :: "('st, 'it) JumpTable option" where
  "newConstantinopleInstructionSet = do { jt \<leftarrow> newByzantiumInstructionSet; Some (jt ++ map_of constantinople_entries) }"

definition enable1884 :: "('st, 'it) JumpTable \<Rightarrow> ('st, 'it) JumpTable option" where
  "enable1884 jt = do {
     jt \<leftarrow> set_constantGas SLOAD SloadGasEIP1884 jt;
     jt \<leftarrow> set_constantGas BALANCE BalanceGasEIP1884 jt;
     jt \<leftarrow> set_constantGas EXTCODEHASH ExtcodeHashGasEIP1884 jt;
     Some (jt(SELFBALANCE \<mapsto> mk_op (lift_op opSelfBalance) GasFastStep (minStack 0 1) (maxStack 0 1)))
   }"

definition enable1344 :: "('st, 'it) JumpTable \<Rightarrow> ('st, 'it) JumpTable option" where
  "enable1344 jt = Some (jt(CHAINID \<mapsto> mk_op (lift_op opChainID) GasQuickStep (minStack 0 1) (maxStack 0 1)))"

definition enable2200 :: "('st, 'it) JumpTable \<Rightarrow> ('st, 'it) JumpTable option" where
  "enable2200 jt = do {
     jt \<leftarrow> set_constantGas SLOAD SloadGasEIP2200 jt;
     set_dynamicGas SSTORE gasSStoreEIP2200 jt
   }"

definition enable2315 :: "('st, 'it) JumpTable \<Rightarrow> ('st, 'it) JumpTable option" where
  "enable2315 jt = Some (jt(
     BEGINSUB \<mapsto> mk_op (lift_op opBeginSub) GasQuickStep (minStack 0 0) (maxStack 0 0),
     JUMPSUB \<mapsto> (mk_op (lift_op opJumpSub) GasSlowStep (minStack 1 0) (maxStack 1 0))\<lparr>op_jumps := True\<rparr>,
     RETURNSUB \<mapsto> (mk_op (lift_op opReturnSub) GasFastStep (minStack 0 0) (maxStack 0 0))\<lparr>op_jumps := True\<rparr>))"

definition newIstanbulInstructionSet :: "('st, 'it) JumpTable option" where
  "newIstanbulInstructionSet = do {
     jt \<leftarrow> newConstantinopleInstructionSet;
     jt \<leftarrow> enable1344 jt;
     jt \<leftarrow> enable1884 jt;
     enable2200 jt
   }"

definition newYoloV2InstructionSet :: "('st, 'it) JumpTable option" where
  "newYoloV2InstructionSet = do { jt \<leftarrow> newIstanbulInstructionSet; enable2315 jt }"

text \<open>\<^verbatim>\<open>EnableEIP\<close>: the inner option is nil, the sum its error.\<close>

definition EnableEIP :: "int \<Rightarrow> ('st, 'it) JumpTable \<Rightarrow> (int + ('st, 'it) JumpTable) option" where
  "EnableEIP eipNum jt =
     (if eipNum = 2200 then map_option Inr (enable2200 jt)
      else if eipNum = 1884 then map_option Inr (enable1884 jt)
      else if eipNum = 1344 then map_option Inr (enable1344 jt)
      else if eipNum = 2315 then map_option Inr (enable2315 jt)
      else Some (Inl eipNum))"

end
