(* ===== verification/Interpreter.thy ===== *)
theory Interpreter
  imports Evm_Tables
begin

text \<open>
  The interpreter of \<^verbatim>\<open>src/evm/interpreter.go\<close>.  One turn of the loop of \<^verbatim>\<open>Run\<close> is
  \<open>interp_step\<close>; the loop is recursion on a step budget, and the runs a call instruction starts
  take their budget from it.  A run whose gas is below the budget never exhausts it, since every
  instruction that does not end the run costs gas and hands a callee less than it has.
\<close>

section \<open>One instruction\<close>

type_synonym 'st run_result = "(bytes \<times> evm_error option) \<times> Contract \<times> 'st EVM_state"

datatype 'st step_result = Halt "'st run_result" | Next u64 callCtx "'st EVM_state"

definition fail :: "evm_error \<Rightarrow> callCtx \<Rightarrow> 'st EVM_state \<Rightarrow> 'st step_result outcome" where
  "fail e cx s = Done (Halt (([], Some e), cx_contract cx, s))"

text \<open>The value a read-only \<^verbatim>\<open>CALL\<close> would transfer, which makes it a write.\<close>

definition write_violation :: "('st, 'it) EVM \<Rightarrow> OpCode \<Rightarrow> ('st, 'it) operation \<Rightarrow> Stack \<Rightarrow> 'st EVM_state \<Rightarrow> bool option" where
  "write_violation E op o' st s =
     (if es_readOnly s \<and> r_IsByzantium (evm_chainRules E) then
        if op_writes o' then Some True
        else if op = CALL then do { v \<leftarrow> Stack_Back st 2; Some (Int_Sign v \<noteq> 0) }
        else Some False
      else Some False)"

text \<open>The new memory size in whole words, or the overflow of its computation.\<close>

definition op_memory :: "('st, 'it) operation \<Rightarrow> Stack \<Rightarrow> (u64 \<times> bool) option" where
  "op_memory o' st =
     (case op_memorySize o' of
        None \<Rightarrow> Some (0, False)
      | Some f \<Rightarrow> do {
          (memSize, overflow) \<leftarrow> f st;
          if overflow then Some (0, True) else Some (SafeMul (toWordSize memSize) 32)
        })"

text \<open>The dynamic gas, charged to the contract: \<^term>\<open>False\<close> when it could not be paid or computed.\<close>

definition charge_dynamic ::
  "('st, 'it) EVM \<Rightarrow> ('st, 'it) operation \<Rightarrow> callCtx \<Rightarrow> u64 \<Rightarrow> 'st EVM_state \<Rightarrow> (bool \<times> callCtx \<times> 'st EVM_state) option" where
  "charge_dynamic E o' cx memorySize s =
     (case op_dynamicGas o' of
        None \<Rightarrow> Some (True, cx, s)
      | Some f \<Rightarrow> do {
          (r, mem, s) \<leftarrow> f E (cx_contract cx) (cx_stack cx) (cx_memory cx) memorySize s;
          let cx = cx\<lparr>cx_memory := mem\<rparr>;
          Some (case r of
              Inl e \<Rightarrow> (False, cx, s)
            | Inr cost \<Rightarrow> (let (ok, c) = Contract_UseGas (cx_contract cx) cost in (ok, cx\<lparr>cx_contract := c\<rparr>, s)))
        })"

text \<open>What follows the execution of an instruction.\<close>

definition after_op :: "('st, 'it) operation \<Rightarrow> 'st op_result \<Rightarrow> 'st step_result" where
  "after_op o' r = (case r of (res, pc, cx, s) \<Rightarrow>
     let s = (if op_returns o' then s\<lparr>es_returnData := (case res of Inl _ \<Rightarrow> [] | Inr b \<Rightarrow> b)\<rparr> else s) in
     (case res of
        Inl e \<Rightarrow> Halt (([], Some e), cx_contract cx, s)
      | Inr b \<Rightarrow>
          if op_reverts o' then Halt ((b, Some ErrExecutionReverted), cx_contract cx, s)
          else if op_halts o' then Halt ((b, None), cx_contract cx, s)
          else Next (if op_jumps o' then pc else pc + 1) cx s))"

definition exec_op ::
  "'st runner \<Rightarrow> ('st, 'it) EVM \<Rightarrow> OpCode \<Rightarrow> ('st, 'it) operation \<Rightarrow> u64 \<Rightarrow> callCtx \<Rightarrow> 'st EVM_state \<Rightarrow>
     'st step_result outcome" where
  "exec_op run E op o' pc cx s =
     (let st = cx_stack cx; sLen = int (Stack_len st) in
      if sLen < op_minStack o' then fail (ErrStackUnderflow (Stack_len st) (op_minStack o')) cx s
      else if sLen > op_maxStack o' then fail (ErrStackOverflow (Stack_len st) (op_maxStack o')) cx s
      else obind (of_opt (write_violation E op o' st s)) (\<lambda>violation.
        if violation then fail ErrWriteProtection cx s
        else
          let (ok, c) = Contract_UseGas (cx_contract cx) (op_constantGas o') in
          if \<not> ok then fail ErrOutOfGas cx s
          else
            let cx = cx\<lparr>cx_contract := c\<rparr> in
            obind (of_opt (op_memory o' st)) (\<lambda>(memorySize, overflow).
            if overflow then fail ErrGasUintOverflow cx s
            else obind (of_opt (charge_dynamic E o' cx memorySize s)) (\<lambda>(ok, cx, s).
              if \<not> ok then fail ErrOutOfGas cx s
              else
                let cx = (if memorySize > 0 then cx\<lparr>cx_memory := Memory_Resize (cx_memory cx) memorySize\<rparr> else cx) in
                obind (op_execute o' run E pc cx s) (\<lambda>r. Done (after_op o' r))))))"

definition interp_step ::
  "'st runner \<Rightarrow> ('st, 'it) EVM \<Rightarrow> ('st, 'it) JumpTable \<Rightarrow> nat \<Rightarrow> u64 \<Rightarrow> callCtx \<Rightarrow> 'st EVM_state \<Rightarrow>
     'st step_result outcome" where
  "interp_step run E jt steps pc cx s =
     (let (aborted, s) = (if steps mod 1000 = 0 then load_abort s else (False, s)) in
      if aborted then Done (Halt (([], None), cx_contract cx, s))
      else
        let op = Contract_GetOp (cx_contract cx) pc in
        case jt op of
          None \<Rightarrow> fail (ErrInvalidOpCode op) cx s
        | Some o' \<Rightarrow> exec_op run E op o' pc cx s)"

section \<open>The loop\<close>

text \<open>\<^verbatim>\<open>Run\<close> around its loop: the depth and the read-only flag it sets and its deferred functions restore.\<close>

definition run_frame ::
  "(nat \<Rightarrow> u64 \<Rightarrow> callCtx \<Rightarrow> 'st EVM_state \<Rightarrow> 'st run_result outcome) \<Rightarrow> 'st runner" where
  "run_frame loop contract input readOnly s =
     (let s = s\<lparr>es_depth := es_depth s + 1\<rparr>;
          setRO = (readOnly \<and> \<not> es_readOnly s);
          s = (if setRO then s\<lparr>es_readOnly := True\<rparr> else s);
          s = s\<lparr>es_returnData := []\<rparr>
      in obind (if length (ct_Code contract) = 0 then Done (([], None), contract, s)
                else loop 0 0 \<lparr>cx_memory = NewMemory, cx_stack = [], cx_rstack = [],
                               cx_contract = contract\<lparr>ct_Input := input\<rparr>\<rparr> s) (\<lambda>(r, c, s).
         Done (r, c, s\<lparr>es_depth := es_depth s - 1, es_readOnly := (if setRO then False else es_readOnly s)\<rparr>)))"

primrec interp_loop ::
  "('st, 'it) EVM \<Rightarrow> ('st, 'it) JumpTable \<Rightarrow> nat \<Rightarrow> nat \<Rightarrow> u64 \<Rightarrow> callCtx \<Rightarrow> 'st EVM_state \<Rightarrow> 'st run_result outcome" where
  "interp_loop E jt 0 steps pc cx s = Exhausted"
| "interp_loop E jt (Suc fuel) steps pc cx s =
     obind (interp_step (run_frame (interp_loop E jt fuel)) E jt (steps + 1) pc cx s) (\<lambda>r.
       case r of
         Halt h \<Rightarrow> Done h
       | Next pc cx s \<Rightarrow> interp_loop E jt fuel (steps + 1) pc cx s)"

definition EVMInterpreter_Run :: "('st, 'it) EVM \<Rightarrow> ('st, 'it) JumpTable \<Rightarrow> nat \<Rightarrow> 'st runner" where
  "EVMInterpreter_Run E jt fuel = run_frame (interp_loop E jt fuel)"

section \<open>Construction\<close>

text \<open>\<^verbatim>\<open>NewEVMInterpreter\<close> with no table given: the one of the newest active fork, then the extra proposals,
  of which an unknown one is a panic.\<close>

definition default_table :: "Rules \<Rightarrow> ('st, 'it) JumpTable option" where
  "default_table r =
     (if r_IsYoloV2 r then newYoloV2InstructionSet
      else if r_IsIstanbul r then newIstanbulInstructionSet
      else if r_IsConstantinople r then newConstantinopleInstructionSet
      else if r_IsByzantium r then newByzantiumInstructionSet
      else if r_IsEIP158 r then newSpuriousDragonInstructionSet
      else if r_IsEIP150 r then newTangerineWhistleInstructionSet
      else if r_IsHomestead r then Some newHomesteadInstructionSet
      else Some newFrontierInstructionSet)"

primrec enable_eips :: "int list \<Rightarrow> ('st, 'it) JumpTable \<Rightarrow> ('st, 'it) JumpTable option" where
  "enable_eips [] jt = Some jt"
| "enable_eips (eip # eips) jt = do {
     r \<leftarrow> EnableEIP eip jt;
     case r of Inl _ \<Rightarrow> None | Inr jt \<Rightarrow> enable_eips eips jt
   }"

definition NewEVMInterpreter :: "Rules \<Rightarrow> Config \<Rightarrow> ('st, 'it) JumpTable option" where
  "NewEVMInterpreter r cfg = do { jt \<leftarrow> default_table r; enable_eips (cfg_ExtraEips cfg) jt }"

text \<open>\<^verbatim>\<open>NewEVM\<close>: the environment, its initial state and its interpreter's table.\<close>

definition NewEVM ::
  "go_libs \<Rightarrow> crypto_libs \<Rightarrow> ('st, 'it) PersistStore \<Rightarrow> 'st BlockContext \<Rightarrow> TxContext \<Rightarrow> 'st StateDB \<Rightarrow> ChainConfig \<Rightarrow>
     Config \<Rightarrow> (('st, 'it) EVM \<times> ('st, 'it) JumpTable \<times> 'st EVM_state) option" where
  "NewEVM L C ps blockCtx txCtx statedb chainConfig vmConfig = do {
     let E = \<lparr>evm_libs = L, evm_crypto = C, evm_store = ps, evm_Context = blockCtx, evm_TxContext = txCtx,
              evm_chainConfig = chainConfig, evm_chainRules = ChainConfig_Rules chainConfig (bc_BlockNumber blockCtx),
              evm_vmConfig = vmConfig\<rparr>;
     jt \<leftarrow> NewEVMInterpreter (evm_chainRules E) vmConfig;
     Some (E, jt, \<lparr>es_StateDB = statedb, es_depth = 0, es_abort = None, es_callGasTemp = 0, es_readOnly = False,
                   es_returnData = [], es_jumpdests = Map.empty\<rparr>)
   }"

definition EVM_Reset :: "('st, 'it) EVM \<Rightarrow> 'st EVM_state \<Rightarrow> TxContext \<Rightarrow> 'st StateDB \<Rightarrow> ('st, 'it) EVM \<times> 'st EVM_state" where
  "EVM_Reset E s txCtx statedb = (E\<lparr>evm_TxContext := txCtx\<rparr>, with_db s statedb)"

end
