(* ===== verification/Evm_Frames.thy ===== *)
theory Evm_Frames
  imports Interpreter
begin

text \<open>
  What an instruction that starts no run leaves alone: the gas of its contract, the read-only flag and
  the depth, and by how much it grows or shrinks the stack.  The collection \<open>frames\<close> has one fact per instruction of
  \<^verbatim>\<open>src/evm/instructions.go\<close>, over the number of words it pops and pushes; the instruction tables are
  checked against these numbers.
\<close>

section \<open>Binding\<close>

lemma obind_simps [simp]:
  "obind (Done a) f = f a" "obind Panicked f = Panicked" "obind Exhausted f = Exhausted"
  by (simp_all add: obind_def)

lemma of_opt_simps [simp]: "of_opt (Some a) = Done a" "of_opt None = Panicked"
  by (simp_all add: of_opt_def)

lemma of_opt_Done [simp]: "of_opt r = Done a \<longleftrightarrow> r = Some a"
  by (cases r) simp_all

lemma of_opt_Exhausted [simp]: "of_opt r \<noteq> Exhausted"
  by (cases r) simp_all

lemma obind_Done: "obind r f = Done b \<longleftrightarrow> (\<exists>a. r = Done a \<and> f a = Done b)"
  by (cases r) simp_all

lemma obind_Exhausted: "obind r f = Exhausted \<longleftrightarrow> r = Exhausted \<or> (\<exists>a. r = Done a \<and> f a = Exhausted)"
  by (cases r) simp_all

section \<open>The frame of an instruction\<close>

definition frame_ok :: "nat \<Rightarrow> nat \<Rightarrow> ('st, 'it) simple_op \<Rightarrow> bool" where
  "frame_ok pops pushes f \<longleftrightarrow> (\<forall>E pc cx s res pc' cx' s'. f E pc cx s = Some (res, pc', cx', s') \<longrightarrow>
     ct_Gas (cx_contract cx') = ct_Gas (cx_contract cx) \<and>
     es_readOnly s' = es_readOnly s \<and> es_depth s' = es_depth s \<and>
     (\<forall>b. res = Inr b \<longrightarrow> length (cx_stack cx') + pops = length (cx_stack cx) + pushes))"

named_theorems frames

lemma pop_some: "Stack_pop st = Some (x, st') \<longleftrightarrow> st = x # st'"
  by (auto simp: Stack_pop_def split: list.splits)

lemma peek_some: "Stack_peek st = Some x \<longleftrightarrow> (\<exists>st'. st = x # st')"
  by (cases st) (auto simp: Stack_peek_def idx_def)

lemma with_db_sel [simp]:
  "es_readOnly (with_db s db) = es_readOnly s" "es_depth (with_db s db) = es_depth s"
  "es_StateDB (with_db s db) = db" "es_callGasTemp (with_db s db) = es_callGasTemp s"
  "es_jumpdests (with_db s db) = es_jumpdests s" "es_returnData (with_db s db) = es_returnData s"
  by (simp_all add: with_db_def)

lemma stack_op_frame:
  "(\<And>st st'. f st = Some st' \<Longrightarrow> length st' + pops = length st + pushes) \<Longrightarrow> frame_ok pops pushes (stack_op f)"
  by (auto simp: frame_ok_def stack_op_def split: bind_splits)

lemma unop_frame [frames]: "frame_ok 1 1 (unop f)"
  unfolding unop_def by (rule stack_op_frame) (auto split: bind_splits)

lemma binop_frame [frames]: "frame_ok 2 1 (binop f)"
  unfolding binop_def by (rule stack_op_frame) (auto simp: pop_some split: bind_splits)

lemma ternop_frame [frames]: "frame_ok 3 1 (ternop f)"
  unfolding ternop_def by (rule stack_op_frame) (auto simp: pop_some split: bind_splits)

lemma pushop_frame [frames]: "frame_ok 0 1 (pushop f)"
  by (auto simp: frame_ok_def pushop_def Stack_push_def split: bind_splits)

lemmas arith_op_defs =
  opAdd_def opSub_def opMul_def opDiv_def opSdiv_def opMod_def opSmod_def opExp_def opSignExtend_def
  opNot_def opLt_def opGt_def opSlt_def opSgt_def opEq_def opIszero_def opAnd_def opOr_def opXor_def opByte_def
  opAddmod_def opMulmod_def opSHL_def opSHR_def opSAR_def

lemmas push_op_defs =
  opAddress_def opOrigin_def opCaller_def opCallValue_def opCallDataSize_def opReturnDataSize_def
  opCodeSize_def opGasprice_def opCoinbase_def opTimestamp_def opNumber_def opDifficulty_def opGasLimit_def
  opChainID_def opPc_def opMsize_def opGas_def

lemma arith_frames [frames]:
  "frame_ok 2 1 opAdd" "frame_ok 2 1 opSub" "frame_ok 2 1 opMul" "frame_ok 2 1 opDiv" "frame_ok 2 1 opSdiv"
  "frame_ok 2 1 opMod" "frame_ok 2 1 opSmod" "frame_ok 2 1 opExp" "frame_ok 2 1 opSignExtend" "frame_ok 1 1 opNot"
  "frame_ok 2 1 opLt" "frame_ok 2 1 opGt" "frame_ok 2 1 opSlt" "frame_ok 2 1 opSgt" "frame_ok 2 1 opEq"
  "frame_ok 1 1 opIszero" "frame_ok 2 1 opAnd" "frame_ok 2 1 opOr" "frame_ok 2 1 opXor" "frame_ok 2 1 opByte"
  "frame_ok 3 1 opAddmod" "frame_ok 3 1 opMulmod" "frame_ok 2 1 opSHL" "frame_ok 2 1 opSHR" "frame_ok 2 1 opSAR"
  unfolding arith_op_defs by (rule frames)+

lemma push_frames [frames]:
  "frame_ok 0 1 opAddress" "frame_ok 0 1 opOrigin" "frame_ok 0 1 opCaller" "frame_ok 0 1 opCallValue"
  "frame_ok 0 1 opCallDataSize" "frame_ok 0 1 opReturnDataSize" "frame_ok 0 1 opCodeSize" "frame_ok 0 1 opGasprice"
  "frame_ok 0 1 opCoinbase" "frame_ok 0 1 opTimestamp" "frame_ok 0 1 opNumber" "frame_ok 0 1 opDifficulty"
  "frame_ok 0 1 opGasLimit" "frame_ok 0 1 opChainID" "frame_ok 0 1 opPc" "frame_ok 0 1 opMsize" "frame_ok 0 1 opGas"
  unfolding push_op_defs by (rule frames)+

lemma blockhash_frame [frames]: "frame_ok 1 1 opBlockhash"
  using unop_frame unfolding opBlockhash_def frame_ok_def by fast

lemma state_frames [frames]:
  "frame_ok 2 1 opSha3" "frame_ok 1 1 opBalance" "frame_ok 1 1 opCallDataLoad" "frame_ok 3 0 opCallDataCopy"
  "frame_ok 1 1 opExtCodeSize" "frame_ok 3 0 opCodeCopy" "frame_ok 4 0 opExtCodeCopy" "frame_ok 1 1 opExtCodeHash"
  "frame_ok 0 1 opSelfBalance" "frame_ok 1 1 opMload" "frame_ok 2 0 opMstore" "frame_ok 2 0 opMstore8"
  "frame_ok 1 1 opSload" "frame_ok 2 0 opSstore" "frame_ok 2 0 return_memory" "frame_ok 1 0 opSuicide"
  by (auto simp: frame_ok_def opSha3_def opBalance_def opCallDataLoad_def opCallDataCopy_def opExtCodeSize_def
      opCodeCopy_def opExtCodeCopy_def opExtCodeHash_def opSelfBalance_def opMload_def opMstore_def opMstore8_def
      opSload_def opSstore_def return_memory_def opSuicide_def pop_some Let_def Stack_push_def
      split: bind_splits if_splits prod.splits)

lemma returndatacopy_frame [frames]: "frame_ok 3 0 opReturnDataCopy"
  by (auto simp: frame_ok_def opReturnDataCopy_def pop_some Let_def split: bind_splits if_splits prod.splits)

lemma return_frames [frames]: "frame_ok 2 0 opReturn" "frame_ok 2 0 opRevert"
  unfolding opReturn_def opRevert_def by (rule frames)+

lemma isCode_keeps: "Contract_isCode c jd u = Some (b, c', jd') \<Longrightarrow> ct_Gas c' = ct_Gas c"
  by (auto simp: Contract_isCode_def split: option.splits bind_splits if_splits)

lemma validJumpdest_keeps:
  "Contract_validJumpdest c jd d = Some (b, c', jd') \<Longrightarrow> ct_Gas c' = ct_Gas c"
  "Contract_validJumpSubdest c jd u = Some (b, c', jd') \<Longrightarrow> ct_Gas c' = ct_Gas c"
  by (auto simp: Contract_validJumpdest_def Contract_validJumpSubdest_def Let_def
      split: prod.splits bind_splits if_splits dest: isCode_keeps)

lemma jump_frames [frames]:
  "frame_ok 1 0 opJump" "frame_ok 2 0 opJumpi" "frame_ok 1 0 opJumpSub" "frame_ok 0 0 opReturnSub"
  "frame_ok 0 0 opJumpdest" "frame_ok 0 0 opBeginSub" "frame_ok 0 0 opStop" "frame_ok 1 0 opPop"
  by (auto simp: frame_ok_def opJump_def opJumpi_def opJumpSub_def opReturnSub_def opJumpdest_def opBeginSub_def
      opStop_def opPop_def stack_op_def jump_to_def pop_some Let_def split: bind_splits if_splits dest: validJumpdest_keeps)

lemma pop_topics_length: "pop_topics n st = Some (ts, st') \<Longrightarrow> length st = length st' + n"
  by (induction n arbitrary: st ts) (auto simp: pop_some split: bind_splits)

lemma log_frame [frames]: "frame_ok (n + 2) 0 (makeLog n)"
  by (auto simp: frame_ok_def makeLog_def pop_some Let_def split: bind_splits dest!: pop_topics_length)

lemma code_frames [frames]: "frame_ok 0 1 opPush1" "frame_ok 0 1 (makePush n k)"
  by (auto simp: frame_ok_def opPush1_def makePush_def Let_def Stack_push_def split: bind_splits if_splits)

lemma dup_frame [frames]: "frame_ok n (n + 1) (makeDup n)"
  unfolding makeDup_def by (rule stack_op_frame) (auto simp: Stack_dup_def Stack_push_def split: if_splits bind_splits)

lemma swap_frame [frames]: "frame_ok (m + 1) (m + 1) (makeSwap m)"
  unfolding makeSwap_def Let_def by (rule stack_op_frame) (auto simp: Stack_swap_def split: if_splits bind_splits)

end
