(* ===== verification/Gas_Laws.thy ===== *)
theory Gas_Laws
  imports Evm_Frames
begin

text \<open>
  The gas of calls and of single instructions.  The locale \<open>gas_runner\<close> is the contract between the call
  methods of \<^verbatim>\<open>src/evm/evm.go\<close> and the interpreter they start: a run that is given less gas than a bound
  returns, and gives back no more than it was given.  Under that contract the call methods and the call
  instructions keep it, and an instruction leaves less gas than there was before it, unless it ends the run.
\<close>

section \<open>Gas\<close>

definition gas_of :: "callCtx \<Rightarrow> nat" where
  "gas_of cx = unat (ct_Gas (cx_contract cx))"

text \<open>The contract between the interpreter and what it calls: below a bound on the gas it is given, a run
  returns, and gives back no more than that.\<close>

locale gas_runner =
  fixes run :: "'st runner" and bound :: nat
  assumes run_returns: "unat (ct_Gas c) < bound \<Longrightarrow> run c input ro s \<noteq> Exhausted"
    and run_gives_back: "unat (ct_Gas c) < bound \<Longrightarrow> run c input ro s = Done (r, c', s') \<Longrightarrow> ct_Gas c' \<le> ct_Gas c"

definition call_gas_ok :: "u64 \<Rightarrow> 'st call_result \<Rightarrow> bool" where
  "call_gas_ok gas r \<longleftrightarrow> r \<noteq> Exhausted \<and> (\<forall>ret g err s. r = Done ((ret, g, err), s) \<longrightarrow> g \<le> gas)"

definition create_gas_ok :: "u64 \<Rightarrow> 'st create_result \<Rightarrow> bool" where
  "create_gas_ok gas r \<longleftrightarrow> r \<noteq> Exhausted \<and> (\<forall>ret a g err s. r = Done ((ret, a, g, err), s) \<longrightarrow> g \<le> gas)"

lemma NewContract_gas [simp]: "ct_Gas (fst (NewContract clr obj v gas jd)) = gas"
  by (simp add: NewContract_def)

lemma SetCode_gas [simp]:
  "ct_Gas (Contract_SetCallCode c a h code) = ct_Gas c" "ct_Gas (Contract_SetCodeOptionalHash c a ch) = ct_Gas c"
  by (simp_all add: Contract_SetCallCode_def Contract_SetCodeOptionalHash_def)

lemma AsDelegate_gas: "Contract_AsDelegate c = Some c' \<Longrightarrow> ct_Gas c' = ct_Gas c"
  by (auto simp: Contract_AsDelegate_def split: ContractRef.splits)

lemma UseGas_spec:
  "Contract_UseGas c g = (ok, c') \<Longrightarrow>
     unat (ct_Gas c') = unat (ct_Gas c) - (if ok then unat g else 0) \<and> (ok \<longleftrightarrow> unat g \<le> unat (ct_Gas c))"
  by (auto simp: Contract_UseGas_def word_less_nat_alt unat_sub word_le_nat_alt split: if_splits)

lemma done_gas [simp]:
  "call_gas_ok gas (Done ((ret, g, err), s)) \<longleftrightarrow> g \<le> gas"
  "create_gas_ok gas (Done ((d, a, g, err), s)) \<longleftrightarrow> g \<le> gas"
  by (auto simp: call_gas_ok_def create_gas_ok_def)

lemma panicked_gas [simp]: "call_gas_ok gas Panicked" "create_gas_ok gas Panicked"
  by (auto simp: call_gas_ok_def create_gas_ok_def)

lemma bind_gas:
  "(\<And>x. r = Some x \<Longrightarrow> call_gas_ok gas (f x)) \<Longrightarrow> call_gas_ok gas (obind (of_opt r) f)"
  "(\<And>x. r = Some x \<Longrightarrow> create_gas_ok gas (g x)) \<Longrightarrow> create_gas_ok gas (obind (of_opt r) g)"
  by (cases r; simp)+

lemma run_precompile_gas: "call_gas_ok gas (run_precompile E p input gas s)"
  by (auto simp: call_gas_ok_def run_precompile_def obind_Done obind_Exhausted RunPrecompiledContract_def Let_def
      word_le_sub1 not_less split: bind_splits if_splits sum.splits intro: word_sub_le)

lemma settle_gas: "g \<le> gas \<Longrightarrow> call_gas_ok gas (settle_call snap (ret, g, err) s)"
  by (auto simp: call_gas_ok_def settle_call_def obind_Done obind_Exhausted split: option.splits)

lemma settle_bind_gas:
  assumes "call_gas_ok gas r"
  shows "call_gas_ok gas (obind r (\<lambda>(r, s). settle_call snap r s))"
proof (cases r)
  case (Done x)
  then show ?thesis using assms by (cases x) (auto intro: settle_gas)
qed (use assms in \<open>auto simp: call_gas_ok_def\<close>)

context gas_runner begin

lemma run_contract_gas:
  assumes "unat (ct_Gas c) < bound"
  shows "call_gas_ok (ct_Gas c) (run_contract run c input ro s)"
  using run_returns [OF assms, of input ro s] run_gives_back [OF assms, of input ro s]
  by (auto simp: call_gas_ok_def run_contract_def obind_Done obind_Exhausted)

lemma run_contract_gas':
  "ct_Gas c = gas \<Longrightarrow> unat gas < bound \<Longrightarrow> call_gas_ok gas (run_contract run c input ro s)"
  using run_contract_gas by blast

lemma run_code_at_gas:
  assumes "unat gas < bound" "\<And>c'. c = Some c' \<Longrightarrow> ct_Gas c' = gas"
  shows "call_gas_ok gas (run_code_at run E c addr input gas ro snap s)"
  unfolding run_code_at_def
  by (rule settle_bind_gas)
    (use assms run_contract_gas' in \<open>auto simp: run_precompile_gas split: option.splits intro!: bind_gas\<close>)

lemma Call_gas:
  assumes "unat gas < bound"
  shows "call_gas_ok gas (EVM_Call run E clr addr input gas val s)"
  unfolding EVM_Call_def
  by (auto simp: assms run_precompile_gas Let_def NewContract_def split: option.splits prod.splits
      intro!: bind_gas settle_bind_gas run_contract_gas')

lemma other_calls_gas:
  assumes "unat gas < bound"
  shows "call_gas_ok gas (EVM_CallCode run E clr addr input gas val s)"
    "call_gas_ok gas (EVM_DelegateCall run E clr addr input gas s)"
    "call_gas_ok gas (EVM_StaticCall run E clr addr input gas s)"
  unfolding EVM_CallCode_def EVM_DelegateCall_def EVM_StaticCall_def
  by (auto simp: assms Let_def NewContract_def split: prod.splits dest: AsDelegate_gas
      intro!: bind_gas run_code_at_gas)

lemma settle_create_gas:
  assumes "ct_Gas c \<le> gas"
  shows "create_gas_ok gas (settle_create E snap address ((ret, err), c, s))"
proof -
  have u: "ct_Gas (snd (Contract_UseGas d g)) \<le> ct_Gas d" for d g
    using UseGas_spec [of d g "fst (Contract_UseGas d g)" "snd (Contract_UseGas d g)"]
    by (simp add: word_le_nat_alt)
  have u': "Contract_UseGas d g = (b, d') \<Longrightarrow> ct_Gas d \<le> gas \<Longrightarrow> ct_Gas d' \<le> gas" for d g b d'
    using u [of d g] by auto
  have s1: "r \<noteq> Exhausted \<Longrightarrow> (\<And>e d t. r = Done (e, d, t) \<Longrightarrow> ct_Gas d \<le> gas) \<Longrightarrow>
      (\<And>e d t. ct_Gas d \<le> gas \<Longrightarrow> create_gas_ok gas (f (e, d, t))) \<Longrightarrow> create_gas_ok gas (obind r f)" for r f
    by (cases r) auto
  have s2: "r \<noteq> Exhausted \<Longrightarrow> (\<And>d t. r = Done (d, t) \<Longrightarrow> ct_Gas d \<le> gas) \<Longrightarrow>
      (\<And>d t. ct_Gas d \<le> gas \<Longrightarrow> create_gas_ok gas (f (d, t))) \<Longrightarrow> create_gas_ok gas (obind r f)" for r f
    by (cases r) auto
  show ?thesis
    unfolding settle_create_def Let_def prod.case
    apply (rule s1)
      apply (auto simp: obind_Exhausted split: prod.splits) []
     apply (auto simp: obind_Done assms split: prod.splits if_splits intro: u') []
    apply (simp only: prod.case)
    apply (rule s2)
      apply (auto simp: obind_Exhausted) []
     apply (auto simp: obind_Done split: if_splits intro: order_trans [OF u]) []
    apply simp
    done
qed

lemma create_gas:
  assumes "unat gas < bound"
  shows "create_gas_ok gas (EVM_create run E clr ch gas val address s)"
proof -
  have k: "create_gas_ok gas (obind (run c [] False t) (settle_create E snap address))" if "ct_Gas c = gas" for c t snap
  proof (cases "run c [] False t")
    case (Done x)
    obtain ret err c' t' where x: "x = ((ret, err), c', t')" by (cases x) auto
    then have "ct_Gas c' \<le> gas" using run_gives_back [of c "[]" False t] Done assms that by simp
    then show ?thesis using Done x settle_create_gas by simp
  qed (use assms that run_returns [of c "[]" False t] in auto)
  show ?thesis
    unfolding EVM_create_def
    by (auto simp: Let_def NewContract_def assms split: prod.splits intro!: bind_gas k)
qed

lemma Create_gas:
  assumes "unat gas < bound"
  shows "create_gas_ok gas (EVM_Create run E clr code gas val s)"
    "create_gas_ok gas (EVM_Create2 run E clr code gas val salt s)"
  unfolding EVM_Create_def EVM_Create2_def Let_def
  by (auto split: prod.splits intro!: bind_gas create_gas assms)

end

subsection \<open>Instructions\<close>

definition exec_gas_ok :: "bool \<Rightarrow> nat \<Rightarrow> 'st op_result outcome \<Rightarrow> bool" where
  "exec_gas_ok ends B r \<longleftrightarrow> r \<noteq> Exhausted \<and>
     (\<forall>res pc cx s. r = Done (res, pc, cx, s) \<longrightarrow> (if ends then gas_of cx \<le> B else gas_of cx < B))"

definition gas_ok :: "('st, 'it) operation \<Rightarrow> bool" where
  "gas_ok o' \<longleftrightarrow> (\<forall>run E pc cx msz s cx2 s2 mem.
     gas_runner run (unat (op_constantGas o') + gas_of cx) \<longrightarrow>
     charge_dynamic E o' cx msz s = Some (True, cx2, s2) \<longrightarrow>
     exec_gas_ok (op_halts o' \<or> op_reverts o') (unat (op_constantGas o') + gas_of cx)
       (op_execute o' run E pc (cx2\<lparr>cx_memory := mem\<rparr>) s2))"

text \<open>A charge whose amount is never zero.\<close>

definition charges :: "('st, 'it) gasFunc \<Rightarrow> bool" where
  "charges f \<longleftrightarrow> (\<forall>E c st mem msz s cost mem' s'. f E c st mem msz s = Some (Inr cost, mem', s') \<longrightarrow> cost > 0)"

lemma chargesD: "charges f \<Longrightarrow> f E c st mem msz s = Some (Inr cost, mem', s') \<Longrightarrow> 0 < unat cost"
  unfolding charges_def word_less_nat_alt by fastforce

lemma charge_dynamic_gas:
  assumes "charge_dynamic E o' cx msz s = Some (True, cx2, s2)"
  obtains "op_dynamicGas o' = None" "cx2 = cx" "s2 = s"
  | f cost mem c where "op_dynamicGas o' = Some f"
      "f E (cx_contract cx) (cx_stack cx) (cx_memory cx) msz s = Some (Inr cost, mem, s2)"
      "unat cost \<le> gas_of cx" "gas_of cx2 = gas_of cx - unat cost" "cx_stack cx2 = cx_stack cx"
proof (cases "op_dynamicGas o'")
  case None
  then show ?thesis using assms that(1) by (simp add: charge_dynamic_def)
next
  case (Some f)
  obtain r mem s' where f: "f E (cx_contract cx) (cx_stack cx) (cx_memory cx) msz s = Some (r, mem, s')"
    using assms Some by (auto simp: charge_dynamic_def split: bind_splits)
  obtain cost where r: "r = Inr cost" using assms Some f by (cases r) (auto simp: charge_dynamic_def)
  obtain ok c where u: "Contract_UseGas (cx_contract cx) cost = (ok, c)" by fastforce
  have "ok" "cx2 = cx\<lparr>cx_memory := mem, cx_contract := c\<rparr>" "s2 = s'"
    using assms Some f r u by (auto simp: charge_dynamic_def)
  then show ?thesis using that(2) [OF Some] f r UseGas_spec [OF u] by (auto simp: gas_of_def)
qed

lemma gas_of_memory [simp]: "gas_of (cx\<lparr>cx_memory := m\<rparr>) = gas_of cx"
  by (simp add: gas_of_def)

lemma gas_ok_simple:
  assumes x: "op_execute o' = lift_op f" and f: "frame_ok p q f"
    and pos: "op_constantGas o' > 0 \<or> op_halts o' \<or> op_reverts o' \<or> (\<exists>d. op_dynamicGas o' = Some d \<and> charges d)"
  shows "gas_ok o'"
  unfolding gas_ok_def
proof (intro allI impI)
  fix run E pc cx msz s cx2 s2 mem
  assume ch: "charge_dynamic E o' cx msz s = Some (True, cx2, s2)"
  have keep: "gas_of cx' = gas_of cx2" if "f E pc (cx2\<lparr>cx_memory := mem\<rparr>) s2 = Some (res, pc', cx', s')" for res pc' cx' s'
    using f that unfolding frame_ok_def gas_of_def by fastforce
  have c0: "unat (op_constantGas o') > 0" if "op_constantGas o' > 0" using that by (simp add: word_less_nat_alt)
  have "gas_of cx2 \<le> gas_of cx" "gas_of cx2 < unat (op_constantGas o') + gas_of cx \<or> op_halts o' \<or> op_reverts o'"
    using ch pos c0 by (auto elim!: charge_dynamic_gas dest: chargesD)
  then show "exec_gas_ok (op_halts o' \<or> op_reverts o') (unat (op_constantGas o') + gas_of cx)
       (op_execute o' run E pc (cx2\<lparr>cx_memory := mem\<rparr>) s2)"
    by (auto simp: exec_gas_ok_def x lift_op_def keep)
qed

lemma gas_add_spec: "gas_add x y = Inr z \<Longrightarrow> unat z = unat x + unat y"
  using SafeAdd_spec [of x y] by (auto simp: gas_add_def split: prod.splits if_splits)

lemma ebind_Inr: "ebind r f = Inr b \<longleftrightarrow> (\<exists>a. r = Inr a \<and> f a = Inr b)"
  by (cases r) (auto simp: ebind_def)

lemma exp_charges: "charges (exp_gas g)"
  by (auto simp: charges_def exp_gas_def Let_def word_less_nat_alt split: bind_splits dest: gas_add_spec)

lemma log_charges: "charges (makeGasLog n)"
  by (auto simp: charges_def makeGasLog_def Let_def word_less_nat_alt ebind_Inr
      split: bind_splits sum.splits prod.splits dest!: gas_add_spec)

lemma net_sstore_charges:
  "net_sstore_gas E c x cur v db a1 a2 a3 a4 r1 r2 r3 = Some (g, db') \<Longrightarrow> g \<in> {a1, a2, a3, a4}"
  by (auto simp: net_sstore_gas_def Let_def split: if_splits bind_splits)

lemma sstore_charges: "charges gasSStore" "charges gasSStoreEIP2200"
  by (auto simp: charges_def gasSStore_def gasSStoreEIP2200_def split: bind_splits if_splits dest!: net_sstore_charges)

subsection \<open>Calls\<close>

lemma add_call_gas_spec:
  "add_call_gas E c st gas s = Some (Inr cost, s') \<Longrightarrow> unat cost = unat gas + unat (es_callGasTemp s')"
  by (auto simp: add_call_gas_def split: bind_splits sum.splits dest: gas_add_spec)

lemma memory_then_call_spec:
  "gas_memory_then_call E c st mem msz gas s = Some (Inr cost, mem', s') \<Longrightarrow>
     unat gas + unat (es_callGasTemp s') \<le> unat cost"
  by (auto simp: gas_memory_then_call_def Let_def ebind_Inr split: prod.splits sum.splits bind_splits
      dest!: add_call_gas_spec gas_add_spec)

definition stipend_paid :: "bool \<Rightarrow> Stack \<Rightarrow> u64 \<Rightarrow> 'st EVM_state \<Rightarrow> bool" where
  "stipend_paid hasValue st cost s \<longleftrightarrow> unat (es_callGasTemp s) \<le> unat cost \<and>
     (hasValue \<longrightarrow> (\<exists>v. Stack_Back st 2 = Some v \<and> (\<not> Int_IsZero v \<longrightarrow> 9000 + unat (es_callGasTemp s) \<le> unat cost)))"

lemma gasCall_paid: "gasCall E c st mem msz s = Some (Inr cost, mem', s') \<Longrightarrow> stipend_paid True st cost s'"
  unfolding gasCall_def stipend_paid_def Let_def
  by (auto split: bind_splits if_splits dest!: memory_then_call_spec)

lemma Sign_zero: "Int_Sign v \<noteq> 0 \<longleftrightarrow> \<not> Int_IsZero v"
  by (simp add: Int_Sign_def)

lemma gasCallCode_paid: "gasCallCode E c st mem msz s = Some (Inr cost, mem', s') \<Longrightarrow> stipend_paid True st cost s'"
  unfolding gasCallCode_def stipend_paid_def
  by (auto simp: Sign_zero split: bind_splits if_splits dest!: memory_then_call_spec)

lemma gasOther_paid:
  "gasDelegateCall E c st mem msz s = Some (Inr cost, mem', s') \<Longrightarrow> stipend_paid False st cost s'"
  "gasStaticCall E c st mem msz s = Some (Inr cost, mem', s') \<Longrightarrow> stipend_paid False st cost s'"
  by (auto simp: gasDelegateCall_def gasStaticCall_def stipend_paid_def Let_def
      split: prod.splits sum.splits bind_splits dest!: add_call_gas_spec)

lemma pop_call_args_value:
  "pop_call_args True cx = Some a \<Longrightarrow> Stack_Back (cx_stack cx) 2 = Some (ca_value a)"
  "pop_call_args False cx = Some a \<Longrightarrow> ca_value a = Int_Clear"
  by (auto simp: pop_call_args_def pop_some Stack_Back_def idx_def split: bind_splits)

lemma with_stipend_le: "unat (with_stipend g v) \<le> unat g + (if Int_IsZero v then 0 else 2300)"
  by (simp add: with_stipend_def unat_word_ariths)

lemma finish_call_gas:
  assumes "call_gas_ok given r" "gas_of cx + unat given < B" "B \<le> 2 ^ 64"
  shows "exec_gas_ok ends B (obind r (finish_call pc cx a))"
proof (cases r)
  case (Done x)
  obtain ret g err s where x: "x = ((ret, g, err), s)" by (cases x) auto
  have g: "unat g \<le> unat given" using assms(1) Done x by (simp add: word_le_nat_alt)
  then have "unat (ct_Gas (cx_contract cx) + g) < B"
    using assms(2,3) by (simp add: gas_of_def unat_word_ariths)
  then show ?thesis
    using Done x by (auto simp: exec_gas_ok_def finish_call_def obind_Done obind_Exhausted gas_of_def Let_def)
qed (use assms(1) in \<open>auto simp: exec_gas_ok_def call_gas_ok_def\<close>)

lemma exec_gas_bind:
  "(\<And>x. r = Some x \<Longrightarrow> exec_gas_ok ends B (f x)) \<Longrightarrow> exec_gas_ok ends B (obind (of_opt r) f)"
  by (cases r) (auto simp: exec_gas_ok_def)

lemma with_stipend_Clear [simp]: "with_stipend g Int_Clear = g"
  by (simp add: with_stipend_def Int_IsZero_def Int_Clear_def)

context gas_runner begin

lemma call_op_gas:
  assumes paid: "stipend_paid hasValue (cx_stack cx) cost s2" and le: "gas_of cx + unat cost < bound" and b: "bound \<le> 2 ^ 64"
    and a: "pop_call_args hasValue cx = Some a"
    and call: "\<And>gas. unat gas < bound \<Longrightarrow> call_gas_ok gas (call gas)"
  shows "exec_gas_ok ends bound (obind (call (with_stipend (es_callGasTemp s2) (ca_value a))) (finish_call pc cx a))"
proof -
  let ?g = "with_stipend (es_callGasTemp s2) (ca_value a)"
  have "unat ?g \<le> unat cost"
    using with_stipend_le [of "es_callGasTemp s2" "ca_value a"] paid pop_call_args_value [of cx a] a
    by (cases hasValue) (auto simp: stipend_paid_def Int_IsZero_def Int_Clear_def split: if_splits)
  then show ?thesis using le by (intro finish_call_gas [OF call _ b]) auto
qed

lemma call_ops_gas:
  assumes le: "gas_of cx + unat cost < bound" and b: "bound \<le> 2 ^ 64"
  shows "stipend_paid True (cx_stack cx) cost s \<Longrightarrow> exec_gas_ok ends bound (opCall run E pc cx s)"
    "stipend_paid True (cx_stack cx) cost s \<Longrightarrow> exec_gas_ok ends bound (opCallCode run E pc cx s)"
    "stipend_paid False (cx_stack cx) cost s \<Longrightarrow> exec_gas_ok ends bound (opDelegateCall run E pc cx s)"
    "stipend_paid False (cx_stack cx) cost s \<Longrightarrow> exec_gas_ok ends bound (opStaticCall run E pc cx s)"
proof -
  assume p: "stipend_paid True (cx_stack cx) cost s"
  show "exec_gas_ok ends bound (opCall run E pc cx s)"
    unfolding opCall_def by (rule exec_gas_bind, rule call_op_gas [OF p le b]) (auto intro: Call_gas)
  show "exec_gas_ok ends bound (opCallCode run E pc cx s)"
    unfolding opCallCode_def by (rule exec_gas_bind, rule call_op_gas [OF p le b]) (auto intro: other_calls_gas)
next
  assume p: "stipend_paid False (cx_stack cx) cost s"
  have *: "es_callGasTemp s = with_stipend (es_callGasTemp s) (ca_value a)" if "pop_call_args False cx = Some a" for a
    using pop_call_args_value(2) [OF that] by simp
  show "exec_gas_ok ends bound (opDelegateCall run E pc cx s)"
    unfolding opDelegateCall_def
    by (rule exec_gas_bind, subst *, assumption, rule call_op_gas [OF p le b]) (auto intro: other_calls_gas)
  show "exec_gas_ok ends bound (opStaticCall run E pc cx s)"
    unfolding opStaticCall_def
    by (rule exec_gas_bind, subst *, assumption, rule call_op_gas [OF p le b]) (auto intro: other_calls_gas)
qed

lemma create_op_gas:
  assumes r: "unat given < bound \<Longrightarrow> create_gas_ok given r" and le: "gas_of cx < bound" and b: "bound \<le> 2 ^ 64"
    and gv: "unat given \<le> gas_of cx"
  shows "exec_gas_ok ends bound (obind r (\<lambda>((res, addr, g, err), s).
    finish_create pc (cx\<lparr>cx_stack := st, cx_contract := snd (Contract_UseGas (cx_contract cx) given)\<rparr>) (fl err)
      ((res, addr, g, err), s)))"
proof (cases r)
  case (Done x)
  obtain ret a g err s where x: "x = ((ret, a, g, err), s)" by (cases x) auto
  let ?c = "snd (Contract_UseGas (cx_contract cx) given)"
  have "unat (ct_Gas ?c) + unat given < bound" "unat given < bound"
    using UseGas_spec [of "cx_contract cx" given "fst (Contract_UseGas (cx_contract cx) given)" ?c] gv le
    by (auto simp: gas_of_def)
  moreover then have "unat g \<le> unat given" using r Done x by (simp add: word_le_nat_alt)
  ultimately have "unat (ct_Gas ?c + g) < bound" using b by (simp add: unat_word_ariths)
  then show ?thesis
    using Done x by (auto simp: exec_gas_ok_def finish_create_def obind_Done obind_Exhausted gas_of_def Let_def)
qed (use r gv le in \<open>auto simp: exec_gas_ok_def create_gas_ok_def\<close>)

lemma create_ops_gas:
  assumes le: "gas_of cx < bound" and b: "bound \<le> 2 ^ 64"
  shows "exec_gas_ok ends bound (opCreate run E pc cx s)" "exec_gas_ok ends bound (opCreate2 run E pc cx s)"
proof -
  have d: "unat (g - g div 64) \<le> unat g" for g :: u64
    by (simp add: unat_sub word_le_nat_alt unat_div)
  have d': "unat (if q then g - g div 64 else g) \<le> unat g" for g :: u64 and q
    using d by simp
  show "exec_gas_ok ends bound (opCreate run E pc cx s)"
    unfolding opCreate_def Let_def
    by (rule exec_gas_bind, simp only: split_beta fst_conv snd_conv)
      (rule create_op_gas [OF Create_gas(1) le b], use d' in \<open>auto simp: gas_of_def\<close>)
  show "exec_gas_ok ends bound (opCreate2 run E pc cx s)"
    unfolding opCreate2_def Let_def
    by (rule exec_gas_bind, simp only: split_beta fst_conv snd_conv)
      (rule create_op_gas [OF Create_gas(2) le b], use d in \<open>auto simp: gas_of_def\<close>)
qed

end

end
