(* ===== verification/Table_Property.thy ===== *)
theory Table_Property
  imports Interpreter
begin

text \<open>
  How the instruction tables of \<^verbatim>\<open>src/evm/jump_table.go\<close> and \<^verbatim>\<open>src/evm/eips.go\<close> grow out of each other.
  The locale \<open>table_property\<close> has a property of table entries that holds of every entry the functions
  write and survives the gas changes they make; inside it every fork's table exists and has the property
  throughout, and so has every table \<^verbatim>\<open>NewEVMInterpreter\<close> builds.
\<close>

section \<open>Tables with a property\<close>

definition table_all :: "(OpCode \<times> ('st, 'it) operation \<Rightarrow> bool) \<Rightarrow> ('st, 'it) JumpTable \<Rightarrow> bool" where
  "table_all P jt \<longleftrightarrow> (\<forall>op o'. jt op = Some o' \<longrightarrow> P (op, o'))"

definition good_table ::
  "(OpCode \<times> ('st, 'it) operation \<Rightarrow> bool) \<Rightarrow> OpCode set \<Rightarrow> ('st, 'it) JumpTable option \<Rightarrow> bool" where
  "good_table P D r \<longleftrightarrow> (\<exists>jt. r = Some jt \<and> table_all P jt \<and> D \<subseteq> dom jt)"

lemma table_allD: "table_all P jt \<Longrightarrow> jt op = Some o' \<Longrightarrow> P (op, o')"
  by (simp add: table_all_def)

lemma table_all_map_of: "list_all P es \<Longrightarrow> table_all P (map_of es)"
  unfolding table_all_def list_all_iff by (auto dest: map_of_SomeD)

lemma table_all_upd: "table_all P jt \<Longrightarrow> P (op, o') \<Longrightarrow> table_all P (jt(op \<mapsto> o'))"
  by (simp add: table_all_def)

lemma table_all_add: "table_all P jt \<Longrightarrow> table_all P jt' \<Longrightarrow> table_all P (jt ++ jt')"
  by (auto simp: table_all_def map_add_def split: option.splits)

lemma good_Some: "table_all P jt \<Longrightarrow> D \<subseteq> dom jt \<Longrightarrow> good_table P D (Some jt)"
  by (simp add: good_table_def)

lemma good_tableD: "r = Some jt \<Longrightarrow> good_table P D r \<Longrightarrow> table_all P jt"
  by (simp add: good_table_def)

lemma good_defined: "good_table P D r \<Longrightarrow> \<exists>jt. r = Some jt"
  by (auto simp: good_table_def)

lemma good_weaken: "good_table P D r \<Longrightarrow> D' \<subseteq> D \<Longrightarrow> good_table P D' r"
  by (auto simp: good_table_def)

lemma good_bind:
  "good_table P D r \<Longrightarrow> (\<And>jt. table_all P jt \<Longrightarrow> D \<subseteq> dom jt \<Longrightarrow> good_table P D' (f jt)) \<Longrightarrow> good_table P D' (r \<bind> f)"
  by (auto simp: good_table_def)

lemma good_update:
  "table_all P jt \<Longrightarrow> D \<subseteq> dom jt \<Longrightarrow> op \<in> D \<Longrightarrow> (\<And>o'. P (op, o') \<Longrightarrow> P (op, f o')) \<Longrightarrow>
     good_table P D (update_op op f jt)"
  by (auto simp: good_table_def update_op_def table_all_def dom_def subset_iff split: bind_splits if_splits)

lemma list_all_Cons: "P x \<Longrightarrow> list_all P xs \<Longrightarrow> list_all P (x # xs)"
  by simp

text \<open>The entries that are assigned one by one.\<close>

definition single_entries :: "(OpCode \<times> ('st, 'it) operation) list" where
  "single_entries = [
     (DELEGATECALL, (mk_op opDelegateCall CallGasFrontier (minStack 6 1) (maxStack 6 1))\<lparr>op_dynamicGas := Some gasDelegateCall, op_memorySize := Some memoryDelegateCall, op_returns := True\<rparr>),
     (SELFBALANCE, mk_op (lift_op opSelfBalance) GasFastStep (minStack 0 1) (maxStack 0 1)),
     (CHAINID, mk_op (lift_op opChainID) GasQuickStep (minStack 0 1) (maxStack 0 1)),
     (BEGINSUB, mk_op (lift_op opBeginSub) GasQuickStep (minStack 0 0) (maxStack 0 0)),
     (JUMPSUB, (mk_op (lift_op opJumpSub) GasSlowStep (minStack 1 0) (maxStack 1 0))\<lparr>op_jumps := True\<rparr>),
     (RETURNSUB, (mk_op (lift_op opReturnSub) GasFastStep (minStack 0 0) (maxStack 0 0))\<lparr>op_jumps := True\<rparr>)]"

text \<open>The opcodes whose entries later tables change, all of them in the first one.\<close>

definition core_opcodes :: "OpCode set" where
  "core_opcodes = {BALANCE, EXTCODESIZE, SLOAD, EXTCODECOPY, CALL, CALLCODE, EXP, SSTORE}"

lemma frontier_core: "core_opcodes \<subseteq> dom newFrontierInstructionSet"
  by (simp add: core_opcodes_def newFrontierInstructionSet_def frontier_entries_def dom_map_of_conv_image_fst
      frontier_arithmetic_def frontier_environment_def frontier_memory_flow_def frontier_log_call_def)

locale table_property =
  fixes P :: "OpCode \<times> ('st, 'it) operation \<Rightarrow> bool"
  assumes const_law: "P (op, o') \<Longrightarrow> 0 < g \<Longrightarrow> P (op, o'\<lparr>op_constantGas := g\<rparr>)"
    and exp_law: "P (EXP, o') \<Longrightarrow> P (EXP, o'\<lparr>op_dynamicGas := Some gasExpEIP158\<rparr>)"
    and sstore_law: "P (SSTORE, o') \<Longrightarrow> P (SSTORE, o'\<lparr>op_dynamicGas := Some gasSStoreEIP2200\<rparr>)"
    and frontier_law: "list_all P frontier_entries"
    and byzantium_law: "list_all P byzantium_entries"
    and constantinople_law: "list_all P constantinople_entries"
    and single_law: "list_all P single_entries"
begin

lemma good_constantGas:
  "table_all P jt \<Longrightarrow> D \<subseteq> dom jt \<Longrightarrow> op \<in> D \<Longrightarrow> 0 < g \<Longrightarrow> good_table P D (set_constantGas op g jt)"
  unfolding set_constantGas_def by (erule (2) good_update) (erule (1) const_law)

lemma good_exp: "table_all P jt \<Longrightarrow> D \<subseteq> dom jt \<Longrightarrow> EXP \<in> D \<Longrightarrow> good_table P D (set_dynamicGas EXP gasExpEIP158 jt)"
  unfolding set_dynamicGas_def by (erule (2) good_update) (erule exp_law)

lemma good_sstore:
  "table_all P jt \<Longrightarrow> D \<subseteq> dom jt \<Longrightarrow> SSTORE \<in> D \<Longrightarrow> good_table P D (set_dynamicGas SSTORE gasSStoreEIP2200 jt)"
  unfolding set_dynamicGas_def by (erule (2) good_update) (erule sstore_law)

lemmas singles = single_law [unfolded single_entries_def list.pred_inject]

lemma frontier_table: "table_all P newFrontierInstructionSet"
  unfolding newFrontierInstructionSet_def by (rule table_all_map_of [OF frontier_law])

lemma homestead_table: "table_all P newHomesteadInstructionSet"
  unfolding newHomesteadInstructionSet_def by (rule table_all_upd [OF frontier_table]) (use singles in blast)

lemma homestead_core: "insert DELEGATECALL core_opcodes \<subseteq> dom newHomesteadInstructionSet"
  using frontier_core unfolding newHomesteadInstructionSet_def by auto

lemma tangerine_table: "good_table P (insert DELEGATECALL core_opcodes) newTangerineWhistleInstructionSet"
  unfolding newTangerineWhistleInstructionSet_def Let_def
  by (intro good_bind good_constantGas; (rule homestead_table homestead_core | assumption)?)
    (simp_all add: core_opcodes_def)

lemma spurious_table: "good_table P (insert DELEGATECALL core_opcodes) newSpuriousDragonInstructionSet"
  unfolding newSpuriousDragonInstructionSet_def
  by (rule good_bind [OF tangerine_table], rule good_exp) (simp_all add: core_opcodes_def)

lemma byzantium_table: "good_table P (insert DELEGATECALL core_opcodes) newByzantiumInstructionSet"
  unfolding newByzantiumInstructionSet_def
  by (rule good_bind [OF spurious_table], rule good_Some, erule table_all_add [OF _ table_all_map_of [OF byzantium_law]]) auto

lemma constantinople_table: "good_table P (insert EXTCODEHASH core_opcodes) newConstantinopleInstructionSet"
  unfolding newConstantinopleInstructionSet_def
  by (rule good_bind [OF byzantium_table], rule good_Some, erule table_all_add [OF _ table_all_map_of [OF constantinople_law]])
    (auto simp: constantinople_entries_def)

lemma good_2200: "table_all P jt \<Longrightarrow> D \<subseteq> dom jt \<Longrightarrow> {SLOAD, SSTORE} \<subseteq> D \<Longrightarrow> good_table P D (enable2200 jt)"
  unfolding enable2200_def by (intro good_bind good_constantGas good_sstore; assumption?) auto

lemma good_1884:
  "table_all P jt \<Longrightarrow> D \<subseteq> dom jt \<Longrightarrow> {SLOAD, BALANCE, EXTCODEHASH} \<subseteq> D \<Longrightarrow> good_table P D (enable1884 jt)"
  unfolding enable1884_def
  by (intro good_bind good_constantGas good_Some table_all_upd; assumption?) (use singles in auto)

lemma good_1344: "table_all P jt \<Longrightarrow> D \<subseteq> dom jt \<Longrightarrow> good_table P D (enable1344 jt)"
  unfolding enable1344_def by (intro good_Some table_all_upd; assumption?) (use singles in auto)

lemma good_2315: "table_all P jt \<Longrightarrow> D \<subseteq> dom jt \<Longrightarrow> good_table P D (enable2315 jt)"
  unfolding enable2315_def by (intro good_Some table_all_upd; assumption?) (use singles in auto)

lemma istanbul_table: "good_table P (insert EXTCODEHASH core_opcodes) newIstanbulInstructionSet"
  unfolding newIstanbulInstructionSet_def
  by (intro good_bind [OF constantinople_table] good_bind good_1344 good_1884 good_2200; assumption?)
    (auto simp: core_opcodes_def)

lemma yolo_table: "good_table P (insert EXTCODEHASH core_opcodes) newYoloV2InstructionSet"
  unfolding newYoloV2InstructionSet_def by (rule good_bind [OF istanbul_table]) (rule good_2315)

lemma default_tables: "good_table P core_opcodes (default_table r)"
  unfolding default_table_def
  by (simp add: subset_insertI good_weaken [OF yolo_table] good_weaken [OF istanbul_table]
      good_weaken [OF constantinople_table] good_weaken [OF byzantium_table] good_weaken [OF spurious_table]
      good_weaken [OF tangerine_table] good_Some [OF homestead_table] homestead_core [THEN subset_trans [OF subset_insertI]]
      good_Some [OF frontier_table frontier_core])

lemma EnableEIP_keeps:
  assumes "EnableEIP n jt = Some (Inr jt')" "table_all P jt"
  shows "table_all P jt'"
proof -
  have 1: "SLOAD \<in> dom jt" "SSTORE \<in> dom jt" if "enable2200 jt = Some jt'"
    using that by (auto simp: enable2200_def set_constantGas_def set_dynamicGas_def update_op_def split: bind_splits)
  have 2: "SLOAD \<in> dom jt" "BALANCE \<in> dom jt" "EXTCODEHASH \<in> dom jt" if "enable1884 jt = Some jt'"
    using that by (auto simp: enable1884_def set_constantGas_def update_op_def split: bind_splits if_splits)
  consider "enable2200 jt = Some jt'" | "enable1884 jt = Some jt'" | "enable1344 jt = Some jt'" | "enable2315 jt = Some jt'"
    using assms(1) by (auto simp: EnableEIP_def split: if_splits)
  then show ?thesis
    using good_2200 [OF assms(2) subset_refl] good_1884 [OF assms(2) subset_refl]
      good_1344 [OF assms(2) subset_refl] good_2315 [OF assms(2) subset_refl] 1 2
    by cases (auto simp: good_table_def)
qed

lemma enable_eips_keeps: "enable_eips eips jt = Some jt' \<Longrightarrow> table_all P jt \<Longrightarrow> table_all P jt'"
  by (induction eips arbitrary: jt) (auto split: bind_splits sum.splits dest: EnableEIP_keeps)

lemma default_table_all: "default_table r = Some jt \<Longrightarrow> table_all P jt"
  using good_tableD default_tables by blast

lemma NewEVMInterpreter_all: "NewEVMInterpreter r cfg = Some jt \<Longrightarrow> table_all P jt"
  by (auto simp: NewEVMInterpreter_def split: bind_splits dest!: default_table_all intro: enable_eips_keeps)

end

end
