(* ===== verification/Table_Laws.thy ===== *)
theory Table_Laws
  imports Gas_Laws Table_Property
begin

text \<open>
  The instruction tables of \<^verbatim>\<open>src/evm/jump_table.go\<close>: every entry charges for its instruction or ends the
  run, its stack bound is the one its execution function needs, and every fork's table can be built.
\<close>

subsection \<open>Operations of the instruction tables\<close>

definition exec_frame :: "nat \<Rightarrow> nat \<Rightarrow> ('st, 'it) executionFunc \<Rightarrow> bool" where
  "exec_frame pops pushes x \<longleftrightarrow> (\<forall>run E pc cx s b pc' cx' s'. x run E pc cx s = Done (Inr b, pc', cx', s') \<longrightarrow>
     length (cx_stack cx') + pops = length (cx_stack cx) + pushes)"

lemma lift_frame: "frame_ok p q f \<Longrightarrow> exec_frame p q (lift_op f)"
  unfolding frame_ok_def exec_frame_def lift_op_def of_opt_Done by blast

lemma pop_call_args_stack:
  "pop_call_args hasValue cx = Some a \<Longrightarrow> length (cx_stack cx) = length (ca_stack a) + (if hasValue then 7 else 6)"
  by (auto simp: pop_call_args_def pop_some split: bind_splits if_splits)

lemma finish_call_stack:
  "finish_call pc cx a r = Done (res, pc', cx', s') \<Longrightarrow> length (cx_stack cx') = length (ca_stack a) + 1"
  by (auto simp: finish_call_def Let_def obind_Done Stack_push_def split: prod.splits)

lemma call_frames:
  "exec_frame 7 1 opCall" "exec_frame 7 1 opCallCode" "exec_frame 6 1 opDelegateCall" "exec_frame 6 1 opStaticCall"
  by (auto simp: exec_frame_def opCall_def opCallCode_def opDelegateCall_def opStaticCall_def obind_Done
      dest!: pop_call_args_stack finish_call_stack)

lemma finish_create_stack:
  "finish_create pc cx fl r = Done (res, pc', cx', s') \<Longrightarrow> length (cx_stack cx') = length (cx_stack cx) + 1"
  by (auto simp: finish_create_def Let_def obind_Done Stack_push_def split: prod.splits)

lemma create_frames: "exec_frame 3 1 opCreate" "exec_frame 4 1 opCreate2"
  by (auto simp: exec_frame_def opCreate_def opCreate2_def obind_Done Let_def pop_some split_beta
      bind_eq_Some_conv dest!: finish_create_stack)

definition simple_exec :: "('st, 'it) operation \<Rightarrow> bool" where
  "simple_exec o' \<longleftrightarrow> (\<exists>f p q. op_execute o' = lift_op f \<and> frame_ok p q f)"

definition call_exec :: "('st, 'it) operation \<Rightarrow> bool" where
  "call_exec o' \<longleftrightarrow>
     op_execute o' = opCall \<and> op_dynamicGas o' = Some gasCall \<or>
     op_execute o' = opCallCode \<and> op_dynamicGas o' = Some gasCallCode \<or>
     op_execute o' = opDelegateCall \<and> op_dynamicGas o' = Some gasDelegateCall \<or>
     op_execute o' = opStaticCall \<and> op_dynamicGas o' = Some gasStaticCall \<or>
     op_execute o' = opCreate \<or> op_execute o' = opCreate2"

definition op_ok :: "('st, 'it) operation \<Rightarrow> bool" where
  "op_ok o' \<longleftrightarrow>
     (\<exists>p q. exec_frame p q (op_execute o') \<and> op_maxStack o' = maxStack (int p) (int q)) \<and>
     (op_constantGas o' > 0 \<and> call_exec o' \<or>
      simple_exec o' \<and> (op_constantGas o' > 0 \<or> op_halts o' \<or> op_reverts o' \<or>
        (\<exists>d. op_dynamicGas o' = Some d \<and> charges d)))"

lemma op_ok_simple:
  "op_execute o' = lift_op f \<Longrightarrow> frame_ok p q f \<Longrightarrow> op_maxStack o' = maxStack (int p) (int q) \<Longrightarrow>
     op_constantGas o' > 0 \<or> op_halts o' \<or> op_reverts o' \<or> (\<exists>d. op_dynamicGas o' = Some d \<and> charges d) \<Longrightarrow> op_ok o'"
  unfolding op_ok_def simple_exec_def using lift_frame by metis

lemma op_ok_call:
  "exec_frame p q (op_execute o') \<Longrightarrow> op_maxStack o' = maxStack (int p) (int q) \<Longrightarrow> op_constantGas o' > 0 \<Longrightarrow>
     call_exec o' \<Longrightarrow> op_ok o'"
  unfolding op_ok_def by blast

lemma gas_runner_mono: "gas_runner run b \<Longrightarrow> b' \<le> b \<Longrightarrow> gas_runner run b'"
  by (fastforce simp: gas_runner_def)

lemma exec_gas_mono: "exec_gas_ok False b r \<Longrightarrow> b \<le> B \<Longrightarrow> exec_gas_ok ends B r"
  by (fastforce simp: exec_gas_ok_def)

lemma gas_ok_call:
  assumes sh: "call_exec o'" and pos: "op_constantGas o' > 0"
  shows "gas_ok o'"
  unfolding gas_ok_def
proof (intro allI impI)
  fix run :: "'a runner" and E :: "('a, 'b) EVM" and pc msz s s2 mem and cx cx2 :: callCtx
  let ?B = "gas_of cx + 1" and ?cx = "cx2\<lparr>cx_memory := mem\<rparr>"
  assume run: "gas_runner run (unat (op_constantGas o') + gas_of cx)"
  assume ch: "charge_dynamic E o' cx msz s = Some (True, cx2, s2)"
  have c0: "unat (op_constantGas o') > 0" using pos by (simp add: word_less_nat_alt)
  then have r: "gas_runner run ?B" by (intro gas_runner_mono [OF run]) simp
  have b: "?B \<le> 2 ^ 64" using unat_u64_less [of "ct_Gas (cx_contract cx)"] by (simp add: gas_of_def)
  have "exec_gas_ok False ?B (op_execute o' run E pc ?cx s2)"
  proof (cases "op_execute o' = opCreate \<or> op_execute o' = opCreate2")
    case True
    have "gas_of ?cx < ?B" using ch by (auto elim!: charge_dynamic_gas)
    then show ?thesis using True gas_runner.create_ops_gas [OF r _ b, of ?cx] by (elim disjE) simp_all
  next
    case False
    then obtain f cost m where f: "op_dynamicGas o' = Some f"
      "f E (cx_contract cx) (cx_stack cx) (cx_memory cx) msz s = Some (Inr cost, m, s2)"
      and g: "gas_of ?cx + unat cost < ?B" and st: "cx_stack ?cx = cx_stack cx"
      using ch sh by (elim charge_dynamic_gas) (auto simp: call_exec_def)
    note ops = gas_runner.call_ops_gas [OF r g b, unfolded st, where s = s2 and ends = False and pc = pc and E = E]
    consider "op_execute o' = opCall" "f = gasCall" | "op_execute o' = opCallCode" "f = gasCallCode"
      | "op_execute o' = opDelegateCall" "f = gasDelegateCall" | "op_execute o' = opStaticCall" "f = gasStaticCall"
      using sh False f(1) unfolding call_exec_def by auto
    then show ?thesis
    proof cases
      case 1
      show ?thesis unfolding 1(1) by (rule ops(1), rule gasCall_paid) (use f(2) 1(2) in simp)
    next
      case 2
      show ?thesis unfolding 2(1) by (rule ops(2), rule gasCallCode_paid) (use f(2) 2(2) in simp)
    next
      case 3
      show ?thesis unfolding 3(1) by (rule ops(3), rule gasOther_paid(1)) (use f(2) 3(2) in simp)
    next
      case 4
      show ?thesis unfolding 4(1) by (rule ops(4), rule gasOther_paid(2)) (use f(2) 4(2) in simp)
    qed
  qed
  then show "exec_gas_ok (op_halts o' \<or> op_reverts o') (unat (op_constantGas o') + gas_of cx)
       (op_execute o' run E pc ?cx s2)"
    using c0 by (rule_tac exec_gas_mono) auto
qed

lemma op_ok_gas: "op_ok o' \<Longrightarrow> gas_ok o'"
  unfolding op_ok_def simple_exec_def using gas_ok_call gas_ok_simple by metis

lemma charges_table [simp]:
  "charges gasExpFrontier" "charges gasExpEIP158" "charges gasSStore" "charges gasSStoreEIP2200" "charges (makeGasLog n)"
  by (simp_all add: gasExpFrontier_def gasExpEIP158_def exp_charges sstore_charges log_charges)

subsection \<open>The tables\<close>

definition call_opcodes :: "OpCode set" where
  "call_opcodes = {CALL, CALLCODE, DELEGATECALL, STATICCALL, CREATE, CREATE2}"

definition entry_ok :: "OpCode \<times> ('st, 'it) operation \<Rightarrow> bool" where
  "entry_ok e \<longleftrightarrow> op_ok (snd e) \<and> (simple_exec (snd e) \<or> fst e \<in> call_opcodes)"

lemma entry_simple:
  "op_execute o' = lift_op f \<Longrightarrow> frame_ok p q f \<Longrightarrow> op_maxStack o' = maxStack (int p) (int q) \<Longrightarrow>
     op_constantGas o' > 0 \<or> op_halts o' \<or> op_reverts o' \<or> (\<exists>d. op_dynamicGas o' = Some d \<and> charges d) \<Longrightarrow> entry_ok (op, o')"
  by (auto simp: entry_ok_def simple_exec_def intro: op_ok_simple)

lemma entry_call:
  "exec_frame p q (op_execute o') \<Longrightarrow> op_maxStack o' = maxStack (int p) (int q) \<Longrightarrow> op_constantGas o' > 0 \<Longrightarrow>
     call_exec o' \<Longrightarrow> op \<in> call_opcodes \<Longrightarrow> entry_ok (op, o')"
  by (auto simp: entry_ok_def intro: op_ok_call)

lemma entry_constantGas: "entry_ok (op, o') \<Longrightarrow> 0 < g \<Longrightarrow> entry_ok (op, o'\<lparr>op_constantGas := g\<rparr>)"
  by (simp add: entry_ok_def op_ok_def simple_exec_def call_exec_def) blast

lemma entry_dynamicGas:
  "entry_ok (op, o') \<Longrightarrow> charges d \<Longrightarrow> op \<notin> call_opcodes \<Longrightarrow> entry_ok (op, o'\<lparr>op_dynamicGas := Some d\<rparr>)"
  by (simp add: entry_ok_def op_ok_def simple_exec_def)

lemmas all_entries =
  frontier_arithmetic_def frontier_environment_def frontier_memory_flow_def frontier_push_low_def
  frontier_push_high_def frontier_dup_def frontier_swap_def frontier_log_call_def byzantium_entries_def
  constantinople_entries_def single_entries_def

lemmas call_exec_frames = call_frames create_frames

lemma all_entries_ok: "list_all entry_ok (frontier_entries @ byzantium_entries @ constantinople_entries @ single_entries)"
  unfolding frontier_entries_def all_entries append_Cons append_Nil
  by (intro list_all_Cons list.pred_inject(1))
    ((rule entry_simple, simp only: mk_op_def operation.simps, rule frames,
        simp add: mk_op_def maxDupStack_def maxSwapStack_def maxStack_def, simp add: mk_op_def; fail) |
     (rule entry_call, simp only: mk_op_def operation.simps, rule call_exec_frames,
        simp_all add: mk_op_def call_exec_def call_opcodes_def; fail))+

interpretation entries: table_property entry_ok
  by unfold_locales
    (simp_all add: entry_constantGas entry_dynamicGas call_opcodes_def all_entries_ok [unfolded list_all_append])

abbreviation table_ok :: "('st, 'it) JumpTable \<Rightarrow> bool" where
  "table_ok \<equiv> table_all entry_ok"

lemma default_table_defined: "\<exists>jt. default_table r = Some jt"
  using entries.default_tables by (rule good_defined)

lemma NewEVMInterpreter_defined:
  "cfg_ExtraEips cfg = [] \<Longrightarrow> \<exists>jt :: ('st, 'it) JumpTable. NewEVMInterpreter r cfg = Some jt"
proof -
  obtain jt :: "('st, 'it) JumpTable" where "default_table r = Some jt" using default_table_defined by blast
  then show "cfg_ExtraEips cfg = [] \<Longrightarrow> ?thesis" by (simp add: NewEVMInterpreter_def)
qed

end
