(* ===== verification/Interpreter_Laws.thy ===== *)
theory Interpreter_Laws
  imports Table_Laws
begin

text \<open>
  The loop of \<^verbatim>\<open>src/evm/interpreter.go\<close> ends: every instruction of a table in order costs gas or ends the
  run, so a step budget above the gas is never exhausted, through calls of any depth.
\<close>

section \<open>The loop ends\<close>

definition step_gas_ok :: "nat \<Rightarrow> 'st step_result outcome \<Rightarrow> bool" where
  "step_gas_ok g r \<longleftrightarrow> r \<noteq> Exhausted \<and>
     (\<forall>h c s. r = Done (Halt (h, c, s)) \<longrightarrow> unat (ct_Gas c) \<le> g) \<and>
     (\<forall>pc cx s. r = Done (Next pc cx s) \<longrightarrow> gas_of cx < g)"

lemma step_gas_simps [simp]:
  "step_gas_ok g Panicked"
  "step_gas_ok g (Done (Halt (h, c, s))) \<longleftrightarrow> unat (ct_Gas c) \<le> g"
  "step_gas_ok g (Done (Next pc cx s)) \<longleftrightarrow> gas_of cx < g"
  "step_gas_ok g (fail e cx s) \<longleftrightarrow> gas_of cx \<le> g"
  by (simp_all add: step_gas_ok_def fail_def gas_of_def)

lemma step_gas_bind:
  "(\<And>x. r = Some x \<Longrightarrow> step_gas_ok g (f x)) \<Longrightarrow> step_gas_ok g (obind (of_opt r) f)"
  by (cases r) simp_all

lemma after_op_gas:
  assumes "exec_gas_ok (op_halts o' \<or> op_reverts o') g r"
  shows "step_gas_ok g (obind r (\<lambda>x. Done (after_op o' x)))"
proof (cases r)
  case (Done x)
  obtain res pc cx s where x: "x = (res, pc, cx, s)" by (cases x)
  from assms Done x show ?thesis
    by (cases res) (auto simp: exec_gas_ok_def after_op_def gas_of_def Let_def split: if_splits)
qed (use assms in \<open>simp_all add: exec_gas_ok_def\<close>)

lemma charge_dynamic_le: "charge_dynamic E o' cx msz s = Some (ok, cx2, s2) \<Longrightarrow> gas_of cx2 \<le> gas_of cx"
  by (auto simp: charge_dynamic_def gas_of_def Let_def split: option.splits bind_splits sum.splits prod.splits
      dest!: UseGas_spec)

lemma exec_op_gas:
  assumes ok: "gas_ok o'" and run: "gas_runner run (gas_of cx)"
  shows "step_gas_ok (gas_of cx) (exec_op run E op o' pc cx s)"
proof -
  obtain b c where u: "Contract_UseGas (cx_contract cx) (op_constantGas o') = (b, c)" by fastforce
  let ?cx = "cx\<lparr>cx_contract := c\<rparr>"
  have g: "b \<Longrightarrow> gas_of cx = unat (op_constantGas o') + gas_of ?cx" "gas_of ?cx \<le> gas_of cx"
    using UseGas_spec [OF u] by (auto simp: gas_of_def)
  have dyn: "step_gas_ok (gas_of cx) (obind (of_opt (charge_dynamic E o' ?cx m s)) (\<lambda>(ok, cx, s).
      if \<not> ok then fail ErrOutOfGas cx s
      else let cx = if m > 0 then cx\<lparr>cx_memory := Memory_Resize (cx_memory cx) m\<rparr> else cx
           in obind (op_execute o' run E pc cx s) (\<lambda>r. Done (after_op o' r))))" if "b" for m
  proof (rule step_gas_bind)
    fix x assume x: "charge_dynamic E o' ?cx m s = Some x"
    obtain ok cx2 s2 where y: "x = (ok, cx2, s2)" by (cases x)
    let ?mem = "if m > 0 then Memory_Resize (cx_memory cx2) m else cx_memory cx2"
    have le: "gas_of cx2 \<le> gas_of cx" using charge_dynamic_le [OF x [unfolded y]] g(2) by simp
    have upd: "(if m > 0 then cx2\<lparr>cx_memory := Memory_Resize (cx_memory cx2) m\<rparr> else cx2) = cx2\<lparr>cx_memory := ?mem\<rparr>"
      by simp
    have "exec_gas_ok (op_halts o' \<or> op_reverts o') (gas_of cx) (op_execute o' run E pc (cx2\<lparr>cx_memory := ?mem\<rparr>) s2)" if "ok"
      unfolding g(1) [OF \<open>b\<close>]
      by (rule ok [unfolded gas_ok_def, rule_format, of run ?cx]) (use run x y that g(1) [OF \<open>b\<close>] in simp_all)
    then show "step_gas_ok (gas_of cx) (case x of (ok, cx, s) \<Rightarrow> if \<not> ok then fail ErrOutOfGas cx s
      else let cx = if m > 0 then cx\<lparr>cx_memory := Memory_Resize (cx_memory cx) m\<rparr> else cx
           in obind (op_execute o' run E pc cx s) (\<lambda>r. Done (after_op o' r)))"
      unfolding y prod.case Let_def upd using le by (cases ok) (simp_all add: after_op_gas)
  qed
  show ?thesis
    unfolding exec_op_def Let_def u prod.case
    using g(2) by (auto intro!: step_gas_bind simp: dyn [unfolded Let_def])
qed

lemma interp_step_gas:
  assumes t: "table_ok jt" and run: "gas_runner run (gas_of cx)"
  shows "step_gas_ok (gas_of cx) (interp_step run E jt steps pc cx s)"
proof -
  have "step_gas_ok (gas_of cx) (exec_op run E op o' pc cx s)" if "jt op = Some o'" for op o' s
    using table_allD [OF t that] by (intro exec_op_gas [OF op_ok_gas run]) (simp add: entry_ok_def)
  then show ?thesis
    unfolding interp_step_def Let_def
    by (simp add: split_beta split: option.split) (simp add: gas_of_def)
qed

definition loop_gas_ok :: "nat \<Rightarrow> (nat \<Rightarrow> u64 \<Rightarrow> callCtx \<Rightarrow> 'st EVM_state \<Rightarrow> 'st run_result outcome) \<Rightarrow> bool" where
  "loop_gas_ok n loop \<longleftrightarrow> (\<forall>steps pc cx s. gas_of cx < n \<longrightarrow> loop steps pc cx s \<noteq> Exhausted \<and>
     (\<forall>h c s'. loop steps pc cx s = Done (h, c, s') \<longrightarrow> unat (ct_Gas c) \<le> gas_of cx))"

lemma loop_gasD:
  assumes "loop_gas_ok n loop" "gas_of cx < n"
  shows "loop steps pc cx s \<noteq> Exhausted" "loop steps pc cx s = Done (h, c, s') \<Longrightarrow> unat (ct_Gas c) \<le> gas_of cx"
  using assms unfolding loop_gas_ok_def by blast+

lemma run_frame_gas:
  assumes l: "loop_gas_ok n loop"
  shows "gas_runner (run_frame loop) n"
proof
  fix c :: Contract and input ro and s :: "'a EVM_state"
  let ?cx = "\<lparr>cx_memory = NewMemory, cx_stack = [], cx_rstack = [], cx_contract = c\<lparr>ct_Input := input\<rparr>\<rparr>"
  assume "unat (ct_Gas c) < n"
  then have g: "gas_of ?cx < n" by (simp add: gas_of_def)
  note L = loop_gasD(1) [OF l g] loop_gasD(2) [OF l g]
  show "run_frame loop c input ro s \<noteq> Exhausted"
    unfolding run_frame_def Let_def by (auto simp: L(1) obind_Exhausted)
  show "ct_Gas c' \<le> ct_Gas c" if "run_frame loop c input ro s = Done (r, c', s')" for r c' s'
    using that unfolding run_frame_def Let_def obind_Done
    by (auto split: if_splits dest!: L(2) simp: gas_of_def word_le_nat_alt)
qed

lemma interp_loop_gas: "table_ok jt \<Longrightarrow> loop_gas_ok n (interp_loop E jt n)"
proof (induction n)
  case 0
  then show ?case by (simp add: loop_gas_ok_def)
next
  case (Suc n)
  note IH = Suc.IH [OF Suc.prems]
  show ?case
    unfolding loop_gas_ok_def
  proof (intro allI impI)
    fix steps pc and cx :: callCtx and s assume lt: "gas_of cx < Suc n"
    let ?r = "interp_step (run_frame (interp_loop E jt n)) E jt (steps + 1) pc cx s"
    have r: "step_gas_ok (gas_of cx) ?r"
      using interp_step_gas [OF Suc.prems gas_runner_mono [OF run_frame_gas [OF IH]]] lt by simp
    show "interp_loop E jt (Suc n) steps pc cx s \<noteq> Exhausted \<and>
      (\<forall>h c s'. interp_loop E jt (Suc n) steps pc cx s = Done (h, c, s') \<longrightarrow> unat (ct_Gas c) \<le> gas_of cx)"
    proof (cases "\<exists>pc' cx' s'. ?r = Done (Next pc' cx' s')")
      case True
      then obtain pc' cx' s' where n: "?r = Done (Next pc' cx' s')" by blast
      then have g: "gas_of cx' < gas_of cx" using r by simp
      with lt have g': "gas_of cx' < n" by simp
      show ?thesis
      proof (intro conjI allI impI)
        show "interp_loop E jt (Suc n) steps pc cx s \<noteq> Exhausted"
          unfolding interp_loop.simps n obind_simps step_result.case by (rule loop_gasD(1) [OF IH g'])
        fix h c s'' assume "interp_loop E jt (Suc n) steps pc cx s = Done (h, c, s'')"
        then have "interp_loop E jt n (steps + 1) pc' cx' s' = Done (h, c, s'')"
          unfolding interp_loop.simps n obind_simps step_result.case .
        from loop_gasD(2) [OF IH g' this] g show "unat (ct_Gas c) \<le> gas_of cx" by simp
      qed
    next
      case False
      then consider h where "?r = Done (Halt h)" | "?r = Panicked"
        using r unfolding step_gas_ok_def by (metis outcome.exhaust step_result.exhaust)
      then show ?thesis
      proof cases
        case 1
        with r show ?thesis by (cases h) (auto simp: step_gas_ok_def)
      qed simp
    qed
  qed
qed

lemma table_gas_runner: "table_ok jt \<Longrightarrow> gas_runner (EVMInterpreter_Run E jt n) n"
  unfolding EVMInterpreter_Run_def by (intro run_frame_gas interp_loop_gas)

interpretation evm: gas_runner "EVMInterpreter_Run E (the (default_table r)) fuel" fuel for E r fuel
proof (rule table_gas_runner)
  show "table_ok (the (default_table r))"
    using entries.default_table_all default_table_defined by (metis option.sel)
qed

end
