(* ===== verification/StateDB_Laws.thy ===== *)
theory StateDB_Laws
  imports StateDB
begin

text \<open>
  The laws of the state database.  \<^verbatim>\<open>sdb_inv\<close> is its invariant; \<^verbatim>\<open>sdb_step\<close> says that an operation
  keeps the invariant and leaves alone the committed layer, the snapshots already taken and the
  logs already written (\<^verbatim>\<open>sdb_ext\<close>); the collection \<^verbatim>\<open>sdb_steps\<close> has one such lemma per operation,
  and the virtual machine's proofs are built from it.  \<^verbatim>\<open>revert_restores\<close> turns it into the meaning
  of a snapshot.  The account and storage laws describe each operation through the account of an
  address (\<^verbatim>\<open>account_of\<close>) and the value of a storage slot (\<^verbatim>\<open>slot_of\<close>).
\<close>

section \<open>Laws of the state database\<close>

subsection \<open>Invariant and frame\<close>

lemma mrep_rnd [simp]: "mrep (p\<lparr>rnd := r\<rparr>) es = mrep p es"
  by (simp add: mrep_def memdb_rel_def ents_def)

lemma memdb_inv_rnd [simp]: "memdb_inv (p\<lparr>rnd := r\<rparr>) = memdb_inv p"
  by (simp add: memdb_inv_def)

lemma MemDB_Get_rnd: "memdb_inv p \<Longrightarrow> MemDB_Get (p\<lparr>rnd := r\<rparr>) k = MemDB_Get p k"
  by (metis MemDB_Get_mrep memdb_inv_def mrep_rnd)

lemma DeepClone_id [simp]: "MemDB_DeepClone p = p"
  by (simp add: MemDB_DeepClone_def)

definition sdb_inv :: "('st \<Rightarrow> bool) \<Rightarrow> 'st StateDB \<Rightarrow> bool" where
  "sdb_inv ok s \<longleftrightarrow> cache_inv ok (sd_cacheDB s) \<and> distinct (sd_Suicided s) \<and>
     (\<forall>sn \<in> set (sd_snapshots s). memdb_inv (sn_changes sn) \<and> distinct (sn_suicided sn)) \<and>
     sorted (map sn_logsSize (sd_snapshots s) @ [length (sd_logs s)])"

text \<open>What every operation leaves alone until the transaction is committed: the committed layer,
  the snapshots already taken, and the logs already written.\<close>

definition sdb_ext :: "('st \<Rightarrow> bytes \<Rightarrow> db_error + bytes) \<Rightarrow> 'st StateDB \<Rightarrow> 'st StateDB \<Rightarrow> bool" where
  "sdb_ext view s s' \<longleftrightarrow>
     overlay_lookup view (cd_backend (sd_cacheDB s')) = overlay_lookup view (cd_backend (sd_cacheDB s)) \<and>
     take (length (sd_logs s)) (sd_logs s') = sd_logs s \<and>
     (\<exists>more. sd_snapshots s' = sd_snapshots s @ more \<and> (\<forall>sn \<in> set more. length (sd_logs s) \<le> sn_logsSize sn))"

lemma sdb_ext_refl [simp]: "sdb_ext view s s"
  by (simp add: sdb_ext_def)

lemma sdb_ext_trans:
  assumes "sdb_ext view s t" "sdb_ext view t u"
  shows "sdb_ext view s u"
proof -
  have l: "length (sd_logs s) \<le> length (sd_logs t)" using assms(1)
    by (metis length_take min.absorb_iff2 min.cobounded2 sdb_ext_def)
  have "take (length (sd_logs s)) (sd_logs u) = take (length (sd_logs s)) (take (length (sd_logs t)) (sd_logs u))"
    using l by (simp add: min_absorb1)
  then have "take (length (sd_logs s)) (sd_logs u) = sd_logs s" using assms
    unfolding sdb_ext_def by (metis (no_types))
  then show ?thesis using assms l by (fastforce simp: sdb_ext_def)
qed

definition sdb_step :: "('st \<Rightarrow> bool) \<Rightarrow> ('st \<Rightarrow> bytes \<Rightarrow> db_error + bytes) \<Rightarrow> 'st StateDB \<Rightarrow> 'st StateDB \<Rightarrow> bool" where
  "sdb_step ok view s s' \<longleftrightarrow> (sdb_inv ok s \<longrightarrow> sdb_inv ok s' \<and> sdb_ext view s s')"

named_theorems sdb_steps

lemma sdb_step_refl [simp, sdb_steps]: "sdb_step ok view s s"
  by (simp add: sdb_step_def)

lemma sdb_step_trans: "sdb_step ok view s t \<Longrightarrow> sdb_step ok view t u \<Longrightarrow> sdb_step ok view s u"
  by (auto simp: sdb_step_def intro: sdb_ext_trans)

lemma sdb_step_cache:
  assumes "cache_inv ok (sd_cacheDB s) \<Longrightarrow> cache_inv ok c \<and>
    overlay_lookup view (cd_backend c) = overlay_lookup view (cd_backend (sd_cacheDB s))"
  shows "sdb_step ok view s (s\<lparr>sd_cacheDB := c\<rparr>)"
  using assms by (auto simp: sdb_step_def sdb_inv_def sdb_ext_def)

lemma sdb_step_err [simp, sdb_steps]: "sdb_step ok view s (set_db_err s e)"
  unfolding set_db_err_def
  by (rule sdb_step_cache) (auto simp: cache_inv_def overlay_inv_def CacheDB_SetDbErr_def OverlayDB_SetError_def
      intro!: overlay_lookup_cong)

lemma sdb_step_AddRefund [sdb_steps]: "sdb_step ok view s (StateDB_AddRefund s g)"
  by (simp add: sdb_step_def sdb_inv_def sdb_ext_def StateDB_AddRefund_def)

lemma sdb_step_SubRefund [sdb_steps]: "StateDB_SubRefund s g = Some s' \<Longrightarrow> sdb_step ok view s s'"
  by (auto simp: sdb_step_def sdb_inv_def sdb_ext_def StateDB_SubRefund_def split: if_splits)

lemma sdb_step_AddLog [sdb_steps]: "sdb_step ok view s (StateDB_AddLog s l)"
  by (auto simp: sdb_step_def sdb_inv_def sdb_ext_def StateDB_AddLog_def sorted_append)

lemma sdb_step_Snapshot [sdb_steps]: "StateDB_Snapshot s = (n, s') \<Longrightarrow> sdb_step ok view s s'"
  by (auto simp: sdb_step_def sdb_inv_def sdb_ext_def StateDB_Snapshot_def cache_inv_def sorted_append)

lemma cache_put_backend: "cache_put c p k v = Some c' \<Longrightarrow> cd_backend c' = cd_backend c"
  by (auto simp: cache_put_def split: prod.splits bind_splits)

lemma cache_put_keeps:
  assumes "cache_put c p k v = Some c'" "cache_inv ok c"
  shows "cache_inv ok c' \<and> overlay_lookup view (cd_backend c') = overlay_lookup view (cd_backend c)"
  using assms cache_put_ok [OF assms(2), of p k v] by auto

lemma PutEthAccount_keeps:
  "CacheDB_PutEthAccount c addr a = Some c' \<Longrightarrow> cache_inv ok c \<Longrightarrow>
     cache_inv ok c' \<and> overlay_lookup view (cd_backend c') = overlay_lookup view (cd_backend c)"
  by (auto simp: CacheDB_PutEthAccount_def split: bind_splits if_splits dest: cache_put_keeps)

lemma sdb_step_put_account [sdb_steps]: "put_account s addr a = Some s' \<Longrightarrow> sdb_step ok view s s'"
  by (auto simp: put_account_def split: bind_splits dest: PutEthAccount_keeps intro!: sdb_step_cache)

lemma sdb_step_SetState [sdb_steps]: "StateDB_SetState s addr k v = Some s' \<Longrightarrow> sdb_step ok view s s'"
  by (auto simp: StateDB_SetState_def CacheDB_Put_def split: bind_splits dest: cache_put_keeps intro!: sdb_step_cache)

context persist_store begin

lemma sdb_step_cache_get:
  "cache_get ps (sd_cacheDB s) p k = Some (r, c) \<Longrightarrow> sdb_step ok view s (s\<lparr>sd_cacheDB := c\<rparr>)"
  by (intro sdb_step_cache) (auto dest: cache_get_keeps)

lemma GetEthAccount_cache:
  assumes "CacheDB_GetEthAccount ps c addr = Some (r, c')"
  shows "\<exists>q. cache_get ps c ST_ETH_ACCOUNT addr = Some (q, c')"
  using assms by (auto simp: CacheDB_GetEthAccount_def split: bind_splits sum.splits if_splits)

lemma GetEthAccount_keeps:
  "CacheDB_GetEthAccount ps c addr = Some (r, c') \<Longrightarrow> cache_inv ok c \<Longrightarrow>
     cache_inv ok c' \<and> cache_lookup view c' = cache_lookup view c \<and>
     overlay_lookup view (cd_backend c') = overlay_lookup view (cd_backend c) \<and> cd_memdb c' = cd_memdb c"
  using GetEthAccount_cache cache_get_keeps by blast

lemma balance_update_keeps:
  "balance_update ps f c addr v = Some (r, c') \<Longrightarrow> cache_inv ok c \<Longrightarrow>
     cache_inv ok c' \<and> overlay_lookup view (cd_backend c') = overlay_lookup view (cd_backend c)"
  by (auto simp: balance_update_def split: bind_splits option.splits
      dest!: GetEthAccount_keeps PutEthAccount_keeps [where ok = ok and view = view])

lemma GetBalance_keeps:
  "balanceHandle_GetBalance ps c addr = Some (r, c') \<Longrightarrow> cache_inv ok c \<Longrightarrow>
     cache_inv ok c' \<and> cache_lookup view c' = cache_lookup view c \<and>
     overlay_lookup view (cd_backend c') = overlay_lookup view (cd_backend c) \<and> cd_memdb c' = cd_memdb c"
  by (auto simp: balanceHandle_GetBalance_def split: bind_splits option.splits dest!: GetEthAccount_keeps)

lemma sdb_step_with_balance [sdb_steps]:
  assumes "with_balance_err s (balance_update ps f (sd_cacheDB s) addr v) = Some s'"
  shows "sdb_step ok view s s'"
proof -
  obtain r c where c: "balance_update ps f (sd_cacheDB s) addr v = Some (r, c)"
    and s': "s' = (case r of Some e \<Rightarrow> set_db_err (s\<lparr>sd_cacheDB := c\<rparr>) e | None \<Rightarrow> s\<lparr>sd_cacheDB := c\<rparr>)"
    using assms by (auto simp: with_balance_err_def Let_def split: bind_splits)
  have "sdb_step ok view s (s\<lparr>sd_cacheDB := c\<rparr>)"
    by (intro sdb_step_cache) (use balance_update_keeps [OF c] in blast)
  then show ?thesis unfolding s' by (auto split: option.splits intro: sdb_step_trans)
qed

lemma sdb_step_AddBalance [sdb_steps]: "StateDB_AddBalance ps s addr v = Some s' \<Longrightarrow> sdb_step ok view s s'"
  by (simp add: StateDB_AddBalance_def balanceHandle_AddBalance_def sdb_step_with_balance)

lemma sdb_step_SubBalance [sdb_steps]: "StateDB_SubBalance ps s addr v = Some s' \<Longrightarrow> sdb_step ok view s s'"
  by (simp add: StateDB_SubBalance_def balanceHandle_SubBalance_def sdb_step_with_balance)

lemma sdb_step_getEthAccount [sdb_steps]:
  assumes "StateDB_getEthAccount ps s addr = Some (a, s')"
  shows "sdb_step ok view s s'"
proof -
  obtain q e c where c: "CacheDB_GetEthAccount ps (sd_cacheDB s) addr = Some ((q, e), c)"
    and s': "s' = (case e of Some e \<Rightarrow> set_db_err (s\<lparr>sd_cacheDB := c\<rparr>) e | None \<Rightarrow> s\<lparr>sd_cacheDB := c\<rparr>)"
    using assms by (auto simp: StateDB_getEthAccount_def Let_def split: bind_splits option.splits)
  have "sdb_step ok view s (s\<lparr>sd_cacheDB := c\<rparr>)"
    by (intro sdb_step_cache) (use GetEthAccount_keeps [OF c] in blast)
  then show ?thesis unfolding s' by (auto split: option.splits intro: sdb_step_trans)
qed

lemma sdb_step_balance [sdb_steps]:
  assumes "balanceHandle_GetBalance ps (sd_cacheDB s) addr = Some (r, c)"
  shows "sdb_step ok view s (s\<lparr>sd_cacheDB := c\<rparr>)"
  by (intro sdb_step_cache) (use GetBalance_keeps [OF assms] in blast)

end

definition sdb_same :: "('st \<Rightarrow> bytes \<Rightarrow> db_error + bytes) \<Rightarrow> 'st StateDB \<Rightarrow> 'st StateDB \<Rightarrow> bool" where
  "sdb_same view s s' \<longleftrightarrow>
     cache_lookup view (sd_cacheDB s') = cache_lookup view (sd_cacheDB s) \<and>
     overlay_lookup view (cd_backend (sd_cacheDB s')) = overlay_lookup view (cd_backend (sd_cacheDB s)) \<and>
     sd_Suicided s' = sd_Suicided s \<and> sd_logs s' = sd_logs s \<and> sd_refund s' = sd_refund s \<and>
     sd_snapshots s' = sd_snapshots s"

text \<open>Reverting to a snapshot restores everything a later read can see, whatever happened since.\<close>

lemma revert_restores:
  assumes inv: "sdb_inv ok s0" and sn: "StateDB_Snapshot s0 = (n, s1)" and st: "sdb_step ok view s1 s2"
  shows "\<exists>s3. StateDB_RevertToSnapshot s2 n = Some s3 \<and> sdb_inv ok s3 \<and> sdb_same view s0 s3"
proof -
  define sn0 where "sn0 = \<lparr>sn_changes = cd_memdb (sd_cacheDB s0), sn_suicided = sd_Suicided s0,
    sn_logsSize = length (sd_logs s0), sn_refund = sd_refund s0\<rparr>"
  have s1: "s1 = s0\<lparr>sd_snapshots := sd_snapshots s0 @ [sn0]\<rparr>" and n: "n = length (sd_snapshots s0)"
    using sn by (auto simp: StateDB_Snapshot_def sn0_def)
  have i1: "sdb_inv ok s1" using inv sdb_step_Snapshot [OF sn, of ok view] by (simp add: sdb_step_def)
  have i2: "sdb_inv ok s2" and e2: "sdb_ext view s1 s2" using st i1 by (auto simp: sdb_step_def)
  obtain more where sn2: "sd_snapshots s2 = sd_snapshots s0 @ sn0 # more"
    using e2 by (auto simp: sdb_ext_def s1)
  have lg: "take (length (sd_logs s0)) (sd_logs s2) = sd_logs s0" using e2 by (simp add: sdb_ext_def s1)
  then have ll: "length (sd_logs s0) \<le> length (sd_logs s2)" by (metis length_take min.cobounded1)
  let ?c = "(sd_cacheDB s2)\<lparr>cd_memdb := (sn_changes sn0)\<lparr>rnd := rnd (cd_memdb (sd_cacheDB s2))\<rparr>\<rparr>"
  define s3 where "s3 = s2\<lparr>sd_snapshots := sd_snapshots s0, sd_cacheDB := ?c, sd_Suicided := sd_Suicided s0,
    sd_refund := sd_refund s0, sd_logs := sd_logs s0\<rparr>"
  have r: "StateDB_RevertToSnapshot s2 n = Some s3"
    using lg ll by (simp add: StateDB_RevertToSnapshot_def n sn2 idx_def nth_append go_slice_def s3_def sn0_def Let_def)
  have m: "memdb_inv (cd_memdb (sd_cacheDB s0))" using inv by (simp add: sdb_inv_def cache_inv_def)
  have ov: "overlay_lookup view (cd_backend (sd_cacheDB s2)) = overlay_lookup view (cd_backend (sd_cacheDB s0))"
    using e2 by (simp add: sdb_ext_def s1)
  have "cache_lookup view ?c = cache_lookup view (sd_cacheDB s0)"
    by (rule ext) (simp add: cache_lookup_def MemDB_Get_rnd [OF m] sn0_def ov cong: option.case_cong prod.case_cong bool.case_cong)
  moreover have "cache_inv ok ?c" using i2 m by (simp add: sdb_inv_def cache_inv_def sn0_def)
  ultimately have "sdb_same view s0 s3" "sdb_inv ok s3"
    using inv ov by (auto simp: sdb_same_def sdb_inv_def s3_def)
  with r show ?thesis by blast
qed

lemma revert_step:
  assumes "sdb_inv ok s0" "StateDB_Snapshot s0 = (n, s1)" "sdb_step ok view s1 s2" "StateDB_RevertToSnapshot s2 n = Some s3"
  shows "sdb_step ok view s0 s3"
  using revert_restores [OF assms(1-3)] assms(4) by (auto simp: sdb_step_def sdb_ext_def sdb_same_def)

context persist_store begin

lemma sdb_step_GetState [sdb_steps]:
  assumes "StateDB_GetState ps s addr k = Some (v, s')"
  shows "sdb_step ok view s s'"
proof -
  obtain r c where c: "cache_get ps (sd_cacheDB s) ST_STORAGE (genKey addr k) = Some (r, c)"
    and s': "s' = (case r of Inl e \<Rightarrow> set_db_err (s\<lparr>sd_cacheDB := c\<rparr>) e | Inr _ \<Rightarrow> s\<lparr>sd_cacheDB := c\<rparr>)"
    using assms by (auto simp: StateDB_GetState_def CacheDB_Get_def Let_def split: bind_splits sum.splits)
  show ?thesis unfolding s' using sdb_step_cache_get [OF c]
    by (auto split: sum.splits intro: sdb_step_trans)
qed

lemma sdb_step_GetCommittedState [sdb_steps]:
  assumes "StateDB_GetCommittedState ps s addr k = Some (v, s')"
  shows "sdb_step ok view s s'"
proof -
  obtain w e od where od: "OverlayDB_Get ps (cd_backend (sd_cacheDB s)) (GenAccountStateKey addr k) = Some ((w, e), od)"
    and s': "s' = (case e of Some e \<Rightarrow> set_db_err (s\<lparr>sd_cacheDB := (sd_cacheDB s)\<lparr>cd_backend := od\<rparr>\<rparr>) e
      | None \<Rightarrow> s\<lparr>sd_cacheDB := (sd_cacheDB s)\<lparr>cd_backend := od\<rparr>\<rparr>)"
    using assms by (auto simp: StateDB_GetCommittedState_def Let_def split: bind_splits option.splits)
  have "sdb_step ok view s (s\<lparr>sd_cacheDB := (sd_cacheDB s)\<lparr>cd_backend := od\<rparr>\<rparr>)"
    by (intro sdb_step_cache) (use overlay_get_keeps [OF _ od] in \<open>auto simp: cache_inv_def\<close>)
  then show ?thesis unfolding s' by (auto split: option.splits intro: sdb_step_trans)
qed

lemma sdb_step_Get [sdb_steps]:
  "StateDB_GetNonce ps s addr = Some (n, s') \<Longrightarrow> sdb_step ok view s s'"
  "StateDB_GetCodeHash ps s addr = Some (h, s') \<Longrightarrow> sdb_step ok view s s'"
  "StateDB_GetCode ps s addr = Some (c, s') \<Longrightarrow> sdb_step ok view s s'"
  "StateDB_GetCodeSize ps s addr = Some (m, s') \<Longrightarrow> sdb_step ok view s s'"
  by (auto simp: StateDB_GetNonce_def StateDB_GetCodeHash_def StateDB_GetCode_def StateDB_GetCodeSize_def
      split: bind_splits intro: sdb_step_getEthAccount)

lemma sdb_step_Set [sdb_steps]:
  "StateDB_SetNonce ps s addr n = Some s' \<Longrightarrow> sdb_step ok view s s'"
  "StateDB_SetCode L ps s addr c = Some s' \<Longrightarrow> sdb_step ok view s s'"
  by (auto simp: StateDB_SetNonce_def StateDB_SetCode_def Let_def split: bind_splits
      intro: sdb_step_trans [OF sdb_step_getEthAccount sdb_step_put_account])

lemma sdb_step_GetBalance [sdb_steps]:
  assumes "StateDB_GetBalance ps s addr = Some (b, s')"
  shows "sdb_step ok view s s'"
proof -
  obtain r c where c: "balanceHandle_GetBalance ps (sd_cacheDB s) addr = Some (r, c)"
    and s': "s' = (case r of Inl e \<Rightarrow> set_db_err (s\<lparr>sd_cacheDB := c\<rparr>) e | Inr _ \<Rightarrow> s\<lparr>sd_cacheDB := c\<rparr>)"
    using assms by (auto simp: StateDB_GetBalance_def Let_def split: bind_splits sum.splits)
  show ?thesis unfolding s' using sdb_step_balance [OF c] by (auto split: sum.splits intro: sdb_step_trans)
qed

lemma sdb_step_Suicided: "sdb_step ok view s (s\<lparr>sd_Suicided := List.insert addr (sd_Suicided s)\<rparr>)"
  by (auto simp: sdb_step_def sdb_inv_def sdb_ext_def)

lemma sdb_step_Suicide [sdb_steps]:
  assumes "StateDB_Suicide ps s addr = Some (b, s')"
  shows "sdb_step ok view s s'"
proof -
  obtain a s1 where s1: "StateDB_getEthAccount ps s addr = Some (a, s1)"
    and r: "EthAccount_IsEmpty a \<and> s' = s1 \<or>
      with_balance_err (s1\<lparr>sd_Suicided := List.insert addr (sd_Suicided s1)\<rparr>)
        (balanceHandle_SetBalance ps (sd_cacheDB (s1\<lparr>sd_Suicided := List.insert addr (sd_Suicided s1)\<rparr>)) addr 0) = Some s'"
    using assms by (auto simp: StateDB_Suicide_def Let_def split: bind_splits if_splits)
  show ?thesis using r sdb_step_getEthAccount [OF s1] sdb_step_Suicided sdb_step_trans
    unfolding balanceHandle_SetBalance_def by (metis sdb_step_with_balance)
qed

lemma account_and_balance:
  assumes "StateDB_getEthAccount ps s addr = Some (a, s1)" "balanceHandle_GetBalance ps (sd_cacheDB s1) addr = Some (r, c)"
  shows "sdb_step ok view s (s1\<lparr>sd_cacheDB := c\<rparr>)" "sdb_step ok view s (set_db_err (s1\<lparr>sd_cacheDB := c\<rparr>) e)"
  using sdb_step_getEthAccount [OF assms(1)] sdb_step_balance [OF assms(2)] sdb_step_err sdb_step_trans by blast+

lemma sdb_step_Exist [sdb_steps]:
  assumes "StateDB_Exist ps s addr = Some (b, s')"
  shows "sdb_step ok view s s'"
proof (cases "addr \<in> set (sd_Suicided s)")
  case False
  then obtain a s1 r c where "StateDB_getEthAccount ps s addr = Some (a, s1)"
    "balanceHandle_GetBalance ps (sd_cacheDB s1) addr = Some (r, c)"
    and "s' = s1\<lparr>sd_cacheDB := c\<rparr> \<or> (\<exists>e. s' = set_db_err (s1\<lparr>sd_cacheDB := c\<rparr>) e)"
    using assms by (fastforce simp: StateDB_Exist_def Let_def split: bind_splits sum.splits)
  then show ?thesis using account_and_balance by blast
qed (use assms in \<open>simp add: StateDB_Exist_def\<close>)

lemma sdb_step_Empty [sdb_steps]:
  assumes "StateDB_Empty ps s addr = Some (b, s')"
  shows "sdb_step ok view s s'"
proof -
  obtain a s1 r c where "StateDB_getEthAccount ps s addr = Some (a, s1)"
    "balanceHandle_GetBalance ps (sd_cacheDB s1) addr = Some (r, c)"
    and "s' = s1\<lparr>sd_cacheDB := c\<rparr> \<or> (\<exists>e. s' = set_db_err (s1\<lparr>sd_cacheDB := c\<rparr>) e)"
    using assms by (fastforce simp: StateDB_Empty_def Let_def split: bind_splits sum.splits)
  then show ?thesis using account_and_balance by blast
qed

end

subsection \<open>Accounts and storage slots as functions of the address\<close>

definition account_of :: "('st \<Rightarrow> bytes \<Rightarrow> db_error + bytes) \<Rightarrow> 'st CacheDB \<Rightarrow> bytes \<Rightarrow> EthAccount option" where
  "account_of view c addr =
     (case cache_lookup view c (ST_ETH_ACCOUNT # addr) of
        Inl e \<Rightarrow> None
      | Inr v \<Rightarrow>
          (if v = [] then Some no_account
           else (case EthAccount_Deserialization no_account (NewZeroCopySource v) of
              Some (None, a) \<Rightarrow> Some a
            | _ \<Rightarrow> None)))"

definition slot_of :: "('st \<Rightarrow> bytes \<Rightarrow> db_error + bytes) \<Rightarrow> 'st CacheDB \<Rightarrow> bytes \<Rightarrow> bytes \<Rightarrow> db_error + bytes" where
  "slot_of view c addr key = map_sum id BytesToHash (cache_lookup view c (ST_STORAGE # addr @ key))"

definition stored :: "EthAccount \<Rightarrow> EthAccount" where
  "stored a = (if EthAccount_IsEmpty a then no_account else a)"

lemma prefix_distinct [simp]: "ST_STORAGE \<noteq> ST_ETH_ACCOUNT" "ST_ETH_ACCOUNT \<noteq> ST_STORAGE"
  by (simp_all add: ST_STORAGE_def ST_ETH_ACCOUNT_def)

lemma account_of_cong: "cache_lookup view c' = cache_lookup view c \<Longrightarrow> account_of view c' = account_of view c"
  by (simp add: account_of_def fun_eq_iff)

lemma slot_of_cong: "cache_lookup view c' = cache_lookup view c \<Longrightarrow> slot_of view c' = slot_of view c"
  by (simp add: slot_of_def fun_eq_iff)

lemma PutEthAccount_ok:
  assumes "cache_inv ok c" "EthAccount_IsEmpty a \<or> account_wf a"
  shows "\<exists>c'. CacheDB_PutEthAccount c addr a = Some c' \<and> cache_inv ok c' \<and> cd_backend c' = cd_backend c \<and>
    (\<forall>view. account_of view c' = (account_of view c)(addr \<mapsto> stored a) \<and> slot_of view c' = slot_of view c)"
proof -
  define raw where "raw = (if EthAccount_IsEmpty a then [] else encode_account a)"
  obtain c' where c': "cache_put c ST_ETH_ACCOUNT addr raw = Some c'" "cache_inv ok c'" "cd_backend c' = cd_backend c"
    and l: "\<And>view j. cache_lookup view c' j = (if j = ST_ETH_ACCOUNT # addr then Inr raw else cache_lookup view c j)"
    using cache_put_ok [OF assms(1), of ST_ETH_ACCOUNT addr raw] by auto
  have p: "CacheDB_PutEthAccount c addr a = Some c'"
    using assms(2) c'(1) SerializeToBytes_account [of a] by (auto simp: CacheDB_PutEthAccount_def raw_def)
  have "account_of view c' j = ((account_of view c)(addr \<mapsto> stored a)) j" for view j
  proof (cases "j = addr")
    case True
    show ?thesis
    proof (cases "EthAccount_IsEmpty a")
      case True
      then show ?thesis using \<open>j = addr\<close> by (simp add: account_of_def l raw_def stored_def)
    next
      case False
      then have "account_wf a" "raw = encode_account a" using assms(2) by (auto simp: raw_def)
      then show ?thesis using \<open>j = addr\<close> False length_encode_account [of a] Deserialization_account [of a no_account]
        by (auto simp: account_of_def l stored_def)
    qed
  next
    case False
    then show ?thesis by (simp add: account_of_def l)
  qed
  moreover have "slot_of view c' = slot_of view c" for view by (simp add: slot_of_def l fun_eq_iff)
  ultimately show ?thesis using p c'(2,3) by (auto simp: fun_eq_iff)
qed

context persist_store begin

lemma GetEthAccount_ok:
  assumes "cache_inv ok c" "good (ST_ETH_ACCOUNT # addr)" "account_of view c addr = Some a"
  shows "\<exists>c'. CacheDB_GetEthAccount ps c addr = Some ((a, None), c') \<and> cache_inv ok c' \<and>
    cache_lookup view c' = cache_lookup view c \<and> overlay_lookup view (cd_backend c') = overlay_lookup view (cd_backend c)"
proof -
  obtain c' where c': "cache_get ps c ST_ETH_ACCOUNT addr = Some (cache_lookup view c (ST_ETH_ACCOUNT # addr), c')"
    and k: "cache_inv ok c'" "cache_lookup view c' = cache_lookup view c"
      "overlay_lookup view (cd_backend c') = overlay_lookup view (cd_backend c)"
    using cache_get_ok [OF assms(1,2)] by blast
  have "CacheDB_GetEthAccount ps c addr = Some ((a, None), c')"
    using assms(3) c' by (auto simp: CacheDB_GetEthAccount_def account_of_def split: sum.splits if_splits option.splits)
  then show ?thesis using k by blast
qed

lemma getEthAccount_ok:
  assumes "sdb_inv ok s" "good (ST_ETH_ACCOUNT # addr)" "account_of view (sd_cacheDB s) addr = Some a"
  shows "\<exists>s'. StateDB_getEthAccount ps s addr = Some (a, s') \<and> sdb_inv ok s' \<and> sdb_same view s s'"
proof -
  have "cache_inv ok (sd_cacheDB s)" using assms(1) by (simp add: sdb_inv_def)
  from GetEthAccount_ok [OF this assms(2,3)] obtain c' where c': "CacheDB_GetEthAccount ps (sd_cacheDB s) addr = Some ((a, None), c')"
    "cache_inv ok c'" "cache_lookup view c' = cache_lookup view (sd_cacheDB s)"
    "overlay_lookup view (cd_backend c') = overlay_lookup view (cd_backend (sd_cacheDB s))" by blast
  then have "StateDB_getEthAccount ps s addr = Some (a, s\<lparr>sd_cacheDB := c'\<rparr>)" by (simp add: StateDB_getEthAccount_def)
  then show ?thesis using c'(2-4) assms(1) by (auto simp: sdb_inv_def sdb_same_def)
qed

lemma put_account_ok:
  assumes "sdb_inv ok s" "EthAccount_IsEmpty a \<or> account_wf a"
  shows "\<exists>s'. put_account s addr a = Some s' \<and> sdb_inv ok s' \<and>
    account_of view (sd_cacheDB s') = (account_of view (sd_cacheDB s))(addr \<mapsto> stored a) \<and>
    slot_of view (sd_cacheDB s') = slot_of view (sd_cacheDB s)"
proof -
  have "cache_inv ok (sd_cacheDB s)" using assms(1) by (simp add: sdb_inv_def)
  from PutEthAccount_ok [OF this assms(2), of addr] obtain c' where
    "CacheDB_PutEthAccount (sd_cacheDB s) addr a = Some c'" "cache_inv ok c'"
    "account_of view c' = (account_of view (sd_cacheDB s))(addr \<mapsto> stored a)" "slot_of view c' = slot_of view (sd_cacheDB s)"
    by blast
  then show ?thesis using assms(1) by (auto simp: put_account_def sdb_inv_def)
qed

lemma balance_update_ok:
  assumes "sdb_inv ok s" "good (ST_ETH_ACCOUNT # addr)" "account_of view (sd_cacheDB s) addr = Some a"
    "f (ea_Balance a) (fst (Int_FromBig v)) = Some b" "account_wf (a\<lparr>ea_Balance := Some b\<rparr>)"
  shows "\<exists>s'. with_balance_err s (balance_update ps f (sd_cacheDB s) addr v) = Some s' \<and> sdb_inv ok s' \<and>
    account_of view (sd_cacheDB s') = (account_of view (sd_cacheDB s))(addr \<mapsto> stored (a\<lparr>ea_Balance := Some b\<rparr>)) \<and>
    slot_of view (sd_cacheDB s') = slot_of view (sd_cacheDB s)"
proof -
  have ci: "cache_inv ok (sd_cacheDB s)" using assms(1) by (simp add: sdb_inv_def)
  from GetEthAccount_ok [OF this assms(2,3)] obtain c1 where c1: "CacheDB_GetEthAccount ps (sd_cacheDB s) addr = Some ((a, None), c1)"
    "cache_inv ok c1" "cache_lookup view c1 = cache_lookup view (sd_cacheDB s)" by blast
  obtain c2 where c2: "CacheDB_PutEthAccount c1 addr (a\<lparr>ea_Balance := Some b\<rparr>) = Some c2" "cache_inv ok c2"
    "account_of view c2 = (account_of view c1)(addr \<mapsto> stored (a\<lparr>ea_Balance := Some b\<rparr>))" "slot_of view c2 = slot_of view c1"
    using PutEthAccount_ok [OF c1(2), of "a\<lparr>ea_Balance := Some b\<rparr>" addr] assms(5) by blast
  have "with_balance_err s (balance_update ps f (sd_cacheDB s) addr v) = Some (s\<lparr>sd_cacheDB := c2\<rparr>)"
    using c1(1) c2(1) assms(4) by (simp add: with_balance_err_def balance_update_def)
  then show ?thesis using c2(2-4) c1(3) assms(1) account_of_cong [OF c1(3)] slot_of_cong [OF c1(3)]
    by (auto simp: sdb_inv_def)
qed

lemma SetNonce_ok:
  assumes "sdb_inv ok s" "good (ST_ETH_ACCOUNT # addr)" "account_of view (sd_cacheDB s) addr = Some a" "account_wf a"
  shows "\<exists>s'. StateDB_SetNonce ps s addr n = Some s' \<and> sdb_inv ok s' \<and>
    account_of view (sd_cacheDB s') = (account_of view (sd_cacheDB s))(addr \<mapsto> stored (a\<lparr>ea_Nonce := n\<rparr>)) \<and>
    slot_of view (sd_cacheDB s') = slot_of view (sd_cacheDB s)"
proof -
  obtain s1 where s1: "StateDB_getEthAccount ps s addr = Some (a, s1)" "sdb_inv ok s1" "sdb_same view s s1"
    using getEthAccount_ok [OF assms(1-3)] by blast
  have "account_wf (a\<lparr>ea_Nonce := n\<rparr>)" using assms(4) by (simp add: account_wf_def)
  from put_account_ok [OF s1(2) disjI2 [OF this], of addr] show ?thesis
    using s1(1) account_of_cong [of view "sd_cacheDB s1" "sd_cacheDB s"] slot_of_cong [of view "sd_cacheDB s1" "sd_cacheDB s"] s1(3)
    unfolding StateDB_SetNonce_def sdb_same_def by simp
qed

lemma SetCode_ok:
  assumes "sdb_inv ok s" "good (ST_ETH_ACCOUNT # addr)" "account_of view (sd_cacheDB s) addr = Some a" "account_wf a"
    "length (lib_Keccak256 L code) = 32" "length code < 2 ^ 59"
  shows "\<exists>s'. StateDB_SetCode L ps s addr code = Some s' \<and> sdb_inv ok s' \<and>
    account_of view (sd_cacheDB s') = (account_of view (sd_cacheDB s))
      (addr \<mapsto> stored (a\<lparr>ea_CodeHash := lib_Keccak256 L code, ea_Code := code\<rparr>)) \<and>
    slot_of view (sd_cacheDB s') = slot_of view (sd_cacheDB s)"
proof -
  obtain s1 where s1: "StateDB_getEthAccount ps s addr = Some (a, s1)" "sdb_inv ok s1" "sdb_same view s s1"
    using getEthAccount_ok [OF assms(1-3)] by blast
  have "account_wf (a\<lparr>ea_CodeHash := lib_Keccak256 L code, ea_Code := code\<rparr>)" using assms(4-6) by (simp add: account_wf_def)
  from put_account_ok [OF s1(2) disjI2 [OF this], of addr] show ?thesis
    using s1(1) account_of_cong [of view "sd_cacheDB s1" "sd_cacheDB s"] slot_of_cong [of view "sd_cacheDB s1" "sd_cacheDB s"] s1(3)
    unfolding StateDB_SetCode_def sdb_same_def by simp
qed

lemma GetBalance_ok:
  assumes "sdb_inv ok s" "good (ST_ETH_ACCOUNT # addr)" "account_of view (sd_cacheDB s) addr = Some a" "ea_Balance a = Some b"
  shows "\<exists>s'. StateDB_GetBalance ps s addr = Some (int (uval b), s') \<and> sdb_inv ok s' \<and> sdb_same view s s'"
proof -
  have "cache_inv ok (sd_cacheDB s)" using assms(1) by (simp add: sdb_inv_def)
  from GetEthAccount_ok [OF this assms(2,3)] obtain c1 where c1: "CacheDB_GetEthAccount ps (sd_cacheDB s) addr = Some ((a, None), c1)"
    "cache_inv ok c1" "cache_lookup view c1 = cache_lookup view (sd_cacheDB s)"
    "overlay_lookup view (cd_backend c1) = overlay_lookup view (cd_backend (sd_cacheDB s))" by blast
  then have "StateDB_GetBalance ps s addr = Some (int (uval b), s\<lparr>sd_cacheDB := c1\<rparr>)"
    using assms(4) by (simp add: StateDB_GetBalance_def balanceHandle_GetBalance_def Int_ToBig_def)
  then show ?thesis using c1(2-4) assms(1) by (auto simp: sdb_inv_def sdb_same_def)
qed

text \<open>An account that is in no layer, or whose last write was dropped because its nonce and code
  hash are zero, has no balance at all: asking for it panics.\<close>

lemma GetBalance_no_account:
  assumes "sdb_inv ok s" "good (ST_ETH_ACCOUNT # addr)" "account_of view (sd_cacheDB s) addr = Some a" "ea_Balance a = None"
  shows "StateDB_GetBalance ps s addr = None"
proof -
  have "cache_inv ok (sd_cacheDB s)" using assms(1) by (simp add: sdb_inv_def)
  from GetEthAccount_ok [OF this assms(2,3)] show ?thesis
    using assms(4) by (auto simp: StateDB_GetBalance_def balanceHandle_GetBalance_def)
qed

lemma GetState_ok:
  assumes "sdb_inv ok s" "good (ST_STORAGE # addr @ key)"
  shows "\<exists>s'. StateDB_GetState ps s addr key =
      Some (case slot_of view (sd_cacheDB s) addr key of Inl e \<Rightarrow> zero_hash | Inr h \<Rightarrow> h, s') \<and>
    sdb_inv ok s' \<and> sdb_same view s s'"
proof -
  have "cache_inv ok (sd_cacheDB s)" using assms(1) by (simp add: sdb_inv_def)
  from cache_get_ok [OF this assms(2)] obtain c' where c':
    "cache_get ps (sd_cacheDB s) ST_STORAGE (addr @ key) = Some (cache_lookup view (sd_cacheDB s) (ST_STORAGE # addr @ key), c')"
    "cache_inv ok c'" "cache_lookup view c' = cache_lookup view (sd_cacheDB s)"
    "overlay_lookup view (cd_backend c') = overlay_lookup view (cd_backend (sd_cacheDB s))" by blast
  have "overlay_inv ok (cd_backend c')" "memdb_inv (cd_memdb c')" using c'(2) by (auto simp: cache_inv_def)
  then have e: "sdb_inv ok (set_db_err (s\<lparr>sd_cacheDB := c'\<rparr>) x) \<and> sdb_same view s (set_db_err (s\<lparr>sd_cacheDB := c'\<rparr>) x)" for x
    using assms(1) c'(3,4) overlay_lookup_cong [of "OverlayDB_SetError (cd_backend c') x" "cd_backend c'" view]
      cache_lookup_cong [of "CacheDB_SetDbErr c' x" c' view]
    by (auto simp: sdb_inv_def sdb_same_def set_db_err_def CacheDB_SetDbErr_def cache_inv_def overlay_inv_def OverlayDB_SetError_def)
  have n: "sdb_inv ok (s\<lparr>sd_cacheDB := c'\<rparr>) \<and> sdb_same view s (s\<lparr>sd_cacheDB := c'\<rparr>)"
    using assms(1) c' by (auto simp: sdb_inv_def sdb_same_def)
  show ?thesis using c'(1) e n
    by (cases "cache_lookup view (sd_cacheDB s) (ST_STORAGE # addr @ key)")
      (auto simp: StateDB_GetState_def CacheDB_Get_def genKey_def slot_of_def Let_def)
qed

end

lemma SetState_ok:
  assumes "sdb_inv ok s" "length v = 32" "length addr = 20" "length key = 32"
  shows "\<exists>s'. StateDB_SetState s addr key v = Some s' \<and> sdb_inv ok s' \<and>
    (\<forall>view. account_of view (sd_cacheDB s') = account_of view (sd_cacheDB s)) \<and>
    (\<forall>view a k. length a = 20 \<longrightarrow> slot_of view (sd_cacheDB s') a k =
      (if a = addr \<and> k = key then Inr v else slot_of view (sd_cacheDB s) a k))"
proof -
  have "cache_inv ok (sd_cacheDB s)" using assms(1) by (simp add: sdb_inv_def)
  from cache_put_ok [OF this, of ST_STORAGE "addr @ key" v] obtain c' where
    c': "cache_put (sd_cacheDB s) ST_STORAGE (addr @ key) v = Some c'" "cache_inv ok c'"
    "\<And>view j. cache_lookup view c' j = (if j = ST_STORAGE # addr @ key then Inr v else cache_lookup view (sd_cacheDB s) j)"
    by blast
  have a: "account_of view c' = account_of view (sd_cacheDB s)" for view by (simp add: account_of_def c'(3) fun_eq_iff)
  have b: "slot_of view c' a k = (if a = addr \<and> k = key then Inr v else slot_of view (sd_cacheDB s) a k)" if "length a = 20" for view a k
    using that assms(2,3) by (simp add: slot_of_def c'(3))
  show ?thesis using c'(1,2) a b assms(1) by (auto simp: StateDB_SetState_def CacheDB_Put_def genKey_def sdb_inv_def)
qed

subsection \<open>Sequences of operations\<close>

inductive statedb_op :: "go_libs \<Rightarrow> ('st, 'it) PersistStore \<Rightarrow> 'st StateDB \<Rightarrow> 'st StateDB \<Rightarrow> bool"
  for L :: go_libs and ps :: "('st, 'it) PersistStore" where
  op_GetState: "StateDB_GetState ps s a k = Some (v, s') \<Longrightarrow> statedb_op L ps s s'"
| op_SetState: "StateDB_SetState s a k v = Some s' \<Longrightarrow> statedb_op L ps s s'"
| op_GetCommittedState: "StateDB_GetCommittedState ps s a k = Some (v, s') \<Longrightarrow> statedb_op L ps s s'"
| op_GetBalance: "StateDB_GetBalance ps s a = Some (b, s') \<Longrightarrow> statedb_op L ps s s'"
| op_AddBalance: "StateDB_AddBalance ps s a i = Some s' \<Longrightarrow> statedb_op L ps s s'"
| op_SubBalance: "StateDB_SubBalance ps s a i = Some s' \<Longrightarrow> statedb_op L ps s s'"
| op_GetNonce: "StateDB_GetNonce ps s a = Some (n, s') \<Longrightarrow> statedb_op L ps s s'"
| op_SetNonce: "StateDB_SetNonce ps s a n = Some s' \<Longrightarrow> statedb_op L ps s s'"
| op_GetCodeHash: "StateDB_GetCodeHash ps s a = Some (v, s') \<Longrightarrow> statedb_op L ps s s'"
| op_GetCode: "StateDB_GetCode ps s a = Some (v, s') \<Longrightarrow> statedb_op L ps s s'"
| op_GetCodeSize: "StateDB_GetCodeSize ps s a = Some (m, s') \<Longrightarrow> statedb_op L ps s s'"
| op_SetCode: "StateDB_SetCode L ps s a v = Some s' \<Longrightarrow> statedb_op L ps s s'"
| op_AddRefund: "statedb_op L ps s (StateDB_AddRefund s n)"
| op_SubRefund: "StateDB_SubRefund s n = Some s' \<Longrightarrow> statedb_op L ps s s'"
| op_Suicide: "StateDB_Suicide ps s a = Some (q, s') \<Longrightarrow> statedb_op L ps s s'"
| op_Exist: "StateDB_Exist ps s a = Some (q, s') \<Longrightarrow> statedb_op L ps s s'"
| op_Empty: "StateDB_Empty ps s a = Some (q, s') \<Longrightarrow> statedb_op L ps s s'"
| op_AddLog: "statedb_op L ps s (StateDB_AddLog s l)"
| op_Snapshot: "StateDB_Snapshot s = (m, s') \<Longrightarrow> statedb_op L ps s s'"

text \<open>Runs as the virtual machine makes them: a snapshot is reverted to only after everything that
  was started inside it.\<close>

inductive statedb_run :: "go_libs \<Rightarrow> ('st, 'it) PersistStore \<Rightarrow> 'st StateDB \<Rightarrow> 'st StateDB \<Rightarrow> bool"
  for L :: go_libs and ps :: "('st, 'it) PersistStore" where
  run_done: "statedb_run L ps s s"
| run_op: "statedb_run L ps s t \<Longrightarrow> statedb_op L ps t u \<Longrightarrow> statedb_run L ps s u"
| run_revert: "statedb_run L ps s t \<Longrightarrow> StateDB_Snapshot t = (n, t1) \<Longrightarrow> statedb_run L ps t1 u \<Longrightarrow>
    StateDB_RevertToSnapshot u n = Some v \<Longrightarrow> statedb_run L ps s v"

context persist_store begin

lemma statedb_op_step: "statedb_op L ps s s' \<Longrightarrow> sdb_step ok view s s'"
  by (induction rule: statedb_op.induct) (blast intro: sdb_steps)+

lemma revert_step': "StateDB_Snapshot t = (n, t1) \<Longrightarrow> sdb_step ok view t1 u \<Longrightarrow> StateDB_RevertToSnapshot u n = Some v \<Longrightarrow>
  sdb_step ok view t v"
  using revert_step [of ok t n t1 view u v] by (auto simp: sdb_step_def)

lemma statedb_run_step: "statedb_run L ps s s' \<Longrightarrow> sdb_step ok view s s'"
proof (induction rule: statedb_run.induct)
  case (run_op s t u)
  then show ?case using statedb_op_step sdb_step_trans by blast
next
  case (run_revert s t n t1 u v)
  then show ?case using revert_step' sdb_step_trans by blast
qed simp

lemma snapshot_revert:
  assumes "sdb_inv ok s0" "StateDB_Snapshot s0 = (n, s1)" "statedb_run L ps s1 s2"
  shows "\<exists>s3. StateDB_RevertToSnapshot s2 n = Some s3 \<and> sdb_inv ok s3 \<and> sdb_same view s0 s3"
  using revert_restores [OF assms(1,2)] statedb_run_step [OF assms(3)] by blast

end

subsection \<open>Committing a transaction\<close>

definition wiped :: "bytes list \<Rightarrow> bytes \<Rightarrow> bool" where
  "wiped addrs k \<longleftrightarrow> (\<exists>a \<in> set addrs. k = ST_ETH_ACCOUNT # a \<or> is_prefix (ST_STORAGE # a) k)"

lemma clean_suicided_ok:
  assumes "libs_ok L" "store_enumerates ps view (od_store (cd_backend c)) ses sfresh spos" "cache_inv ok c"
  shows "\<exists>c'. clean_suicided L ps addrs c = Some (None, c') \<and> cache_inv ok c' \<and> cd_backend c' = cd_backend c \<and>
    (\<forall>k. cache_lookup view c' k = (if wiped addrs k then Inr [] else cache_lookup view c k))"
  using assms(2,3)
proof (induction addrs arbitrary: c)
  case (Cons a addrs)
  obtain c1 where c1: "cache_put c ST_ETH_ACCOUNT a [] = Some c1" "cache_inv ok c1" "cd_backend c1 = cd_backend c"
    "\<And>k. cache_lookup view c1 k = (if k = ST_ETH_ACCOUNT # a then Inr [] else cache_lookup view c k)"
    using cache_put_ok [OF Cons.prems(2), of ST_ETH_ACCOUNT a "[]"] by auto
  obtain c2 where c2: "CleanContractStorageData L ps c1 a = Some (None, c2)" "cache_inv ok c2" "cd_backend c2 = cd_backend c1"
    "\<And>k. cache_lookup view c2 k = (if is_prefix (ST_STORAGE # a) k then Inr [] else cache_lookup view c1 k)"
    using CleanContractStorageData_ok [OF assms(1), of ps view c1 ses sfresh spos ok a] Cons.prems(1) c1(2,3) by auto
  obtain c' where c': "clean_suicided L ps addrs c2 = Some (None, c')" "cache_inv ok c'" "cd_backend c' = cd_backend c2"
    "\<And>k. cache_lookup view c' k = (if wiped addrs k then Inr [] else cache_lookup view c2 k)"
    using Cons.IH [of c2] Cons.prems(1) c1(3) c2(2,3) by auto
  have "cache_lookup view c' k = (if wiped (a # addrs) k then Inr [] else cache_lookup view c k)" for k
    by (simp add: c'(4) c2(4) c1(4) wiped_def)
  then show ?case using c1(1,3) c2(1,3) c'(1-3) by (simp add: CacheDB_DelEthAccount_def)
qed (auto simp: wiped_def)

lemma StateDB_Commit_ok:
  assumes "libs_ok L" "store_enumerates ps view (od_store (cd_backend (sd_cacheDB s))) ses sfresh spos" "sdb_inv ok s"
  shows "\<exists>s'. StateDB_Commit L ps s = Some (None, s') \<and> sdb_inv ok s' \<and> sd_Suicided s' = [] \<and> sd_snapshots s' = [] \<and>
    (\<forall>k. overlay_lookup view (cd_backend (sd_cacheDB s')) k =
       (if wiped (sd_Suicided s) k then Inr [] else cache_lookup view (sd_cacheDB s) k)) \<and>
    (\<forall>k. cache_lookup view (sd_cacheDB s') k = overlay_lookup view (cd_backend (sd_cacheDB s')) k)"
proof -
  have ci: "cache_inv ok (sd_cacheDB s)" and d: "distinct (sd_Suicided s)" using assms(3) by (auto simp: sdb_inv_def)
  then have w: "wiped (lib_range L (sd_Suicided s)) = wiped (sd_Suicided s)"
    using assms(1) by (auto simp: libs_ok_def wiped_def fun_eq_iff)
  obtain c1 where c1: "clean_suicided L ps (lib_range L (sd_Suicided s)) (sd_cacheDB s) = Some (None, c1)" "cache_inv ok c1"
    "\<And>k. cache_lookup view c1 k = (if wiped (sd_Suicided s) k then Inr [] else cache_lookup view (sd_cacheDB s) k)"
    using clean_suicided_ok [OF assms(1,2) ci, of "lib_range L (sd_Suicided s)"] w by auto
  obtain c2 where c2: "CacheDB_Commit L c1 = Some c2" "cache_inv ok c2"
    "\<And>k. cache_lookup view c2 k = cache_lookup view c1 k" "\<And>k. overlay_lookup view (cd_backend c2) k = cache_lookup view c1 k"
    using CacheDB_Commit_ok [OF c1(2), of L] by blast
  let ?s = "s\<lparr>sd_cacheDB := c2, sd_Suicided := [], sd_snapshots := []\<rparr>"
  have "StateDB_Commit L ps s = Some (None, ?s)"
    using c1(1) c2(1) by (simp add: StateDB_Commit_def StateDB_CommitToCacheDB_def Let_def)
  then show ?thesis using c2(2-4) c1(3) by (auto simp: sdb_inv_def)
qed

end
