(* ===== verification/StateDB_Quiet.thy ===== *)
theory StateDB_Quiet
  imports StateDB_Laws
begin

text \<open>
  Two finer readings of what an operation of the state database does, besides \<open>sdb_step\<close>: \<open>same_step\<close>,
  for the operations that only read (nothing a later read can see changes), and \<open>quiet_step\<close>, for those
  that change accounts at most: storage slots, logs, self-destructed accounts and the refund stay.
\<close>

section \<open>Reading\<close>

definition same_step :: "('st \<Rightarrow> bool) \<Rightarrow> ('st \<Rightarrow> bytes \<Rightarrow> db_error + bytes) \<Rightarrow> 'st StateDB \<Rightarrow> 'st StateDB \<Rightarrow> bool" where
  "same_step ok view s s' \<longleftrightarrow> (sdb_inv ok s \<longrightarrow> sdb_inv ok s' \<and> sdb_same view s s')"

lemma same_step_refl [simp]: "same_step ok view s s"
  by (simp add: same_step_def sdb_same_def)

lemma same_step_trans: "same_step ok view s t \<Longrightarrow> same_step ok view t u \<Longrightarrow> same_step ok view s u"
  by (auto simp: same_step_def sdb_same_def)

lemma same_step_step: "same_step ok view s s' \<Longrightarrow> sdb_step ok view s s'"
  by (auto simp: same_step_def sdb_step_def sdb_same_def sdb_ext_def)

lemma same_step_cache:
  assumes "cache_inv ok (sd_cacheDB s) \<Longrightarrow> cache_inv ok c \<and> cache_lookup view c = cache_lookup view (sd_cacheDB s) \<and>
    overlay_lookup view (cd_backend c) = overlay_lookup view (cd_backend (sd_cacheDB s))"
  shows "same_step ok view s (s\<lparr>sd_cacheDB := c\<rparr>)"
  using assms by (auto simp: same_step_def sdb_inv_def sdb_same_def)

lemma SetDbErr_lookup:
  "overlay_lookup view (cd_backend (CacheDB_SetDbErr c e)) = overlay_lookup view (cd_backend c)"
  "cache_lookup view (CacheDB_SetDbErr c e) = cache_lookup view c"
proof -
  show o: "overlay_lookup view (cd_backend (CacheDB_SetDbErr c e)) = overlay_lookup view (cd_backend c)"
    by (rule overlay_lookup_cong) (simp_all add: CacheDB_SetDbErr_def OverlayDB_SetError_def)
  show "cache_lookup view (CacheDB_SetDbErr c e) = cache_lookup view c"
    by (rule cache_lookup_cong [OF _ o]) (simp add: CacheDB_SetDbErr_def)
qed

lemma same_step_err [simp]: "same_step ok view s (set_db_err s e)"
  unfolding set_db_err_def
  by (rule same_step_cache)
    (auto simp: SetDbErr_lookup, auto simp: CacheDB_SetDbErr_def OverlayDB_SetError_def cache_inv_def overlay_inv_def)

context persist_store begin

lemma same_getEthAccount:
  assumes "StateDB_getEthAccount ps s addr = Some (a, s')"
  shows "same_step ok view s s'"
proof -
  obtain q e c where c: "CacheDB_GetEthAccount ps (sd_cacheDB s) addr = Some ((q, e), c)"
    and s': "s' = (case e of Some e \<Rightarrow> set_db_err (s\<lparr>sd_cacheDB := c\<rparr>) e | None \<Rightarrow> s\<lparr>sd_cacheDB := c\<rparr>)"
    using assms by (auto simp: StateDB_getEthAccount_def Let_def split: bind_splits option.splits)
  have "same_step ok view s (s\<lparr>sd_cacheDB := c\<rparr>)"
    by (rule same_step_cache) (use GetEthAccount_keeps [OF c] in auto)
  then show ?thesis unfolding s' by (auto split: option.splits intro: same_step_trans)
qed

lemma same_handle:
  assumes "balanceHandle_GetBalance ps (sd_cacheDB s) addr = Some (r, c)"
  shows "same_step ok view s (s\<lparr>sd_cacheDB := c\<rparr>)"
  by (rule same_step_cache) (use GetBalance_keeps [OF assms] in auto)

lemma same_Get:
  "StateDB_GetNonce ps s addr = Some (n, s') \<Longrightarrow> same_step ok view s s'"
  "StateDB_GetCodeHash ps s addr = Some (h, s') \<Longrightarrow> same_step ok view s s'"
  "StateDB_GetCode ps s addr = Some (c, s') \<Longrightarrow> same_step ok view s s'"
  "StateDB_GetCodeSize ps s addr = Some (m, s') \<Longrightarrow> same_step ok view s s'"
  by (auto simp: StateDB_GetNonce_def StateDB_GetCodeHash_def StateDB_GetCode_def StateDB_GetCodeSize_def
      split: bind_splits intro: same_getEthAccount)

lemma same_GetBalance:
  assumes "StateDB_GetBalance ps s addr = Some (b, s')"
  shows "same_step ok view s s'"
proof -
  obtain r c where c: "balanceHandle_GetBalance ps (sd_cacheDB s) addr = Some (r, c)"
    and s': "s' = (case r of Inl e \<Rightarrow> set_db_err (s\<lparr>sd_cacheDB := c\<rparr>) e | Inr _ \<Rightarrow> s\<lparr>sd_cacheDB := c\<rparr>)"
    using assms by (auto simp: StateDB_GetBalance_def Let_def split: bind_splits sum.splits)
  show ?thesis unfolding s' using same_handle [OF c] by (auto split: sum.splits intro: same_step_trans)
qed

lemma same_GetState:
  assumes "StateDB_GetState ps s addr k = Some (v, s')"
  shows "same_step ok view s s'"
proof -
  obtain r c where c: "cache_get ps (sd_cacheDB s) ST_STORAGE (genKey addr k) = Some (r, c)"
    and s': "s' = (case r of Inl e \<Rightarrow> set_db_err (s\<lparr>sd_cacheDB := c\<rparr>) e | Inr _ \<Rightarrow> s\<lparr>sd_cacheDB := c\<rparr>)"
    using assms by (auto simp: StateDB_GetState_def CacheDB_Get_def Let_def split: bind_splits sum.splits)
  have "same_step ok view s (s\<lparr>sd_cacheDB := c\<rparr>)"
    by (rule same_step_cache) (use cache_get_keeps [OF _ c] in auto)
  then show ?thesis unfolding s' by (auto split: sum.splits intro: same_step_trans)
qed

lemma same_GetCommittedState:
  assumes "StateDB_GetCommittedState ps s addr k = Some (v, s')"
  shows "same_step ok view s s'"
proof -
  obtain w e od where od: "OverlayDB_Get ps (cd_backend (sd_cacheDB s)) (GenAccountStateKey addr k) = Some ((w, e), od)"
    and s': "s' = (case e of Some e \<Rightarrow> set_db_err (s\<lparr>sd_cacheDB := (sd_cacheDB s)\<lparr>cd_backend := od\<rparr>\<rparr>) e
      | None \<Rightarrow> s\<lparr>sd_cacheDB := (sd_cacheDB s)\<lparr>cd_backend := od\<rparr>\<rparr>)"
    using assms by (auto simp: StateDB_GetCommittedState_def Let_def split: bind_splits option.splits)
  have "same_step ok view s (s\<lparr>sd_cacheDB := (sd_cacheDB s)\<lparr>cd_backend := od\<rparr>\<rparr>)"
    by (rule same_step_cache) (use overlay_get_keeps [OF _ od] in \<open>auto simp: cache_inv_def intro!: cache_lookup_cong\<close>)
  then show ?thesis unfolding s' by (auto split: option.splits intro: same_step_trans)
qed

lemma same_account_and_balance:
  assumes "StateDB_getEthAccount ps s addr = Some (a, s1)" "balanceHandle_GetBalance ps (sd_cacheDB s1) addr = Some (r, c)"
  shows "same_step ok view s (s1\<lparr>sd_cacheDB := c\<rparr>)" "same_step ok view s (set_db_err (s1\<lparr>sd_cacheDB := c\<rparr>) e)"
  using same_getEthAccount [OF assms(1)] same_handle [OF assms(2)] same_step_err same_step_trans by blast+

lemma same_Exist:
  assumes "StateDB_Exist ps s addr = Some (b, s')"
  shows "same_step ok view s s'"
proof (cases "addr \<in> set (sd_Suicided s)")
  case False
  then obtain a s1 r c where "StateDB_getEthAccount ps s addr = Some (a, s1)"
    "balanceHandle_GetBalance ps (sd_cacheDB s1) addr = Some (r, c)"
    and "s' = s1\<lparr>sd_cacheDB := c\<rparr> \<or> (\<exists>e. s' = set_db_err (s1\<lparr>sd_cacheDB := c\<rparr>) e)"
    using assms by (fastforce simp: StateDB_Exist_def Let_def split: bind_splits sum.splits)
  then show ?thesis using same_account_and_balance by blast
qed (use assms in \<open>simp add: StateDB_Exist_def\<close>)

lemma same_Empty:
  assumes "StateDB_Empty ps s addr = Some (b, s')"
  shows "same_step ok view s s'"
proof -
  obtain a s1 r c where "StateDB_getEthAccount ps s addr = Some (a, s1)"
    "balanceHandle_GetBalance ps (sd_cacheDB s1) addr = Some (r, c)"
    and "s' = s1\<lparr>sd_cacheDB := c\<rparr> \<or> (\<exists>e. s' = set_db_err (s1\<lparr>sd_cacheDB := c\<rparr>) e)"
    using assms by (fastforce simp: StateDB_Empty_def Let_def split: bind_splits sum.splits)
  then show ?thesis using same_account_and_balance by blast
qed

lemmas same_reads = same_getEthAccount same_Get same_GetBalance same_GetState same_GetCommittedState same_Exist same_Empty

end

section \<open>Changing accounts only\<close>

definition quiet_step :: "('st \<Rightarrow> bool) \<Rightarrow> ('st \<Rightarrow> bytes \<Rightarrow> db_error + bytes) \<Rightarrow> 'st StateDB \<Rightarrow> 'st StateDB \<Rightarrow> bool" where
  "quiet_step ok view s s' \<longleftrightarrow> (sdb_inv ok s \<longrightarrow> sdb_inv ok s' \<and> sdb_ext view s s' \<and>
     slot_of view (sd_cacheDB s') = slot_of view (sd_cacheDB s) \<and>
     sd_logs s' = sd_logs s \<and> sd_Suicided s' = sd_Suicided s \<and> sd_refund s' = sd_refund s)"

lemma quiet_step_trans: "quiet_step ok view s t \<Longrightarrow> quiet_step ok view t u \<Longrightarrow> quiet_step ok view s u"
  by (auto simp: quiet_step_def intro: sdb_ext_trans)

lemma quiet_step_step: "quiet_step ok view s s' \<Longrightarrow> sdb_step ok view s s'"
  by (simp add: quiet_step_def sdb_step_def)

lemma same_step_quiet: "same_step ok view s s' \<Longrightarrow> quiet_step ok view s s'"
  using slot_of_cong by (auto simp: same_step_def quiet_step_def sdb_same_def sdb_ext_def)

lemma quiet_Snapshot: "quiet_step ok view s (snd (StateDB_Snapshot s))"
  using sdb_step_Snapshot [of s "fst (StateDB_Snapshot s)" "snd (StateDB_Snapshot s)" ok view]
  by (auto simp: quiet_step_def sdb_step_def StateDB_Snapshot_def Let_def)

lemma revert_same:
  assumes "sdb_step ok view (snd (StateDB_Snapshot s0)) s2" "StateDB_RevertToSnapshot s2 (fst (StateDB_Snapshot s0)) = Some s3"
  shows "same_step ok view s0 s3"
  using revert_restores [of ok s0 "fst (StateDB_Snapshot s0)" "snd (StateDB_Snapshot s0)" view s2] assms
  by (auto simp: same_step_def)

lemma PutEthAccount_slots:
  assumes "CacheDB_PutEthAccount c addr a = Some c'" "cache_inv ok c"
  shows "slot_of view c' = slot_of view c"
proof -
  obtain raw where "cache_put c ST_ETH_ACCOUNT addr raw = Some c'"
    using assms(1) by (auto simp: CacheDB_PutEthAccount_def split: bind_splits if_splits)
  then have "cache_lookup view c' j = (if j = ST_ETH_ACCOUNT # addr then Inr raw else cache_lookup view c j)" for j
    using cache_put_ok [OF assms(2), of ST_ETH_ACCOUNT addr raw] by auto
  then show ?thesis by (simp add: slot_of_def fun_eq_iff)
qed

lemma quiet_put:
  assumes "CacheDB_PutEthAccount (sd_cacheDB s) addr a = Some c"
  shows "quiet_step ok view s (s\<lparr>sd_cacheDB := c\<rparr>)"
  using PutEthAccount_keeps [OF assms, of ok view] PutEthAccount_slots [OF assms, of ok view]
  by (auto simp: quiet_step_def sdb_inv_def sdb_ext_def)

context persist_store begin

lemma quiet_with_balance:
  assumes "with_balance_err s (balance_update ps f (sd_cacheDB s) addr v) = Some s'"
  shows "quiet_step ok view s s'"
proof -
  obtain r c where c: "balance_update ps f (sd_cacheDB s) addr v = Some (r, c)"
    and s': "s' = (case r of Some e \<Rightarrow> set_db_err (s\<lparr>sd_cacheDB := c\<rparr>) e | None \<Rightarrow> s\<lparr>sd_cacheDB := c\<rparr>)"
    using assms by (auto simp: with_balance_err_def Let_def split: bind_splits)
  obtain q e c1 where c1: "CacheDB_GetEthAccount ps (sd_cacheDB s) addr = Some ((q, e), c1)"
    and c2: "c = c1 \<or> (\<exists>a. CacheDB_PutEthAccount c1 addr a = Some c)"
    using c by (fastforce simp: balance_update_def Let_def split: bind_splits option.splits)
  have "same_step ok view s (s\<lparr>sd_cacheDB := c1\<rparr>)"
    by (rule same_step_cache) (use GetEthAccount_keeps [OF c1] in auto)
  then have "quiet_step ok view s (s\<lparr>sd_cacheDB := c\<rparr>)"
    using c2 quiet_put [of "s\<lparr>sd_cacheDB := c1\<rparr>" addr _ c ok view] by (auto intro: quiet_step_trans same_step_quiet)
  then show ?thesis unfolding s' using quiet_step_trans same_step_quiet [OF same_step_err] by (fastforce split: option.splits)
qed

lemma quiet_accounts:
  "StateDB_AddBalance ps s addr v = Some s' \<Longrightarrow> quiet_step ok view s s'"
  "StateDB_SubBalance ps s addr v = Some s' \<Longrightarrow> quiet_step ok view s s'"
  "StateDB_SetNonce ps s addr n = Some s' \<Longrightarrow> quiet_step ok view s s'"
  "StateDB_SetCode L ps s addr code = Some s' \<Longrightarrow> quiet_step ok view s s'"
  by (auto simp: StateDB_AddBalance_def StateDB_SubBalance_def balanceHandle_AddBalance_def balanceHandle_SubBalance_def
      StateDB_SetNonce_def StateDB_SetCode_def put_account_def Let_def split: bind_splits
      intro: quiet_with_balance quiet_step_trans [OF same_step_quiet [OF same_getEthAccount] quiet_put])

end

end
