(* ===== verification/State_Laws.thy ===== *)
theory State_Laws
  imports Interpreter_Laws StateDB_Quiet
begin

text \<open>
  What the virtual machine does to the state database.  The locale \<open>evm_state\<close> has the laws of the database
  the machine relies on, over a relation \<open>R\<close> for every operation and a finer one \<open>F\<close> for reads and for
  snapshots that are reverted.
\<close>

section \<open>Instructions that leave the database alone\<close>

definition db_kept :: "('st StateDB \<Rightarrow> 'st StateDB \<Rightarrow> bool) \<Rightarrow> ('st, 'it) EVM \<Rightarrow> ('st, 'it) simple_op \<Rightarrow> bool" where
  "db_kept R E f \<longleftrightarrow> (\<forall>pc cx s res pc' cx' s'. f E pc cx s = Some (res, pc', cx', s') \<longrightarrow> R (es_StateDB s) (es_StateDB s'))"

definition gas_kept :: "('st StateDB \<Rightarrow> 'st StateDB \<Rightarrow> bool) \<Rightarrow> ('st, 'it) EVM \<Rightarrow> ('st, 'it) gasFunc \<Rightarrow> bool" where
  "gas_kept R E d \<longleftrightarrow> (\<forall>c st mem msz s r mem' s'. d E c st mem msz s = Some (r, mem', s') \<longrightarrow>
     R (es_StateDB s) (es_StateDB s'))"

named_theorems pure_ops
named_theorems pure_gas

lemma stack_op_pure [pure_ops]: "db_kept (=) E (stack_op f)"
  by (auto simp: db_kept_def stack_op_def split: bind_splits)

lemma op_classes_pure [pure_ops]:
  "db_kept (=) E (unop g)" "db_kept (=) E (binop h)" "db_kept (=) E (ternop i)" "db_kept (=) E (pushop j)"
  unfolding unop_def binop_def ternop_def by (rule pure_ops)+ (auto simp: db_kept_def pushop_def split: bind_splits)

lemma arith_pure [pure_ops]:
  "db_kept (=) E opAdd" "db_kept (=) E opSub" "db_kept (=) E opMul" "db_kept (=) E opDiv" "db_kept (=) E opSdiv"
  "db_kept (=) E opMod" "db_kept (=) E opSmod" "db_kept (=) E opExp" "db_kept (=) E opSignExtend" "db_kept (=) E opNot"
  "db_kept (=) E opLt" "db_kept (=) E opGt" "db_kept (=) E opSlt" "db_kept (=) E opSgt" "db_kept (=) E opEq"
  "db_kept (=) E opIszero" "db_kept (=) E opAnd" "db_kept (=) E opOr" "db_kept (=) E opXor" "db_kept (=) E opByte"
  "db_kept (=) E opAddmod" "db_kept (=) E opMulmod" "db_kept (=) E opSHL" "db_kept (=) E opSHR" "db_kept (=) E opSAR"
  unfolding arith_op_defs by (rule pure_ops)+

lemma push_pure [pure_ops]:
  "db_kept (=) E opAddress" "db_kept (=) E opOrigin" "db_kept (=) E opCaller" "db_kept (=) E opCallValue"
  "db_kept (=) E opCallDataSize" "db_kept (=) E opReturnDataSize" "db_kept (=) E opCodeSize" "db_kept (=) E opGasprice"
  "db_kept (=) E opCoinbase" "db_kept (=) E opTimestamp" "db_kept (=) E opNumber" "db_kept (=) E opDifficulty"
  "db_kept (=) E opGasLimit" "db_kept (=) E opChainID" "db_kept (=) E opPc" "db_kept (=) E opMsize" "db_kept (=) E opGas"
  unfolding push_op_defs by (rule pure_ops)+

lemma memory_pure [pure_ops]:
  "db_kept (=) E opSha3" "db_kept (=) E opCallDataLoad" "db_kept (=) E opCallDataCopy" "db_kept (=) E opCodeCopy"
  "db_kept (=) E opMload" "db_kept (=) E opMstore" "db_kept (=) E opMstore8" "db_kept (=) E opReturn"
  "db_kept (=) E opRevert" "db_kept (=) E opReturnDataCopy" "db_kept (=) E opBlockhash"
  by (auto simp: db_kept_def opSha3_def opCallDataLoad_def opCallDataCopy_def opCodeCopy_def opMload_def opMstore_def
      opMstore8_def opReturn_def opRevert_def return_memory_def opReturnDataCopy_def opBlockhash_def unop_def stack_op_def
      StateDB_AddPreimage_def Let_def split: bind_splits if_splits prod.splits)

lemma flow_pure [pure_ops]:
  "db_kept (=) E opJump" "db_kept (=) E opJumpi" "db_kept (=) E opJumpSub" "db_kept (=) E opReturnSub"
  "db_kept (=) E opJumpdest" "db_kept (=) E opBeginSub" "db_kept (=) E opStop" "db_kept (=) E opPop"
  "db_kept (=) E opPush1" "db_kept (=) E (makePush n k)" "db_kept (=) E (makeDup m)" "db_kept (=) E (makeSwap m)"
  by (auto simp: db_kept_def opJump_def opJumpi_def opJumpSub_def opReturnSub_def opJumpdest_def opBeginSub_def
      opStop_def opPop_def opPush1_def makePush_def makeDup_def makeSwap_def stack_op_def jump_to_def Let_def
      split: bind_splits if_splits)

lemma word_gas_pure: "gas_kept (=) E (memory_word_gas pos price)"
  by (auto simp: gas_kept_def memory_word_gas_def Let_def split: prod.splits sum.splits bind_splits)

lemma memory_gas_pure: "gas_kept (=) E pureMemoryGascost"
  by (auto simp: gas_kept_def pureMemoryGascost_def Let_def split: prod.splits)

lemma exp_gas_pure: "gas_kept (=) E (exp_gas g)"
  by (auto simp: gas_kept_def exp_gas_def Let_def split: bind_splits)

lemma log_gas_pure [pure_gas]: "gas_kept (=) E (makeGasLog n)"
  by (auto simp: gas_kept_def makeGasLog_def Let_def split: prod.splits sum.splits bind_splits)

lemma call_gas_state: "gas_memory_then_call E c st mem msz g s = Some (r, mem', s') \<Longrightarrow> es_StateDB s' = es_StateDB s"
  by (auto simp: gas_memory_then_call_def add_call_gas_def Let_def split: prod.splits sum.splits bind_splits)

lemma call_gas_pure [pure_gas]: "gas_kept (=) E gasCallCode" "gas_kept (=) E gasDelegateCall" "gas_kept (=) E gasStaticCall"
  by (auto simp: gas_kept_def gasCallCode_def gasDelegateCall_def gasStaticCall_def add_call_gas_def Let_def
      split: prod.splits sum.splits bind_splits dest: call_gas_state)

lemma gas_pure [pure_gas]:
  "gas_kept (=) E gasSha3" "gas_kept (=) E gasCallDataCopy" "gas_kept (=) E gasCodeCopy" "gas_kept (=) E gasExtCodeCopy"
  "gas_kept (=) E gasReturnDataCopy" "gas_kept (=) E gasCreate2" "gas_kept (=) E gasReturn" "gas_kept (=) E gasRevert"
  "gas_kept (=) E gasMLoad" "gas_kept (=) E gasMStore" "gas_kept (=) E gasMStore8" "gas_kept (=) E gasCreate"
  "gas_kept (=) E gasExpFrontier" "gas_kept (=) E gasExpEIP158"
  by (simp_all add: gasSha3_def gasCallDataCopy_def gasCodeCopy_def gasExtCodeCopy_def gasReturnDataCopy_def gasCreate2_def
      memoryCopierGas_def gasReturn_def gasRevert_def gasMLoad_def gasMStore_def gasMStore8_def gasCreate_def
      gasExpFrontier_def gasExpEIP158_def word_gas_pure memory_gas_pure exp_gas_pure)

section \<open>The laws the machine relies on\<close>

locale evm_state =
  fixes E :: "('st, 'it) EVM" and R F :: "'st StateDB \<Rightarrow> 'st StateDB \<Rightarrow> bool" and W :: bool
  assumes F_refl: "F db db"
    and F_trans: "F db1 db2 \<Longrightarrow> F db2 db3 \<Longrightarrow> F db1 db3"
    and F_R: "F db1 db2 \<Longrightarrow> R db1 db2"
    and R_trans: "R db1 db2 \<Longrightarrow> R db2 db3 \<Longrightarrow> R db1 db3"
    and getEthAccount_law: "StateDB_getEthAccount (evm_store E) db addr = Some (acct, db') \<Longrightarrow> F db db'"
    and GetBalance_law: "StateDB_GetBalance (evm_store E) db addr = Some (bal, db') \<Longrightarrow> F db db'"
    and GetState_law: "StateDB_GetState (evm_store E) db addr k = Some (v, db') \<Longrightarrow> F db db'"
    and GetCommittedState_law: "StateDB_GetCommittedState (evm_store E) db addr k = Some (v, db') \<Longrightarrow> F db db'"
    and Exist_law: "StateDB_Exist (evm_store E) db addr = Some (b, db') \<Longrightarrow> F db db'"
    and Empty_law: "StateDB_Empty (evm_store E) db addr = Some (b, db') \<Longrightarrow> F db db'"
    and CanTransfer_law: "bc_CanTransfer (evm_Context E) db addr amount = Some (b, db') \<Longrightarrow> F db db'"
    and Transfer_law: "bc_Transfer (evm_Context E) db from_addr to_addr amount = Some db' \<Longrightarrow> R db db'"
    and AddBalance_law: "StateDB_AddBalance (evm_store E) db addr amount = Some db' \<Longrightarrow> R db db'"
    and SetNonce_law: "StateDB_SetNonce (evm_store E) db addr n = Some db' \<Longrightarrow> R db db'"
    and SetCode_law: "StateDB_SetCode (evm_libs E) (evm_store E) db addr code = Some db' \<Longrightarrow> R db db'"
    and Snapshot_law: "R db (snd (StateDB_Snapshot db))"
    and Revert_law: "R (snd (StateDB_Snapshot db)) db' \<Longrightarrow>
      StateDB_RevertToSnapshot db' (fst (StateDB_Snapshot db)) = Some db'' \<Longrightarrow> F db db''"
    and SetState_law: "W \<Longrightarrow> StateDB_SetState db addr k v = Some db' \<Longrightarrow> R db db'"
    and AddLog_law: "W \<Longrightarrow> R db (StateDB_AddLog db l)"
    and AddRefund_law: "W \<Longrightarrow> R db (StateDB_AddRefund db g)"
    and SubRefund_law: "W \<Longrightarrow> StateDB_SubRefund db g = Some db' \<Longrightarrow> R db db'"
    and Suicide_law: "W \<Longrightarrow> StateDB_Suicide (evm_store E) db addr = Some (b, db') \<Longrightarrow> R db db'"
begin

lemma R_refl: "R db db"
  by (rule F_R [OF F_refl])

lemma Get_laws:
  "StateDB_GetNonce (evm_store E) db addr = Some (n, db') \<Longrightarrow> F db db'"
  "StateDB_GetCodeHash (evm_store E) db addr = Some (h, db') \<Longrightarrow> F db db'"
  "StateDB_GetCode (evm_store E) db addr = Some (c, db') \<Longrightarrow> F db db'"
  "StateDB_GetCodeSize (evm_store E) db addr = Some (m, db') \<Longrightarrow> F db db'"
  by (auto simp: StateDB_GetNonce_def StateDB_GetCodeHash_def StateDB_GetCode_def StateDB_GetCodeSize_def
      split: bind_splits intro: getEthAccount_law)

lemmas read_laws = getEthAccount_law GetBalance_law GetState_law GetCommittedState_law Exist_law Empty_law
  CanTransfer_law Get_laws

lemmas reads_R = read_laws [THEN F_R]

lemma pure_kept: "db_kept (=) E f \<Longrightarrow> db_kept R E f" "gas_kept (=) E d \<Longrightarrow> gas_kept R E d"
  unfolding db_kept_def gas_kept_def using R_refl by metis+

lemmas pure_ops_kept = pure_ops [THEN pure_kept(1)]
lemmas pure_gas_kept = pure_gas [THEN pure_kept(2)]

lemma reads_kept:
  "db_kept R E opBalance" "db_kept R E opExtCodeSize" "db_kept R E opExtCodeCopy" "db_kept R E opSelfBalance"
  "db_kept R E opSload"
  by (auto simp: db_kept_def opBalance_def opExtCodeSize_def opExtCodeCopy_def opSelfBalance_def opSload_def Let_def
      split: bind_splits if_splits intro: reads_R)

lemma extcodehash_kept: "db_kept R E opExtCodeHash"
  by (auto simp: db_kept_def opExtCodeHash_def Let_def split: bind_splits if_splits intro: reads_R R_trans)

text \<open>The laws as extensions of what is known so far.\<close>

lemma then_refund:
  assumes W
  shows "R db db1 \<Longrightarrow> R db (StateDB_AddRefund db1 g)" "R db db1 \<Longrightarrow> StateDB_SubRefund db1 g = Some db2 \<Longrightarrow> R db db2"
  using assms R_trans AddRefund_law SubRefund_law by blast+

lemma writes_kept:
  assumes W
  shows "db_kept R E opSstore" "db_kept R E (makeLog n)"
  using assms
  by (auto simp: db_kept_def opSstore_def makeLog_def Let_def split: bind_splits
      intro: SetState_law AddLog_law)

lemma suicide_kept: "W \<Longrightarrow> db_kept R E opSuicide"
  by (auto simp: db_kept_def opSuicide_def split: bind_splits
      dest!: GetBalance_law [THEN F_R] AddBalance_law Suicide_law elim!: R_trans)

lemma gasCall_kept: "gas_kept R E gasCall"
  by (auto simp: gas_kept_def gasCall_def Let_def R_refl split: bind_splits if_splits dest!: call_gas_state intro: reads_R)

lemma net_sstore_kept:
  assumes w: W and g: "net_sstore_gas E c x current val db noop init clean dirty r1 r2 r3 = Some (g, db')"
  shows "R db db'"
proof (cases "current = val")
  case False
  then obtain original db1 where db1: "StateDB_GetCommittedState (evm_store E) db (Contract_Address c) (Int_Bytes32 x) = Some (original, db1)"
    using g by (auto simp: net_sstore_gas_def split: bind_splits)
  have "R db db1" by (rule GetCommittedState_law [THEN F_R, OF db1])
  then show ?thesis
    using g False db1 by (auto simp: net_sstore_gas_def Let_def split: bind_splits if_splits intro: then_refund [OF w])
qed (use g R_refl in \<open>simp add: net_sstore_gas_def\<close>)

lemma sstore_gas_kept:
  assumes w: W
  shows "gas_kept R E gasSStore" "gas_kept R E gasSStoreEIP2200"
proof -
  note facts = GetState_law [THEN F_R] net_sstore_kept [OF w]
  show "gas_kept R E gasSStoreEIP2200"
    unfolding gas_kept_def gasSStoreEIP2200_def
    by (auto simp: R_refl split: bind_splits if_splits dest!: facts elim!: R_trans)
  have "R db (StateDB_AddRefund db1 g)" if "R db db1" for db db1 g by (rule then_refund(1) [OF w that])
  then show "gas_kept R E gasSStore"
    unfolding gas_kept_def gasSStore_def
    by (auto split: bind_splits if_splits dest!: facts elim: R_trans)
qed

lemma gasSelfdestruct_kept:
  assumes w: W
  shows "gas_kept R E gasSelfdestruct"
proof -
  have fin: "R db (if h then db1 else StateDB_AddRefund db1 g)" if "R db db1" for db db1 g h
    using that then_refund(1) [OF w that] by simp
  show ?thesis
    unfolding gas_kept_def gasSelfdestruct_def Let_def
    by (auto simp: R_refl split: bind_splits if_split_asm split del: if_split intro!: fin elim: R_trans
        dest!: Exist_law [THEN F_R] Empty_law [THEN F_R] GetBalance_law [THEN F_R])
qed

end

end
