(* ===== verification/State_Runs.thy ===== *)
theory State_Runs
  imports State_Laws
begin

text \<open>
  Runs and calls over the laws of \<open>evm_state\<close>.  The locale \<open>state_runner\<close> is the contract of a run: it leaves the
  read-only flag as it was, and the databases before and after it are related, provided that writing is
  allowed or the run is read-only (by the flag or by its argument) under rules that enforce this.  The call
  methods keep the contract, and a failed call restores its database up to \<open>F\<close>.
\<close>

section \<open>Calls\<close>

definition may_run :: "bool \<Rightarrow> ('st, 'it) EVM \<Rightarrow> bool \<Rightarrow> 'st EVM_state \<Rightarrow> bool" where
  "may_run W E ro s \<longleftrightarrow> W \<or> (es_readOnly s \<or> ro) \<and> r_IsByzantium (evm_chainRules E)"

definition run_kept ::
  "bool \<Rightarrow> ('st StateDB \<Rightarrow> 'st StateDB \<Rightarrow> bool) \<Rightarrow> ('st, 'it) EVM \<Rightarrow> 'st runner \<Rightarrow> bool" where
  "run_kept W R E run \<longleftrightarrow> (\<forall>c input ro s r c' s'. run c input ro s = Done (r, c', s') \<longrightarrow>
     es_readOnly s' = es_readOnly s \<and> (may_run W E ro s \<longrightarrow> R (es_StateDB s) (es_StateDB s')))"

text \<open>A part of a call, from the database it starts with.\<close>

definition part_kept ::
  "bool \<Rightarrow> ('st StateDB \<Rightarrow> 'st StateDB \<Rightarrow> bool) \<Rightarrow> ('st, 'it) EVM \<Rightarrow> bool \<Rightarrow> 'st EVM_state \<Rightarrow> 'st StateDB \<Rightarrow>
     ('x \<times> 'st EVM_state) outcome \<Rightarrow> bool" where
  "part_kept W R E ro s db r \<longleftrightarrow> (\<forall>x s'. r = Done (x, s') \<longrightarrow>
     es_readOnly s' = es_readOnly s \<and> (may_run W E ro s \<longrightarrow> R db (es_StateDB s')))"

definition call_kept ::
  "bool \<Rightarrow> ('st StateDB \<Rightarrow> 'st StateDB \<Rightarrow> bool) \<Rightarrow> ('st StateDB \<Rightarrow> 'st StateDB \<Rightarrow> bool) \<Rightarrow> ('st, 'it) EVM \<Rightarrow> bool \<Rightarrow>
     'st EVM_state \<Rightarrow> 'st call_result \<Rightarrow> bool" where
  "call_kept W R F E ro s r \<longleftrightarrow> (\<forall>ret g err s'. r = Done ((ret, g, err), s') \<longrightarrow>
     es_readOnly s' = es_readOnly s \<and>
     (may_run W E ro s \<longrightarrow> R (es_StateDB s) (es_StateDB s') \<and> (err \<noteq> None \<longrightarrow> F (es_StateDB s) (es_StateDB s'))))"

lemma part_done [simp]:
  "part_kept W R E ro s db (Done (x, s')) \<longleftrightarrow> es_readOnly s' = es_readOnly s \<and> (may_run W E ro s \<longrightarrow> R db (es_StateDB s'))"
  "part_kept W R E ro s db Panicked" "part_kept W R E ro s db Exhausted"
  by (auto simp: part_kept_def)

lemma part_bind: "(\<And>x. r = Some x \<Longrightarrow> part_kept W R E ro s db (f x)) \<Longrightarrow> part_kept W R E ro s db (obind (of_opt r) f)"
  by (cases r) simp_all

lemma call_done [simp]:
  "call_kept W R F E ro s (Done ((ret, g, err), s')) \<longleftrightarrow> es_readOnly s' = es_readOnly s \<and>
     (may_run W E ro s \<longrightarrow> R (es_StateDB s) (es_StateDB s') \<and> (err \<noteq> None \<longrightarrow> F (es_StateDB s) (es_StateDB s')))"
  "call_kept W R F E ro s Panicked" "call_kept W R F E ro s Exhausted"
  by (auto simp: call_kept_def)

lemma call_bind: "(\<And>x. r = Some x \<Longrightarrow> call_kept W R F E ro s (f x)) \<Longrightarrow> call_kept W R F E ro s (obind (of_opt r) f)"
  by (cases r) simp_all

lemma may_run_cong: "es_readOnly s' = es_readOnly s \<Longrightarrow> may_run W E ro s' = may_run W E ro s"
  by (simp add: may_run_def)

lemma obind_DoneE: "obind r f = Done b \<Longrightarrow> (\<And>a. r = Done a \<Longrightarrow> f a = Done b \<Longrightarrow> thesis) \<Longrightarrow> thesis"
  by (auto simp: obind_Done)

text \<open>The errors of a creation that are followed by a revert: all, but before Homestead not the lack of gas to store the
  code.\<close>

definition create_reverts :: "('st, 'it) EVM \<Rightarrow> evm_error option \<Rightarrow> bool" where
  "create_reverts E err \<longleftrightarrow> err \<noteq> None \<and> (r_IsHomestead (evm_chainRules E) \<or> err \<noteq> Some ErrCodeStoreOutOfGas)"

definition fails_by ::
  "('st StateDB \<Rightarrow> 'st StateDB \<Rightarrow> bool) \<Rightarrow> ('st, 'it) EVM \<Rightarrow> 'st StateDB \<Rightarrow> 'st create_result \<Rightarrow> bool" where
  "fails_by Q E d r \<longleftrightarrow> (\<forall>ret a g err s'. r = Done ((ret, a, g, err), s') \<longrightarrow> create_reverts E err \<longrightarrow> Q d (es_StateDB s'))"

lemma fails_done [simp]:
  "fails_by Q E d (Done ((ret, a, g, err), s')) \<longleftrightarrow> (create_reverts E err \<longrightarrow> Q d (es_StateDB s'))"
  by (auto simp: fails_by_def)

lemma fails_bind:
  "(\<And>x. r = Some x \<Longrightarrow> fails_by Q E d (f x)) \<Longrightarrow> fails_by Q E d (obind (of_opt r) f)"
  by (cases r) (simp_all add: fails_by_def)

lemma settle_create_cases:
  assumes "settle_create E snap address ((ret, err), c, s1) = Done (x, s')"
  obtains s2 where "s2 = s1 \<or> (\<exists>db2. StateDB_SetCode (evm_libs E) (evm_store E) (es_StateDB s1) address ret = Some db2 \<and> s2 = with_db s1 db2)"
    "s' = s2 \<or> (\<exists>db3. StateDB_RevertToSnapshot (es_StateDB s2) snap = Some db3 \<and> s' = with_db s2 db3)"
    "create_reverts E (snd (snd (snd x))) \<Longrightarrow> \<exists>db3. StateDB_RevertToSnapshot (es_StateDB s2) snap = Some db3 \<and> s' = with_db s2 db3"
  using assms unfolding settle_create_def Let_def prod.case
proof (rule obind_DoneE)
  fix y
  assume y: "(if err = None \<and> \<not> (r_IsEIP158 (evm_chainRules E) \<and> length ret > MaxCodeSize) then
       case Contract_UseGas c (of_nat (length ret) * CreateDataGas) of (ok, c') \<Rightarrow>
       if ok then obind (of_opt (StateDB_SetCode (evm_libs E) (evm_store E) (es_StateDB s1) address ret)) (\<lambda>db. Done (err, c', with_db s1 db))
       else Done (Some ErrCodeStoreOutOfGas, c', s1) else Done (err, c, s1)) = Done y"
    and z: "(case y of (err, c, s) \<Rightarrow> obind (if r_IsEIP158 (evm_chainRules E) \<and> length ret > MaxCodeSize \<or>
                  (err \<noteq> None \<and> (r_IsHomestead (evm_chainRules E) \<or> err \<noteq> Some ErrCodeStoreOutOfGas)) then
                 obind (of_opt (StateDB_RevertToSnapshot (es_StateDB s) snap)) (\<lambda>db.
                   Done (if err \<noteq> Some ErrExecutionReverted then snd (Contract_UseGas c (ct_Gas c)) else c, with_db s db))
               else Done (c, s)) (\<lambda>(c, s). Done ((ret, address, ct_Gas c,
           if (r_IsEIP158 (evm_chainRules E) \<and> length ret > MaxCodeSize) \<and> err = None then Some ErrMaxCodeSizeExceeded else err), s))) =
       Done (x, s')"
  obtain err1 c1 s2 where y': "y = (err1, c1, s2)" by (cases y)
  show thesis
  proof (rule that [of s2])
    show "s2 = s1 \<or> (\<exists>db2. StateDB_SetCode (evm_libs E) (evm_store E) (es_StateDB s1) address ret = Some db2 \<and> s2 = with_db s1 db2)"
      using y unfolding y' by (auto simp: obind_Done split: if_splits prod.splits)
    show "s' = s2 \<or> (\<exists>db3. StateDB_RevertToSnapshot (es_StateDB s2) snap = Some db3 \<and> s' = with_db s2 db3)"
      using z unfolding y' prod.case
      by (elim obind_DoneE, simp only: split: if_split_asm) (auto simp: obind_Done)
    show "\<exists>db3. StateDB_RevertToSnapshot (es_StateDB s2) snap = Some db3 \<and> s' = with_db s2 db3"
      if "create_reverts E (snd (snd (snd x)))"
      using z that unfolding y' prod.case
      by (elim obind_DoneE, simp only: split: if_split_asm) (auto simp: obind_Done create_reverts_def)
  qed
qed

locale state_runner = evm_state E R F W
  for E :: "('st, 'it) EVM" and R F :: "'st StateDB \<Rightarrow> 'st StateDB \<Rightarrow> bool" and W :: bool +
  fixes run :: "'st runner"
  assumes run_law: "run_kept W R E run"
begin

lemma run_contract_kept:
  assumes "es_readOnly s1 = es_readOnly s" "R db (es_StateDB s1)"
  shows "part_kept W R E ro s db (run_contract run c input ro s1)"
  using assms run_law R_trans
  by (fastforce simp: part_kept_def run_contract_def obind_Done run_kept_def may_run_def)

lemma precompile_kept:
  assumes "es_readOnly s1 = es_readOnly s" "R db (es_StateDB s1)"
  shows "part_kept W R E ro s db (run_precompile E p input gas s1)"
  using assms by (auto simp: part_kept_def run_precompile_def obind_Done)

lemma settle_kept:
  assumes part: "part_kept W R E ro s (snd (StateDB_Snapshot db)) r" and db: "F (es_StateDB s) db"
  shows "call_kept W R F E ro s (obind r (\<lambda>(r, s). settle_call (fst (StateDB_Snapshot db)) r s))"
proof (cases r)
  case (Done x)
  obtain ret g err s1 where x: "x = ((ret, g, err), s1)" by (cases x) auto
  have s1: "es_readOnly s1 = es_readOnly s" "may_run W E ro s \<Longrightarrow> R (snd (StateDB_Snapshot db)) (es_StateDB s1)"
    using part Done x by auto
  have "R (es_StateDB s) (snd (StateDB_Snapshot db))" using F_R [OF db] Snapshot_law R_trans by blast
  then have 1: "may_run W E ro s \<Longrightarrow> R (es_StateDB s) (es_StateDB s1)" using s1(2) R_trans by blast
  have 2: "F (es_StateDB s) db3" if "StateDB_RevertToSnapshot (es_StateDB s1) (fst (StateDB_Snapshot db)) = Some db3"
    "may_run W E ro s" for db3
    using Revert_law [OF s1(2) that(1)] that(2) F_trans [OF db] by blast
  show ?thesis
    using s1(1) 1 2 F_R
    by (cases err) (auto simp: Done x settle_call_def intro!: call_bind)
qed simp_all

lemma code_at_kept:
  assumes "es_readOnly s1 = es_readOnly s" "R (snd (StateDB_Snapshot db)) (es_StateDB s1)" "F (es_StateDB s) db"
  shows "call_kept W R F E ro s (run_code_at run E c addr input gas ro (fst (StateDB_Snapshot db)) s1)"
  unfolding run_code_at_def
proof (rule settle_kept [OF _ assms(3)])
  have *: "R (snd (StateDB_Snapshot db)) db2" if "StateDB_GetCodeHash (evm_store E) (es_StateDB s1) addr = Some (h, db1)"
    "StateDB_GetCode (evm_store E) db1 addr = Some (code, db2)" for h db1 code db2
    using assms(2) Get_laws(2,3) that F_R R_trans by metis
  show "part_kept W R E ro s (snd (StateDB_Snapshot db)) (case EVM_precompile (evm_chainRules E) addr of
         Some p \<Rightarrow> run_precompile E p input gas s1
       | None \<Rightarrow>
           obind (of_opt c) (\<lambda>c.
           obind (of_opt (StateDB_GetCodeHash (evm_store E) (es_StateDB s1) addr)) (\<lambda>(hash, db).
           obind (of_opt (StateDB_GetCode (evm_store E) db addr)) (\<lambda>(code, db).
             run_contract run (Contract_SetCallCode c (Some addr) hash code) input ro (with_db s1 db)))))"
    using assms(1,2) *
    by (auto split: option.splits intro!: part_bind precompile_kept run_contract_kept)
qed

lemma call_body_kept:
  assumes db: "F (es_StateDB s) db"
  shows "call_kept W R F E False s
    (obind (of_opt (StateDB_Exist (evm_store E) (snd (StateDB_Snapshot db)) addr)) (\<lambda>(exist, db1).
       if \<not> exist \<and> p = None \<and> r_IsEIP158 (evm_chainRules E) \<and> sgn val = 0 then Done ((Fresh [], gas, None), with_db s db1)
       else obind (of_opt (bc_Transfer (evm_Context E) (if \<not> exist then StateDB_CreateAccount db1 addr else db1)
                     (ContractRef_Address clr) addr val)) (\<lambda>db2.
         obind (case p of
             Some p \<Rightarrow> run_precompile E p input gas (with_db s db2)
           | None \<Rightarrow>
               obind (of_opt (StateDB_GetCode (evm_store E) db2 addr)) (\<lambda>(code, db).
               if length code = 0 then Done ((Fresh [], gas, None), with_db s db)
               else
                 obind (of_opt (StateDB_GetCodeHash (evm_store E) db addr)) (\<lambda>(hash, db).
                   run_contract run (Contract_SetCallCode
                       (fst (NewContract clr (AccountRef addr) (Some val) gas (es_jumpdests s))) (Some addr) hash code)
                     input False
                     (with_db (s\<lparr>es_jumpdests := snd (NewContract clr (AccountRef addr) (Some val) gas (es_jumpdests s))\<rparr>) db))))
         (\<lambda>(r, s). settle_call (fst (StateDB_Snapshot db)) r s))))"
proof (intro call_bind, clarify)
  let ?snap = "snd (StateDB_Snapshot db)"
  fix exist db1 assume e: "StateDB_Exist (evm_store E) ?snap addr = Some (exist, db1)"
  have r1: "R ?snap db1" by (rule F_R [OF Exist_law [OF e]])
  have s1: "R (es_StateDB s) db1" using F_R [OF db] Snapshot_law r1 R_trans by blast
  have c: "(if \<not> exist then StateDB_CreateAccount db1 addr else db1) = db1" by (simp add: StateDB_CreateAccount_def)
  have t: "R ?snap db2" if "bc_Transfer (evm_Context E) db1 (ContractRef_Address clr) addr val = Some db2" for db2
    by (rule R_trans [OF r1 Transfer_law [OF that]])
  have g: "R ?snap db3" if "bc_Transfer (evm_Context E) db1 (ContractRef_Address clr) addr val = Some db2"
      "StateDB_GetCode (evm_store E) db2 addr = Some (code, db3)" for db2 db3 code
    by (rule R_trans [OF t [OF that(1)] F_R [OF Get_laws(3) [OF that(2)]]])
  have h: "R ?snap db4" if "bc_Transfer (evm_Context E) db1 (ContractRef_Address clr) addr val = Some db2"
      "StateDB_GetCode (evm_store E) db2 addr = Some (code, db3)"
      "StateDB_GetCodeHash (evm_store E) db3 addr = Some (hash, db4)" for db2 db3 db4 code hash
    by (rule R_trans [OF g [OF that(1,2)] F_R [OF Get_laws(2) [OF that(3)]]])
  show "call_kept W R F E False s (if \<not> exist \<and> p = None \<and> r_IsEIP158 (evm_chainRules E) \<and> sgn val = 0
       then Done ((Fresh [], gas, None), with_db s db1)
       else obind (of_opt (bc_Transfer (evm_Context E) (if \<not> exist then StateDB_CreateAccount db1 addr else db1)
                     (ContractRef_Address clr) addr val)) (\<lambda>db2.
         obind (case p of
             Some p \<Rightarrow> run_precompile E p input gas (with_db s db2)
           | None \<Rightarrow>
               obind (of_opt (StateDB_GetCode (evm_store E) db2 addr)) (\<lambda>(code, db).
               if length code = 0 then Done ((Fresh [], gas, None), with_db s db)
               else
                 obind (of_opt (StateDB_GetCodeHash (evm_store E) db addr)) (\<lambda>(hash, db).
                   run_contract run (Contract_SetCallCode
                       (fst (NewContract clr (AccountRef addr) (Some val) gas (es_jumpdests s))) (Some addr) hash code)
                     input False
                     (with_db (s\<lparr>es_jumpdests := snd (NewContract clr (AccountRef addr) (Some val) gas (es_jumpdests s))\<rparr>) db))))
         (\<lambda>(r, s). settle_call (fst (StateDB_Snapshot db)) r s)))"
    unfolding c
  proof (split if_split, intro conjI impI)
    show "call_kept W R F E False s (Done ((Fresh [], gas, None), with_db s db1))" using s1 by simp
  qed (auto simp del: length_0_conv split: option.splits
        intro!: call_bind settle_kept [OF _ db] part_bind precompile_kept run_contract_kept; (erule (2) h | erule (1) g | erule t))
qed

lemma Call_kept: "call_kept W R F E False s (EVM_Call run E clr addr input gas val s)"
proof -
  have ok: "F (es_StateDB s) db" if "(if sgn val \<noteq> 0 then bc_CanTransfer (evm_Context E) (es_StateDB s) (ContractRef_Address clr) val
      else Some (True, es_StateDB s)) = Some (b, db)" for b db
    using that CanTransfer_law F_refl by (auto split: if_splits)
  show ?thesis
  proof (cases "cfg_NoRecursion (evm_vmConfig E) \<and> es_depth s > 0 \<or> es_depth s > unat CallCreateDepth")
    case True
    then show ?thesis by (auto simp: EVM_Call_def R_refl F_refl)
  next
    case False
    then have c: "(cfg_NoRecursion (evm_vmConfig E) \<and> es_depth s > 0) = False" "(es_depth s > unat CallCreateDepth) = False"
      by simp_all
    show ?thesis
      unfolding EVM_Call_def c if_False
    proof (rule call_bind, clarify, split if_split, intro conjI impI, goal_cases)
      case (1 b db)
      then show ?case using ok F_R by simp
    next
      case (2 b db)
      from call_body_kept [OF ok [OF 2(1)]] show ?case unfolding Let_def split_beta .
    qed
  qed
qed

lemma other_calls_kept:
  "call_kept W R F E False s (EVM_CallCode run E clr addr input gas val s)"
  "call_kept W R F E False s (EVM_DelegateCall run E clr addr input gas s)"
  "call_kept W R F E True s (EVM_StaticCall run E clr addr input gas s)"
proof -
  show "call_kept W R F E False s (EVM_CallCode run E clr addr input gas val s)"
    unfolding EVM_CallCode_def Let_def split_beta
    by (auto simp: R_refl F_refl intro!: call_bind code_at_kept intro: CanTransfer_law CanTransfer_law [THEN F_R])
  show "call_kept W R F E False s (EVM_DelegateCall run E clr addr input gas s)"
    unfolding EVM_DelegateCall_def Let_def split_beta
    by (auto simp: R_refl F_refl intro!: code_at_kept)
  show "call_kept W R F E True s (EVM_StaticCall run E clr addr input gas s)"
    unfolding EVM_StaticCall_def Let_def split_beta
    by (auto simp: R_refl F_refl intro!: call_bind code_at_kept dest: AddBalance_law)
qed

lemma settle_create_kept:
  assumes ro: "es_readOnly s1 = es_readOnly s" and r: "may_run W E False s \<Longrightarrow> R (snd (StateDB_Snapshot db)) (es_StateDB s1)"
    and db: "R (es_StateDB s) db"
  shows "part_kept W R E False s (es_StateDB s) (settle_create E (fst (StateDB_Snapshot db)) address ((ret, err), c, s1))"
  unfolding part_kept_def
proof (intro allI impI)
  fix x s' assume "settle_create E (fst (StateDB_Snapshot db)) address ((ret, err), c, s1) = Done (x, s')"
  then obtain s2 where s2: "s2 = s1 \<or> (\<exists>db2. StateDB_SetCode (evm_libs E) (evm_store E) (es_StateDB s1) address ret = Some db2 \<and> s2 = with_db s1 db2)"
    and s': "s' = s2 \<or> (\<exists>db3. StateDB_RevertToSnapshot (es_StateDB s2) (fst (StateDB_Snapshot db)) = Some db3 \<and> s' = with_db s2 db3)"
    by (rule settle_create_cases)
  have r2: "may_run W E False s \<Longrightarrow> R (snd (StateDB_Snapshot db)) (es_StateDB s2)"
    using s2 r R_trans [OF r SetCode_law] by auto
  have "may_run W E False s \<Longrightarrow> R db (es_StateDB s')"
    using s' R_trans [OF Snapshot_law r2] F_R [OF Revert_law [OF r2]] by auto
  then show "es_readOnly s' = es_readOnly s \<and> (may_run W E False s \<longrightarrow> R (es_StateDB s) (es_StateDB s'))"
    using s2 s' ro R_trans [OF db] by auto
qed

lemma run_create_kept:
  assumes "es_readOnly s1 = es_readOnly s" "R (snd (StateDB_Snapshot db)) (es_StateDB s1)" "R (es_StateDB s) db"
  shows "part_kept W R E False s (es_StateDB s) (obind (run c [] False s1) (settle_create E (fst (StateDB_Snapshot db)) address))"
proof (cases "run c [] False s1")
  case (Done y)
  obtain ret err c' s2 where y: "y = ((ret, err), c', s2)" by (cases y) auto
  have "es_readOnly s2 = es_readOnly s1" "may_run W E False s1 \<Longrightarrow> R (es_StateDB s1) (es_StateDB s2)"
    using run_law Done y unfolding run_kept_def by blast+
  then show ?thesis
    unfolding Done y obind_simps
    by (intro settle_create_kept [OF _ _ assms(3)] R_trans [OF assms(2)]) (simp_all add: assms(1) may_run_cong [OF assms(1)])
qed simp_all

lemma part_read:
  "R d db \<Longrightarrow> (\<And>x db'. r = Some (x, db') \<Longrightarrow> R db db') \<Longrightarrow> (\<And>x db'. R d db' \<Longrightarrow> part_kept W R E ro s q (f (x, db'))) \<Longrightarrow>
     part_kept W R E ro s q (obind (of_opt r) f)"
  using R_trans by (intro part_bind) (metis surj_pair)

lemma part_write:
  "R d db \<Longrightarrow> (\<And>db'. r = Some db' \<Longrightarrow> R db db') \<Longrightarrow> (\<And>db'. R d db' \<Longrightarrow> part_kept W R E ro s q (f db')) \<Longrightarrow>
     part_kept W R E ro s q (obind (of_opt r) f)"
  using R_trans by (intro part_bind) blast

lemma create_kept: "part_kept W R E False s (es_StateDB s) (EVM_create run E clr ch gas val address s)"
  unfolding EVM_create_def Let_def split_beta
  apply (split if_split, intro conjI impI)
   apply (simp add: R_refl)
  apply (rule part_read [OF R_refl], erule CanTransfer_law [THEN F_R])
  apply (simp only: fst_conv snd_conv, split if_split, intro conjI impI)
   apply simp
  apply (rule part_read, assumption, erule Get_laws(1) [THEN F_R], simp only: fst_conv snd_conv)
  apply (rule part_write, assumption, erule SetNonce_law)
  apply (rule part_read, assumption, erule Get_laws(2) [THEN F_R], simp only: fst_conv snd_conv)
  apply (rule part_read, assumption, erule Get_laws(1) [THEN F_R], simp only: fst_conv snd_conv)
  apply (split if_split, intro conjI impI)
   apply simp
  apply (simp only: StateDB_CreateAccount_def)
  apply (rule part_write [OF R_refl])
   apply (simp split: if_splits)
    apply (erule SetNonce_law)
   apply (simp add: R_refl)
  apply (rule part_write, assumption, erule Transfer_law)
  apply (split if_split, intro conjI impI)
   apply (simp, blast intro: R_trans Snapshot_law)
  apply (rule run_create_kept)
    apply simp_all
  done

lemma Create_kept:
  "part_kept W R E False s (es_StateDB s) (EVM_Create run E clr code gas val s)"
  "part_kept W R E False s (es_StateDB s) (EVM_Create2 run E clr code gas val salt s)"
proof -
  have *: "part_kept W R E False s (es_StateDB s) (EVM_create run E clr ch gas val address (with_db s db))"
    if "R (es_StateDB s) db" for db ch address
    using create_kept [of "with_db s db" clr ch gas val address] R_trans [OF that]
    by (auto simp: part_kept_def may_run_def)
  show "part_kept W R E False s (es_StateDB s) (EVM_Create run E clr code gas val s)"
    unfolding EVM_Create_def
    by (rule part_read [OF R_refl], erule Get_laws(1) [THEN F_R]) (auto intro!: part_bind *)
  show "part_kept W R E False s (es_StateDB s) (EVM_Create2 run E clr code gas val salt s)"
    unfolding EVM_Create2_def Let_def by (intro part_bind create_kept)
qed

text \<open>A creation that fails and is reverted leaves the database as it was before the snapshot: between the start of the
  creation and the snapshot only the nonce of the creator is written.\<close>

lemma run_create_failed:
  assumes "es_readOnly s1 = es_readOnly s" "R (snd (StateDB_Snapshot db)) (es_StateDB s1)" "may_run W E False s"
    and "obind (run c [] False s1) (settle_create E (fst (StateDB_Snapshot db)) address) = Done ((ret, a, g, err), s')" "create_reverts E err"
  shows "F db (es_StateDB s')"
proof -
  obtain ret2 err2 c2 s2 where run: "run c [] False s1 = Done ((ret2, err2), c2, s2)"
    and set: "settle_create E (fst (StateDB_Snapshot db)) address ((ret2, err2), c2, s2) = Done ((ret, a, g, err), s')"
    using assms(4) by (auto elim!: obind_DoneE)
  have r2: "R (snd (StateDB_Snapshot db)) (es_StateDB s2)"
    using run_law run assms(1-3) may_run_cong [OF assms(1)] R_trans unfolding run_kept_def by blast
  from set obtain s3 where s3: "s3 = s2 \<or> (\<exists>db2. StateDB_SetCode (evm_libs E) (evm_store E) (es_StateDB s2) address ret2 = Some db2 \<and> s3 = with_db s2 db2)"
    and s': "\<exists>db3. StateDB_RevertToSnapshot (es_StateDB s3) (fst (StateDB_Snapshot db)) = Some db3 \<and> s' = with_db s3 db3"
    by (rule settle_create_cases) (use assms(5) in auto)
  have "R (snd (StateDB_Snapshot db)) (es_StateDB s3)" using s3 r2 R_trans [OF r2 SetCode_law] by auto
  from Revert_law [OF this] s' show ?thesis by auto
qed

lemma create_failed:
  assumes Q: "\<And>d d'. F d d' \<Longrightarrow> Q d d'" "\<And>d d' d''. Q d d' \<Longrightarrow> Q d' d'' \<Longrightarrow> Q d d''"
      "\<And>db addr n db'. StateDB_SetNonce (evm_store E) db addr n = Some db' \<Longrightarrow> Q db db'"
    and run: "may_run W E False s"
  shows "fails_by Q E (es_StateDB s) (EVM_create run E clr ch gas val address s)"
proof -
  have start: "fails_by Q E d (obind (of_opt (if eip then StateDB_SetNonce (evm_store E) (snd (StateDB_Snapshot db)) address 1
        else Some (snd (StateDB_Snapshot db)))) (\<lambda>db'.
      obind (of_opt (bc_Transfer (evm_Context E) db' (ContractRef_Address clr) address val)) (\<lambda>db'.
      if b db' then Done (([], address, gas, None), s1 db')
      else obind (run (c db') [] False (s1 db')) (settle_create E (fst (StateDB_Snapshot db)) address))))"
    if d: "Q d db" and s1: "\<And>db'. es_StateDB (s1 db') = db' \<and> es_readOnly (s1 db') = es_readOnly s" for d db eip b s1 c
  proof (intro fails_bind)
    fix db1 db2
    assume "(if eip then StateDB_SetNonce (evm_store E) (snd (StateDB_Snapshot db)) address 1 else Some (snd (StateDB_Snapshot db))) = Some db1"
      and t: "bc_Transfer (evm_Context E) db1 (ContractRef_Address clr) address val = Some db2"
    then have "R (snd (StateDB_Snapshot db)) db1" by (auto split: if_splits intro: SetNonce_law R_refl)
    then have "R (snd (StateDB_Snapshot db)) (es_StateDB (s1 db2))" using R_trans Transfer_law [OF t] s1 by simp
    note f = run_create_failed [OF _ this run] 
    show "fails_by Q E d (if b db2 then Done (([], address, gas, None), s1 db2)
      else obind (run (c db2) [] False (s1 db2)) (settle_create E (fst (StateDB_Snapshot db)) address))"
      using f s1 Q(1,2) d by (auto simp: fails_by_def create_reverts_def [of _ None])
  qed
  have read: "fails_by Q E d (obind (of_opt r) f)"
    if "Q d db" "\<And>x db'. r = Some (x, db') \<Longrightarrow> F db db'" "\<And>x db'. Q d db' \<Longrightarrow> fails_by Q E d (f (x, db'))" for d db f and r :: "('x \<times> _) option"
    using that Q(1,2) by (intro fails_bind) (metis surj_pair)
  have nonce: "fails_by Q E d (obind (of_opt (StateDB_SetNonce (evm_store E) db a n)) f)"
    if "Q d db" "\<And>db'. Q d db' \<Longrightarrow> fails_by Q E d (f db')" for d db a n f
    using that Q(2,3) by (intro fails_bind) blast
  show ?thesis
    unfolding EVM_create_def Let_def StateDB_CreateAccount_def split_beta
    apply (split if_split, intro conjI impI)
     apply (simp add: Q(1) F_refl)
    apply (rule read [OF Q(1) [OF F_refl]], erule CanTransfer_law)
    apply (simp only: fst_conv snd_conv, split if_split, intro conjI impI)
     apply simp
    apply (rule read, assumption, erule Get_laws(1), simp only: fst_conv snd_conv)
    apply (rule nonce, assumption)
    apply (rule read, assumption, erule Get_laws(2), simp only: fst_conv snd_conv)
    apply (rule read, assumption, erule Get_laws(1), simp only: fst_conv snd_conv)
    apply (split if_split, intro conjI impI)
     apply simp
    apply (rule start)
     apply simp_all
    done
qed

lemma Create_failed:
  assumes Q: "\<And>d d'. F d d' \<Longrightarrow> Q d d'" "\<And>d d' d''. Q d d' \<Longrightarrow> Q d' d'' \<Longrightarrow> Q d d''"
      "\<And>db addr n db'. StateDB_SetNonce (evm_store E) db addr n = Some db' \<Longrightarrow> Q db db'"
    and run: "may_run W E False s"
  shows "fails_by Q E (es_StateDB s) (EVM_Create run E clr code gas val s)"
  unfolding EVM_Create_def
proof (rule fails_bind)
  fix x assume n: "StateDB_GetNonce (evm_store E) (es_StateDB s) (ContractRef_Address clr) = Some x"
  obtain nonce db where x: "x = (nonce, db)" by (cases x)
  note q = Q(1) [OF Get_laws(1) [OF n [unfolded x]]]
  have "fails_by Q E db (EVM_create run E clr ch gas val a (with_db s db))" for ch a
    using create_failed [where Q = Q and s = "with_db s db"] Q run by (simp add: may_run_def)
  then have "fails_by Q E (es_StateDB s) (EVM_create run E clr ch gas val a (with_db s db))" for ch a
    using Q(2) [OF q] unfolding fails_by_def by blast
  then show "fails_by Q E (es_StateDB s) (case x of (nonce, db) \<Rightarrow>
      obind (of_opt (CreateAddress (evm_libs E) (evm_crypto E) (ContractRef_Address clr) nonce))
        (\<lambda>contractAddr. EVM_create run E clr \<lparr>ch_code = code, ch_hash = zero_hash\<rparr> gas val contractAddr (with_db s db)))"
    unfolding x prod.case by (rule fails_bind)
qed

section \<open>Instructions\<close>

lemma call_kept_part: "call_kept W R F E ro s r \<Longrightarrow> part_kept W R E False s (es_StateDB s) r"
  by (auto simp: call_kept_def part_kept_def may_run_def)

end

definition exec_kept ::
  "bool \<Rightarrow> ('st StateDB \<Rightarrow> 'st StateDB \<Rightarrow> bool) \<Rightarrow> ('st, 'it) EVM \<Rightarrow> bool \<Rightarrow> ('st, 'it) executionFunc \<Rightarrow> bool" where
  "exec_kept W R E writes x \<longleftrightarrow> (\<forall>run pc cx s res pc' cx' s'. run_kept W R E run \<longrightarrow>
     x run E pc cx s = Done (res, pc', cx', s') \<longrightarrow>
     es_readOnly s' = es_readOnly s \<and> (may_run W E False s \<and> (writes \<longrightarrow> W) \<longrightarrow> R (es_StateDB s) (es_StateDB s')))"

lemma exec_lift:
  "frame_ok p q f \<Longrightarrow> ((writes \<longrightarrow> W) \<Longrightarrow> db_kept R E f) \<Longrightarrow> exec_kept W R E writes (lift_op f)"
  unfolding exec_kept_def frame_ok_def db_kept_def lift_op_def of_opt_Done by blast

lemma finish_state:
  "finish_call pc cx a r = Done (res, pc', cx', s') \<Longrightarrow> s' = snd r"
  "finish_create pc cx b q = Done (res, pc', cx', s') \<Longrightarrow> s' = snd q"
  by (auto simp: finish_call_def finish_create_def Let_def obind_Done split: prod.splits)

lemma call_finish:
  assumes "call_kept W R F E ro s r" "obind r (finish_call pc cx a) = Done (res, pc', cx', s')"
  shows "es_readOnly s' = es_readOnly s \<and> (may_run W E False s \<longrightarrow> R (es_StateDB s) (es_StateDB s'))"
proof -
  obtain x t where x: "r = Done (x, t)" "finish_call pc cx a (x, t) = Done (res, pc', cx', s')"
    using assms(2) by (auto simp: obind_Done)
  then show ?thesis using assms(1) finish_state(1) [OF x(2)] by (cases x) (auto simp: call_kept_def may_run_def)
qed

lemma create_finish:
  assumes "part_kept W R E False s (es_StateDB s) r"
    "obind r (\<lambda>((ret, addr, g, err), s). finish_create pc cx (b err) ((ret, addr, g, err), s)) = Done (res, pc', cx', s')"
  shows "es_readOnly s' = es_readOnly s \<and> (may_run W E False s \<longrightarrow> R (es_StateDB s) (es_StateDB s'))"
proof -
  obtain ret addr g err t where x: "r = Done ((ret, addr, g, err), t)"
    "finish_create pc cx (b err) ((ret, addr, g, err), t) = Done (res, pc', cx', s')"
    using assms(2) by (auto simp: obind_Done)
  then show ?thesis using assms(1) finish_state(2) [OF x(2)] by (auto simp: part_kept_def)
qed

context evm_state begin

lemma state_runnerI: "run_kept W R E run \<Longrightarrow> state_runner E R F W run"
  by (intro state_runner.intro evm_state_axioms state_runner_axioms.intro)

lemma call_execs:
  "exec_kept W R E writes opCall" "exec_kept W R E writes opCallCode" "exec_kept W R E writes opDelegateCall"
  "exec_kept W R E writes opStaticCall"
  unfolding exec_kept_def opCall_def opCallCode_def opDelegateCall_def opStaticCall_def
  by (auto simp: obind_Done [of "of_opt _"] dest!: state_runnerI
      dest: call_finish [OF state_runner.Call_kept] call_finish [OF state_runner.other_calls_kept(1)]
        call_finish [OF state_runner.other_calls_kept(2)] call_finish [OF state_runner.other_calls_kept(3)])

lemma create_execs: "exec_kept W R E writes opCreate" "exec_kept W R E writes opCreate2"
  unfolding exec_kept_def opCreate_def opCreate2_def
  by (auto simp: obind_Done [of "of_opt _"] Let_def split: prod.split_asm dest!: state_runnerI
      dest: create_finish [OF state_runner.Create_kept(1)] create_finish [OF state_runner.Create_kept(2)])

end

end
