(* ===== verification/State_Tables.thy ===== *)
theory State_Tables
  imports State_Runs
begin

text \<open>
  Every instruction table keeps the laws of \<open>evm_state\<close>: an entry relates the databases before and after its
  gas function and its execution function, and an entry that does more than \<open>R\<close> allows without write
  permission is marked as writing.  From this every run of the interpreter satisfies the contract of
  \<open>state_runner\<close>.
\<close>

section \<open>Table entries\<close>

definition gas_flag :: "('st, 'it) gasFunc \<Rightarrow> bool" where
  "gas_flag d \<longleftrightarrow> (\<forall>E c st mem msz s r mem' s'. d E c st mem msz s = Some (r, mem', s') \<longrightarrow> es_readOnly s' = es_readOnly s)"

lemma memory_gas_flag:
  "gas_flag (memory_word_gas pos price)" "gas_flag pureMemoryGascost" "gas_flag (exp_gas g)"
  by (auto simp: gas_flag_def memory_word_gas_def pureMemoryGascost_def exp_gas_def Let_def
      split: prod.splits sum.splits bind_splits)

lemma then_call_flag: "gas_memory_then_call E c st mem msz g s = Some (r, mem', s') \<Longrightarrow> es_readOnly s' = es_readOnly s"
  by (auto simp: gas_memory_then_call_def add_call_gas_def Let_def split: prod.splits sum.splits bind_splits)

lemma call_gas_flag:
  "gas_flag gasCall" "gas_flag gasCallCode" "gas_flag gasDelegateCall" "gas_flag gasStaticCall"
  by (auto simp: gas_flag_def gasCall_def gasCallCode_def gasDelegateCall_def gasStaticCall_def add_call_gas_def Let_def
      split: prod.splits sum.splits bind_splits if_splits dest: then_call_flag)

lemma write_gas_flag: "gas_flag gasSStoreEIP2200" "gas_flag gasSelfdestruct" "gas_flag (makeGasLog n)"
  by (auto simp: gas_flag_def gasSStoreEIP2200_def gasSelfdestruct_def makeGasLog_def Let_def
      split: prod.splits sum.splits bind_splits if_splits)

lemma sstore_gas_flag: "gas_flag gasSStore"
  by (auto simp: gas_flag_def gasSStore_def split: bind_splits if_splits)

lemma gas_flags [simp]:
  "gas_flag gasSha3" "gas_flag gasCallDataCopy" "gas_flag gasCodeCopy" "gas_flag gasExtCodeCopy"
  "gas_flag gasReturnDataCopy" "gas_flag gasCreate2" "gas_flag gasReturn" "gas_flag gasRevert"
  "gas_flag gasMLoad" "gas_flag gasMStore" "gas_flag gasMStore8" "gas_flag gasCreate"
  "gas_flag gasExpFrontier" "gas_flag gasExpEIP158"
  by (simp_all add: gasSha3_def gasCallDataCopy_def gasCodeCopy_def gasExtCodeCopy_def gasReturnDataCopy_def gasCreate2_def
      memoryCopierGas_def gasReturn_def gasRevert_def gasMLoad_def gasMStore_def gasMStore8_def gasCreate_def
      gasExpFrontier_def gasExpEIP158_def memory_gas_flag)

declare call_gas_flag [simp] write_gas_flag [simp] sstore_gas_flag [simp]

definition entry_kept ::
  "bool \<Rightarrow> ('st StateDB \<Rightarrow> 'st StateDB \<Rightarrow> bool) \<Rightarrow> ('st, 'it) EVM \<Rightarrow> OpCode \<times> ('st, 'it) operation \<Rightarrow> bool" where
  "entry_kept W R E e \<longleftrightarrow> exec_kept W R E (op_writes (snd e)) (op_execute (snd e)) \<and>
     (\<forall>d. op_dynamicGas (snd e) = Some d \<longrightarrow> gas_flag d \<and> ((op_writes (snd e) \<longrightarrow> W) \<longrightarrow> gas_kept R E d)) \<and>
     (fst e = SSTORE \<longrightarrow> op_writes (snd e))"

lemma entry_kept_simple:
  "op_execute o' = lift_op f \<Longrightarrow> frame_ok p q f \<Longrightarrow> ((op_writes o' \<longrightarrow> W) \<Longrightarrow> db_kept R E f) \<Longrightarrow>
     (\<And>d. op_dynamicGas o' = Some d \<Longrightarrow> gas_flag d \<and> ((op_writes o' \<longrightarrow> W) \<longrightarrow> gas_kept R E d)) \<Longrightarrow>
     (op = SSTORE \<longrightarrow> op_writes o') \<Longrightarrow> entry_kept W R E (op, o')"
  unfolding entry_kept_def using exec_lift [of p q f "op_writes o'" W R E] by simp

lemma entry_kept_call:
  "exec_kept W R E (op_writes o') (op_execute o') \<Longrightarrow>
     (\<And>d. op_dynamicGas o' = Some d \<Longrightarrow> gas_flag d \<and> gas_kept R E d) \<Longrightarrow> op \<noteq> SSTORE \<Longrightarrow> entry_kept W R E (op, o')"
  unfolding entry_kept_def by simp

context evm_state begin

lemmas op_facts = pure_ops_kept reads_kept extcodehash_kept writes_kept suicide_kept
lemmas gas_facts = pure_gas_kept gasCall_kept sstore_gas_kept gasSelfdestruct_kept
lemmas exec_facts = call_execs create_execs

lemma all_entries_kept:
  "list_all (entry_kept W R E) (frontier_entries @ byzantium_entries @ constantinople_entries @ single_entries)"
  unfolding frontier_entries_def all_entries append_Cons append_Nil
  by (intro list_all_Cons list.pred_inject(1))
    ((rule entry_kept_simple, simp only: mk_op_def operation.simps, rule frames,
        simp add: mk_op_def op_facts, simp add: mk_op_def gas_facts, simp add: mk_op_def; fail) |
     (rule entry_kept_call, simp add: mk_op_def exec_facts, simp add: mk_op_def gas_facts, simp; fail))+

end

sublocale evm_state \<subseteq> kept: table_property "entry_kept W R E"
proof
  fix op o' and g :: u64
  show "entry_kept W R E (op, o') \<Longrightarrow> entry_kept W R E (op, o'\<lparr>op_constantGas := g\<rparr>)"
    by (simp add: entry_kept_def)
  show "entry_kept W R E (EXP, o') \<Longrightarrow> entry_kept W R E (EXP, o'\<lparr>op_dynamicGas := Some gasExpEIP158\<rparr>)"
    by (simp add: entry_kept_def gas_facts)
  show "entry_kept W R E (SSTORE, o') \<Longrightarrow> entry_kept W R E (SSTORE, o'\<lparr>op_dynamicGas := Some gasSStoreEIP2200\<rparr>)"
    by (auto simp: entry_kept_def gas_facts)
qed (simp_all add: all_entries_kept [unfolded list_all_append])

section \<open>Steps and runs\<close>

definition step_kept ::
  "bool \<Rightarrow> ('st StateDB \<Rightarrow> 'st StateDB \<Rightarrow> bool) \<Rightarrow> ('st, 'it) EVM \<Rightarrow> 'st EVM_state \<Rightarrow> 'st step_result outcome \<Rightarrow> bool" where
  "step_kept W R E s r \<longleftrightarrow> (\<forall>s'. ((\<exists>h c. r = Done (Halt (h, c, s'))) \<or> (\<exists>pc cx. r = Done (Next pc cx s'))) \<longrightarrow>
     es_readOnly s' = es_readOnly s \<and> (may_run W E False s \<longrightarrow> R (es_StateDB s) (es_StateDB s')))"

lemma step_kept_simps [simp]:
  "step_kept W R E s Panicked" "step_kept W R E s Exhausted"
  "step_kept W R E s (Done (Halt (h, c, s'))) \<longleftrightarrow>
     es_readOnly s' = es_readOnly s \<and> (may_run W E False s \<longrightarrow> R (es_StateDB s) (es_StateDB s'))"
  "step_kept W R E s (Done (Next pc cx s')) \<longleftrightarrow>
     es_readOnly s' = es_readOnly s \<and> (may_run W E False s \<longrightarrow> R (es_StateDB s) (es_StateDB s'))"
  "step_kept W R E s (fail e cx s') \<longleftrightarrow>
     es_readOnly s' = es_readOnly s \<and> (may_run W E False s \<longrightarrow> R (es_StateDB s) (es_StateDB s'))"
  by (auto simp: step_kept_def fail_def)

lemma step_kept_bind: "(\<And>x. r = Some x \<Longrightarrow> step_kept W R E s (f x)) \<Longrightarrow> step_kept W R E s (obind (of_opt r) f)"
  by (cases r) simp_all

lemma after_op_state:
  "after_op o' (res, pc, cx, s) = Halt (h, c, s') \<or> after_op o' (res, pc, cx, s) = Next pc' cx' s' \<Longrightarrow>
     es_readOnly s' = es_readOnly s \<and> es_StateDB s' = es_StateDB s"
  by (cases res) (auto simp: after_op_def Let_def split: if_splits)

lemma load_abort_state: "load_abort s = (b, s') \<Longrightarrow> es_readOnly s' = es_readOnly s \<and> es_StateDB s' = es_StateDB s"
  by (auto simp: load_abort_def split: option.splits nat.splits)

context evm_state begin

lemma charge_kept:
  assumes "entry_kept W R E (op, o')" "charge_dynamic E o' cx msz s = Some (ok, cx2, s2)"
  shows "es_readOnly s2 = es_readOnly s" "(op_writes o' \<longrightarrow> W) \<Longrightarrow> R (es_StateDB s) (es_StateDB s2)"
proof -
  have "s2 = s \<or> (\<exists>d r mem. op_dynamicGas o' = Some d \<and>
      d E (cx_contract cx) (cx_stack cx) (cx_memory cx) msz s = Some (r, mem, s2))"
    using assms(2) by (fastforce simp: charge_dynamic_def Let_def split: option.splits bind_splits sum.splits prod.splits)
  then show "es_readOnly s2 = es_readOnly s" "(op_writes o' \<longrightarrow> W) \<Longrightarrow> R (es_StateDB s) (es_StateDB s2)"
    using assms(1) R_refl by (auto simp: entry_kept_def gas_flag_def gas_kept_def)
qed

lemma write_checked:
  "write_violation E op o' st s = Some False \<Longrightarrow> may_run W E False s \<Longrightarrow> op_writes o' \<Longrightarrow> W"
  by (auto simp: write_violation_def may_run_def)

lemma charged_kept:
  assumes e: "entry_kept W R E (op, o')" and run: "run_kept W R E run" and w: "write_violation E op o' st s = Some False"
  shows "step_kept W R E s (obind (of_opt (charge_dynamic E o' cx m s)) (\<lambda>(ok, cx, s).
      if \<not> ok then fail ErrOutOfGas cx s
      else obind (op_execute o' run E pc (if m > 0 then cx\<lparr>cx_memory := Memory_Resize (cx_memory cx) m\<rparr> else cx) s)
        (\<lambda>r. Done (after_op o' r))))"
proof (rule step_kept_bind, clarify)
  fix ok cx2 s2 assume c: "charge_dynamic E o' cx m s = Some (ok, cx2, s2)"
  let ?cx = "if m > 0 then cx2\<lparr>cx_memory := Memory_Resize (cx_memory cx2) m\<rparr> else cx2"
  have c1: "es_readOnly s2 = es_readOnly s" "may_run W E False s \<Longrightarrow> R (es_StateDB s) (es_StateDB s2)"
    using charge_kept [OF e c] write_checked [OF w] by auto
  have x: "es_readOnly t = es_readOnly s2 \<and> (may_run W E False s2 \<and> (op_writes o' \<longrightarrow> W) \<longrightarrow> R (es_StateDB s2) (es_StateDB t))"
    if "op_execute o' run E pc ?cx s2 = Done (res, pc', cx', t)" for res pc' cx' t
    using e run that unfolding entry_kept_def exec_kept_def by auto
  have "step_kept W R E s (obind (op_execute o' run E pc ?cx s2) (\<lambda>r. Done (after_op o' r)))"
  proof (cases "op_execute o' run E pc ?cx s2")
    case (Done y)
    obtain res pc' cx' t where y: "y = (res, pc', cx', t)" by (cases y)
    have t: "es_readOnly t = es_readOnly s" "may_run W E False s \<Longrightarrow> R (es_StateDB s) (es_StateDB t)"
      using x [OF Done [unfolded y]] c1 may_run_cong [OF c1(1)] write_checked [OF w] R_trans [OF c1(2)] by auto
    then show ?thesis
      using after_op_state [of o' res pc' cx' t] by (fastforce simp: Done y step_kept_def)
  qed simp_all
  then show "step_kept W R E s (if \<not> ok then fail ErrOutOfGas cx2 s2
      else obind (op_execute o' run E pc ?cx s2) (\<lambda>r. Done (after_op o' r)))"
    using c1 by simp
qed

lemma exec_op_kept:
  assumes e: "entry_kept W R E (op, o')" and run: "run_kept W R E run"
  shows "step_kept W R E s (exec_op run E op o' pc cx s)"
  unfolding exec_op_def Let_def
  by (auto simp: R_refl split: prod.split intro!: step_kept_bind charged_kept [OF e run])

lemma interp_step_kept:
  assumes t: "table_all (entry_kept W R E) jt" and run: "run_kept W R E run"
  shows "step_kept W R E s (interp_step run E jt steps pc cx s)"
proof -
  obtain b s1 where s1: "(if steps mod 1000 = 0 then load_abort s else (False, s)) = (b, s1)" by (cases "if steps mod 1000 = 0 then load_abort s else (False, s)")
  have k: "es_readOnly s1 = es_readOnly s" "es_StateDB s1 = es_StateDB s"
    using s1 load_abort_state by (auto split: if_splits)
  have "step_kept W R E s1 (case jt (Contract_GetOp (cx_contract cx) pc) of
      None \<Rightarrow> fail (ErrInvalidOpCode (Contract_GetOp (cx_contract cx) pc)) cx s1
    | Some o' \<Rightarrow> exec_op run E (Contract_GetOp (cx_contract cx) pc) o' pc cx s1)"
    using table_allD [OF t] by (auto simp: R_refl split: option.split intro: exec_op_kept run)
  then show ?thesis
    using k R_refl unfolding interp_step_def Let_def s1 prod.case
    by (auto simp: step_kept_def may_run_def)
qed

end

definition loop_kept ::
  "bool \<Rightarrow> ('st StateDB \<Rightarrow> 'st StateDB \<Rightarrow> bool) \<Rightarrow> ('st, 'it) EVM \<Rightarrow>
     (nat \<Rightarrow> u64 \<Rightarrow> callCtx \<Rightarrow> 'st EVM_state \<Rightarrow> 'st run_result outcome) \<Rightarrow> bool" where
  "loop_kept W R E loop \<longleftrightarrow> (\<forall>steps pc cx s h c s'. loop steps pc cx s = Done (h, c, s') \<longrightarrow>
     es_readOnly s' = es_readOnly s \<and> (may_run W E False s \<longrightarrow> R (es_StateDB s) (es_StateDB s')))"

lemma run_frame_kept:
  assumes l: "loop_kept W R E loop" and refl: "\<And>db. R db db"
  shows "run_kept W R E (run_frame loop)"
  unfolding run_kept_def
proof (intro allI impI)
  fix c input ro s r c' s' assume d: "run_frame loop c input ro s = Done (r, c', s')"
  define s1 where "s1 = (if ro \<and> \<not> es_readOnly (s\<lparr>es_depth := es_depth s + 1\<rparr>)
    then s\<lparr>es_depth := es_depth s + 1, es_readOnly := True\<rparr> else s\<lparr>es_depth := es_depth s + 1\<rparr>)\<lparr>es_returnData := []\<rparr>"
  have s1: "es_readOnly s1 = (es_readOnly s \<or> ro)" "es_StateDB s1 = es_StateDB s" by (auto simp: s1_def)
  obtain s2 where s2: "s2 = s1 \<or> (\<exists>cx. loop 0 0 cx s1 = Done (r, c', s2))"
    and s': "es_StateDB s' = es_StateDB s2" "es_readOnly s' = (if ro \<and> \<not> es_readOnly s then False else es_readOnly s2)"
    using d unfolding run_frame_def Let_def s1_def [symmetric]
    by (elim obind_DoneE) (auto split: if_splits prod.split_asm; blast)
  have "es_readOnly s2 = es_readOnly s1 \<and> (may_run W E False s1 \<longrightarrow> R (es_StateDB s1) (es_StateDB s2))"
    using s2 l refl unfolding loop_kept_def by blast
  then show "es_readOnly s' = es_readOnly s \<and> (may_run W E ro s \<longrightarrow> R (es_StateDB s) (es_StateDB s'))"
    using s1 by (auto simp: s' may_run_def)
qed

context evm_state begin

lemma interp_loop_kept: "table_all (entry_kept W R E) jt \<Longrightarrow> loop_kept W R E (interp_loop E jt n)"
proof (induction n)
  case 0
  then show ?case by (simp add: loop_kept_def)
next
  case (Suc n)
  note IH = Suc.IH [OF Suc.prems]
  show ?case
    unfolding loop_kept_def
  proof (intro allI impI)
    fix steps pc cx s h c s' assume d: "interp_loop E jt (Suc n) steps pc cx s = Done (h, c, s')"
    let ?r = "interp_step (run_frame (interp_loop E jt n)) E jt (steps + 1) pc cx s"
    have k: "step_kept W R E s ?r"
      by (rule interp_step_kept [OF Suc.prems run_frame_kept [OF IH R_refl]])
    obtain r where r: "?r = Done r"
      and cont: "(case r of Halt h \<Rightarrow> Done h | Next pc cx s \<Rightarrow> interp_loop E jt n (steps + 1) pc cx s) = Done (h, c, s')"
      using d unfolding interp_loop.simps by (rule obind_DoneE)
    show "es_readOnly s' = es_readOnly s \<and> (may_run W E False s \<longrightarrow> R (es_StateDB s) (es_StateDB s'))"
    proof (cases r)
      case (Halt h)
      then show ?thesis using k r cont by simp
    next
      case (Next pc1 cx1 s1)
      have s1: "es_readOnly s1 = es_readOnly s" "may_run W E False s \<Longrightarrow> R (es_StateDB s) (es_StateDB s1)"
        using k r Next by simp_all
      have "interp_loop E jt n (steps + 1) pc1 cx1 s1 = Done (h, c, s')" using cont Next by simp
      from IH [unfolded loop_kept_def, rule_format, OF this] show ?thesis using s1 may_run_cong [OF s1(1)] R_trans [OF s1(2)] by auto
    qed
  qed
qed

lemma interpreter_kept:
  assumes "NewEVMInterpreter r cfg = Some jt"
  shows "state_runner E R F W (EVMInterpreter_Run E jt fuel)"
  unfolding EVMInterpreter_Run_def
  by (intro state_runnerI run_frame_kept interp_loop_kept kept.NewEVMInterpreter_all [OF assms] R_refl)

end

end
