(* ===== verification/RemoteDB.thy ===== *)
theory RemoteDB
  imports StateDB_Laws
begin

text \<open>
  The persistent store of the executor, \<^verbatim>\<open>src/executor/remotedb/remotedb.go\<close>: accounts and storage
  slots fetched from a node over JSON-RPC and cached.  The client (\<^verbatim>\<open>src/jsonrpc\<close>, network I/O) is
  the record \<^verbatim>\<open>rpc_client\<close> of its answers; a query that fails is \<^term>\<open>None\<close>, which \<^verbatim>\<open>utils.Ensure\<close>
  turns into a panic.  The client is a function of the query: the node is taken to answer the same
  query in the same way during the execution.  Tracing output is left out.

  The store satisfies the interface \<^verbatim>\<open>persist_store\<close> that the overlay relies on
  (\<^verbatim>\<open>interpretation remote\<close>); it does not implement writing or iterating.
\<close>

section \<open>The remote store\<close>

record rpc_client =
  rpc_GetNonce :: "bytes \<Rightarrow> u64 option"
  rpc_GetBalance :: "bytes \<Rightarrow> int option"
  rpc_GetCode :: "bytes \<Rightarrow> string option"
  rpc_GetStorage :: "bytes \<Rightarrow> bytes \<Rightarrow> bytes option"
  rpc_GetBlockHash :: "int \<Rightarrow> bytes option"

record RemoteDB =
  rd_client :: rpc_client
  rd_Accounts :: "bytes \<rightharpoonup> EthAccount"
  rd_Storage :: "bytes \<times> bytes \<rightharpoonup> bytes"

definition NewRemoteDB :: "rpc_client \<Rightarrow> RemoteDB" where
  "NewRemoteDB client = \<lparr>rd_client = client, rd_Accounts = Map.empty, rd_Storage = Map.empty\<rparr>"

text \<open>\<^verbatim>\<open>hex.DecodeString\<close> of the standard library.\<close>

definition hex_digit :: "char \<Rightarrow> nat option" where
  "hex_digit c = (let n = of_char c :: nat in
     if 48 \<le> n \<and> n \<le> 57 then Some (n - 48)
     else if 97 \<le> n \<and> n \<le> 102 then Some (n - 87)
     else if 65 \<le> n \<and> n \<le> 70 then Some (n - 55)
     else None)"

fun hex_DecodeString :: "string \<Rightarrow> bytes option" where
  "hex_DecodeString [] = Some []"
| "hex_DecodeString [c] = None"
| "hex_DecodeString (c # d # cs) = do {
     h \<leftarrow> hex_digit c; l \<leftarrow> hex_digit d; bs \<leftarrow> hex_DecodeString cs; Some (of_nat (16 * h + l) # bs)
   }"

definition fetch_account :: "go_libs \<Rightarrow> rpc_client \<Rightarrow> bytes \<Rightarrow> EthAccount option" where
  "fetch_account L client addr = do {
     nonce \<leftarrow> rpc_GetNonce client addr;
     balance \<leftarrow> rpc_GetBalance client addr;
     code \<leftarrow> rpc_GetCode client addr;
     hexcode \<leftarrow> go_slice code 2 (length code);
     codeRaw \<leftarrow> hex_DecodeString hexcode;
     let hash = lib_Keccak256 L codeRaw;
     let bal = fst (Int_FromBig balance);
     Some \<lparr>ea_Nonce = nonce, ea_Balance = Some bal, ea_Code = codeRaw, ea_CodeHash = hash\<rparr>
   }"

definition RemoteDB_GetAccount :: "go_libs \<Rightarrow> RemoteDB \<Rightarrow> bytes \<Rightarrow> (EthAccount \<times> RemoteDB) option" where
  "RemoteDB_GetAccount L self addr =
     (case rd_Accounts self addr of
        Some acc \<Rightarrow> Some (acc, self)
      | None \<Rightarrow> do {
          acct \<leftarrow> fetch_account L (rd_client self) addr;
          Some (acct, self\<lparr>rd_Accounts := (rd_Accounts self)(addr \<mapsto> acct)\<rparr>)
        })"

definition RemoteDB_GetStorage :: "RemoteDB \<Rightarrow> bytes \<Rightarrow> bytes \<Rightarrow> (bytes \<times> RemoteDB) option" where
  "RemoteDB_GetStorage self addr key =
     (case rd_Storage self (addr, key) of
        Some v \<Rightarrow> Some (v, self)
      | None \<Rightarrow> do {
          v \<leftarrow> rpc_GetStorage (rd_client self) addr key;
          Some (v, self\<lparr>rd_Storage := (rd_Storage self)((addr, key) \<mapsto> v)\<rparr>)
        })"

definition RemoteDB_Get :: "go_libs \<Rightarrow> RemoteDB \<Rightarrow> bytes \<Rightarrow> ((db_error + bytes) \<times> RemoteDB) option" where
  "RemoteDB_Get L self key = do {
     p \<leftarrow> idx key 0;
     if p = ST_ETH_ACCOUNT then do {
       rest \<leftarrow> go_slice key 1 (length key);
       (acct, self) \<leftarrow> RemoteDB_GetAccount L self (BytesToAddress rest);
       raw \<leftarrow> SerializeToBytes [EthAccount_Serialization acct];
       Some (Inr raw, self)
     }
     else if p = ST_STORAGE then do {
       a \<leftarrow> go_slice key 1 21;
       k \<leftarrow> go_slice key 21 (length key);
       (v, self) \<leftarrow> RemoteDB_GetStorage self (BytesToAddress a) (BytesToHash k);
       Some (Inr v, self)
     }
     else None
   }"

definition RemoteDB_BatchPut :: "RemoteDB \<Rightarrow> bytes \<Rightarrow> bytes \<Rightarrow> RemoteDB option" where
  "RemoteDB_BatchPut self key val = None"

definition RemoteDB_BatchDelete :: "RemoteDB \<Rightarrow> bytes \<Rightarrow> RemoteDB option" where
  "RemoteDB_BatchDelete self key = None"

definition RemoteDB_NewIterator :: "RemoteDB \<Rightarrow> bytes \<Rightarrow> 'it option" where
  "RemoteDB_NewIterator self prefix = None"

definition RemoteDB_GetBlockHash :: "RemoteDB \<Rightarrow> u64 \<Rightarrow> bytes option" where
  "RemoteDB_GetBlockHash self height = rpc_GetBlockHash (rd_client self) (sint height)"

definition RemoteDB_store :: "go_libs \<Rightarrow> 'it StoreIterator \<Rightarrow> (RemoteDB, 'it) PersistStore" where
  "RemoteDB_store L ops = \<lparr>ps_Get = RemoteDB_Get L, ps_BatchPut = RemoteDB_BatchPut, ps_BatchDelete = RemoteDB_BatchDelete,
     ps_NewIterator = RemoteDB_NewIterator, ps_iter = ops\<rparr>"

subsection \<open>The store interface\<close>

definition remote_ok :: "go_libs \<Rightarrow> RemoteDB \<Rightarrow> bool" where
  "remote_ok L st \<longleftrightarrow> (\<forall>a acct. rd_Accounts st a = Some acct \<longrightarrow> fetch_account L (rd_client st) a = Some acct) \<and>
     (\<forall>a k v. rd_Storage st (a, k) = Some v \<longrightarrow> rpc_GetStorage (rd_client st) a k = Some v)"

definition remote_fetch :: "go_libs \<Rightarrow> rpc_client \<Rightarrow> bytes \<Rightarrow> bytes option" where
  "remote_fetch L client key = do {
     p \<leftarrow> idx key 0;
     if p = ST_ETH_ACCOUNT then do {
       rest \<leftarrow> go_slice key 1 (length key);
       acct \<leftarrow> fetch_account L client (BytesToAddress rest);
       SerializeToBytes [EthAccount_Serialization acct]
     }
     else if p = ST_STORAGE then do {
       a \<leftarrow> go_slice key 1 21;
       k \<leftarrow> go_slice key 21 (length key);
       rpc_GetStorage client (BytesToAddress a) (BytesToHash k)
     }
     else None
   }"

definition remote_view :: "go_libs \<Rightarrow> RemoteDB \<Rightarrow> bytes \<Rightarrow> db_error + bytes" where
  "remote_view L st k = (case remote_fetch L (rd_client st) k of Some v \<Rightarrow> Inr v | None \<Rightarrow> Inl ErrNotFound)"

definition remote_good :: "go_libs \<Rightarrow> rpc_client \<Rightarrow> bytes \<Rightarrow> bool" where
  "remote_good L client k \<longleftrightarrow> remote_fetch L client k \<noteq> None"

lemma RemoteDB_GetAccount_eq:
  assumes "remote_ok L st"
  shows "map_option fst (RemoteDB_GetAccount L st a) = fetch_account L (rd_client st) a"
    "RemoteDB_GetAccount L st a = Some (acct, st') \<Longrightarrow> remote_ok L st' \<and> rd_client st' = rd_client st"
  using assms by (auto simp: RemoteDB_GetAccount_def remote_ok_def split: option.splits bind_splits if_splits)

lemma RemoteDB_GetStorage_eq:
  assumes "remote_ok L st"
  shows "map_option fst (RemoteDB_GetStorage st a k) = rpc_GetStorage (rd_client st) a k"
    "RemoteDB_GetStorage st a k = Some (v, st') \<Longrightarrow> remote_ok L st' \<and> rd_client st' = rd_client st"
  using assms by (auto simp: RemoteDB_GetStorage_def remote_ok_def split: option.splits bind_splits if_splits)

lemma RemoteDB_Get_fetch:
  assumes "remote_ok L st"
  shows "map_option fst (RemoteDB_Get L st k) = map_option Inr (remote_fetch L (rd_client st) k)"
proof -
  have a: "RemoteDB_GetAccount L st a = None \<longleftrightarrow> fetch_account L (rd_client st) a = None"
    "RemoteDB_GetAccount L st a = Some (acct, st') \<Longrightarrow> fetch_account L (rd_client st) a = Some acct" for a acct st'
    using RemoteDB_GetAccount_eq(1) [OF assms, of a, symmetric] by simp_all
  have b: "RemoteDB_GetStorage st a k = None \<longleftrightarrow> rpc_GetStorage (rd_client st) a k = None"
    "RemoteDB_GetStorage st a k = Some (v, st') \<Longrightarrow> rpc_GetStorage (rd_client st) a k = Some v" for a k v st'
    using RemoteDB_GetStorage_eq(1) [OF assms, of a k, symmetric] by simp_all
  show ?thesis using a b
    by (auto simp: RemoteDB_Get_def remote_fetch_def Option.bind_eq_Some_conv map_option_case split: option.splits bind_splits)
qed

lemma RemoteDB_Get_keeps:
  assumes "remote_ok L st" "RemoteDB_Get L st k = Some (r, st')"
  shows "remote_ok L st' \<and> rd_client st' = rd_client st"
  using assms(2) RemoteDB_GetAccount_eq(2) [OF assms(1)] RemoteDB_GetStorage_eq(2) [OF assms(1)]
  by (auto simp: RemoteDB_Get_def split: bind_splits if_splits)

interpretation remote: persist_store "RemoteDB_store L ops" "\<lambda>st. remote_ok L st \<and> rd_client st = client" "remote_view L" "remote_good L client"
  for L ops client
proof (unfold_locales, goal_cases)
  case (1 st k)
  then have ok: "remote_ok L st" "rd_client st = client" by auto
  obtain v where "remote_fetch L client k = Some v" using 1(2) by (auto simp: remote_good_def)
  then have "map_option fst (RemoteDB_Get L st k) = Some (Inr v)" "remote_view L st k = Inr v"
    using RemoteDB_Get_fetch [OF ok(1)] ok(2) by (auto simp: remote_view_def)
  then show ?case by (auto simp: RemoteDB_store_def)
next
  case (2 st k r st')
  then show ?case using RemoteDB_Get_keeps [of L st k r st'] by (auto simp: RemoteDB_store_def remote_view_def fun_eq_iff)
qed

end
