(* ===== verification/Executor.thy ===== *)
theory Executor
  imports Interpreter RemoteDB
begin

text \<open>
  Transaction execution: \<^verbatim>\<open>src/executor/state_transition.go\<close>, \<^verbatim>\<open>state_processor.go\<close>, \<^verbatim>\<open>evm.go\<close> and
  \<^verbatim>\<open>executor.go\<close>, with the execution result of \<^verbatim>\<open>src/types.go\<close> and the receipt of
  \<^verbatim>\<open>src/structs.go\<close>.  The RLP encoding a transaction hash is taken of and the event parser
  (\<^verbatim>\<open>src/registry\<close>) are parameters; a big integer the code shares between two variables and then
  updates in place is written out as such in \<open>buyGas\<close>.
\<close>

section \<open>Execution results\<close>

datatype exec_error =
    VmError evm_error
  | ErrIntrinsicGas u64 u64
  | ErrInsufficientFundsForTransfer bytes
  | ErrNonceTooHigh bytes u64 u64
  | ErrNonceTooLow bytes u64 u64
  | DbError db_error

text \<open>The text of an error stands for itself; a decoded reason is the bytes of the string.\<close>

datatype revert_reason = NoReason | ErrorText exec_error | Reason bytes

record ExecutionResult =
  er_UsedGas :: u64
  er_Err :: "exec_error option"
  er_ReturnData :: bytes
  er_RevertReason :: revert_reason

definition readLength :: "bytes \<Rightarrow> (unit + nat) option" where
  "readLength data = do {
     w \<leftarrow> go_slice data 0 32;
     let lengthBig = big_SetBytes w;
     if big_BitLen lengthBig > 63 then Some (Inl ())
     else do {
       let len = nat lengthBig;
       if len > length data then Some (Inl ()) else Some (Inr len)
     }
   }"

text \<open>A malformed length is an error, which \<^verbatim>\<open>utils.Ensure\<close> turns into a panic.  The reason is sliced out up to the
  capacity of the returned slice, which is a window of the memory of a frame: \<open>spare\<close> is what follows it in its array.\<close>

definition DecodeRevert :: "bytes \<Rightarrow> bytes \<Rightarrow> bytes option option" where
  "DecodeRevert spare ret =
     (if length ret \<ge> 68 \<and> take 4 ret = [0x08, 0xc3, 0x79, 0xa0] then do {
        data \<leftarrow> go_slice ret 36 (length ret);
        r \<leftarrow> readLength data;
        case r of
          Inl _ \<Rightarrow> None
        | Inr len \<Rightarrow> do { t \<leftarrow> go_slice (data @ spare) 32 (32 + len); Some (Some t) }
      } else Some None)"

definition NewExecutionResult :: "bytes \<Rightarrow> u64 \<Rightarrow> exec_error option \<Rightarrow> bytes \<Rightarrow> ExecutionResult option" where
  "NewExecutionResult spare usedGas err ret = do {
     reason \<leftarrow> (case err of
         None \<Rightarrow> Some NoReason
       | Some e \<Rightarrow> do {
           d \<leftarrow> DecodeRevert spare ret;
           Some (case d of Some t \<Rightarrow> Reason t | None \<Rightarrow> ErrorText e)
         });
     Some \<lparr>er_UsedGas = usedGas, er_Err = err, er_ReturnData = ret, er_RevertReason = reason\<rparr>
   }"

definition ExecutionResult_Failed :: "ExecutionResult \<Rightarrow> bool" where
  "ExecutionResult_Failed r \<longleftrightarrow> er_Err r \<noteq> None"

definition ExecutionResult_Return :: "ExecutionResult \<Rightarrow> bytes" where
  "ExecutionResult_Return r = (if er_Err r \<noteq> None then [] else er_ReturnData r)"

definition ExecutionResult_Revert :: "ExecutionResult \<Rightarrow> bytes" where
  "ExecutionResult_Revert r = (if er_Err r \<noteq> Some (VmError ErrExecutionReverted) then [] else er_ReturnData r)"

section \<open>Transactions, messages and receipts\<close>

record Transaction =
  t_hash :: bytes
  t_From :: bytes
  t_To :: "bytes option"
  t_Input :: bytes
  t_GasPrice :: u64
  t_Gas :: u64
  t_Value :: "int option"
  t_Nonce :: u64
  t_V :: bytes
  t_R :: bytes
  t_S :: bytes
  t_BlockHash :: bytes
  t_BlockNumber :: u64
  t_TxnIndex :: u64

record exec_libs =
  el_rlp_tx :: "Transaction \<Rightarrow> bytes"
  el_parse_log :: "StorageLog \<Rightarrow> string option"

definition Transaction_Hash :: "go_libs \<Rightarrow> exec_libs \<Rightarrow> Transaction \<Rightarrow> bytes" where
  "Transaction_Hash L X t = (if Hash_IsEmpty (t_hash t) then lib_Keccak256 L (el_rlp_tx X t) else t_hash t)"

record Message =
  msg_from :: bytes
  msg_to :: "bytes option"
  msg_gasPrice :: int
  msg_gas :: u64
  msg_value :: int
  msg_nonce :: u64
  msg_checkNonce :: bool
  msg_data :: bytes

definition MessageFromTx :: "Transaction \<Rightarrow> bool \<Rightarrow> Message" where
  "MessageFromTx tx checkNonce =
     \<lparr>msg_from = t_From tx, msg_to = t_To tx, msg_gasPrice = uint (t_GasPrice tx), msg_gas = t_Gas tx,
      msg_value = (case t_Value tx of None \<Rightarrow> 0 | Some v \<Rightarrow> v), msg_nonce = t_Nonce tx,
      msg_checkNonce = checkNonce, msg_data = t_Input tx\<rparr>"

record Log =
  lg_Removed :: bool
  lg_LogIndex :: u64
  lg_TransactionIndex :: u64
  lg_TransactionHash :: bytes
  lg_BlockHash :: bytes
  lg_BlockNumber :: u64
  lg_Address :: bytes
  lg_Topics :: "bytes list"
  lg_Data :: bytes
  lg_Event :: "string option"

record Receipt =
  rc_Status :: u64
  rc_TransactionHash :: bytes
  rc_TransactionIndex :: u64
  rc_ContractAddress :: bytes
  rc_BlockHash :: bytes
  rc_From :: bytes
  rc_BlockNumber :: u64
  rc_GasUsed :: u64
  rc_CumulativeGasUsed :: u64
  rc_LogsBloom :: bytes
  rc_Logs :: "Log list"

definition Receipt_IsReverted :: "Receipt \<Rightarrow> bool" where
  "Receipt_IsReverted r \<longleftrightarrow> rc_Status r \<noteq> 1"

definition AddStorageLogs :: "exec_libs \<Rightarrow> Receipt \<Rightarrow> StorageLog list \<Rightarrow> Receipt" where
  "AddStorageLogs X self logs = self\<lparr>rc_Logs := rc_Logs self @ map (\<lambda>(ind, log).
     \<lparr>lg_Removed = False, lg_LogIndex = of_nat ind, lg_TransactionIndex = rc_TransactionIndex self,
      lg_TransactionHash = rc_TransactionHash self, lg_BlockHash = rc_BlockHash self,
      lg_BlockNumber = rc_BlockNumber self, lg_Address = sl_Address log, lg_Topics = sl_Topics log,
      lg_Data = sl_Data log, lg_Event = el_parse_log X log\<rparr>) (List.enumerate 0 logs)\<rparr>"

section \<open>Contexts and transfers\<close>

definition CanTransfer ::
  "('st, 'it) PersistStore \<Rightarrow> 'st StateDB \<Rightarrow> bytes \<Rightarrow> int \<Rightarrow> (bool \<times> 'st StateDB) option" where
  "CanTransfer ps db addr amount = do { (b, db) \<leftarrow> StateDB_GetBalance ps db addr; Some (b \<ge> amount, db) }"

definition Transfer ::
  "('st, 'it) PersistStore \<Rightarrow> 'st StateDB \<Rightarrow> bytes \<Rightarrow> bytes \<Rightarrow> int \<Rightarrow> 'st StateDB option" where
  "Transfer ps db sender recipient amount = do {
     db \<leftarrow> StateDB_SubBalance ps db sender amount;
     StateDB_AddBalance ps db recipient amount
   }"

definition NewEVMBlockContext ::
  "('st, 'it) PersistStore \<Rightarrow> u64 \<Rightarrow> u64 \<Rightarrow> (u64 \<Rightarrow> bytes option) \<Rightarrow> 'st BlockContext" where
  "NewEVMBlockContext ps height timestamp hashFn =
     \<lparr>bc_CanTransfer = CanTransfer ps, bc_Transfer = Transfer ps, bc_GetHash = hashFn, bc_Coinbase = zero_address,
      bc_GasLimit = 0xFFFFFFFFFFFFFFFF, bc_BlockNumber = sint height, bc_Time = sint timestamp, bc_Difficulty = 0\<rparr>"

definition NewEVMTxContext :: "Message \<Rightarrow> TxContext" where
  "NewEVMTxContext msg = \<lparr>tx_Origin = msg_from msg, tx_GasPrice = msg_gasPrice msg\<rparr>"

section \<open>State transitions\<close>

primrec count_nonzero :: "bytes \<Rightarrow> u64" where
  "count_nonzero [] = 0"
| "count_nonzero (b # bs) = (if b \<noteq> 0 then 1 + count_nonzero bs else count_nonzero bs)"

definition IntrinsicGas :: "bytes \<Rightarrow> bool \<Rightarrow> bool \<Rightarrow> bool \<Rightarrow> u64 option" where
  "IntrinsicGas data contractCreation isHomestead isEIP2028 =
     (let gas = (if contractCreation \<and> isHomestead then TxGasContractCreation else TxGas) in
      if length data > 0 then
        let nz = count_nonzero data;
            nonZeroGas = (if isEIP2028 then TxDataNonZeroGasEIP2028 else TxDataNonZeroGasFrontier)
        in if (0xFFFFFFFFFFFFFFFF - gas) div nonZeroGas < nz then None
           else
             let gas = gas + nz * nonZeroGas;
                 z = of_nat (length data) - nz
             in if (0xFFFFFFFFFFFFFFFF - gas) div TxDataZeroGas < z then None
                else Some (gas + z * TxDataZeroGas)
      else Some gas)"

record StateTransition =
  tr_msg :: Message
  tr_gas :: u64
  tr_gasPrice :: int
  tr_initialGas :: u64
  tr_value :: int
  tr_data :: bytes
  tr_GasReceiver :: bytes

definition NewStateTransition :: "Message \<Rightarrow> bytes \<Rightarrow> StateTransition" where
  "NewStateTransition msg feeReceiver =
     \<lparr>tr_msg = msg, tr_gas = 0, tr_gasPrice = msg_gasPrice msg, tr_initialGas = 0, tr_value = msg_value msg,
      tr_data = msg_data msg, tr_GasReceiver = feeReceiver\<rparr>"

definition StateTransition_to :: "StateTransition \<Rightarrow> bytes" where
  "StateTransition_to st = (case msg_to (tr_msg st) of None \<Rightarrow> zero_address | Some a \<Rightarrow> a)"

text \<open>When the sender cannot pay for all the gas, \<^verbatim>\<open>mgval\<close> is the balance's own pointer, and the division
  that computes the affordable gas stores its result through it.\<close>

definition buyGas ::
  "('st, 'it) PersistStore \<Rightarrow> StateTransition \<Rightarrow> 'st StateDB \<Rightarrow> (StateTransition \<times> 'st StateDB) option" where
  "buyGas ps st db = do {
     let gas = msg_gas (tr_msg st);
     let mgval = uint gas * tr_gasPrice st;
     (have, db) \<leftarrow> StateDB_GetBalance ps db (msg_from (tr_msg st));
     (mgval, gas) \<leftarrow>
       (if have < mgval then
          if tr_gasPrice st = 0 then None
          else (let have = have div tr_gasPrice st in Some (have, big_Uint64 have))
        else Some (mgval, gas));
     db \<leftarrow> StateDB_SubBalance ps db (msg_from (tr_msg st)) mgval;
     Some (st\<lparr>tr_gas := tr_gas st + gas, tr_initialGas := gas\<rparr>, db)
   }"

definition preCheck ::
  "('st, 'it) PersistStore \<Rightarrow> StateTransition \<Rightarrow> 'st StateDB \<Rightarrow> (exec_error option \<times> StateTransition \<times> 'st StateDB) option" where
  "preCheck ps st db = do {
     let msg = tr_msg st;
     (err, db) \<leftarrow> (if msg_checkNonce msg then do {
         (stNonce, db) \<leftarrow> StateDB_GetNonce ps db (msg_from msg);
         Some (if stNonce < msg_nonce msg then Some (ErrNonceTooHigh (msg_from msg) (msg_nonce msg) stNonce)
               else if stNonce > msg_nonce msg then Some (ErrNonceTooLow (msg_from msg) (msg_nonce msg) stNonce)
               else None, db)
       } else Some (None, db));
     case err of
       Some e \<Rightarrow> Some (Some e, st, db)
     | None \<Rightarrow> do { (st, db) \<leftarrow> buyGas ps st db; Some (None, st, db) }
   }"

definition gasUsed :: "StateTransition \<Rightarrow> u64" where
  "gasUsed st = tr_initialGas st - tr_gas st"

definition refundGas ::
  "('st, 'it) PersistStore \<Rightarrow> StateTransition \<Rightarrow> 'st StateDB \<Rightarrow> (StateTransition \<times> 'st StateDB) option" where
  "refundGas ps st db = do {
     let refund = gasUsed st div 2;
     let refund = (if refund > StateDB_GetRefund db then StateDB_GetRefund db else refund);
     let st = st\<lparr>tr_gas := tr_gas st + refund\<rparr>;
     db \<leftarrow> StateDB_AddBalance ps db (msg_from (tr_msg st)) (uint (tr_gas st) * tr_gasPrice st);
     Some (st, db)
   }"

text \<open>The intrinsic gas is charged, and what is left runs the call or the creation unless a check failed.\<close>

definition charge_intrinsic ::
  "('st, 'it) EVM \<Rightarrow> StateTransition \<Rightarrow> 'st StateDB \<Rightarrow> (exec_error option \<times> StateTransition \<times> 'st StateDB) option" where
  "charge_intrinsic E st db = do {
     let msg = tr_msg st;
     let num = bc_BlockNumber (evm_Context E);
     gas \<leftarrow> IntrinsicGas (tr_data st) (msg_to msg = None) (IsHomestead (evm_chainConfig E) num) (IsIstanbul (evm_chainConfig E) num);
     if tr_gas st < gas then Some (Some (ErrIntrinsicGas (tr_gas st) gas), st\<lparr>tr_gas := tr_gas st - tr_gas st\<rparr>, db)
     else do {
       (vmerr, db) \<leftarrow> (if sgn (msg_value msg) > 0 then do {
           (ok, db) \<leftarrow> bc_CanTransfer (evm_Context E) db (msg_from msg) (msg_value msg);
           Some (if ok then None else Some (ErrInsufficientFundsForTransfer (msg_from msg)), db)
         } else Some (None, db));
       Some (vmerr, st\<lparr>tr_gas := tr_gas st - gas\<rparr>, db)
     }
   }"

definition bump_nonce :: "('st, 'it) EVM \<Rightarrow> bytes \<Rightarrow> 'st StateDB \<Rightarrow> 'st StateDB option" where
  "bump_nonce E addr db = do {
     (n, db) \<leftarrow> StateDB_GetNonce (evm_store E) db addr;
     StateDB_SetNonce (evm_store E) db addr (n + 1)
   }"

definition run_message ::
  "'st runner \<Rightarrow> ('st, 'it) EVM \<Rightarrow> exec_error option \<Rightarrow> StateTransition \<Rightarrow> 'st EVM_state \<Rightarrow>
     ((bytes \<times> exec_error option) \<times> StateTransition \<times> 'st EVM_state) outcome" where
  "run_message run E vmerr st s =
     (let msg = tr_msg st; sender = AccountRef (msg_from msg) in
      if vmerr = None then
        if msg_to msg = None then
          obind (EVM_Create run E sender (tr_data st) (tr_gas st) (tr_value st) s) (\<lambda>((ret, _, gas, err), s).
            Done ((ret, map_option VmError err), st\<lparr>tr_gas := gas\<rparr>, s))
        else
          obind (of_opt (bump_nonce E (msg_from msg) (es_StateDB s))) (\<lambda>db.
          obind (EVM_Call run E sender (StateTransition_to st) (tr_data st) (tr_gas st) (tr_value st) (with_db s db))
            (\<lambda>((ret, gas, err), s).
            Done ((ret_bytes (tr_data st) ret, map_option VmError err), st\<lparr>tr_gas := gas\<rparr>, s)))
      else
        obind (of_opt (bump_nonce E (msg_from msg) (es_StateDB s))) (\<lambda>db. Done (([], vmerr), st, with_db s db)))"

definition TransitionDb ::
  "'st runner \<Rightarrow> ('st, 'it) EVM \<Rightarrow> StateTransition \<Rightarrow> 'st EVM_state \<Rightarrow>
     ((exec_error + ExecutionResult) \<times> StateTransition \<times> 'st EVM_state) outcome" where
  "TransitionDb run E st s =
     (let ps = evm_store E in
      obind (of_opt (preCheck ps st (es_StateDB s))) (\<lambda>(err, st, db).
      case err of
        Some e \<Rightarrow> Done (Inl e, st, with_db s db)
      | None \<Rightarrow>
          obind (of_opt (charge_intrinsic E st db)) (\<lambda>(vmerr, st, db).
          obind (run_message run E vmerr st (with_db s db)) (\<lambda>((ret, vmerr), st, s).
          obind (of_opt (refundGas ps st (es_StateDB s))) (\<lambda>(st, db).
          obind (of_opt (StateDB_AddBalance ps db (tr_GasReceiver st) (uint (gasUsed st) * tr_gasPrice st))) (\<lambda>db.
          obind (of_opt (NewExecutionResult (lib_spare (evm_libs E) ret) (gasUsed st) vmerr ret)) (\<lambda>result.
          Done (Inr result, st, with_db s db))))))))"

definition ApplyMessage ::
  "'st runner \<Rightarrow> ('st, 'it) EVM \<Rightarrow> Message \<Rightarrow> bytes \<Rightarrow> 'st EVM_state \<Rightarrow>
     ((exec_error + ExecutionResult) \<times> StateTransition \<times> 'st EVM_state) outcome" where
  "ApplyMessage run E msg feeReceiver s = TransitionDb run E (NewStateTransition msg feeReceiver) s"

section \<open>Transactions\<close>

definition applyTransaction ::
  "exec_libs \<Rightarrow> nat \<Rightarrow> ('st, 'it) JumpTable \<Rightarrow> Message \<Rightarrow> 'st StateDB \<Rightarrow> Transaction \<Rightarrow> u64 \<Rightarrow> ('st, 'it) EVM \<Rightarrow>
     'st EVM_state \<Rightarrow> bytes \<Rightarrow> ((exec_error + (ExecutionResult \<times> Receipt \<times> u64)) \<times> 'st StateDB) outcome" where
  "applyTransaction X fuel jt msg statedb tx usedGas E s feeReceiver =
     (let (E, s) = EVM_Reset E s (NewEVMTxContext msg) statedb;
          L = evm_libs E; ps = evm_store E in
      obind (ApplyMessage (EVMInterpreter_Run E jt fuel) E msg feeReceiver s) (\<lambda>(r, _, s).
      case r of
        Inl e \<Rightarrow> Done (Inl e, es_StateDB s)
      | Inr result \<Rightarrow>
          obind (of_opt (StateDB_Commit L ps (es_StateDB s))) (\<lambda>(err, db).
          case err of
            Some e \<Rightarrow> Done (Inl (DbError e), db)
          | None \<Rightarrow>
              let usedGas = usedGas + er_UsedGas result;
                  receipt = \<lparr>rc_Status = (if ExecutionResult_Failed result then 0 else 1),
                    rc_TransactionHash = Transaction_Hash L X tx, rc_TransactionIndex = 0, rc_ContractAddress = zero_address,
                    rc_BlockHash = zero_hash, rc_From = msg_from msg, rc_BlockNumber = 0, rc_GasUsed = er_UsedGas result,
                    rc_CumulativeGasUsed = 0, rc_LogsBloom = [], rc_Logs = []\<rparr>
              in obind (of_opt (if msg_to msg = None then do {
                     (n, db) \<leftarrow> StateDB_GetNonce ps db (tx_Origin (evm_TxContext E));
                     a \<leftarrow> CreateAddress L (evm_crypto E) (tx_Origin (evm_TxContext E)) (n - 1);
                     Some (receipt\<lparr>rc_ContractAddress := a\<rparr>, db)
                   } else Some (receipt, db))) (\<lambda>(receipt, db).
                 let receipt = receipt\<lparr>rc_BlockHash := StateDB_BlockHash db,
                       rc_BlockNumber := big_Uint64 (bc_BlockNumber (evm_Context E))\<rparr>
                 in Done (Inr (result, AddStorageLogs X receipt (StateDB_GetLogs db), usedGas), db)))))"

definition ApplyTransaction ::
  "go_libs \<Rightarrow> crypto_libs \<Rightarrow> exec_libs \<Rightarrow> ('st, 'it) PersistStore \<Rightarrow> nat \<Rightarrow> ChainConfig \<Rightarrow> (u64 \<Rightarrow> bytes option) \<Rightarrow>
     'st StateDB \<Rightarrow> u64 \<Rightarrow> u64 \<Rightarrow> Transaction \<Rightarrow> u64 \<Rightarrow> bytes \<Rightarrow> Config \<Rightarrow> bool \<Rightarrow>
     ((exec_error + (ExecutionResult \<times> Receipt \<times> u64)) \<times> 'st StateDB) outcome" where
  "ApplyTransaction L C X ps fuel config hashFn statedb blockHeight timestamp tx usedGas feeReceiver cfg checkNonce =
     (let msg = MessageFromTx tx checkNonce;
          blockContext = NewEVMBlockContext ps blockHeight timestamp hashFn
      in obind (of_opt (NewEVM L C ps blockContext \<lparr>tx_Origin = zero_address, tx_GasPrice = 0\<rparr> statedb config cfg))
           (\<lambda>(E, jt, s). applyTransaction X fuel jt msg statedb tx usedGas E s feeReceiver))"

section \<open>The executor\<close>

text \<open>The executor's store, overlay and cache are one object graph, held by the cache.\<close>

record Executor =
  ex_cacheDB :: "RemoteDB CacheDB"
  ex_chainID :: u64

definition ex_db :: "Executor \<Rightarrow> RemoteDB" where
  "ex_db self = od_store (cd_backend (ex_cacheDB self))"

definition NewExecutor :: "go_libs \<Rightarrow> rpc_client \<Rightarrow> Executor" where
  "NewExecutor L client =
     \<lparr>ex_cacheDB = NewCacheDB L (NewOverlayDB L (NewRemoteDB client)), ex_chainID = 1234\<rparr>"

definition ResetOverlay :: "go_libs \<Rightarrow> Executor \<Rightarrow> Executor" where
  "ResetOverlay L self = self\<lparr>ex_cacheDB := NewCacheDB L (NewOverlayDB L (ex_db self))\<rparr>"

record Eip155Context =
  ec_BlockHash :: bytes
  ec_TxIndex :: u64
  ec_Height :: u64
  ec_Timestamp :: u64
  ec_Coinbase :: bytes

definition ExecuteTransaction ::
  "go_libs \<Rightarrow> crypto_libs \<Rightarrow> exec_libs \<Rightarrow> 'it StoreIterator \<Rightarrow> nat \<Rightarrow> Executor \<Rightarrow> Transaction \<Rightarrow> Eip155Context \<Rightarrow>
     ((exec_error + (ExecutionResult \<times> Receipt)) \<times> Executor) outcome" where
  "ExecuteTransaction L C X ops fuel self tx ctx =
     (let config = GetChainConfig (ex_chainID self);
          statedb = NewStateDB (ex_cacheDB self) (Transaction_Hash L X tx) (ec_BlockHash ctx);
          evmConf = \<lparr>cfg_NoRecursion = False, cfg_EnablePreimageRecording = False, cfg_ExtraEips = []\<rparr>
      in obind (ApplyTransaction L C X (RemoteDB_store L ops) fuel config (RemoteDB_GetBlockHash (ex_db self)) statedb
                  (ec_Height ctx) (ec_Timestamp ctx) tx 0 (ec_Coinbase ctx) evmConf False) (\<lambda>(r, db).
         let self = self\<lparr>ex_cacheDB := sd_cacheDB db\<rparr> in
         case r of
           Inl e \<Rightarrow> Done (Inl e, self)
         | Inr (result, receipt, _) \<Rightarrow>
             (case StateDB_DbErr db of
                Some e \<Rightarrow> Done (Inl (DbError e), self)
              | None \<Rightarrow> Done (Inr (result, receipt\<lparr>rc_TransactionIndex := ec_TxIndex ctx\<rparr>), self))))"

end
