(* ===== verification/Evm_Store.thy ===== *)
theory Evm_Store
  imports State_Tables Executor
begin

text \<open>
  The virtual machine over the state database of \<^verbatim>\<open>src/evm/storage\<close> and any persistent store with the laws of
  \<open>persist_store\<close>, with the value transfer of \<^verbatim>\<open>src/executor/core/evm.go\<close>.  The two sublocales read the laws of
  the database twice: with write permission and the frame \<open>sdb_step\<close>, and without it and with \<open>quiet_step\<close>.
  The machine the executor builds over \<^verbatim>\<open>src/executor/remotedb\<close> is an interpretation.
\<close>

locale store_evm = persist_store "evm_store E" ok view good
  for E :: "('st, 'it) EVM" and ok :: "'st \<Rightarrow> bool" and view :: "'st \<Rightarrow> bytes \<Rightarrow> db_error + bytes" and good :: "bytes \<Rightarrow> bool" +
  assumes transfer_functions:
    "bc_CanTransfer (evm_Context E) = CanTransfer (evm_store E)" "bc_Transfer (evm_Context E) = Transfer (evm_store E)"
begin

lemma CanTransfer_same: "CanTransfer (evm_store E) db addr amount = Some (b, db') \<Longrightarrow> same_step ok view db db'"
  by (auto simp: CanTransfer_def split: bind_splits intro: same_GetBalance)

lemma Transfer_quiet: "Transfer (evm_store E) db from_addr to_addr amount = Some db' \<Longrightarrow> quiet_step ok view db db'"
  by (auto simp: Transfer_def split: bind_splits dest!: quiet_accounts elim!: quiet_step_trans)

end

sublocale store_evm \<subseteq> quiet: evm_state E "quiet_step ok view" "same_step ok view" False
  by unfold_locales
    (auto simp: transfer_functions intro: same_step_trans same_step_quiet quiet_step_trans same_reads CanTransfer_same
       Transfer_quiet quiet_accounts quiet_Snapshot revert_same quiet_step_step)

sublocale store_evm \<subseteq> writing: evm_state E "sdb_step ok view" "same_step ok view" True
  by unfold_locales
    (auto simp: transfer_functions intro: same_step_trans same_step_step sdb_step_trans same_reads CanTransfer_same
       quiet_step_step [OF Transfer_quiet] quiet_step_step [OF quiet_accounts(1)] quiet_step_step [OF quiet_accounts(3)]
       quiet_step_step [OF quiet_accounts(4)] quiet_step_step [OF quiet_Snapshot] revert_same sdb_steps)

interpretation remote_machine: store_evm
  "\<lparr>evm_libs = L, evm_crypto = C, evm_store = RemoteDB_store L ops,
     evm_Context = NewEVMBlockContext (RemoteDB_store L ops) height timestamp hashFn, evm_TxContext = tx,
     evm_chainConfig = config, evm_chainRules = rules, evm_vmConfig = vm\<rparr>"
  "\<lambda>st. remote_ok L st \<and> rd_client st = client" "remote_view L" "remote_good L client"
  for L C ops height timestamp hashFn tx config rules vm client
  by (intro store_evm.intro store_evm_axioms.intro)
    (simp_all add: NewEVMBlockContext_def remote.persist_store_axioms)

end
