(* ===== verification/Fuel_Laws.thy ===== *)
theory Fuel_Laws
  imports Interpreter_Laws
begin

text \<open>
  The step budget of the interpreter only decides whether there is a result, never which one: a larger budget
  gives the same outcome, unless the smaller one was exhausted.  Together with the gas bound, every budget
  above the gas gives the same outcome.
\<close>

section \<open>More fuel\<close>

definition le_out :: "'a outcome \<Rightarrow> 'a outcome \<Rightarrow> bool" where
  "le_out r r' \<longleftrightarrow> r = Exhausted \<or> r = r'"

definition runner_le :: "'st runner \<Rightarrow> 'st runner \<Rightarrow> bool" where
  "runner_le run run' \<longleftrightarrow> (\<forall>c input ro s. le_out (run c input ro s) (run' c input ro s))"

named_theorems fuel_mono

lemma le_out_refl [simp, fuel_mono]: "le_out r r"
  by (simp add: le_out_def)

lemma obind_le [fuel_mono]: "le_out r r' \<Longrightarrow> (\<And>a. le_out (f a) (f' a)) \<Longrightarrow> le_out (obind r f) (obind r' f')"
  unfolding le_out_def by (cases r) (simp_all, metis obind_simps(1))

lemma if_le [fuel_mono]: "le_out a a' \<Longrightarrow> le_out b b' \<Longrightarrow> le_out (if c then a else b) (if c then a' else b')"
  by simp

lemma option_le [fuel_mono]:
  "le_out a a' \<Longrightarrow> (\<And>x. le_out (b x) (b' x)) \<Longrightarrow>
     le_out (case p of None \<Rightarrow> a | Some x \<Rightarrow> b x) (case p of None \<Rightarrow> a' | Some x \<Rightarrow> b' x)"
  by (cases p) simp_all

lemma prod_le [fuel_mono]:
  "(\<And>x y. le_out (f x y) (f' x y)) \<Longrightarrow> le_out (case p of (x, y) \<Rightarrow> f x y) (case p of (x, y) \<Rightarrow> f' x y)"
  by (cases p) simp

lemma run_le: "runner_le run run' \<Longrightarrow> le_out (run c input ro s) (run' c input ro s)"
  by (simp add: runner_le_def)

lemma run_contract_le: "runner_le run run' \<Longrightarrow> le_out (run_contract run c input ro s) (run_contract run' c input ro s)"
  unfolding run_contract_def by (intro obind_le run_le le_out_refl)

lemma calls_le:
  assumes "runner_le run run'"
  shows "le_out (EVM_Call run E clr addr input gas val s) (EVM_Call run' E clr addr input gas val s)"
    "le_out (EVM_CallCode run E clr addr input gas val s) (EVM_CallCode run' E clr addr input gas val s)"
    "le_out (EVM_DelegateCall run E clr addr input gas s) (EVM_DelegateCall run' E clr addr input gas s)"
    "le_out (EVM_StaticCall run E clr addr input gas s) (EVM_StaticCall run' E clr addr input gas s)"
  unfolding EVM_Call_def EVM_CallCode_def EVM_DelegateCall_def EVM_StaticCall_def run_code_at_def Let_def
  by (intro fuel_mono run_contract_le [OF assms])+

lemma create_le:
  assumes "runner_le run run'"
  shows "le_out (EVM_create run E clr ch gas val address s) (EVM_create run' E clr ch gas val address s)"
  unfolding EVM_create_def Let_def by (intro fuel_mono run_le [OF assms])+

lemma creates_le:
  assumes "runner_le run run'"
  shows "le_out (EVM_Create run E clr code gas val s) (EVM_Create run' E clr code gas val s)"
    "le_out (EVM_Create2 run E clr code gas val salt s) (EVM_Create2 run' E clr code gas val salt s)"
  unfolding EVM_Create_def EVM_Create2_def Let_def by (intro fuel_mono create_le [OF assms])+

definition exec_mono :: "('st, 'it) executionFunc \<Rightarrow> bool" where
  "exec_mono x \<longleftrightarrow> (\<forall>run run' E pc cx s. runner_le run run' \<longrightarrow> le_out (x run E pc cx s) (x run' E pc cx s))"

lemma exec_monos [simp]:
  "exec_mono (lift_op f)" "exec_mono opCall" "exec_mono opCallCode" "exec_mono opDelegateCall" "exec_mono opStaticCall"
  "exec_mono opCreate" "exec_mono opCreate2"
  unfolding exec_mono_def lift_op_def opCall_def opCallCode_def opDelegateCall_def opStaticCall_def opCreate_def
    opCreate2_def Let_def
  by (intro allI impI fuel_mono calls_le creates_le; assumption)+

definition entry_mono :: "OpCode \<times> ('st, 'it) operation \<Rightarrow> bool" where
  "entry_mono e \<longleftrightarrow> exec_mono (op_execute (snd e))"

interpretation mono: table_property entry_mono
  by unfold_locales (simp_all add: entry_mono_def frontier_entries_def all_entries mk_op_def)

lemma interp_step_le:
  assumes "table_all entry_mono jt" "runner_le run run'"
  shows "le_out (interp_step run E jt steps pc cx s) (interp_step run' E jt steps pc cx s)"
proof -
  have "le_out (exec_op run E op o' pc cx s) (exec_op run' E op o' pc cx s)" if "jt op = Some o'" for op o' s
    using table_allD [OF assms(1) that] assms(2)
    unfolding exec_op_def Let_def entry_mono_def exec_mono_def snd_conv
    by (intro fuel_mono) simp
  then show ?thesis
    unfolding interp_step_def Let_def by (auto split: option.splits prod.splits)
qed

lemma run_frame_le:
  "(\<And>steps pc cx s. le_out (loop steps pc cx s) (loop' steps pc cx s)) \<Longrightarrow> runner_le (run_frame loop) (run_frame loop')"
  unfolding runner_le_def run_frame_def Let_def by (intro allI fuel_mono)

lemma interp_loop_le:
  assumes t: "table_all entry_mono jt" and nm: "n \<le> m"
  shows "le_out (interp_loop E jt n steps pc cx s) (interp_loop E jt m steps pc cx s)"
  using nm
proof (induction n arbitrary: m steps pc cx s)
  case 0
  then show ?case by (simp add: le_out_def)
next
  case (Suc n)
  then obtain k where m: "m = Suc k" "n \<le> k" by (cases m) auto
  have "runner_le (run_frame (interp_loop E jt n)) (run_frame (interp_loop E jt k))"
    using Suc.IH [OF m(2)] by (rule run_frame_le)
  from interp_step_le [OF t this] Suc.IH [OF m(2)] show ?case
    unfolding m interp_loop.simps by (intro obind_le) (auto split: step_result.split)
qed

lemma run_fuel_le:
  "table_all entry_mono jt \<Longrightarrow> n \<le> m \<Longrightarrow> runner_le (EVMInterpreter_Run E jt n) (EVMInterpreter_Run E jt m)"
  unfolding EVMInterpreter_Run_def by (intro run_frame_le interp_loop_le)

end
