(* ===== verification/Executor_Laws.thy ===== *)
theory Executor_Laws
  imports Evm_Store Fuel_Laws
begin

text \<open>
  The laws of transaction execution: the gas a message buys, uses and gets back, that executing a transaction
  ends, and what it does to the state database.
\<close>

section \<open>Gas of a message\<close>

lemma GetBalance_nonneg: "StateDB_GetBalance ps db addr = Some (b, db') \<Longrightarrow> 0 \<le> b"
  by (auto simp: StateDB_GetBalance_def balanceHandle_GetBalance_def Int_ToBig_def Let_def
      split: bind_splits sum.splits option.splits)

lemma affordable_less:
  fixes have_wei price :: int and gas :: u64
  assumes "0 \<le> have_wei" "have_wei < uint gas * price"
  shows "0 \<le> have_wei div price \<and> have_wei div price < uint gas"
proof -
  have "0 < uint gas * price" using assms by linarith
  then have "0 < price" using uint_ge_0 [of gas] by (metis mult_nonneg_nonpos not_less)
  then have q: "have_wei div price * price \<le> have_wei"
    using pos_mod_sign [of price have_wei] div_mult_mod_eq [of have_wei price] by linarith
  have "have_wei div price < uint gas"
  proof (rule ccontr)
    assume "\<not> have_wei div price < uint gas"
    then have "uint gas * price \<le> have_wei div price * price" using \<open>0 < price\<close> by (intro mult_right_mono) auto
    then show False using q assms by linarith
  qed
  then show ?thesis using assms \<open>0 < price\<close> by (simp add: pos_imp_zdiv_nonneg_iff)
qed

lemma buyGas_gas:
  assumes "buyGas ps st db = Some (st', db')"
  shows "tr_initialGas st' \<le> msg_gas (tr_msg st)" "tr_gas st' = tr_gas st + tr_initialGas st'" "tr_msg st' = tr_msg st"
proof -
  obtain b db1 mg gas where b: "StateDB_GetBalance ps db (msg_from (tr_msg st)) = Some (b, db1)"
    and g: "(if b < uint (msg_gas (tr_msg st)) * tr_gasPrice st then if tr_gasPrice st = 0 then None
       else Some (b div tr_gasPrice st, big_Uint64 (b div tr_gasPrice st))
       else Some (uint (msg_gas (tr_msg st)) * tr_gasPrice st, msg_gas (tr_msg st))) = Some (mg, gas)"
    and st': "st' = st\<lparr>tr_gas := tr_gas st + gas, tr_initialGas := gas\<rparr>"
    using assms unfolding buyGas_def Let_def by (auto split: bind_splits split del: if_split)
  have "gas \<le> msg_gas (tr_msg st)"
  proof (cases "b < uint (msg_gas (tr_msg st)) * tr_gasPrice st")
    case True
    let ?q = "b div tr_gasPrice st"
    from affordable_less [OF GetBalance_nonneg [OF b] True] have q: "0 \<le> ?q" "?q < uint (msg_gas (tr_msg st))" by auto
    have "gas = of_nat (nat ?q)" using True g q by (auto simp: big_Uint64_def split: if_splits)
    moreover have "nat ?q < unat (msg_gas (tr_msg st))" using q by (metis nat_mono_iff nat_uint_eq order_le_less_trans)
    ultimately show ?thesis
      using unat_u64_less [of "msg_gas (tr_msg st)"] by (simp add: word_le_nat_alt unat_of_nat)
  qed (use g in \<open>auto split: if_splits\<close>)
  then show "tr_initialGas st' \<le> msg_gas (tr_msg st)" "tr_gas st' = tr_gas st + tr_initialGas st'" "tr_msg st' = tr_msg st"
    by (simp_all add: st')
qed

lemma preCheck_gas:
  assumes "preCheck ps st db = Some (None, st', db')"
  shows "tr_initialGas st' \<le> msg_gas (tr_msg st)" "tr_gas st' = tr_gas st + tr_initialGas st'" "tr_msg st' = tr_msg st"
proof -
  obtain db1 where "buyGas ps st db1 = Some (st', db')"
    using assms unfolding preCheck_def Let_def by (auto split: bind_splits option.split_asm if_split_asm)
  then show "tr_initialGas st' \<le> msg_gas (tr_msg st)" "tr_gas st' = tr_gas st + tr_initialGas st'" "tr_msg st' = tr_msg st"
    by (rule buyGas_gas)+
qed

lemma charge_intrinsic_gas:
  assumes "charge_intrinsic E st db = Some (vmerr, st', db')"
  shows "tr_gas st' \<le> tr_gas st" "tr_initialGas st' = tr_initialGas st" "tr_msg st' = tr_msg st"
proof -
  have "tr_gas st - g \<le> tr_gas st" if "\<not> tr_gas st < g" for g using that by (simp add: word_sub_le not_less)
  then show "tr_gas st' \<le> tr_gas st" "tr_initialGas st' = tr_initialGas st" "tr_msg st' = tr_msg st"
    using assms unfolding charge_intrinsic_def Let_def by (auto split: bind_splits if_splits)
qed

definition message_gas_ok :: "StateTransition \<Rightarrow> ((bytes \<times> exec_error option) \<times> StateTransition \<times> 'st EVM_state) outcome \<Rightarrow> bool" where
  "message_gas_ok st r \<longleftrightarrow> r \<noteq> Exhausted \<and> (\<forall>x st' s. r = Done (x, st', s) \<longrightarrow>
     tr_gas st' \<le> tr_gas st \<and> tr_initialGas st' = tr_initialGas st \<and> tr_msg st' = tr_msg st)"

context gas_runner begin

lemma run_message_gas:
  assumes "unat (tr_gas st) < bound"
  shows "message_gas_ok st (run_message run E vmerr st s)"
proof -
  have cr: "create_gas_ok (tr_gas st) (EVM_Create run E clr code (tr_gas st) val t)" for clr code val t
    by (rule Create_gas(1) [OF assms])
  have cl: "call_gas_ok (tr_gas st) (EVM_Call run E clr addr input (tr_gas st) val t)" for clr addr input val t
    by (rule Call_gas [OF assms])
  have 1: "message_gas_ok st (obind r (\<lambda>((ret, a, g, err), s). Done ((f ret, h err), st\<lparr>tr_gas := g\<rparr>, s)))"
    if "create_gas_ok (tr_gas st) r" for r f h
    using that by (cases r) (auto simp: create_gas_ok_def message_gas_ok_def)
  have 2: "message_gas_ok st (obind r (\<lambda>((ret, g, err), s). Done ((f ret, h err), st\<lparr>tr_gas := g\<rparr>, s)))"
    if "call_gas_ok (tr_gas st) r" for r f h
    using that by (cases r) (auto simp: call_gas_ok_def message_gas_ok_def)
  have 3: "message_gas_ok st (obind (of_opt r) k)" if "\<And>x. message_gas_ok st (k x)" for r k
    using that by (cases r) (auto simp: message_gas_ok_def)
  have 4: "message_gas_ok st (Done (x, st, t))" for x :: "bytes \<times> exec_error option" and t :: "'st EVM_state"
    by (simp add: message_gas_ok_def)
  show ?thesis
    unfolding run_message_def Let_def
    by (auto intro!: 1 [OF cr] 2 [OF cl] 3 4)
qed

end

lemma refundGas_gas:
  assumes "refundGas ps st db = Some (st', db')" "tr_gas st \<le> tr_initialGas st"
  shows "tr_gas st \<le> tr_gas st'" "tr_gas st' \<le> tr_initialGas st" "tr_initialGas st' = tr_initialGas st" "tr_msg st' = tr_msg st"
    "unat (gasUsed st) \<le> 2 * unat (gasUsed st') + 1"
proof -
  define half where "half = gasUsed st div 2"
  define r where "r = (if half > StateDB_GetRefund db then StateDB_GetRefund db else half)"
  have st': "st' = st\<lparr>tr_gas := tr_gas st + r\<rparr>"
    using assms(1) unfolding refundGas_def Let_def by (auto simp: r_def half_def split: bind_splits)
  have u: "unat (gasUsed st) = unat (tr_initialGas st) - unat (tr_gas st)"
    using assms(2) by (simp add: gasUsed_def unat_sub)
  have "unat r \<le> unat half" by (auto simp: r_def word_le_nat_alt word_less_nat_alt)
  then have r: "2 * unat r \<le> unat (gasUsed st)" by (simp add: half_def unat_div)
  have le: "unat (tr_gas st) \<le> unat (tr_initialGas st)" using assms(2) by (simp add: word_le_nat_alt)
  then have g: "unat (tr_gas st + r) = unat (tr_gas st) + unat r"
    using r u unat_u64_less [of "tr_initialGas st"] by (simp add: unat_word_ariths)
  show "tr_gas st \<le> tr_gas st'" "tr_gas st' \<le> tr_initialGas st" "tr_initialGas st' = tr_initialGas st" "tr_msg st' = tr_msg st"
    using g r u le by (simp_all add: st' word_le_nat_alt)
  then have "unat (gasUsed st') = unat (tr_initialGas st) - (unat (tr_gas st) + unat r)"
    using g by (simp add: gasUsed_def st' unat_sub)
  then show "unat (gasUsed st) \<le> 2 * unat (gasUsed st') + 1" using r u le by linarith
qed

definition returns :: "'a outcome \<Rightarrow> bool" where
  "returns r \<longleftrightarrow> r \<noteq> Exhausted"

lemma returns_simps [simp]: "returns (Done x)" "returns Panicked" "returns (of_opt r')"
  by (simp_all add: returns_def)

lemma obind_returns: "returns r \<Longrightarrow> (\<And>x. r = Done x \<Longrightarrow> returns (f x)) \<Longrightarrow> returns (obind r f)"
  by (auto simp: returns_def obind_Exhausted)

text \<open>The steps of a transition that gives a result.\<close>

lemma TransitionDb_cases:
  assumes "TransitionDb run E st s = Done (Inr result, st', s')"
  obtains st1 db1 vmerr st2 db2 ret vmerr2 st3 s3 db4 db5 where
    "preCheck (evm_store E) st (es_StateDB s) = Some (None, st1, db1)"
    "charge_intrinsic E st1 db1 = Some (vmerr, st2, db2)"
    "run_message run E vmerr st2 (with_db s db2) = Done ((ret, vmerr2), st3, s3)"
    "refundGas (evm_store E) st3 (es_StateDB s3) = Some (st', db4)"
    "StateDB_AddBalance (evm_store E) db4 (tr_GasReceiver st') (uint (gasUsed st') * tr_gasPrice st') = Some db5"
    "NewExecutionResult (lib_spare (evm_libs E) ret) (gasUsed st') vmerr2 ret = Some result" "s' = with_db s3 db5"
  using assms unfolding TransitionDb_def Let_def
  by (elim obind_DoneE, clarsimp, rename_tac err st1 db1, case_tac err) (auto elim!: obind_DoneE)

lemma TransitionDb_rejects:
  assumes "TransitionDb run E st s = Done (Inl e, st', s')"
  obtains db' where "preCheck (evm_store E) st (es_StateDB s) = Some (Some e, st', db')" "s' = with_db s db'"
  using assms unfolding TransitionDb_def Let_def
  by (elim obind_DoneE, clarsimp, rename_tac err st1 db1, case_tac err) (auto elim!: obind_DoneE)

definition transition_gas_ok ::
  "StateTransition \<Rightarrow> ((exec_error + ExecutionResult) \<times> StateTransition \<times> 'st EVM_state) outcome \<Rightarrow> bool" where
  "transition_gas_ok st r \<longleftrightarrow> r \<noteq> Exhausted \<and> (\<forall>result st' s. r = Done (Inr result, st', s) \<longrightarrow>
     er_UsedGas result \<le> msg_gas (tr_msg st) \<and> tr_initialGas st' \<le> msg_gas (tr_msg st) \<and>
     unat (er_UsedGas result) + unat (tr_gas st') = unat (tr_initialGas st'))"

context gas_runner begin

lemma TransitionDb_gas:
  assumes b: "unat (msg_gas (tr_msg st)) < bound" and z: "tr_gas st = 0"
  shows "transition_gas_ok st (TransitionDb run E st s)"
proof -
  note steps = TransitionDb_def Let_def
  have k: "message_gas_ok st2 (run_message run E vmerr st2 t)" "tr_gas st2 \<le> tr_initialGas st2"
      "tr_initialGas st2 \<le> msg_gas (tr_msg st)"
    if "preCheck (evm_store E) st db = Some (None, st1, db1)" "charge_intrinsic E st1 db1 = Some (vmerr, st2, db2)"
    for db st1 db1 vmerr st2 db2 t
  proof -
    note p = preCheck_gas [OF that(1)] and c = charge_intrinsic_gas [OF that(2)]
    show g: "tr_gas st2 \<le> tr_initialGas st2" using p c z by simp
    show i: "tr_initialGas st2 \<le> msg_gas (tr_msg st)" using p c by simp
    have "unat (tr_gas st2) < bound" using order_trans [OF g i] b by (simp add: word_le_nat_alt)
    then show "message_gas_ok st2 (run_message run E vmerr st2 t)" by (rule run_message_gas)
  qed
  have fin: "er_UsedGas result \<le> msg_gas (tr_msg st) \<and> tr_initialGas st4 \<le> msg_gas (tr_msg st) \<and>
      unat (er_UsedGas result) + unat (tr_gas st4) = unat (tr_initialGas st4)"
    if "tr_gas st3 \<le> tr_initialGas st3" "tr_initialGas st3 \<le> msg_gas (tr_msg st)"
      "refundGas (evm_store E) st3 db = Some (st4, db')" "NewExecutionResult (lib_spare (evm_libs E) ret) (gasUsed st4) vmerr ret = Some result"
    for st3 st4 db db' vmerr ret result
  proof -
    note r = refundGas_gas [OF that(3,1)]
    have "er_UsedGas result = gasUsed st4" using that(4) by (auto simp: NewExecutionResult_def split: bind_splits)
    moreover have "unat (gasUsed st4) = unat (tr_initialGas st4) - unat (tr_gas st4)" "unat (tr_gas st4) \<le> unat (tr_initialGas st4)"
      using r by (simp_all add: gasUsed_def unat_sub word_le_nat_alt)
    ultimately show ?thesis using that(2) r by (simp add: word_le_nat_alt)
  qed
  have m: "returns (run_message run E vmerr st2 t)"
    if "preCheck (evm_store E) st db = Some (None, st1, db1)" "charge_intrinsic E st1 db1 = Some (vmerr, st2, db2)"
    for db st1 db1 vmerr st2 db2 t
    using k(1) [OF that] by (simp add: returns_def message_gas_ok_def)
  have 1: "returns (TransitionDb run E st s)"
    unfolding TransitionDb_def Let_def
    by (intro obind_returns returns_simps(3)) (auto intro!: obind_returns split: option.split; erule (1) m)
  have 2: "er_UsedGas result \<le> msg_gas (tr_msg st) \<and> tr_initialGas st' \<le> msg_gas (tr_msg st) \<and>
      unat (er_UsedGas result) + unat (tr_gas st') = unat (tr_initialGas st')"
    if d: "TransitionDb run E st s = Done (Inr result, st', s')" for result st' s'
    using d
  proof (rule TransitionDb_cases)
    fix st1 db1 vmerr st2 db2 ret vmerr2 st3 s3 db4 db5
    assume p: "preCheck (evm_store E) st (es_StateDB s) = Some (None, st1, db1)"
      and c: "charge_intrinsic E st1 db1 = Some (vmerr, st2, db2)"
      and r: "run_message run E vmerr st2 (with_db s db2) = Done ((ret, vmerr2), st3, s3)"
      and f: "refundGas (evm_store E) st3 (es_StateDB s3) = Some (st', db4)"
      and n: "NewExecutionResult (lib_spare (evm_libs E) ret) (gasUsed st') vmerr2 ret = Some result"
    have "tr_gas st3 \<le> tr_gas st2" "tr_initialGas st3 = tr_initialGas st2"
      using k(1) [OF p c] r unfolding message_gas_ok_def by blast+
    then show ?thesis using fin [OF _ _ f n] k(2,3) [OF p c] by auto
  qed
  show ?thesis unfolding transition_gas_ok_def using 1 [unfolded returns_def] 2 by blast
qed

end

section \<open>Transactions end\<close>

lemma applyTransaction_returns:
  assumes "unat (msg_gas msg) < fuel" "NewEVMInterpreter r cfg = Some jt"
  shows "returns (applyTransaction X fuel jt msg statedb tx usedGas E s feeReceiver)"
proof -
  obtain E' s' where r: "EVM_Reset E s (NewEVMTxContext msg) statedb = (E', s')" by fastforce
  have "gas_runner (EVMInterpreter_Run E' jt fuel) fuel"
    by (rule table_gas_runner [OF entries.NewEVMInterpreter_all [OF assms(2)]])
  from gas_runner.TransitionDb_gas [OF this, of "NewStateTransition msg feeReceiver" E' s']
  have "returns (TransitionDb (EVMInterpreter_Run E' jt fuel) E' (NewStateTransition msg feeReceiver) s')"
    using assms(1) by (simp add: transition_gas_ok_def NewStateTransition_def returns_def)
  then show ?thesis
    unfolding applyTransaction_def r Let_def prod.case ApplyMessage_def
    apply (rule obind_returns)
    apply (simp only: split: prod.split sum.split option.split)
    apply (auto intro!: obind_returns split del: if_split split: option.split)
    done
qed

lemma NewEVM_table: "NewEVM L C ps bctx tctx statedb config cfg = Some (E, jt, s) \<Longrightarrow> \<exists>r. NewEVMInterpreter r cfg = Some jt"
  by (auto simp: NewEVM_def Let_def split: bind_splits)

lemma ApplyTransaction_returns:
  assumes "unat (t_Gas tx) < fuel"
  shows "returns (ApplyTransaction L C X ps fuel config hashFn statedb height timestamp tx usedGas feeReceiver cfg checkNonce)"
proof -
  have *: "returns (applyTransaction X fuel jt (MessageFromTx tx checkNonce) statedb tx usedGas E s feeReceiver)"
    if "NewEVM L C ps bctx tctx statedb config cfg = Some (E, jt, s)" for bctx tctx E jt s
    using NewEVM_table [OF that] assms by (auto intro!: applyTransaction_returns simp: MessageFromTx_def)
  show ?thesis
    unfolding ApplyTransaction_def Let_def
    by (rule obind_returns [OF returns_simps(3)], simp only: of_opt_Done split: prod.split, intro allI impI) (rule *, blast)
qed

lemma ExecuteTransaction_returns:
  assumes "unat (t_Gas tx) < fuel"
  shows "returns (ExecuteTransaction L C X ops fuel self tx ctx)"
  unfolding ExecuteTransaction_def Let_def
  by (rule obind_returns [OF ApplyTransaction_returns [OF assms]]) (simp only: returns_simps split: sum.split option.split prod.split, simp)

section \<open>The state of a transaction\<close>

text \<open>A message that its checks reject leaves the database as it was; one that is executed keeps the invariant,
  the committed layer, the snapshots and the logs of the database it starts with; and a message that fails changes
  balances and nonces only, unless it is a creation that cannot pay for storing its code before Homestead.\<close>

definition undone :: "bool \<Rightarrow> bytes option \<Rightarrow> exec_error option \<Rightarrow> bool" where
  "undone homestead to_addr err \<longleftrightarrow> err \<noteq> None \<and> (to_addr \<noteq> None \<or> homestead \<or> err \<noteq> Some (VmError ErrCodeStoreOutOfGas))"

lemma NewExecutionResult_err: "NewExecutionResult spare gas err ret = Some result \<Longrightarrow> er_Err result = err"
  by (auto simp: NewExecutionResult_def split: bind_splits)

context store_evm begin

lemma quiet_balances:
  "StateDB_AddBalance (evm_store E) db a v = Some db' \<Longrightarrow> quiet_step ok view db db'"
  "StateDB_SubBalance (evm_store E) db a v = Some db' \<Longrightarrow> quiet_step ok view db db'"
  "StateDB_SetNonce (evm_store E) db a n = Some db' \<Longrightarrow> quiet_step ok view db db'"
  by (auto dest: quiet_accounts)

lemma same_nonce: "StateDB_GetNonce (evm_store E) db a = Some (n, db') \<Longrightarrow> same_step ok view db db'"
  by (auto dest: same_reads)

lemma buyGas_quiet: "buyGas (evm_store E) st db = Some (st', db') \<Longrightarrow> quiet_step ok view db db'"
  unfolding buyGas_def Let_def
  by (auto split: bind_splits if_split_asm dest!: same_step_quiet [OF same_GetBalance] quiet_balances(2) elim!: quiet_step_trans)

lemma preCheck_state:
  assumes "preCheck (evm_store E) st db = Some (err, st', db')"
  shows "quiet_step ok view db db'" "err \<noteq> None \<Longrightarrow> same_step ok view db db'"
proof -
  show "err \<noteq> None \<Longrightarrow> same_step ok view db db'"
    using assms unfolding preCheck_def Let_def
    by (auto split: bind_splits option.split_asm if_split_asm intro: same_nonce)
  show "quiet_step ok view db db'"
    using assms unfolding preCheck_def Let_def
    by (auto split: bind_splits option.split_asm if_split_asm dest!: same_step_quiet [OF same_nonce] buyGas_quiet
        elim: quiet_step_trans)
qed

lemma charge_intrinsic_state: "charge_intrinsic E st db = Some (vmerr, st', db') \<Longrightarrow> same_step ok view db db'"
  unfolding charge_intrinsic_def Let_def transfer_functions
  by (auto split: bind_splits if_split_asm intro: CanTransfer_same)

lemma bump_nonce_quiet: "bump_nonce E a db = Some db' \<Longrightarrow> quiet_step ok view db db'"
  unfolding bump_nonce_def
  by (auto split: bind_splits intro: quiet_step_trans [OF same_step_quiet [OF same_nonce] quiet_balances(3)])

lemma refundGas_quiet: "refundGas (evm_store E) st db = Some (st', db') \<Longrightarrow> quiet_step ok view db db'"
  unfolding refundGas_def Let_def by (auto split: bind_splits intro: quiet_balances(1))


lemma run_message_state:
  assumes "state_runner E (sdb_step ok view) (same_step ok view) True run"
    and m: "run_message run E vmerr st s = Done ((ret, vmerr'), st', s')"
  shows "sdb_step ok view (es_StateDB s) (es_StateDB s')"
    "undone (r_IsHomestead (evm_chainRules E)) (msg_to (tr_msg st)) vmerr' \<Longrightarrow> quiet_step ok view (es_StateDB s) (es_StateDB s')"
proof -
  let ?clr = "AccountRef (msg_from (tr_msg st))"
  have cr: "sdb_step ok view (es_StateDB s) (es_StateDB t)"
    if "EVM_Create run E ?clr (tr_data st) (tr_gas st) (tr_value st) s = Done (x, t)" for x t
    using state_runner.Create_kept(1) [OF assms(1), of s ?clr "tr_data st" "tr_gas st" "tr_value st"] that
    unfolding part_kept_def may_run_def by blast
  have "fails_by (quiet_step ok view) E (es_StateDB s) (EVM_Create run E ?clr (tr_data st) (tr_gas st) (tr_value st) s)"
    by (rule state_runner.Create_failed [OF assms(1)])
      (auto intro: same_step_quiet quiet_step_trans quiet_balances(3) simp: may_run_def)
  then have crq: "undone (r_IsHomestead (evm_chainRules E)) None (map_option VmError err) \<longrightarrow> quiet_step ok view (es_StateDB s) (es_StateDB t)"
    if "EVM_Create run E ?clr (tr_data st) (tr_gas st) (tr_value st) s = Done ((q, a, g, err), t)" for q a g err t
    using that by (auto simp: fails_by_def create_reverts_def undone_def)
  have cl: "sdb_step ok view db (es_StateDB t) \<and> (err \<noteq> None \<longrightarrow> quiet_step ok view db (es_StateDB t))"
    if "EVM_Call run E ?clr (StateTransition_to st) (tr_data st) (tr_gas st) (tr_value st) (with_db s db) = Done ((q, g, err), t)"
    for db q g err t
    using state_runner.Call_kept [OF assms(1), of "with_db s db" ?clr "StateTransition_to st" "tr_data st" "tr_gas st" "tr_value st"]
      that same_step_quiet by (auto simp: call_kept_def may_run_def)
  have both: "sdb_step ok view d1 d3 \<and> (b \<longrightarrow> quiet_step ok view d1 d3)"
    if "quiet_step ok view d1 d2" "sdb_step ok view d2 d3 \<and> (b \<longrightarrow> quiet_step ok view d2 d3)" for d1 d2 d3 b
    using that by (blast intro: quiet_step_step sdb_step_trans quiet_step_trans)
  have "sdb_step ok view (es_StateDB s) (es_StateDB s') \<and>
      (undone (r_IsHomestead (evm_chainRules E)) (msg_to (tr_msg st)) vmerr' \<longrightarrow> quiet_step ok view (es_StateDB s) (es_StateDB s'))"
  proof (cases "vmerr = None \<and> msg_to (tr_msg st) = None")
    case True
    then show ?thesis using m cr crq by (auto simp: run_message_def Let_def elim!: obind_DoneE)
  next
    case False
    obtain db1 where b: "bump_nonce E (msg_from (tr_msg st)) (es_StateDB s) = Some db1"
      and r: "(\<exists>q g err. EVM_Call run E ?clr (StateTransition_to st) (tr_data st) (tr_gas st) (tr_value st) (with_db s db1)
          = Done ((q, g, err), s') \<and> vmerr' = map_option VmError err) \<or> s' = with_db s db1"
      using m False unfolding run_message_def Let_def
      by (auto elim!: obind_DoneE split: if_split_asm)
    note q = bump_nonce_quiet [OF b]
    show ?thesis using r both [OF q] q quiet_step_step [OF q] cl [of db1] by (fastforce simp: undone_def)
  qed
  then show "sdb_step ok view (es_StateDB s) (es_StateDB s')"
    "undone (r_IsHomestead (evm_chainRules E)) (msg_to (tr_msg st)) vmerr' \<Longrightarrow> quiet_step ok view (es_StateDB s) (es_StateDB s')" by blast+
qed

lemma TransitionDb_state:
  assumes run: "state_runner E (sdb_step ok view) (same_step ok view) True run"
    and d: "TransitionDb run E st s = Done (r, st', s')"
  shows "sdb_step ok view (es_StateDB s) (es_StateDB s')"
    "r = Inl e \<Longrightarrow> same_step ok view (es_StateDB s) (es_StateDB s')"
    "r = Inr result \<Longrightarrow> undone (r_IsHomestead (evm_chainRules E)) (msg_to (tr_msg st)) (er_Err result) \<Longrightarrow>
       quiet_step ok view (es_StateDB s) (es_StateDB s')"
proof -
  have 1: "same_step ok view (es_StateDB s) (es_StateDB s')" if "r = Inl e" for e
    using d [unfolded that] by (rule TransitionDb_rejects) (auto dest: preCheck_state(2))
  have 2: "sdb_step ok view (es_StateDB s) (es_StateDB s') \<and> (undone (r_IsHomestead (evm_chainRules E)) (msg_to (tr_msg st)) (er_Err result) \<longrightarrow>
      quiet_step ok view (es_StateDB s) (es_StateDB s'))" if "r = Inr result" for result
    using d [unfolded that]
  proof (rule TransitionDb_cases)
    fix st1 db1 vmerr st2 db2 ret vmerr2 st3 s3 db4 db5
    assume p: "preCheck (evm_store E) st (es_StateDB s) = Some (None, st1, db1)"
      and c: "charge_intrinsic E st1 db1 = Some (vmerr, st2, db2)"
      and m: "run_message run E vmerr st2 (with_db s db2) = Done ((ret, vmerr2), st3, s3)"
      and f: "refundGas (evm_store E) st3 (es_StateDB s3) = Some (st', db4)"
      and b: "StateDB_AddBalance (evm_store E) db4 (tr_GasReceiver st') (uint (gasUsed st') * tr_gasPrice st') = Some db5"
      and n: "NewExecutionResult (lib_spare (evm_libs E) ret) (gasUsed st') vmerr2 ret = Some result" and s': "s' = with_db s3 db5"
    have before: "quiet_step ok view (es_StateDB s) db2"
      by (rule quiet_step_trans [OF preCheck_state(1) [OF p] same_step_quiet [OF charge_intrinsic_state [OF c]]])
    have after: "quiet_step ok view (es_StateDB s3) db5"
      by (rule quiet_step_trans [OF refundGas_quiet [OF f] quiet_balances(1) [OF b]])
    note m' = run_message_state [OF run m, simplified]
    have msg: "tr_msg st2 = tr_msg st" using preCheck_gas(3) [OF p] charge_intrinsic_gas(3) [OF c] by simp
    show ?thesis
      unfolding s' using NewExecutionResult_err [OF n] m'(2) [unfolded msg]
        sdb_step_trans [OF quiet_step_step [OF before] sdb_step_trans [OF m'(1) quiet_step_step [OF after]]]
        quiet_step_trans [OF before quiet_step_trans [OF _ after]] by auto
  qed
  show "sdb_step ok view (es_StateDB s) (es_StateDB s')" using 1 2 same_step_step by (cases r) blast+
  show "r = Inl e \<Longrightarrow> same_step ok view (es_StateDB s) (es_StateDB s')" by (rule 1)
  show "r = Inr result \<Longrightarrow> undone (r_IsHomestead (evm_chainRules E)) (msg_to (tr_msg st)) (er_Err result) \<Longrightarrow>
       quiet_step ok view (es_StateDB s) (es_StateDB s')" using 2 by blast
qed

end

section \<open>The intrinsic gas\<close>

lemma count_nonzero_spec:
  "length data < 2 ^ 56 \<Longrightarrow> unat (count_nonzero data) = length (filter (\<lambda>b. b \<noteq> 0) data)"
proof (induction data)
  case (Cons b bs)
  have "length (filter (\<lambda>b. b \<noteq> 0) bs) < 2 ^ 56" by (rule le_less_trans [OF length_filter_le]) (use Cons.prems in simp)
  then show ?case using Cons by (simp add: unat_word_ariths)
qed simp

lemma room_spec:
  fixes gas n k :: u64
  assumes "unat gas + unat n * unat k < 2 ^ 64" "0 < unat k"
  shows "\<not> (0xFFFFFFFFFFFFFFFF - gas) div k < n" "unat (gas + n * k) = unat gas + unat n * unat k"
proof -
  have "gas \<le> 0xFFFFFFFFFFFFFFFF" using assms(1) by (simp add: word_le_nat_alt)
  then have "unat (0xFFFFFFFFFFFFFFFF - gas) = 2 ^ 64 - 1 - unat gas" by (simp add: unat_sub)
  moreover have "unat n \<le> (2 ^ 64 - 1 - unat gas) div unat k" using assms by (simp add: less_eq_div_iff_mult_less_eq)
  ultimately show "\<not> (0xFFFFFFFFFFFFFFFF - gas) div k < n" by (simp add: word_less_nat_alt unat_div)
  show "unat (gas + n * k) = unat gas + unat n * unat k" using assms(1) by (simp add: unat_word_ariths)
qed

lemma IntrinsicGas_spec:
  assumes "length data < 2 ^ 56"
  shows "\<exists>g. IntrinsicGas data create homestead eip2028 = Some g \<and>
    unat g = (if create \<and> homestead then 53000 else 21000) +
      (if eip2028 then 16 else 68) * length (filter (\<lambda>b. b \<noteq> 0) data) + 4 * length (filter (\<lambda>b. b = 0) data)"
proof -
  define base :: u64 where "base = (if create \<and> homestead then 53000 else 21000)"
  define k :: u64 where "k = (if eip2028 then 16 else 68)"
  define nz where "nz = count_nonzero data"
  have nz: "unat nz = length (filter (\<lambda>b. b \<noteq> 0) data)" using count_nonzero_spec [OF assms] by (simp add: nz_def)
  have sum: "length (filter (\<lambda>b. b \<noteq> 0) data) + length (filter (\<lambda>b. b = 0) data) = length data"
    using sum_length_filter_compl [of "\<lambda>b. b \<noteq> 0" data] by simp
  have kb: "unat k \<le> 68" "0 < unat k" "unat base \<le> 53000" by (simp_all add: k_def base_def)
  have "unat nz * unat k \<le> 2 ^ 56 * 68" using nz sum assms kb(1) by (intro mult_le_mono) auto
  then have 1: "unat base + unat nz * unat k < 2 ^ 63" using kb(3) by simp
  have z: "unat (of_nat (length data) - nz) = length (filter (\<lambda>b. b = 0) data)"
    using nz sum assms by (simp add: unat_sub word_le_nat_alt unat_of_nat)
  note r1 = room_spec [of base nz k]
  have 2: "unat (base + nz * k) + unat (of_nat (length data) - nz :: u64) * unat (4 :: u64) < 2 ^ 64"
    using 1 r1(2) kb(2) z sum assms by simp
  note r2 = room_spec [OF 2]
  show ?thesis
  proof (cases "data = []")
    case False
    have "IntrinsicGas data create homestead eip2028 = Some (base + nz * k + (of_nat (length data) - nz) * 4)"
      using r1 r2 1 kb(2) False by (simp add: IntrinsicGas_def Let_def base_def [symmetric] k_def [symmetric] nz_def [symmetric])
    moreover have "unat (base + nz * k + (of_nat (length data) - nz) * 4) =
        unat base + unat nz * unat k + 4 * length (filter (\<lambda>b. b = 0) data)" using r1(2) r2(2) 1 kb(2) z by simp
    ultimately show ?thesis using nz by (auto simp: base_def k_def)
  qed (simp add: IntrinsicGas_def)
qed

end
