(* ===== verification/Reach_Laws.thy ===== *)
theory Reach_Laws
  imports Interpreter_Laws
begin

text \<open>
  The states the loop of \<^verbatim>\<open>Run\<close> reaches, as a step relation, and what holds in all of them: the operand stack
  never has more than 1024 words, and the gas goes down with every step.
\<close>

section \<open>Reachable states of a run\<close>

inductive loop_reach ::
  "'st runner \<Rightarrow> ('st, 'it) EVM \<Rightarrow> ('st, 'it) JumpTable \<Rightarrow> callCtx \<Rightarrow> 'st EVM_state \<Rightarrow> nat \<Rightarrow> u64 \<Rightarrow> callCtx \<Rightarrow>
     'st EVM_state \<Rightarrow> bool"
  for run E jt cx0 s0 where
  reach_start: "loop_reach run E jt cx0 s0 0 0 cx0 s0"
| reach_step: "loop_reach run E jt cx0 s0 n pc cx s \<Longrightarrow> interp_step run E jt (n + 1) pc cx s = Done (Next pc' cx' s') \<Longrightarrow>
    loop_reach run E jt cx0 s0 (n + 1) pc' cx' s'"

inductive_cases reach_zeroE: "loop_reach run E jt cx0 s0 0 pc cx s"

lemma after_op_Next:
  "after_op o' (res, pc, cx, s) = Next pc' cx' s' \<Longrightarrow> (\<exists>b. res = Inr b) \<and> cx' = cx \<and> \<not> op_halts o' \<and> \<not> op_reverts o'"
  by (cases res) (auto simp: after_op_def Let_def split: if_splits)

lemma exec_op_Next:
  assumes "exec_op run E op o' pc cx s = Done (Next pc' cx' s')"
  obtains m cx1 s1 b pc1 s2 where "int (length (cx_stack cx)) \<le> op_maxStack o'" "cx_stack cx1 = cx_stack cx"
    "op_execute o' run E pc cx1 s1 = Done (Inr b, pc1, cx', s2)"
proof -
  have len: "int (length (cx_stack cx)) \<le> op_maxStack o'"
    using assms by (auto simp: exec_op_def Let_def fail_def Stack_len_def split: if_splits)
  obtain c m cx2 s2 cx3 y where ch: "charge_dynamic E o' (cx\<lparr>cx_contract := c\<rparr>) m s = Some (True, cx2, s2)"
    and y: "op_execute o' run E pc cx3 s2 = Done y" "after_op o' y = Next pc' cx' s'" and cx3: "cx_stack cx3 = cx_stack cx2"
  proof -
    assume t: "\<And>c m cx2 s2 cx3 y. charge_dynamic E o' (cx\<lparr>cx_contract := c\<rparr>) m s = Some (True, cx2, s2) \<Longrightarrow>
      op_execute o' run E pc cx3 s2 = Done y \<Longrightarrow> after_op o' y = Next pc' cx' s' \<Longrightarrow> cx_stack cx3 = cx_stack cx2 \<Longrightarrow> thesis"
    show thesis
      using assms unfolding exec_op_def Let_def
      by (auto simp: obind_Done fail_def split: if_split_asm prod.split_asm dest: t)
  qed
  have "cx_stack cx2 = cx_stack cx"
    using ch by (auto elim!: charge_dynamic_gas)
  with cx3 have st: "cx_stack cx3 = cx_stack cx" by simp
  obtain res pc1 cx4 s3 where y': "y = (res, pc1, cx4, s3)" by (cases y)
  with after_op_Next y(2) obtain b where "res = Inr b" "cx' = cx4" by blast
  with that [OF len st] y(1) y' show thesis by simp
qed

lemma step_Next:
  assumes "interp_step run E jt n pc cx s = Done (Next pc' cx' s')"
  shows "\<exists>op o' s1. jt op = Some o' \<and> exec_op run E op o' pc cx s1 = Done (Next pc' cx' s')"
  using assms unfolding interp_step_def Let_def
  by (simp add: fail_def split: option.split_asm prod.split_asm if_split_asm) blast+

lemma exec_op_stack:
  assumes "op_ok o'" "exec_op run E op o' pc cx s = Done (Next pc' cx' s')"
  shows "length (cx_stack cx') \<le> 1024"
proof -
  obtain cx1 s1 b pc1 s2 where x: "int (length (cx_stack cx)) \<le> op_maxStack o'" "cx_stack cx1 = cx_stack cx"
    "op_execute o' run E pc cx1 s1 = Done (Inr b, pc1, cx', s2)"
    using exec_op_Next [OF assms(2)] by metis
  obtain p q where "exec_frame p q (op_execute o')" "op_maxStack o' = maxStack (int p) (int q)"
    using assms(1) by (auto simp: op_ok_def)
  then show ?thesis using x unfolding exec_frame_def maxStack_def by fastforce
qed

lemma step_stack:
  assumes "table_ok jt" "interp_step run E jt n pc cx s = Done (Next pc' cx' s')"
  shows "length (cx_stack cx') \<le> 1024"
proof -
  obtain op o' s1 where o': "jt op = Some o'" "exec_op run E op o' pc cx s1 = Done (Next pc' cx' s')"
    using step_Next [OF assms(2)] by blast
  from table_allD [OF assms(1) o'(1)] exec_op_stack [OF _ o'(2)] show ?thesis by (simp add: entry_ok_def)
qed

lemma reach_stack:
  "loop_reach run E jt cx0 s0 n pc cx s \<Longrightarrow> table_ok jt \<Longrightarrow> length (cx_stack cx0) \<le> 1024 \<Longrightarrow> length (cx_stack cx) \<le> 1024"
  by (induction rule: loop_reach.induct) (auto dest: step_stack)

lemma reach_gas:
  assumes "loop_reach run E jt cx0 s0 n pc cx s" "table_ok jt" "gas_runner run (gas_of cx0)"
  shows "gas_of cx + n \<le> gas_of cx0"
  using assms
proof (induction rule: loop_reach.induct)
  case (reach_step n pc cx s pc' cx' s')
  then have IH: "gas_of cx + n \<le> gas_of cx0" by simp
  then have "gas_runner run (gas_of cx)" using reach_step.prems(2) by (auto elim: gas_runner_mono)
  from interp_step_gas [OF reach_step.prems(1) this, of E "n + 1" pc s] reach_step.hyps(2) IH show ?case by simp
qed simp

end
