(* ===== verification/Remote_Executor.thy ===== *)
theory Remote_Executor
  imports Executor_Laws Reach_Laws
begin

text \<open>
  The executor over the remote store: what a new executor sees, what \<^verbatim>\<open>ExecuteTransaction\<close> keeps from one
  transaction to the next, and what it commits.
\<close>

section \<open>The remote machine\<close>

context store_evm begin

lemmas runs_write = writing.interpreter_kept

lemmas runs_read = quiet.interpreter_kept

end

lemma default_interpreter: "default_table r = Some jt \<Longrightarrow> NewEVMInterpreter r \<lparr>cfg_NoRecursion = a, cfg_EnablePreimageRecording = b, cfg_ExtraEips = []\<rparr> = Some jt"
  by (simp add: NewEVMInterpreter_def)

interpretation remote_runs: state_runner
  "\<lparr>evm_libs = L, evm_crypto = C, evm_store = RemoteDB_store L ops,
     evm_Context = NewEVMBlockContext (RemoteDB_store L ops) height timestamp hashFn, evm_TxContext = tx,
     evm_chainConfig = config, evm_chainRules = rules, evm_vmConfig = vm\<rparr>"
  "sdb_step (\<lambda>st. remote_ok L st \<and> rd_client st = client) (remote_view L)"
  "same_step (\<lambda>st. remote_ok L st \<and> rd_client st = client) (remote_view L)" True
  "EVMInterpreter_Run \<lparr>evm_libs = L, evm_crypto = C, evm_store = RemoteDB_store L ops,
     evm_Context = NewEVMBlockContext (RemoteDB_store L ops) height timestamp hashFn, evm_TxContext = tx,
     evm_chainConfig = config, evm_chainRules = rules, evm_vmConfig = vm\<rparr> (the (default_table r)) fuel"
  for L C ops height timestamp hashFn tx config rules vm client r fuel
proof -
  obtain jt :: "(RemoteDB, 'a) JumpTable" where jt: "default_table r = Some jt" using default_table_defined by blast
  show "state_runner \<lparr>evm_libs = L, evm_crypto = C, evm_store = RemoteDB_store L ops,
     evm_Context = NewEVMBlockContext (RemoteDB_store L ops) height timestamp hashFn, evm_TxContext = tx,
     evm_chainConfig = config, evm_chainRules = rules, evm_vmConfig = vm\<rparr>
  (sdb_step (\<lambda>st. remote_ok L st \<and> rd_client st = client) (remote_view L))
  (same_step (\<lambda>st. remote_ok L st \<and> rd_client st = client) (remote_view L)) True
  (EVMInterpreter_Run \<lparr>evm_libs = L, evm_crypto = C, evm_store = RemoteDB_store L ops,
     evm_Context = NewEVMBlockContext (RemoteDB_store L ops) height timestamp hashFn, evm_TxContext = tx,
     evm_chainConfig = config, evm_chainRules = rules, evm_vmConfig = vm\<rparr> (the (default_table r)) fuel)"
    unfolding jt option.sel
    by (rule store_evm.runs_write [OF remote_machine.store_evm_axioms default_interpreter [OF jt]])
qed

abbreviation remote_inv :: "go_libs \<Rightarrow> rpc_client \<Rightarrow> RemoteDB \<Rightarrow> bool" where
  "remote_inv L client \<equiv> \<lambda>st. remote_ok L st \<and> rd_client st = client"

definition executor_inv :: "go_libs \<Rightarrow> rpc_client \<Rightarrow> Executor \<Rightarrow> bool" where
  "executor_inv L client self \<longleftrightarrow> cache_inv (remote_inv L client) (ex_cacheDB self)"

definition executor_account :: "go_libs \<Rightarrow> Executor \<Rightarrow> bytes \<Rightarrow> EthAccount option" where
  "executor_account L self addr = account_of (remote_view L) (ex_cacheDB self) addr"

definition executor_slot :: "go_libs \<Rightarrow> Executor \<Rightarrow> bytes \<Rightarrow> bytes \<Rightarrow> db_error + bytes" where
  "executor_slot L self addr key = slot_of (remote_view L) (ex_cacheDB self) addr key"

lemma new_lookup: "bytewise (lib_cmp L) \<Longrightarrow>
    cache_lookup view (NewCacheDB L (NewOverlayDB L st)) k =
      (case view st k of Inl err \<Rightarrow> if err = ErrNotFound then Inr [] else Inl err | Inr v \<Rightarrow> Inr v)"
  using MemDB_Get_mrep [OF NewMemDB_mrep [of "lib_cmp L" "lib_rand L"], of k]
  by (simp add: cache_lookup_def overlay_lookup_def NewCacheDB_def NewOverlayDB_def)

lemma new_inv: "bytewise (lib_cmp L) \<Longrightarrow> ok st \<Longrightarrow> cache_inv ok (NewCacheDB L (NewOverlayDB L st))"
  by (simp add: cache_inv_def overlay_inv_def NewCacheDB_def NewOverlayDB_def memdb_inv_New)

lemma libs_bytewise: "libs_ok L \<Longrightarrow> bytewise (lib_cmp L)"
  by (simp add: libs_ok_def three_way_bytewise)

lemma NewExecutor_inv: "libs_ok L \<Longrightarrow> executor_inv L client (NewExecutor L client)"
  by (simp add: executor_inv_def NewExecutor_def new_inv libs_bytewise NewRemoteDB_def remote_ok_def)

lemma remote_fetch_account:
  assumes "fetch_account L client addr = Some a" "account_wf a" "length addr = 20"
  shows "remote_fetch L client (ST_ETH_ACCOUNT # addr) = Some (encode_account a)"
  using assms SerializeToBytes_account [OF assms(2)] by (simp add: remote_fetch_def idx_def go_slice_def)

lemma remote_fetch_slot:
  assumes "length addr = 20" "length key = 32"
  shows "remote_fetch L client (ST_STORAGE # addr @ key) = rpc_GetStorage client addr key"
  using assms by (simp add: remote_fetch_def idx_def go_slice_def)

lemma NewExecutor_account:
  assumes "libs_ok L" "fetch_account L client addr = Some a" "account_wf a" "length addr = 20"
  shows "executor_account L (NewExecutor L client) addr = Some a"
  using assms length_encode_account [OF assms(3)] Deserialization_account [OF assms(3)]
  by (auto simp: executor_account_def account_of_def NewExecutor_def new_lookup libs_bytewise remote_view_def NewRemoteDB_def
      remote_fetch_account [OF assms(2-4)])

lemma NewExecutor_slot:
  assumes "libs_ok L" "rpc_GetStorage client addr key = Some v" "length addr = 20" "length key = 32"
  shows "executor_slot L (NewExecutor L client) addr key = Inr (BytesToHash v)"
  using assms
  by (auto simp: executor_slot_def slot_of_def NewExecutor_def new_lookup libs_bytewise remote_view_def NewRemoteDB_def
      remote_fetch_slot)

section \<open>Committing\<close>

lemma clean_suicided_remote: "addrs \<noteq> [] \<Longrightarrow> clean_suicided L (RemoteDB_store L ops) addrs c = None"
  by (cases addrs)
    (auto simp: CleanContractStorageData_def CacheDB_NewIterator_def OverlayDB_NewIterator_def RemoteDB_store_def
       RemoteDB_NewIterator_def Let_def split: bind_splits)

text \<open>The remote store has no iterators: committing a transaction in which a contract has destroyed itself panics.\<close>

lemma Commit_suicided_remote:
  assumes "libs_ok L" "sdb_inv ok s" "sd_Suicided s \<noteq> []"
  shows "StateDB_Commit L (RemoteDB_store L ops) s = None"
proof -
  have "set (lib_range L (sd_Suicided s)) = set (sd_Suicided s)"
    using assms(1,2) by (auto simp: libs_ok_def sdb_inv_def)
  then have "lib_range L (sd_Suicided s) \<noteq> []" using assms(3) by auto
  then show ?thesis by (simp add: StateDB_Commit_def StateDB_CommitToCacheDB_def clean_suicided_remote)
qed

lemma Commit_plain:
  assumes "libs_ok L" "sdb_inv ok s" "sd_Suicided s = []"
  shows "\<exists>c. StateDB_Commit L ps s = Some (None, s\<lparr>sd_Suicided := [], sd_snapshots := [], sd_cacheDB := c\<rparr>) \<and> cache_inv ok c \<and>
    CacheDB_Commit L (sd_cacheDB s) = Some c \<and>
    (\<forall>view. cache_lookup view c = cache_lookup view (sd_cacheDB s)) \<and>
    (\<forall>view. overlay_lookup view (cd_backend c) = cache_lookup view (sd_cacheDB s))"
proof -
  have "set (lib_range L []) = set ([] :: bytes list)" using assms(1) unfolding libs_ok_def by (metis distinct.simps(1))
  then have r: "lib_range L [] = []" by simp
  have "cache_inv ok (sd_cacheDB s)" using assms(2) by (simp add: sdb_inv_def)
  from CacheDB_Commit_ok [OF this, of L] obtain c where c: "CacheDB_Commit L (sd_cacheDB s) = Some c" "cache_inv ok c"
    "\<And>view k. cache_lookup view c k = cache_lookup view (sd_cacheDB s) k"
    "\<And>view k. overlay_lookup view (cd_backend c) k = cache_lookup view (sd_cacheDB s) k" by blast
  then show ?thesis using assms(3) r by (auto simp: StateDB_Commit_def StateDB_CommitToCacheDB_def Let_def fun_eq_iff)
qed

lemma Commit_remote:
  assumes "libs_ok L" "sdb_inv ok s" "StateDB_Commit L (RemoteDB_store L ops) s = Some (err, s')"
  shows "err = None \<and> sd_Suicided s = [] \<and> sdb_inv ok s' \<and> cache_lookup view (sd_cacheDB s') = cache_lookup view (sd_cacheDB s) \<and>
    overlay_lookup view (cd_backend (sd_cacheDB s')) = cache_lookup view (sd_cacheDB s) \<and> sd_logs s' = sd_logs s"
proof -
  have z: "sd_Suicided s = []" using Commit_suicided_remote [OF assms(1,2), of ops] assms(3) by (cases "sd_Suicided s") auto
  show ?thesis using Commit_plain [OF assms(1,2) z, of "RemoteDB_store L ops"] assms(2,3) z by (auto simp: sdb_inv_def)
qed

section \<open>The step budget of a transaction\<close>

lemma TransitionDb_le:
  assumes "runner_le run run'"
  shows "le_out (TransitionDb run E st s) (TransitionDb run' E st s)"
proof -
  have "le_out (run_message run E vmerr st s) (run_message run' E vmerr st s)" for vmerr st s
    unfolding run_message_def Let_def
    by (intro if_le obind_le le_out_refl calls_le(1) [OF assms] creates_le(1) [OF assms])
  then show ?thesis
    unfolding TransitionDb_def Let_def by (intro obind_le le_out_refl prod_le option_le)
qed

lemma applyTransaction_le:
  assumes "NewEVMInterpreter r cfg = Some jt" "n \<le> m"
  shows "le_out (applyTransaction X n jt msg db tx used E s fee) (applyTransaction X m jt msg db tx used E s fee)"
  unfolding applyTransaction_def EVM_Reset_def Let_def prod.case ApplyMessage_def
  by (intro obind_le le_out_refl TransitionDb_le run_fuel_le [OF mono.NewEVMInterpreter_all [OF assms(1)] assms(2)])

lemma ExecuteTransaction_le:
  assumes "n \<le> m"
  shows "le_out (ExecuteTransaction L C X ops n self tx ctx) (ExecuteTransaction L C X ops m self tx ctx)"
proof -
  have "le_out (ApplyTransaction L C X ps n config hashFn db height timestamp tx used fee cfg chk)
      (ApplyTransaction L C X ps m config hashFn db height timestamp tx used fee cfg chk)" for ps config hashFn db height timestamp used fee cfg chk
  proof (cases "NewEVM L C ps (NewEVMBlockContext ps height timestamp hashFn) \<lparr>tx_Origin = zero_address, tx_GasPrice = 0\<rparr> db config cfg")
    case (Some x)
    obtain E jt s where x: "x = (E, jt, s)" by (cases x)
    obtain r where "NewEVMInterpreter r cfg = Some jt" using NewEVM_table Some x by blast
    from applyTransaction_le [OF this assms] show ?thesis by (simp add: ApplyTransaction_def Some x)
  qed (simp add: ApplyTransaction_def)
  then show ?thesis unfolding ExecuteTransaction_def Let_def by (intro obind_le) simp_all
qed

lemma ExecuteTransaction_fuel:
  assumes "unat (t_Gas tx) < n" "unat (t_Gas tx) < m"
  shows "ExecuteTransaction L C X ops n self tx ctx = ExecuteTransaction L C X ops m self tx ctx"
proof -
  have *: "ExecuteTransaction L C X ops n self tx ctx = ExecuteTransaction L C X ops m self tx ctx"
    if "n \<le> m" "unat (t_Gas tx) < n" for n m
    using ExecuteTransaction_le [OF that(1), of L C X ops self tx ctx] ExecuteTransaction_returns [OF that(2), of L C X ops self ctx]
    unfolding le_out_def returns_def by blast
  show ?thesis
  proof (cases "n \<le> m")
    case False
    then show ?thesis by (intro * [symmetric] assms) simp
  qed (intro * assms)
qed

section \<open>Executing a transaction\<close>

text \<open>How \<^verbatim>\<open>applyTransaction\<close> ends: with the message rejected or the commit failing, or with a receipt.\<close>

lemma receipt_logs: "length (rc_Logs (AddStorageLogs X r logs)) = length (rc_Logs r) + length logs"
    "rc_GasUsed (AddStorageLogs X r logs) = rc_GasUsed r" "rc_Status (AddStorageLogs X r logs) = rc_Status r"
  by (simp_all add: AddStorageLogs_def)

definition receipt_for :: "ExecutionResult \<Rightarrow> 'st StateDB \<Rightarrow> Receipt \<Rightarrow> bool" where
  "receipt_for result db receipt \<longleftrightarrow> rc_GasUsed receipt = er_UsedGas result \<and>
     rc_Status receipt = (if ExecutionResult_Failed result then 0 else 1) \<and> length (rc_Logs receipt) = length (sd_logs db)"

lemma applyTransaction_cases:
  assumes d: "applyTransaction X fuel jt msg statedb tx usedGas E s feeReceiver = Done (r, db')"
    and E': "E' = E\<lparr>evm_TxContext := NewEVMTxContext msg\<rparr>" and L: "L = evm_libs E" and ps: "ps = evm_store E"
  obtains r1 st s1 where
    "TransitionDb (EVMInterpreter_Run E' jt fuel) E' (NewStateTransition msg feeReceiver) (with_db s statedb) = Done (r1, st, s1)"
    "case r1 of Inl e \<Rightarrow> r = Inl e \<and> db' = es_StateDB s1
     | Inr result \<Rightarrow>
         (\<exists>e. r = Inl (DbError e) \<and> StateDB_Commit L ps (es_StateDB s1) = Some (Some e, db')) \<or>
         (\<exists>receipt db1. r = Inr (result, receipt, usedGas + er_UsedGas result) \<and> receipt_for result db' receipt \<and>
            StateDB_Commit L ps (es_StateDB s1) = Some (None, db1) \<and>
            (db' = db1 \<or> (\<exists>a n. StateDB_GetNonce ps db1 a = Some (n, db'))))"
proof -
  obtain r1 st s1 where t:
    "TransitionDb (EVMInterpreter_Run E' jt fuel) E' (NewStateTransition msg feeReceiver) (with_db s statedb) = Done (r1, st, s1)"
    using d unfolding applyTransaction_def EVM_Reset_def Let_def prod.case ApplyMessage_def E' by (auto elim!: obind_DoneE)
  note k = d [unfolded applyTransaction_def EVM_Reset_def Let_def prod.case ApplyMessage_def E' [symmetric] t obind_simps]
  show thesis
  proof (cases r1)
    case (Inl e)
    then show thesis using that [OF t] k by simp
  next
    case (Inr result)
    from k [unfolded Inr sum.case] obtain err db1 where c: "StateDB_Commit L ps (es_StateDB s1) = Some (err, db1)"
      unfolding E' L ps by (auto elim!: obind_DoneE)
    show thesis
    proof (cases err)
      case (Some e)
      then show thesis using that [OF t] k c by (simp add: Inr E' L ps)
    next
      case None
      then show thesis using that [OF t] k c
        by (auto simp: Inr E' L ps receipt_for_def receipt_logs StateDB_GetLogs_def elim!: obind_DoneE split: if_split_asm bind_splits; blast)
    qed
  qed
qed

lemma apply_outcome:
  assumes "case r1 of Inl e \<Rightarrow> r = Inl e \<and> A
    | Inr result \<Rightarrow> (\<exists>e. r = Inl (g e) \<and> B e) \<or> (\<exists>receipt db1. r = Inr (result, receipt, f result) \<and> P result receipt \<and> Q db1 \<and> T db1)"
    "r = Inr (result, receipt, used')"
  shows "r1 = Inr result \<and> used' = f result \<and> P result receipt \<and> (\<exists>db1. Q db1 \<and> T db1)"
  using assms by (auto split: sum.splits)

text \<open>What one transaction does to the state database over the remote store.\<close>

lemma ApplyTransaction_remote:
  assumes L: "libs_ok L" and inv: "sdb_inv (remote_inv L client) db"
    and d: "ApplyTransaction L C X (RemoteDB_store L ops) fuel config hashFn db height timestamp tx used fee cfg chk = Done (r, db')"
  shows "sdb_inv (remote_inv L client) db'"
    "r = Inl e \<Longrightarrow> sdb_same (remote_view L) db db'"
    "r = Inr (result, receipt, used') \<Longrightarrow> receipt_for result db' receipt \<and> used' = used + er_UsedGas result"
    "r = Inr (result, receipt, used') \<Longrightarrow> unat (t_Gas tx) < fuel \<Longrightarrow> er_UsedGas result \<le> t_Gas tx"
    "r = Inr (result, receipt, used') \<Longrightarrow> undone (IsHomestead config (sint height)) (t_To tx) (er_Err result) \<Longrightarrow>
       slot_of (remote_view L) (sd_cacheDB db') = slot_of (remote_view L) (sd_cacheDB db) \<and> sd_logs db' = sd_logs db"
proof -
  let ?ps = "RemoteDB_store L ops" and ?ok = "remote_inv L client" and ?view = "remote_view L"
  let ?msg = "MessageFromTx tx chk"
  define rules where "rules = ChainConfig_Rules config (sint height)"
  obtain jt where jt: "NewEVMInterpreter rules cfg = Some jt"
    and a: "applyTransaction X fuel jt ?msg db tx used
      \<lparr>evm_libs = L, evm_crypto = C, evm_store = ?ps, evm_Context = NewEVMBlockContext ?ps height timestamp hashFn,
       evm_TxContext = \<lparr>tx_Origin = zero_address, tx_GasPrice = 0\<rparr>, evm_chainConfig = config, evm_chainRules = rules, evm_vmConfig = cfg\<rparr>
      \<lparr>es_StateDB = db, es_depth = 0, es_abort = None, es_callGasTemp = 0, es_readOnly = False, es_returnData = [],
       es_jumpdests = Map.empty\<rparr> fee = Done (r, db')"
    using d unfolding ApplyTransaction_def NewEVM_def Let_def
    by (auto simp: rules_def NewEVMBlockContext_def elim!: obind_DoneE split: bind_splits)
  define E where "E = \<lparr>evm_libs = L, evm_crypto = C, evm_store = ?ps, evm_Context = NewEVMBlockContext ?ps height timestamp hashFn,
       evm_TxContext = NewEVMTxContext ?msg, evm_chainConfig = config, evm_chainRules = rules, evm_vmConfig = cfg\<rparr>"
  let ?s = "\<lparr>es_StateDB = db, es_depth = 0, es_abort = None, es_callGasTemp = 0, es_readOnly = False, es_returnData = [],
       es_jumpdests = Map.empty\<rparr>"
  let ?st = "NewStateTransition ?msg fee"
  have m: "store_evm E ?ok ?view (remote_good L client)" unfolding E_def by (rule remote_machine.store_evm_axioms)
  have run: "state_runner E (sdb_step ?ok ?view) (same_step ?ok ?view) True (EVMInterpreter_Run E jt fuel)"
    by (rule store_evm.runs_write [OF m jt])
  obtain r1 st s1 where t: "TransitionDb (EVMInterpreter_Run E jt fuel) E ?st (with_db ?s db) = Done (r1, st, s1)"
    and c: "case r1 of Inl e \<Rightarrow> r = Inl e \<and> db' = es_StateDB s1
     | Inr result \<Rightarrow> (\<exists>e. r = Inl (DbError e) \<and> StateDB_Commit L ?ps (es_StateDB s1) = Some (Some e, db')) \<or>
         (\<exists>receipt db1. r = Inr (result, receipt, used + er_UsedGas result) \<and> receipt_for result db' receipt \<and>
            StateDB_Commit L ?ps (es_StateDB s1) = Some (None, db1) \<and>
            (db' = db1 \<or> (\<exists>a n. StateDB_GetNonce ?ps db1 a = Some (n, db'))))"
    by (rule applyTransaction_cases [OF a, of E L ?ps]) (simp_all add: E_def)
  note ts = store_evm.TransitionDb_state [OF m run t]
  have i1: "sdb_inv ?ok (es_StateDB s1)" using ts(1) inv by (simp add: sdb_step_def)
  note commit = Commit_remote [OF L i1, where ops = ops and view = ?view]
  have nonce: "sdb_inv ?ok db' \<and> sdb_same ?view db1 db'"
    if "sdb_inv ?ok db1" "db' = db1 \<or> (\<exists>a n. StateDB_GetNonce ?ps db1 a = Some (n, db'))" for db1
    using that store_evm.same_nonce [OF m, of db1] by (auto simp: same_step_def sdb_same_def E_def)
  have no_err: False if "StateDB_Commit L ?ps (es_StateDB s1) = Some (Some e, db')" for e using commit [OF that] by simp
  have done_case: "\<exists>db1. sdb_inv ?ok db1 \<and> cache_lookup ?view (sd_cacheDB db1) = cache_lookup ?view (sd_cacheDB (es_StateDB s1)) \<and>
      sd_logs db1 = sd_logs (es_StateDB s1) \<and> sdb_inv ?ok db' \<and> sdb_same ?view db1 db' \<and>
      receipt_for result db' receipt \<and> used' = used + er_UsedGas result \<and> r1 = Inr result"
    if ri: "r = Inr (result, receipt, used')" for result receipt used'
  proof -
    obtain db1 where k: "receipt_for result db' receipt" "used' = used + er_UsedGas result" "r1 = Inr result"
      "StateDB_Commit L ?ps (es_StateDB s1) = Some (None, db1)"
      and n: "db' = db1 \<or> (\<exists>a n. StateDB_GetNonce ?ps db1 a = Some (n, db'))"
      using apply_outcome [OF c ri] by blast
    note commit [OF k(4)]
    then show ?thesis using nonce [OF _ n] k(1-3) by (intro exI [of _ db1]) simp
  qed
  show "sdb_inv ?ok db'" using c done_case i1 no_err by (cases r1) auto
  show "r = Inl e \<Longrightarrow> sdb_same ?view db db'" using c ts(2) inv no_err by (cases r1) (auto simp: same_step_def)
  show "r = Inr (result, receipt, used') \<Longrightarrow> receipt_for result db' receipt \<and> used' = used + er_UsedGas result"
    using done_case by blast
  show "er_UsedGas result \<le> t_Gas tx" if "r = Inr (result, receipt, used')" "unat (t_Gas tx) < fuel"
  proof -
    have "transition_gas_ok ?st (TransitionDb (EVMInterpreter_Run E jt fuel) E ?st (with_db ?s db))"
      by (rule gas_runner.TransitionDb_gas [OF table_gas_runner [OF entries.NewEVMInterpreter_all [OF jt]]])
        (simp_all add: NewStateTransition_def MessageFromTx_def that(2))
    then show ?thesis using done_case [OF that(1)] t by (auto simp: transition_gas_ok_def NewStateTransition_def MessageFromTx_def)
  qed
  show "slot_of ?view (sd_cacheDB db') = slot_of ?view (sd_cacheDB db) \<and> sd_logs db' = sd_logs db"
    if ri: "r = Inr (result, receipt, used')" and msg: "undone (IsHomestead config (sint height)) (t_To tx) (er_Err result)"
  proof -
    obtain db1 where db1: "cache_lookup ?view (sd_cacheDB db1) = cache_lookup ?view (sd_cacheDB (es_StateDB s1))"
      "sd_logs db1 = sd_logs (es_StateDB s1)" "sdb_same ?view db1 db'" "r1 = Inr result" using done_case [OF ri] by blast
    have "quiet_step ?ok ?view db (es_StateDB s1)"
      using ts(3) [OF db1(4)] msg by (simp add: NewStateTransition_def MessageFromTx_def E_def rules_def ChainConfig_Rules_def)
    then have q: "slot_of ?view (sd_cacheDB (es_StateDB s1)) = slot_of ?view (sd_cacheDB db)" "sd_logs (es_StateDB s1) = sd_logs db"
      using inv by (simp_all add: quiet_step_def)
    have "cache_lookup ?view (sd_cacheDB db') = cache_lookup ?view (sd_cacheDB (es_StateDB s1))" "sd_logs db' = sd_logs db1"
      using db1(1,3) by (simp_all add: sdb_same_def)
    then show ?thesis using slot_of_cong [of ?view "sd_cacheDB db'"] q db1(2) by simp
  qed
qed

lemma NewStateDB_inv: "cache_inv ok c \<Longrightarrow> sdb_inv ok (NewStateDB c h b)"
  by (simp add: sdb_inv_def NewStateDB_def)

text \<open>What one transaction does to the executor.\<close>

lemma ExecuteTransaction_remote:
  assumes L: "libs_ok L" and inv: "executor_inv L client self"
    and d: "ExecuteTransaction L C X ops fuel self tx ctx = Done (r, self')"
  shows "executor_inv L client self'" "ex_chainID self' = ex_chainID self"
    "r = Inr (result, receipt) \<Longrightarrow> rc_GasUsed receipt = er_UsedGas result \<and>
       rc_Status receipt = (if ExecutionResult_Failed result then 0 else 1)"
    "r = Inr (result, receipt) \<Longrightarrow> unat (t_Gas tx) < fuel \<Longrightarrow> er_UsedGas result \<le> t_Gas tx"
    "r = Inr (result, receipt) \<Longrightarrow>
       undone (IsHomestead (GetChainConfig (ex_chainID self)) (sint (ec_Height ctx))) (t_To tx) (er_Err result) \<Longrightarrow>
       executor_slot L self' = executor_slot L self \<and> rc_Logs receipt = []"
proof -
  obtain r0 db' where a: "ApplyTransaction L C X (RemoteDB_store L ops) fuel (GetChainConfig (ex_chainID self))
      (RemoteDB_GetBlockHash (ex_db self)) (NewStateDB (ex_cacheDB self) (Transaction_Hash L X tx) (ec_BlockHash ctx))
      (ec_Height ctx) (ec_Timestamp ctx) tx 0 (ec_Coinbase ctx)
      \<lparr>cfg_NoRecursion = False, cfg_EnablePreimageRecording = False, cfg_ExtraEips = []\<rparr> False = Done (r0, db')"
    and s': "self' = self\<lparr>ex_cacheDB := sd_cacheDB db'\<rparr>"
    and r0: "r = Inr (result, receipt) \<Longrightarrow> \<exists>receipt0 used. r0 = Inr (result, receipt0, used) \<and>
        receipt = receipt0\<lparr>rc_TransactionIndex := ec_TxIndex ctx\<rparr>" for result receipt
    using d unfolding ExecuteTransaction_def Let_def
    by (auto elim!: obind_DoneE split: sum.split_asm option.split_asm)
  note app = ApplyTransaction_remote [OF L NewStateDB_inv [OF inv [unfolded executor_inv_def]] a]
  show "executor_inv L client self'" using app(1) by (simp add: executor_inv_def s' sdb_inv_def)
  show "ex_chainID self' = ex_chainID self" by (simp add: s')
  show "r = Inr (result, receipt) \<Longrightarrow> rc_GasUsed receipt = er_UsedGas result \<and>
       rc_Status receipt = (if ExecutionResult_Failed result then 0 else 1)"
    using app(3) r0 by (fastforce simp: receipt_for_def)
  show "r = Inr (result, receipt) \<Longrightarrow> unat (t_Gas tx) < fuel \<Longrightarrow> er_UsedGas result \<le> t_Gas tx"
    using app(4) r0 by blast
  show "r = Inr (result, receipt) \<Longrightarrow>
       undone (IsHomestead (GetChainConfig (ex_chainID self)) (sint (ec_Height ctx))) (t_To tx) (er_Err result) \<Longrightarrow>
       executor_slot L self' = executor_slot L self \<and> rc_Logs receipt = []"
    using app(3,5) r0 by (fastforce simp: receipt_for_def executor_slot_def fun_eq_iff s' NewStateDB_def)
qed

end
