(* ===== verification/StateDB_World.thy ===== *)
theory StateDB_World
  imports StateDB_Quiet
begin

text \<open>
  The contract of the state database as an abstract state: a map of accounts, a map of storage slots, the logs, the
  self-destructed accounts, the refund counter and the sticky error.  \<open>world_of\<close> abstracts a database, and every
  operation on it refines the update of the abstract state.
\<close>

section \<open>The abstract state\<close>

record world =
  w_accounts :: "bytes \<Rightarrow> EthAccount option"
  w_slots :: "bytes \<Rightarrow> db_error + bytes"
  w_logs :: "StorageLog list"
  w_suicided :: "bytes list"
  w_refund :: u64
  w_err :: "db_error option"

definition world_of :: "('st \<Rightarrow> bytes \<Rightarrow> db_error + bytes) \<Rightarrow> 'st StateDB \<Rightarrow> world" where
  "world_of view s =
     \<lparr>w_accounts = account_of view (sd_cacheDB s),
      w_slots = (\<lambda>k. map_sum id BytesToHash (cache_lookup view (sd_cacheDB s) (ST_STORAGE # k))),
      w_logs = sd_logs s, w_suicided = sd_Suicided s, w_refund = sd_refund s, w_err = StateDB_DbErr s\<rparr>"

text \<open>Writing an account; one whose nonce and code hash are zero is not kept.\<close>

definition put_world :: "bytes \<Rightarrow> EthAccount \<Rightarrow> world \<Rightarrow> world" where
  "put_world addr a w = w\<lparr>w_accounts := (w_accounts w)(addr \<mapsto> stored a)\<rparr>"

definition put_slot :: "bytes \<Rightarrow> bytes \<Rightarrow> world \<Rightarrow> world" where
  "put_slot k v w = w\<lparr>w_slots := (w_slots w)(k := Inr (BytesToHash v))\<rparr>"

lemma world_sel [simp]:
  "w_accounts (world_of view s) = account_of view (sd_cacheDB s)" "w_logs (world_of view s) = sd_logs s"
  "w_suicided (world_of view s) = sd_Suicided s" "w_refund (world_of view s) = sd_refund s" "w_err (world_of view s) = StateDB_DbErr s"
  by (simp_all add: world_of_def)

lemma put_world_sel [simp]:
  "w_accounts (put_world addr a w) = (w_accounts w)(addr \<mapsto> stored a)" "w_slots (put_world addr a w) = w_slots w"
  "w_logs (put_world addr a w) = w_logs w" "w_suicided (put_world addr a w) = w_suicided w"
  "w_refund (put_world addr a w) = w_refund w" "w_err (put_world addr a w) = w_err w"
  by (simp_all add: put_world_def)

lemma stored_id [simp]: "\<not> EthAccount_IsEmpty a \<Longrightarrow> stored a = a"
  by (simp add: stored_def)

text \<open>The error of the cache changes only when an operation fails.\<close>

definition cache_err :: "'st CacheDB \<Rightarrow> db_error option" where
  "cache_err c = od_dbErr (cd_backend c)"

lemma overlay_get_err: "OverlayDB_Get ps od k = Some ((v, None), od') \<Longrightarrow> od_dbErr od' = od_dbErr od"
  by (auto simp: OverlayDB_Get_def Let_def split: bind_splits if_split_asm sum.split_asm)

lemma cache_get_err: "cache_get ps c p k = Some (Inr v, c') \<Longrightarrow> cache_err c' = cache_err c"
  by (auto simp: cache_get_def cache_err_def Let_def split: bind_splits prod.split_asm if_split_asm option.split_asm dest: overlay_get_err)

lemma GetEthAccount_err: "CacheDB_GetEthAccount ps c addr = Some ((a, None), c') \<Longrightarrow> cache_err c' = cache_err c"
  by (auto simp: CacheDB_GetEthAccount_def split: bind_splits sum.split_asm if_split_asm dest: cache_get_err)

lemma world_cache:
  assumes "cache_lookup view c' = cache_lookup view (sd_cacheDB s)" "cache_err c' = cache_err (sd_cacheDB s)"
  shows "world_of view (s\<lparr>sd_cacheDB := c'\<rparr>) = world_of view s"
  using assms account_of_cong [OF assms(1)] by (simp add: world_of_def StateDB_DbErr_def OverlayDB_Error_def cache_err_def)

lemma world_put:
  assumes "cache_inv ok c" "EthAccount_IsEmpty a \<or> account_wf a" "c = sd_cacheDB s"
  obtains c' where "CacheDB_PutEthAccount c addr a = Some c'" "cache_inv ok c'"
    "world_of view (s\<lparr>sd_cacheDB := c'\<rparr>) = put_world addr a (world_of view s)"
proof -
  obtain c' where c': "CacheDB_PutEthAccount c addr a = Some c'" "cache_inv ok c'" "cd_backend c' = cd_backend c"
    "account_of view c' = (account_of view c)(addr \<mapsto> stored a)"
    using PutEthAccount_ok [OF assms(1,2), of addr] by blast
  obtain raw where raw: "cache_put c ST_ETH_ACCOUNT addr raw = Some c'"
    using c'(1) by (auto simp: CacheDB_PutEthAccount_def split: bind_splits)
  have "cache_lookup view c' (ST_STORAGE # k) = cache_lookup view c (ST_STORAGE # k)" for k
    using cache_put_ok [OF assms(1), of ST_ETH_ACCOUNT addr raw] raw by auto
  then have "world_of view (s\<lparr>sd_cacheDB := c'\<rparr>) = put_world addr a (world_of view s)"
    using c'(3,4) assms(3) by (simp add: world_of_def put_world_def StateDB_DbErr_def OverlayDB_Error_def)
  then show thesis using c'(1,2) that by blast
qed

section \<open>The operations refine the abstract ones\<close>

definition refines :: "('st \<Rightarrow> bool) \<Rightarrow> ('st \<Rightarrow> bytes \<Rightarrow> db_error + bytes) \<Rightarrow> ('x \<times> 'st StateDB) option \<Rightarrow> 'x \<Rightarrow> world \<Rightarrow> bool" where
  "refines ok view r x w \<longleftrightarrow> (\<exists>s'. r = Some (x, s') \<and> sdb_inv ok s' \<and> world_of view s' = w)"

definition refines_to :: "('st \<Rightarrow> bool) \<Rightarrow> ('st \<Rightarrow> bytes \<Rightarrow> db_error + bytes) \<Rightarrow> 'st StateDB option \<Rightarrow> world \<Rightarrow> bool" where
  "refines_to ok view r w \<longleftrightarrow> (\<exists>s'. r = Some s' \<and> sdb_inv ok s' \<and> world_of view s' = w)"

lemma refinesE: "refines ok view r x w \<Longrightarrow> (\<And>s'. r = Some (x, s') \<Longrightarrow> sdb_inv ok s' \<Longrightarrow> world_of view s' = w \<Longrightarrow> thesis) \<Longrightarrow> thesis"
  by (auto simp: refines_def)

lemma refines_toE: "refines_to ok view r w \<Longrightarrow> (\<And>s'. r = Some s' \<Longrightarrow> sdb_inv ok s' \<Longrightarrow> world_of view s' = w \<Longrightarrow> thesis) \<Longrightarrow> thesis"
  by (auto simp: refines_to_def)

lemma Snapshot_world: "world_of view (snd (StateDB_Snapshot s)) = world_of view s"
  by (simp add: StateDB_Snapshot_def Let_def world_of_def StateDB_DbErr_def)

lemma Snapshot_inv: "sdb_inv ok s \<Longrightarrow> sdb_inv ok (snd (StateDB_Snapshot s))"
  using quiet_Snapshot [of ok "\<lambda>_ _. Inr []" s] by (simp add: quiet_step_def)

lemma put_account_refines:
  assumes "sdb_inv ok s" "EthAccount_IsEmpty a \<or> account_wf a"
  shows "refines_to ok view (put_account s addr a) (put_world addr a (world_of view s))"
proof -
  have "cache_inv ok (sd_cacheDB s)" using assms(1) by (simp add: sdb_inv_def)
  then obtain c' where "CacheDB_PutEthAccount (sd_cacheDB s) addr a = Some c'" "cache_inv ok c'"
    "world_of view (s\<lparr>sd_cacheDB := c'\<rparr>) = put_world addr a (world_of view s)"
    by (rule world_put [OF _ assms(2) refl])
  then show ?thesis using assms(1) by (auto simp: refines_to_def put_account_def sdb_inv_def)
qed

lemma SetState_refines:
  assumes "sdb_inv ok s"
  shows "refines_to ok view (StateDB_SetState s addr key v) (put_slot (addr @ key) v (world_of view s))"
proof -
  have ci: "cache_inv ok (sd_cacheDB s)" using assms by (simp add: sdb_inv_def)
  from cache_put_ok [OF ci, of ST_STORAGE "addr @ key" v] obtain c' where
    c': "cache_put (sd_cacheDB s) ST_STORAGE (addr @ key) v = Some c'" "cache_inv ok c'"
    "\<And>j. cache_lookup view c' j = (if j = ST_STORAGE # addr @ key then Inr v else cache_lookup view (sd_cacheDB s) j)"
    by blast
  have a: "account_of view c' = account_of view (sd_cacheDB s)" by (simp add: account_of_def c'(3) fun_eq_iff)
  have "world_of view (s\<lparr>sd_cacheDB := c'\<rparr>) = put_slot (addr @ key) v (world_of view s)"
    using a cache_put_backend [OF c'(1)]
    by (simp add: world_of_def put_slot_def c'(3) StateDB_DbErr_def fun_upd_def if_distrib cong: if_cong)
  then show ?thesis using c'(1,2) assms
    by (auto simp: refines_to_def StateDB_SetState_def CacheDB_Put_def genKey_def sdb_inv_def)
qed

context persist_store begin

lemma account_read:
  assumes "sdb_inv ok s" "good (ST_ETH_ACCOUNT # addr)" "account_of view (sd_cacheDB s) addr = Some a"
  obtains c where "CacheDB_GetEthAccount ps (sd_cacheDB s) addr = Some ((a, None), c)" "cache_inv ok c"
    "world_of view (s\<lparr>sd_cacheDB := c\<rparr>) = world_of view s"
proof -
  have ci: "cache_inv ok (sd_cacheDB s)" using assms(1) by (simp add: sdb_inv_def)
  from GetEthAccount_ok [OF ci assms(2,3)] obtain c where c: "CacheDB_GetEthAccount ps (sd_cacheDB s) addr = Some ((a, None), c)"
    "cache_inv ok c" "cache_lookup view c = cache_lookup view (sd_cacheDB s)" by blast
  with that [OF c(1,2) world_cache [OF c(3) GetEthAccount_err [OF c(1)]]] show thesis by blast
qed

lemma getEthAccount_refines:
  assumes "sdb_inv ok s" "good (ST_ETH_ACCOUNT # addr)" "account_of view (sd_cacheDB s) addr = Some a"
  shows "refines ok view (StateDB_getEthAccount ps s addr) a (world_of view s)"
  by (rule account_read [OF assms]) (use assms(1) in \<open>auto simp: refines_def StateDB_getEthAccount_def sdb_inv_def\<close>)

lemma GetNonce_refines:
  assumes "sdb_inv ok s" "good (ST_ETH_ACCOUNT # addr)" "account_of view (sd_cacheDB s) addr = Some a"
  shows "refines ok view (StateDB_GetNonce ps s addr) (ea_Nonce a) (world_of view s)"
    "refines ok view (StateDB_GetCode ps s addr) (ea_Code a) (world_of view s)"
    "refines ok view (StateDB_GetCodeHash ps s addr) (ea_CodeHash a) (world_of view s)"
    "refines ok view (StateDB_GetCodeSize ps s addr) (length (ea_Code a)) (world_of view s)"
  using getEthAccount_refines [OF assms]
  by (auto simp: refines_def StateDB_GetNonce_def StateDB_GetCode_def StateDB_GetCodeHash_def StateDB_GetCodeSize_def)

lemma account_update:
  assumes "sdb_inv ok s" "good (ST_ETH_ACCOUNT # addr)" "account_of view (sd_cacheDB s) addr = Some a" "account_wf (f a)"
  shows "refines_to ok view (do { (a, s) \<leftarrow> StateDB_getEthAccount ps s addr; put_account s addr (f a) })
    (put_world addr (f a) (world_of view s))"
proof -
  obtain s' where s': "StateDB_getEthAccount ps s addr = Some (a, s')" "sdb_inv ok s'" "world_of view s' = world_of view s"
    using getEthAccount_refines [OF assms(1-3)] by (rule refinesE)
  from put_account_refines [OF s'(2) disjI2 [OF assms(4)], of view addr] s'(1,3) show ?thesis by simp
qed

lemma SetNonce_refines:
  assumes "sdb_inv ok s" "good (ST_ETH_ACCOUNT # addr)" "account_of view (sd_cacheDB s) addr = Some a" "account_wf a"
  shows "refines_to ok view (StateDB_SetNonce ps s addr n) (put_world addr (a\<lparr>ea_Nonce := n\<rparr>) (world_of view s))"
  unfolding StateDB_SetNonce_def
  by (rule account_update [where f = "\<lambda>a. a\<lparr>ea_Nonce := n\<rparr>", OF assms(1-3)]) (use assms(4) in \<open>simp add: account_wf_def\<close>)

lemma SetCode_refines:
  assumes "sdb_inv ok s" "good (ST_ETH_ACCOUNT # addr)" "account_of view (sd_cacheDB s) addr = Some a" "account_wf a"
    "length (lib_Keccak256 L code) = 32" "length code < 2 ^ 59"
  shows "refines_to ok view (StateDB_SetCode L ps s addr code)
    (put_world addr (a\<lparr>ea_CodeHash := lib_Keccak256 L code, ea_Code := code\<rparr>) (world_of view s))"
  unfolding StateDB_SetCode_def Let_def
  by (rule account_update [where f = "\<lambda>a. a\<lparr>ea_CodeHash := lib_Keccak256 L code, ea_Code := code\<rparr>", OF assms(1-3)])
    (use assms(4-6) in \<open>simp add: account_wf_def\<close>)

lemma balance_refines:
  assumes "sdb_inv ok s" "good (ST_ETH_ACCOUNT # addr)" "account_of view (sd_cacheDB s) addr = Some a"
    "f (ea_Balance a) (fst (Int_FromBig v)) = Some b" "account_wf (a\<lparr>ea_Balance := Some b\<rparr>)"
  shows "refines_to ok view (with_balance_err s (balance_update ps f (sd_cacheDB s) addr v))
    (put_world addr (a\<lparr>ea_Balance := Some b\<rparr>) (world_of view s))"
proof -
  obtain c where c: "CacheDB_GetEthAccount ps (sd_cacheDB s) addr = Some ((a, None), c)" "cache_inv ok c"
    "world_of view (s\<lparr>sd_cacheDB := c\<rparr>) = world_of view s" by (rule account_read [OF assms(1-3)])
  obtain c' where c': "CacheDB_PutEthAccount c addr (a\<lparr>ea_Balance := Some b\<rparr>) = Some c'" "cache_inv ok c'"
    "world_of view (s\<lparr>sd_cacheDB := c\<rparr>\<lparr>sd_cacheDB := c'\<rparr>) = put_world addr (a\<lparr>ea_Balance := Some b\<rparr>) (world_of view (s\<lparr>sd_cacheDB := c\<rparr>))"
    by (rule world_put [OF c(2) disjI2 [OF assms(5)], of "s\<lparr>sd_cacheDB := c\<rparr>" addr view]) auto
  have "with_balance_err s (balance_update ps f (sd_cacheDB s) addr v) = Some (s\<lparr>sd_cacheDB := c'\<rparr>)"
    using c(1) c'(1) assms(4) by (simp add: with_balance_err_def balance_update_def)
  then show ?thesis using c'(2,3) c(3) assms(1) by (auto simp: refines_to_def sdb_inv_def)
qed

lemma AddBalance_refines:
  assumes "sdb_inv ok s" "good (ST_ETH_ACCOUNT # addr)" "account_of view (sd_cacheDB s) addr = Some a" "account_wf a"
    "ea_Balance a = Some b"
  shows "refines_to ok view (StateDB_AddBalance ps s addr v)
      (put_world addr (a\<lparr>ea_Balance := Some (Int_Add b (fst (Int_FromBig v)))\<rparr>) (world_of view s))"
    "refines_to ok view (StateDB_SubBalance ps s addr v)
      (put_world addr (a\<lparr>ea_Balance := Some (Int_Sub b (fst (Int_FromBig v)))\<rparr>) (world_of view s))"
  unfolding StateDB_AddBalance_def StateDB_SubBalance_def balanceHandle_AddBalance_def balanceHandle_SubBalance_def
  by (rule balance_refines [OF assms(1-3)]; use assms(4,5) in \<open>simp add: account_wf_def\<close>)+

lemma GetBalance_refines:
  assumes "sdb_inv ok s" "good (ST_ETH_ACCOUNT # addr)" "account_of view (sd_cacheDB s) addr = Some a" "ea_Balance a = Some b"
  shows "refines ok view (StateDB_GetBalance ps s addr) (int (uval b)) (world_of view s)"
  by (rule account_read [OF assms(1-3)])
    (use assms(1,4) in \<open>auto simp: refines_def StateDB_GetBalance_def balanceHandle_GetBalance_def Int_ToBig_def sdb_inv_def\<close>)

lemma Exist_refines:
  assumes "sdb_inv ok s" "good (ST_ETH_ACCOUNT # addr)" "account_of view (sd_cacheDB s) addr = Some a" "ea_Balance a = Some b"
    "\<not> EthAccount_IsEmpty a"
  shows "refines ok view (StateDB_Exist ps s addr) True (world_of view s)"
    "refines ok view (StateDB_Empty ps s addr) False (world_of view s)"
proof -
  obtain s1 where s1: "StateDB_getEthAccount ps s addr = Some (a, s1)" "sdb_inv ok s1" "world_of view s1 = world_of view s"
    using getEthAccount_refines [OF assms(1-3)] by (rule refinesE)
  have a1: "account_of view (sd_cacheDB s1) addr = Some a" using s1(3) assms(3) by (metis world_sel(1))
  obtain c where c: "CacheDB_GetEthAccount ps (sd_cacheDB s1) addr = Some ((a, None), c)" "cache_inv ok c"
    "world_of view (s1\<lparr>sd_cacheDB := c\<rparr>) = world_of view s1" by (rule account_read [OF s1(2) assms(2) a1])
  have i: "sdb_inv ok (s1\<lparr>sd_cacheDB := c\<rparr>)" using s1(2) c(2) by (auto simp: sdb_inv_def)
  show "refines ok view (StateDB_Exist ps s addr) True (world_of view s)"
    using s1 c i assms by (auto simp: refines_def StateDB_Exist_def balanceHandle_GetBalance_def)
  show "refines ok view (StateDB_Empty ps s addr) False (world_of view s)"
    using s1 c i assms by (auto simp: refines_def StateDB_Empty_def balanceHandle_GetBalance_def)
qed

lemma GetState_refines:
  assumes "sdb_inv ok s" "good (ST_STORAGE # addr @ key)" "w_slots (world_of view s) (addr @ key) = Inr h"
  shows "refines ok view (StateDB_GetState ps s addr key) h (world_of view s)"
proof -
  have ci: "cache_inv ok (sd_cacheDB s)" using assms(1) by (simp add: sdb_inv_def)
  obtain v where v: "cache_lookup view (sd_cacheDB s) (ST_STORAGE # addr @ key) = Inr v" "h = BytesToHash v"
    using assms(3) by (cases "cache_lookup view (sd_cacheDB s) (ST_STORAGE # addr @ key)") (auto simp: world_of_def)
  from cache_get_ok [OF ci assms(2)] v(1) obtain c where c: "cache_get ps (sd_cacheDB s) ST_STORAGE (addr @ key) = Some (Inr v, c)"
    "cache_inv ok c" "cache_lookup view c = cache_lookup view (sd_cacheDB s)" by auto
  with world_cache [OF c(3) cache_get_err [OF c(1)]] show ?thesis using assms(1) v(2)
    by (auto simp: refines_def StateDB_GetState_def CacheDB_Get_def genKey_def sdb_inv_def)
qed

end

end
