(* ===== verification/Transfer_Laws.thy ===== *)
theory Transfer_Laws
  imports Remote_Executor StateDB_World
begin

text \<open>
  A transaction that only transfers value, from the purchase of its gas to the commit, against the abstract state of
  \<open>StateDB_World\<close>.
\<close>

section \<open>The steps of a transfer\<close>

text \<open>An account the store can read, that is kept when written, and its balance.\<close>

definition funded :: "(bytes \<Rightarrow> bool) \<Rightarrow> world \<Rightarrow> bytes \<Rightarrow> EthAccount \<Rightarrow> U256 \<Rightarrow> bool" where
  "funded good w addr a b \<longleftrightarrow> good (ST_ETH_ACCOUNT # addr) \<and> w_accounts w addr = Some a \<and> account_wf a \<and>
     \<not> EthAccount_IsEmpty a \<and> ea_Balance a = Some b"

lemma funded_put [simp]:
  "addr' \<noteq> addr \<Longrightarrow> funded good (put_world addr' a' w) addr a b = funded good w addr a b"
  by (simp add: funded_def)

lemma funded_same:
  "funded good w addr a b \<Longrightarrow> account_wf a' \<Longrightarrow> \<not> EthAccount_IsEmpty a' \<Longrightarrow> ea_Balance a' = Some b' \<Longrightarrow>
     funded good (put_world addr a' w) addr a' b'"
  by (simp add: funded_def)

context store_evm begin

lemma add_funded:
  assumes "sdb_inv ok s" "funded good (world_of view s) addr a b"
  shows "refines_to ok view (StateDB_AddBalance (evm_store E) s addr v)
      (put_world addr (a\<lparr>ea_Balance := Some (Int_Add b (fst (Int_FromBig v)))\<rparr>) (world_of view s))"
    "refines_to ok view (StateDB_SubBalance (evm_store E) s addr v)
      (put_world addr (a\<lparr>ea_Balance := Some (Int_Sub b (fst (Int_FromBig v)))\<rparr>) (world_of view s))"
    "refines ok view (StateDB_GetBalance (evm_store E) s addr) (int (uval b)) (world_of view s)"
    "refines ok view (StateDB_Exist (evm_store E) s addr) True (world_of view s)"
    "refines ok view (StateDB_GetCode (evm_store E) s addr) (ea_Code a) (world_of view s)"
    "refines ok view (StateDB_GetNonce (evm_store E) s addr) (ea_Nonce a) (world_of view s)"
    "refines_to ok view (StateDB_SetNonce (evm_store E) s addr n) (put_world addr (a\<lparr>ea_Nonce := n\<rparr>) (world_of view s))"
  using assms AddBalance_refines GetBalance_refines Exist_refines(1) GetNonce_refines(1,2) SetNonce_refines
  by (simp_all add: funded_def)

lemma buyGas_refines:
  assumes "sdb_inv ok s" "funded good (world_of view s) (msg_from (tr_msg st)) a b"
    "uint (msg_gas (tr_msg st)) * tr_gasPrice st \<le> int (uval b)"
  shows "refines ok view (buyGas (evm_store E) st s)
    (st\<lparr>tr_gas := tr_gas st + msg_gas (tr_msg st), tr_initialGas := msg_gas (tr_msg st)\<rparr>)
    (put_world (msg_from (tr_msg st))
      (a\<lparr>ea_Balance := Some (Int_Sub b (fst (Int_FromBig (uint (msg_gas (tr_msg st)) * tr_gasPrice st))))\<rparr>) (world_of view s))"
proof -
  obtain s1 where s1: "StateDB_GetBalance (evm_store E) s (msg_from (tr_msg st)) = Some (int (uval b), s1)" "sdb_inv ok s1"
    "world_of view s1 = world_of view s" using add_funded(3) [OF assms(1,2)] by (rule refinesE)
  from add_funded(2) [OF s1(2), of "msg_from (tr_msg st)" a b "uint (msg_gas (tr_msg st)) * tr_gasPrice st"] show ?thesis
    using s1 assms(2,3) by (auto simp: refines_def refines_to_def buyGas_def Let_def)
qed

lemma charge_transfer:
  assumes "sdb_inv ok s" "funded good (world_of view s) (msg_from (tr_msg st)) a b" "tr_data st = []" "msg_to (tr_msg st) \<noteq> None"
    "21000 \<le> tr_gas st" "msg_value (tr_msg st) \<le> int (uval b)"
  shows "\<exists>s'. charge_intrinsic E st s = Some (None, st\<lparr>tr_gas := tr_gas st - 21000\<rparr>, s') \<and> sdb_inv ok s' \<and>
    world_of view s' = world_of view s"
proof -
  obtain s1 where s1: "StateDB_GetBalance (evm_store E) s (msg_from (tr_msg st)) = Some (int (uval b), s1)" "sdb_inv ok s1"
    "world_of view s1 = world_of view s" using add_funded(3) [OF assms(1,2)] by (rule refinesE)
  have "IntrinsicGas [] False h i = Some 21000" for h i by (simp add: IntrinsicGas_def)
  then show ?thesis using s1 assms
    by (auto simp: charge_intrinsic_def transfer_functions CanTransfer_def not_less Let_def)
qed

lemma bump_refines:
  assumes "sdb_inv ok s" "funded good (world_of view s) addr a b"
  shows "refines_to ok view (bump_nonce E addr s) (put_world addr (a\<lparr>ea_Nonce := ea_Nonce a + 1\<rparr>) (world_of view s))"
proof -
  obtain s1 where s1: "StateDB_GetNonce (evm_store E) s addr = Some (ea_Nonce a, s1)" "sdb_inv ok s1"
    "world_of view s1 = world_of view s" using add_funded(6) [OF assms] by (rule refinesE)
  from add_funded(7) [OF s1(2), of addr a b] show ?thesis using s1 assms(2) by (simp add: bump_nonce_def)
qed

lemma CanTransfer_refines:
  assumes "sdb_inv ok s" "funded good (world_of view s) addr a b" "val \<le> int (uval b)"
  shows "refines ok view (bc_CanTransfer (evm_Context E) s addr val) True (world_of view s)"
  using add_funded(3) [OF assms(1,2)] assms(3) by (auto simp: refines_def transfer_functions CanTransfer_def)

lemma Call_transfer:
  assumes inv: "sdb_inv ok (es_StateDB s)" and f: "funded good (world_of view (es_StateDB s)) (ContractRef_Address clr) a b"
    and t: "funded good (world_of view (es_StateDB s)) addr a' b'" "ContractRef_Address clr \<noteq> addr" "ea_Code a' = []"
    and p: "EVM_precompile (evm_chainRules E) addr = None" and d: "es_depth s = 0" and v: "val \<le> int (uval b)"
  shows "\<exists>s'. EVM_Call run E clr addr [] gas val s = Done ((Fresh [], gas, None), s') \<and> sdb_inv ok (es_StateDB s') \<and>
    world_of view (es_StateDB s') =
      put_world addr (a'\<lparr>ea_Balance := Some (Int_Add b' (fst (Int_FromBig val)))\<rparr>)
        (put_world (ContractRef_Address clr) (a\<lparr>ea_Balance := Some (Int_Sub b (fst (Int_FromBig val)))\<rparr>)
          (world_of view (es_StateDB s)))"
proof -
  let ?w = "world_of view (es_StateDB s)" and ?from = "ContractRef_Address clr"
  let ?a = "a\<lparr>ea_Balance := Some (Int_Sub b (fst (Int_FromBig val)))\<rparr>"
  let ?a' = "a'\<lparr>ea_Balance := Some (Int_Add b' (fst (Int_FromBig val)))\<rparr>"
  obtain db0 where db0: "(if sgn val \<noteq> 0 then bc_CanTransfer (evm_Context E) (es_StateDB s) ?from val else Some (True, es_StateDB s))
      = Some (True, db0)" "sdb_inv ok db0" "world_of view db0 = ?w"
    using CanTransfer_refines [OF inv f v] inv by (cases "sgn val = 0") (auto elim!: refinesE)
  obtain n db1 where db1: "StateDB_Snapshot db0 = (n, db1)" by fastforce
  have i1: "sdb_inv ok db1" "world_of view db1 = ?w"
    using Snapshot_inv [OF db0(2)] Snapshot_world [of view db0] db0(3) by (simp_all add: db1)
  obtain db2 where db2: "StateDB_Exist (evm_store E) db1 addr = Some (True, db2)" "sdb_inv ok db2" "world_of view db2 = ?w"
    using add_funded(4) [OF i1(1), of addr a' b'] t(1) unfolding i1(2) by (blast elim: refinesE)
  obtain db3 where db3: "StateDB_SubBalance (evm_store E) db2 ?from val = Some db3" "sdb_inv ok db3" "world_of view db3 = put_world ?from ?a ?w"
    using add_funded(2) [OF db2(2), of ?from a b val] f unfolding db2(3) by (blast elim: refines_toE)
  obtain db4 where db4: "StateDB_AddBalance (evm_store E) db3 addr val = Some db4" "sdb_inv ok db4"
    "world_of view db4 = put_world addr ?a' (put_world ?from ?a ?w)"
    using add_funded(1) [OF db3(2), of addr a' b' val] t(1,2) unfolding db3(3) by (auto elim: refines_toE)
  have f4: "funded good (world_of view db4) addr ?a' (Int_Add b' (fst (Int_FromBig val)))"
    unfolding db4(3) using t(1,2) by (auto simp: funded_def account_wf_def EthAccount_IsEmpty_def)
  obtain db5 where db5: "StateDB_GetCode (evm_store E) db4 addr = Some ([], db5)" "sdb_inv ok db5" "world_of view db5 = world_of view db4"
    using add_funded(5) [OF db4(2) f4] t(3) by (auto elim: refinesE)
  have "EVM_Call run E clr addr [] gas val s = Done ((Fresh [], gas, None), with_db s db5)"
    unfolding EVM_Call_def using d p db0(1) db1 db2(1) db3(1) db4(1) db5(1)
    by (simp add: transfer_functions Transfer_def settle_call_def)
  then show ?thesis using db5(2,3) db4(3) by simp
qed

lemma refundGas_refines:
  assumes "sdb_inv ok s" "funded good (world_of view s) (msg_from (tr_msg st)) a b" "sd_refund s = 0"
  shows "refines ok view (refundGas (evm_store E) st s) st
    (put_world (msg_from (tr_msg st))
      (a\<lparr>ea_Balance := Some (Int_Add b (fst (Int_FromBig (uint (tr_gas st) * tr_gasPrice st))))\<rparr>) (world_of view s))"
proof -
  have z: "(if gasUsed st div 2 > 0 then 0 else gasUsed st div 2) = (0 :: u64)" by (auto simp: word_gt_0)
  show ?thesis
    using add_funded(1) [OF assms(1,2), of "uint (tr_gas st) * tr_gasPrice st"]
    unfolding refundGas_def StateDB_GetRefund_def assms(3) Let_def z by (auto simp: refines_def refines_to_def)
qed

end

section \<open>The whole transfer\<close>

lemma uval_FromBig_small: "0 \<le> x \<Longrightarrow> x < 2 ^ 256 \<Longrightarrow> uval (fst (Int_FromBig x)) = nat x"
  using uval_FromBig [of x] by (metis mod_pos_pos_trivial nat_int)

lemma uval_pay:
  assumes "0 \<le> x" "x \<le> int (uval b)"
  shows "int (uval (Int_Sub b (fst (Int_FromBig x)))) = int (uval b) - x"
  using assms int_uval_less [of b] uval_FromBig_small [of x] Int_Sub_le [of "fst (Int_FromBig x)" b] by auto

lemma uval_earn:
  assumes "0 \<le> x" "int (uval b) + x < 2 ^ 256"
  shows "int (uval (Int_Add b (fst (Int_FromBig x)))) = int (uval b) + x"
  using assms uval_FromBig_small [of x] uval_Add [of b "fst (Int_FromBig x)"] by auto

lemma with_db_twice: "with_db (with_db s db) db' = with_db s db'"
  by (simp add: with_db_def)

text \<open>The result of a transfer of \<open>val\<close> at gas price \<open>price\<close>: the sender pays the value and the intrinsic gas, the
  receiver gets the value, the fee account the fee; nothing else changes.\<close>

definition transferred :: "world \<Rightarrow> bytes \<Rightarrow> EthAccount \<Rightarrow> bytes \<Rightarrow> EthAccount \<Rightarrow> bytes \<Rightarrow> EthAccount \<Rightarrow> int \<Rightarrow> int \<Rightarrow> world \<Rightarrow> bool" where
  "transferred w from_addr a to_addr a' fee_addr a'' val price w' \<longleftrightarrow> (\<exists>b b' b''.
     int (uval b) = int (uval (the (ea_Balance a))) - val - 21000 * price \<and>
     int (uval b') = int (uval (the (ea_Balance a'))) + val \<and>
     int (uval b'') = int (uval (the (ea_Balance a''))) + 21000 * price \<and>
     w' = w\<lparr>w_accounts := (w_accounts w)(from_addr \<mapsto> a\<lparr>ea_Nonce := ea_Nonce a + 1, ea_Balance := Some b\<rparr>,
       to_addr \<mapsto> a'\<lparr>ea_Balance := Some b'\<rparr>, fee_addr \<mapsto> a''\<lparr>ea_Balance := Some b''\<rparr>)\<rparr>)"

context store_evm begin

lemma TransitionDb_transfer:
  fixes st :: StateTransition
  defines "msg \<equiv> tr_msg st"
  assumes st: "tr_gas st = 0" "tr_data st = []" "tr_value st = msg_value msg" "\<not> msg_checkNonce msg" "msg_to msg = Some to_addr"
    and s: "sdb_inv ok (es_StateDB s)" "sd_refund (es_StateDB s) = 0" "es_depth s = 0"
    and f: "funded good (world_of view (es_StateDB s)) (msg_from msg) a b" "ea_Nonce a + 1 \<noteq> 0"
    and t: "funded good (world_of view (es_StateDB s)) to_addr a' b'" "ea_Code a' = []"
      "EVM_precompile (evm_chainRules E) to_addr = None"
    and c: "funded good (world_of view (es_StateDB s)) (tr_GasReceiver st) a'' b''"
    and d: "distinct [msg_from msg, to_addr, tr_GasReceiver st]"
    and v: "0 \<le> msg_value msg" "0 \<le> tr_gasPrice st" "21000 \<le> msg_gas msg"
      "uint (msg_gas msg) * tr_gasPrice st + msg_value msg \<le> int (uval b)"
      "int (uval b') + msg_value msg < 2 ^ 256" "int (uval b'') + 21000 * tr_gasPrice st < 2 ^ 256"
  shows "\<exists>st' s'. TransitionDb run E st s =
      Done (Inr \<lparr>er_UsedGas = 21000, er_Err = None, er_ReturnData = [], er_RevertReason = NoReason\<rparr>, st', s') \<and>
    sdb_inv ok (es_StateDB s') \<and>
    transferred (world_of view (es_StateDB s)) (msg_from msg) a to_addr a' (tr_GasReceiver st) a'' (msg_value msg) (tr_gasPrice st)
      (world_of view (es_StateDB s'))"
proof -
  let ?w = "world_of view (es_StateDB s)" and ?from = "msg_from msg" and ?fee = "tr_GasReceiver st"
  define g p val where "g = msg_gas msg" and "p = tr_gasPrice st" and "val = msg_value msg"
  note gpv = g_def [symmetric] p_def [symmetric] val_def [symmetric]
  have cost: "0 \<le> uint g * p" "uint g * p \<le> int (uval b)" "val \<le> int (uval b) - uint g * p"
    using v by (simp_all add: gpv)
  define b1 where "b1 = Int_Sub b (fst (Int_FromBig (uint g * p)))"
  define a1 where "a1 = a\<lparr>ea_Balance := Some b1\<rparr>"
  have u1: "int (uval b1) = int (uval b) - uint g * p" unfolding b1_def by (rule uval_pay [OF cost(1,2)])
  let ?st1 = "st\<lparr>tr_gas := g, tr_initialGas := g\<rparr>"
  obtain s1 where s1: "buyGas (evm_store E) st (es_StateDB s) = Some (?st1, s1)" "sdb_inv ok s1" "world_of view s1 = put_world ?from a1 ?w"
    using buyGas_refines [OF s(1) f(1) [unfolded msg_def]] cost(2) st(1)
    by (auto simp: msg_def [symmetric] gpv b1_def [symmetric] a1_def [symmetric] elim: refinesE)
  have f1: "funded good (world_of view s1) ?from a1 b1"
    unfolding s1(3) by (rule funded_same [OF f(1)]) (use f(1) in \<open>auto simp: a1_def funded_def account_wf_def EthAccount_IsEmpty_def\<close>)
  let ?st2 = "st\<lparr>tr_gas := g - 21000, tr_initialGas := g\<rparr>"
  obtain s2 where s2: "charge_intrinsic E ?st1 s1 = Some (None, ?st2, s2)" "sdb_inv ok s2" "world_of view s2 = put_world ?from a1 ?w"
    using charge_transfer [OF s1(2), of ?st1 a1 b1] f1 st v(3) cost(3) u1 s1(3) by (auto simp: msg_def [symmetric] gpv)
  define a2 where "a2 = a1\<lparr>ea_Nonce := ea_Nonce a + 1\<rparr>"
  obtain s3 where s3: "bump_nonce E ?from s2 = Some s3" "sdb_inv ok s3" "world_of view s3 = put_world ?from a2 (put_world ?from a1 ?w)"
    using bump_refines [OF s2(2), of ?from a1 b1] f1 unfolding s1(3) s2(3) by (auto simp: a2_def a1_def elim: refines_toE)
  have f3: "funded good (world_of view s3) ?from a2 b1"
    unfolding s3(3) by (rule funded_same [OF f1 [unfolded s1(3)]])
      (use f f1 in \<open>auto simp: a2_def a1_def funded_def account_wf_def EthAccount_IsEmpty_def\<close>)
  have t3: "funded good (world_of view s3) to_addr a' b'" using t(1) d by (simp add: s3(3))
  define b3 a3 where "b3 = Int_Sub b1 (fst (Int_FromBig val))" and "a3 = a2\<lparr>ea_Balance := Some b3\<rparr>"
  define b4 a4 where "b4 = Int_Add b' (fst (Int_FromBig val))" and "a4 = a'\<lparr>ea_Balance := Some b4\<rparr>"
  have v1: "val \<le> int (uval b1)" using cost(3) u1 by simp
  obtain s4 where s4: "EVM_Call run E (AccountRef ?from) to_addr [] (g - 21000) val (with_db s s3) = Done ((Fresh [], g - 21000, None), s4)"
    "sdb_inv ok (es_StateDB s4)" "world_of view (es_StateDB s4) = put_world to_addr a4 (put_world ?from a3 (world_of view s3))"
    using Call_transfer [of "with_db s s3" "AccountRef ?from" a2 b1 to_addr a' b' val run "g - 21000"] s3(2) f3 t3 t(2,3) s(3) d v1
    by (auto simp: b3_def a3_def b4_def a4_def)
  have m: "run_message run E None ?st2 (with_db s s2) = Done (([], None), ?st2, s4)"
    using s3(1) s4(1) st by (simp add: run_message_def msg_def [symmetric] StateTransition_to_def gpv ret_bytes_def with_db_twice)
  have f4: "funded good (world_of view (es_StateDB s4)) ?from a3 b3"
    using funded_same [OF f3, of a3 b3] f3 d by (auto simp: s4(3) a3_def funded_def account_wf_def EthAccount_IsEmpty_def)
  have r4: "sd_refund (es_StateDB s4) = 0" using arg_cong [OF s4(3), of w_refund] s(2) by (simp add: s3(3))
  define b5 a5 where "b5 = Int_Add b3 (fst (Int_FromBig (uint (g - 21000) * p)))" and "a5 = a3\<lparr>ea_Balance := Some b5\<rparr>"
  obtain s5 where s5: "refundGas (evm_store E) ?st2 (es_StateDB s4) = Some (?st2, s5)" "sdb_inv ok s5"
    "world_of view s5 = put_world ?from a5 (world_of view (es_StateDB s4))"
    using refundGas_refines [OF s4(2), of ?st2 a3 b3] f4 r4 by (auto simp: msg_def [symmetric] gpv b5_def a5_def elim: refinesE)
  have used: "gasUsed ?st2 = 21000" by (simp add: gasUsed_def)
  define b6 a6 where "b6 = Int_Add b'' (fst (Int_FromBig (21000 * p)))" and "a6 = a''\<lparr>ea_Balance := Some b6\<rparr>"
  have c5: "funded good (world_of view s5) ?fee a'' b''" using c d by (simp add: s5(3) s4(3) s3(3))
  obtain s6 where s6: "StateDB_AddBalance (evm_store E) s5 ?fee (21000 * p) = Some s6" "sdb_inv ok s6"
    "world_of view s6 = put_world ?fee a6 (world_of view s5)"
    using add_funded(1) [OF s5(2) c5, of "21000 * p"] by (auto simp: b6_def a6_def elim: refines_toE)
  have run: "TransitionDb run E st s = Done (Inr \<lparr>er_UsedGas = 21000, er_Err = None, er_ReturnData = [], er_RevertReason = NoReason\<rparr>,
      ?st2, with_db s4 s6)"
    using s1(1) s2(1) m s5(1) s6(1) st(4)
    by (simp add: TransitionDb_def preCheck_def msg_def [symmetric] used NewExecutionResult_def gpv Let_def)
  have n: "\<not> EthAccount_IsEmpty a5" "\<not> EthAccount_IsEmpty a4" "\<not> EthAccount_IsEmpty a6"
    using f4 t(1) c by (auto simp: funded_def a5_def a4_def a6_def EthAccount_IsEmpty_def)
  have left: "uint (g - 21000) = uint g - 21000" using v(3) uint_sub_lem [of "21000 :: u64" g] by (simp add: gpv word_le_def)
  have u3: "int (uval b3) = int (uval b) - uint g * p - val" unfolding b3_def using uval_pay [of val b1] v(1) v1 u1 by (simp add: gpv)
  have "0 \<le> p" "0 \<le> uint (g - 21000)" using v(2) by (simp_all add: gpv)
  then have e: "0 \<le> uint (g - 21000) * p" "uint (g - 21000) * p \<le> uint g * p" unfolding left by (simp_all add: mult_right_mono)
  have "int (uval b5) = int (uval b3) + uint (g - 21000) * p"
    unfolding b5_def using e u3 v(1) int_uval_less [of b] by (intro uval_earn) (simp_all add: gpv)
  then have u5: "int (uval b5) = int (uval b) - val - 21000 * p" unfolding u3 left by (simp add: algebra_simps)
  have u4: "int (uval b4) = int (uval b') + val" unfolding b4_def using v(1,5) by (intro uval_earn) (simp_all add: gpv)
  have u6: "int (uval b6) = int (uval b'') + 21000 * p" unfolding b6_def using v(2,6) by (intro uval_earn) (simp_all add: gpv)
  have w: "world_of view s6 = ?w\<lparr>w_accounts := (w_accounts ?w)(?from \<mapsto> a\<lparr>ea_Nonce := ea_Nonce a + 1, ea_Balance := Some b5\<rparr>,
       to_addr \<mapsto> a'\<lparr>ea_Balance := Some b4\<rparr>, ?fee \<mapsto> a''\<lparr>ea_Balance := Some b6\<rparr>)\<rparr>"
    unfolding s6(3) s5(3) s4(3) s3(3) put_world_def using n d
    by (auto simp: a5_def a4_def a6_def a3_def a2_def a1_def fun_eq_iff)
  have "ea_Balance a = Some b" "ea_Balance a' = Some b'" "ea_Balance a'' = Some b''" using f(1) t(1) c by (simp_all add: funded_def)
  then have "transferred ?w ?from a to_addr a' ?fee a'' val p (world_of view s6)"
    unfolding transferred_def using u4 u5 u6 w by (intro exI [of _ b5] exI [of _ b4] exI [of _ b6]) simp
  then show ?thesis using run s6(2) by (auto simp: gpv)
qed

end

section \<open>Executing the transfer\<close>

definition executor_world :: "go_libs \<Rightarrow> Executor \<Rightarrow> world" where
  "executor_world L self = world_of (remote_view L) (NewStateDB (ex_cacheDB self) [] [])"

lemma CacheDB_Commit_err: "CacheDB_Commit L c = Some c' \<Longrightarrow> cache_err c' = cache_err c"
  by (auto simp: CacheDB_Commit_def cache_err_def commit_backend_eq split: bind_splits)

lemma Commit_world:
  assumes "libs_ok L" "sdb_inv ok s" "sd_Suicided s = []"
  shows "\<exists>s'. StateDB_Commit L ps s = Some (None, s') \<and> sdb_inv ok s' \<and> world_of view s' = world_of view s"
proof -
  obtain c where c: "StateDB_Commit L ps s = Some (None, s\<lparr>sd_Suicided := [], sd_snapshots := [], sd_cacheDB := c\<rparr>)" "cache_inv ok c"
    "cache_lookup view c = cache_lookup view (sd_cacheDB s)" "CacheDB_Commit L (sd_cacheDB s) = Some c"
    using Commit_plain [OF assms, of ps] by blast
  from world_cache [OF c(3) CacheDB_Commit_err [OF c(4)]] have "world_of view (s\<lparr>sd_Suicided := [], sd_snapshots := [], sd_cacheDB := c\<rparr>) = world_of view s"
    using assms(3) by (simp add: world_of_def StateDB_DbErr_def)
  then show ?thesis using c(1,2) by (auto simp: sdb_inv_def)
qed

text \<open>The machine and the state \<^verbatim>\<open>ExecuteTransaction\<close> starts a message with.\<close>

definition executor_evm ::
  "go_libs \<Rightarrow> crypto_libs \<Rightarrow> 'it StoreIterator \<Rightarrow> Executor \<Rightarrow> Eip155Context \<Rightarrow> TxContext \<Rightarrow> (RemoteDB, 'it) EVM" where
  "executor_evm L C ops self ctx tc = \<lparr>evm_libs = L, evm_crypto = C, evm_store = RemoteDB_store L ops,
     evm_Context = NewEVMBlockContext (RemoteDB_store L ops) (ec_Height ctx) (ec_Timestamp ctx) (RemoteDB_GetBlockHash (ex_db self)),
     evm_TxContext = tc, evm_chainConfig = GetChainConfig (ex_chainID self),
     evm_chainRules = ChainConfig_Rules (GetChainConfig (ex_chainID self)) (sint (ec_Height ctx)),
     evm_vmConfig = \<lparr>cfg_NoRecursion = False, cfg_EnablePreimageRecording = False, cfg_ExtraEips = []\<rparr>\<rparr>"

definition executor_start :: "go_libs \<Rightarrow> exec_libs \<Rightarrow> Executor \<Rightarrow> Transaction \<Rightarrow> Eip155Context \<Rightarrow> RemoteDB EVM_state" where
  "executor_start L X self tx ctx =
     \<lparr>es_StateDB = NewStateDB (ex_cacheDB self) (Transaction_Hash L X tx) (ec_BlockHash ctx), es_depth = 0, es_abort = None,
      es_callGasTemp = 0, es_readOnly = False, es_returnData = [], es_jumpdests = Map.empty\<rparr>"

lemma executor_evm_store: "store_evm (executor_evm L C ops self ctx tc) (remote_inv L client) (remote_view L) (remote_good L client)"
  unfolding executor_evm_def by (rule remote_machine.store_evm_axioms)

lemma executor_start_sel:
  "world_of (remote_view L) (es_StateDB (executor_start L X self tx ctx)) = executor_world L self"
  "sd_refund (es_StateDB (executor_start L X self tx ctx)) = 0" "es_depth (executor_start L X self tx ctx) = 0"
  "executor_inv L client self \<Longrightarrow> sdb_inv (remote_inv L client) (es_StateDB (executor_start L X self tx ctx))"
  by (simp_all add: executor_start_def executor_world_def world_of_def NewStateDB_def StateDB_DbErr_def executor_inv_def sdb_inv_def)

text \<open>From the transition of a message call to the transaction.\<close>

lemma ApplyTransaction_message:
  fixes ops :: "'it StoreIterator"
  assumes jt: "NewEVMInterpreter (ChainConfig_Rules (GetChainConfig (ex_chainID self)) (sint (ec_Height ctx)))
      \<lparr>cfg_NoRecursion = False, cfg_EnablePreimageRecording = False, cfg_ExtraEips = []\<rparr> = Some jt"
    and run: "TransitionDb (EVMInterpreter_Run (executor_evm L C ops self ctx (NewEVMTxContext (MessageFromTx tx False))) jt fuel)
        (executor_evm L C ops self ctx (NewEVMTxContext (MessageFromTx tx False)))
        (NewStateTransition (MessageFromTx tx False) (ec_Coinbase ctx)) (executor_start L X self tx ctx) = Done (Inr result, st', s')"
    and db1: "StateDB_Commit L (RemoteDB_store L ops) (es_StateDB s') = Some (None, db1)" and to: "t_To tx \<noteq> None"
  shows "\<exists>receipt. receipt_for result db1 receipt \<and>
    ApplyTransaction L C X (RemoteDB_store L ops) fuel (GetChainConfig (ex_chainID self)) (RemoteDB_GetBlockHash (ex_db self))
      (NewStateDB (ex_cacheDB self) (Transaction_Hash L X tx) (ec_BlockHash ctx)) (ec_Height ctx) (ec_Timestamp ctx) tx 0 (ec_Coinbase ctx)
      \<lparr>cfg_NoRecursion = False, cfg_EnablePreimageRecording = False, cfg_ExtraEips = []\<rparr> False =
    Done (Inr (result, receipt, er_UsedGas result), db1)"
proof -
  let ?ps = "RemoteDB_store L ops" and ?msg = "MessageFromTx tx False" and ?s = "executor_start L X self tx ctx"
  let ?E = "executor_evm L C ops self ctx (NewEVMTxContext ?msg)"
  have evm: "NewEVM L C ?ps (NewEVMBlockContext ?ps (ec_Height ctx) (ec_Timestamp ctx) (RemoteDB_GetBlockHash (ex_db self)))
      \<lparr>tx_Origin = zero_address, tx_GasPrice = 0\<rparr> (es_StateDB ?s) (GetChainConfig (ex_chainID self))
      \<lparr>cfg_NoRecursion = False, cfg_EnablePreimageRecording = False, cfg_ExtraEips = []\<rparr> =
      Some (executor_evm L C ops self ctx \<lparr>tx_Origin = zero_address, tx_GasPrice = 0\<rparr>, jt, ?s)"
    using jt by (simp add: NewEVM_def Let_def executor_evm_def executor_start_def NewEVMBlockContext_def)
  have reset: "EVM_Reset (executor_evm L C ops self ctx tc) ?s (NewEVMTxContext ?msg) (es_StateDB ?s) = (?E, ?s)" for tc
    by (simp add: EVM_Reset_def executor_evm_def executor_start_def with_db_def)
  have sel: "evm_libs ?E = L" "evm_store ?E = ?ps" "(msg_to ?msg = None) = False"
    using to by (simp_all add: executor_evm_def MessageFromTx_def)
  have start: "NewStateDB (ex_cacheDB self) (Transaction_Hash L X tx) (ec_BlockHash ctx) = es_StateDB ?s" by (simp add: executor_start_def)
  show ?thesis
    unfolding start ApplyTransaction_def Let_def evm of_opt_simps obind_simps prod.case applyTransaction_def reset ApplyMessage_def run sel
    using db1 by (auto simp: receipt_for_def receipt_logs StateDB_GetLogs_def)
qed

lemma ExecuteTransaction_message:
  fixes ops :: "'it StoreIterator"
  assumes L: "libs_ok L" and inv: "executor_inv L client self" and to: "t_To tx \<noteq> None"
    and run: "\<And>run. \<exists>st' s'. TransitionDb run (executor_evm L C ops self ctx (NewEVMTxContext (MessageFromTx tx False)))
        (NewStateTransition (MessageFromTx tx False) (ec_Coinbase ctx)) (executor_start L X self tx ctx) = Done (Inr result, st', s') \<and>
      sdb_inv (remote_inv L client) (es_StateDB s') \<and> P (world_of (remote_view L) (es_StateDB s'))"
    and P: "\<And>w. P w \<Longrightarrow> w_suicided w = [] \<and> w_err w = None \<and> w_logs w = [] \<and> w_refund w = 0"
  shows "\<exists>receipt self'. ExecuteTransaction L C X ops fuel self tx ctx = Done (Inr (result, receipt), self') \<and>
    rc_GasUsed receipt = er_UsedGas result \<and> rc_Status receipt = (if ExecutionResult_Failed result then 0 else 1) \<and>
    executor_inv L client self' \<and> P (executor_world L self')"
proof -
  let ?E = "executor_evm L C ops self ctx (NewEVMTxContext (MessageFromTx tx False))"
  obtain jt :: "(RemoteDB, 'it) JumpTable" where jt: "NewEVMInterpreter (ChainConfig_Rules (GetChainConfig (ex_chainID self)) (sint (ec_Height ctx)))
      \<lparr>cfg_NoRecursion = False, cfg_EnablePreimageRecording = False, cfg_ExtraEips = []\<rparr> = Some jt"
    using default_table_defined default_interpreter by metis
  from run [of "EVMInterpreter_Run ?E jt fuel"] obtain st' s' where
    r: "TransitionDb (EVMInterpreter_Run ?E jt fuel) ?E (NewStateTransition (MessageFromTx tx False) (ec_Coinbase ctx))
      (executor_start L X self tx ctx) = Done (Inr result, st', s')"
    and i': "sdb_inv (remote_inv L client) (es_StateDB s')" and p: "P (world_of (remote_view L) (es_StateDB s'))" by blast
  obtain db1 where db1: "StateDB_Commit L (RemoteDB_store L ops) (es_StateDB s') = Some (None, db1)" "sdb_inv (remote_inv L client) db1"
    "world_of (remote_view L) db1 = world_of (remote_view L) (es_StateDB s')" using Commit_world [OF L i'] P [OF p] by auto
  obtain receipt where rc: "receipt_for result db1 receipt" and app: "ApplyTransaction L C X (RemoteDB_store L ops) fuel
      (GetChainConfig (ex_chainID self)) (RemoteDB_GetBlockHash (ex_db self))
      (NewStateDB (ex_cacheDB self) (Transaction_Hash L X tx) (ec_BlockHash ctx)) (ec_Height ctx) (ec_Timestamp ctx) tx 0 (ec_Coinbase ctx)
      \<lparr>cfg_NoRecursion = False, cfg_EnablePreimageRecording = False, cfg_ExtraEips = []\<rparr> False =
    Done (Inr (result, receipt, er_UsedGas result), db1)"
    using ApplyTransaction_message [OF jt r db1(1) to] by blast
  have w1: "sd_Suicided db1 = []" "StateDB_DbErr db1 = None" "sd_logs db1 = []" "sd_refund db1 = 0"
    using P [OF p] by (simp_all flip: db1(3))
  have "executor_world L (self\<lparr>ex_cacheDB := sd_cacheDB db1\<rparr>) = world_of (remote_view L) db1"
    using w1 by (simp add: executor_world_def NewStateDB_def world_of_def StateDB_DbErr_def)
  then show ?thesis using app w1(2) rc p db1(2,3)
    by (auto simp: ExecuteTransaction_def Let_def receipt_for_def executor_inv_def sdb_inv_def)
qed

lemma ExecuteTransaction_transfer:
  fixes ops :: "'it StoreIterator"
  assumes L: "libs_ok L" and inv: "executor_inv L client self" and err: "w_err (executor_world L self) = None"
    and tx: "t_To tx = Some to_addr" "t_Input tx = []" "t_Value tx = Some val" "0 \<le> val" "21000 \<le> t_Gas tx"
    and d: "distinct [t_From tx, to_addr, ec_Coinbase ctx]"
    and f: "funded (remote_good L client) (executor_world L self) (t_From tx) a b" "ea_Nonce a + 1 \<noteq> 0"
    and t: "funded (remote_good L client) (executor_world L self) to_addr a' b'" "ea_Code a' = []"
      "EVM_precompile (ChainConfig_Rules (GetChainConfig (ex_chainID self)) (sint (ec_Height ctx))) to_addr = None"
    and c: "funded (remote_good L client) (executor_world L self) (ec_Coinbase ctx) a'' b''"
    and v: "uint (t_Gas tx) * uint (t_GasPrice tx) + val \<le> int (uval b)" "int (uval b') + val < 2 ^ 256"
      "int (uval b'') + 21000 * uint (t_GasPrice tx) < 2 ^ 256"
  shows "\<exists>receipt self'. ExecuteTransaction L C X ops fuel self tx ctx =
      Done (Inr (\<lparr>er_UsedGas = 21000, er_Err = None, er_ReturnData = [], er_RevertReason = NoReason\<rparr>, receipt), self') \<and>
    rc_GasUsed receipt = 21000 \<and> rc_Status receipt = 1 \<and> executor_inv L client self' \<and>
    transferred (executor_world L self) (t_From tx) a to_addr a' (ec_Coinbase ctx) a'' val (uint (t_GasPrice tx)) (executor_world L self')"
proof -
  let ?P = "transferred (executor_world L self) (t_From tx) a to_addr a' (ec_Coinbase ctx) a'' val (uint (t_GasPrice tx))"
  let ?E = "executor_evm L C ops self ctx (NewEVMTxContext (MessageFromTx tx False))" and ?s = "executor_start L X self tx ctx"
  let ?st = "NewStateTransition (MessageFromTx tx False) (ec_Coinbase ctx)"
  have run: "\<exists>st' s'. TransitionDb run ?E ?st ?s =
      Done (Inr \<lparr>er_UsedGas = 21000, er_Err = None, er_ReturnData = [], er_RevertReason = NoReason\<rparr>, st', s') \<and>
      sdb_inv (remote_inv L client) (es_StateDB s') \<and> ?P (world_of (remote_view L) (es_StateDB s'))" for run
    using store_evm.TransitionDb_transfer [OF executor_evm_store [of L C ops self ctx "NewEVMTxContext (MessageFromTx tx False)" client],
        of ?st to_addr ?s a b a' b' a'' b'' run] inv f t c d v tx
    by (simp add: executor_start_sel NewStateTransition_def MessageFromTx_def executor_evm_def)
  have P: "w_suicided w = [] \<and> w_err w = None \<and> w_logs w = [] \<and> w_refund w = 0" if "?P w" for w
    using that err by (auto simp: transferred_def executor_world_def world_of_def NewStateDB_def)
  have "t_To tx \<noteq> None" using tx(1) by simp
  from ExecuteTransaction_message [where P = ?P, OF L inv this run P] show ?thesis by (simp add: ExecutionResult_Failed_def)
qed

end
