(* ===== verification/Failure_Laws.thy ===== *)
theory Failure_Laws
  imports Transfer_Laws
begin

text \<open>
  Transactions that fail before their code runs, against the abstract state: a nonce that does not match, less gas
  than the intrinsic gas, and a sender that cannot pay for the gas.
\<close>

section \<open>Rejected and failing messages\<close>

definition charged :: "world \<Rightarrow> bytes \<Rightarrow> EthAccount \<Rightarrow> bytes \<Rightarrow> EthAccount \<Rightarrow> int \<Rightarrow> world \<Rightarrow> bool" where
  "charged w from_addr a fee_addr a'' cost w' \<longleftrightarrow> (\<exists>b b''.
     int (uval b) = int (uval (the (ea_Balance a))) - cost \<and> int (uval b'') = int (uval (the (ea_Balance a''))) + cost \<and>
     w' = w\<lparr>w_accounts := (w_accounts w)(from_addr \<mapsto> a\<lparr>ea_Nonce := ea_Nonce a + 1, ea_Balance := Some b\<rparr>,
       fee_addr \<mapsto> a''\<lparr>ea_Balance := Some b''\<rparr>)\<rparr>)"

lemma FromBig_zero: "fst (Int_FromBig 0) = Int_Clear"
  by (rule uval_inject [THEN iffD1]) (simp add: uval_FromBig_small)

lemma Add_zero: "Int_Add b Int_Clear = b"
  by (rule uval_inject [THEN iffD1]) (use uval_less [of b] in \<open>simp add: uval_Add\<close>)

context store_evm begin

lemma preCheck_nonce:
  assumes "sdb_inv ok s" "good (ST_ETH_ACCOUNT # msg_from (tr_msg st))" "account_of view (sd_cacheDB s) (msg_from (tr_msg st)) = Some a"
    "msg_checkNonce (tr_msg st)" "ea_Nonce a \<noteq> msg_nonce (tr_msg st)"
  shows "\<exists>s'. preCheck (evm_store E) st s = Some (Some (if ea_Nonce a < msg_nonce (tr_msg st)
      then ErrNonceTooHigh (msg_from (tr_msg st)) (msg_nonce (tr_msg st)) (ea_Nonce a)
      else ErrNonceTooLow (msg_from (tr_msg st)) (msg_nonce (tr_msg st)) (ea_Nonce a)), st, s') \<and>
    sdb_inv ok s' \<and> world_of view s' = world_of view s"
  using GetNonce_refines(1) [OF assms(1-3)] assms(4,5)
  by (auto simp: refines_def preCheck_def Let_def)

lemma preCheck_accepts:
  assumes "sdb_inv ok s" "good (ST_ETH_ACCOUNT # msg_from (tr_msg st))" "account_of view (sd_cacheDB s) (msg_from (tr_msg st)) = Some a"
    "\<not> (msg_checkNonce (tr_msg st) \<and> ea_Nonce a \<noteq> msg_nonce (tr_msg st))"
  shows "preCheck (evm_store E) st s \<noteq> Some (Some e, st', s')"
  using GetNonce_refines(1) [OF assms(1-3)] assms(4)
  by (auto simp: refines_def preCheck_def Let_def split: bind_splits)

lemma charge_too_little:
  assumes "IntrinsicGas (tr_data st) (msg_to (tr_msg st) = None) (IsHomestead (evm_chainConfig E) (bc_BlockNumber (evm_Context E)))
      (IsIstanbul (evm_chainConfig E) (bc_BlockNumber (evm_Context E))) = Some need" "tr_gas st < need"
  shows "charge_intrinsic E st s = Some (Some (ErrIntrinsicGas (tr_gas st) need), st\<lparr>tr_gas := 0\<rparr>, s)"
  using assms by (simp add: charge_intrinsic_def Let_def)

lemma TransitionDb_intrinsic:
  fixes st :: StateTransition
  defines "msg \<equiv> tr_msg st"
  assumes st: "tr_gas st = 0" "\<not> msg_checkNonce msg"
    and s: "sdb_inv ok (es_StateDB s)" "sd_refund (es_StateDB s) = 0"
    and f: "funded good (world_of view (es_StateDB s)) (msg_from msg) a b" "ea_Nonce a + 1 \<noteq> 0"
    and c: "funded good (world_of view (es_StateDB s)) (tr_GasReceiver st) a'' b''" "msg_from msg \<noteq> tr_GasReceiver st"
    and v: "0 \<le> tr_gasPrice st" "uint (msg_gas msg) * tr_gasPrice st \<le> int (uval b)"
      "int (uval b'') + uint (msg_gas msg) * tr_gasPrice st < 2 ^ 256"
    and g: "IntrinsicGas (tr_data st) (msg_to msg = None) (IsHomestead (evm_chainConfig E) (bc_BlockNumber (evm_Context E)))
      (IsIstanbul (evm_chainConfig E) (bc_BlockNumber (evm_Context E))) = Some need" "msg_gas msg < need"
  shows "\<exists>st' s'. TransitionDb run E st s =
      Done (Inr \<lparr>er_UsedGas = msg_gas msg, er_Err = Some (ErrIntrinsicGas (msg_gas msg) need), er_ReturnData = [],
        er_RevertReason = ErrorText (ErrIntrinsicGas (msg_gas msg) need)\<rparr>, st', s') \<and>
    sdb_inv ok (es_StateDB s') \<and>
    charged (world_of view (es_StateDB s)) (msg_from msg) a (tr_GasReceiver st) a'' (uint (msg_gas msg) * tr_gasPrice st)
      (world_of view (es_StateDB s'))"
proof -
  let ?w = "world_of view (es_StateDB s)" and ?from = "msg_from msg" and ?fee = "tr_GasReceiver st"
  define n cost where "n = msg_gas msg" and "cost = uint n * tr_gasPrice st"
  have cost: "0 \<le> cost" "cost \<le> int (uval b)" using v by (simp_all add: cost_def n_def)
  define b1 a1 where "b1 = Int_Sub b (fst (Int_FromBig cost))" and "a1 = a\<lparr>ea_Balance := Some b1\<rparr>"
  have u1: "int (uval b1) = int (uval b) - cost" unfolding b1_def by (rule uval_pay [OF cost])
  let ?st1 = "st\<lparr>tr_gas := n, tr_initialGas := n\<rparr>" and ?st2 = "st\<lparr>tr_initialGas := n, tr_gas := 0\<rparr>"
  obtain s1 where s1: "buyGas (evm_store E) st (es_StateDB s) = Some (?st1, s1)" "sdb_inv ok s1" "world_of view s1 = put_world ?from a1 ?w"
    using buyGas_refines [OF s(1) f(1) [unfolded msg_def]] cost(2) st(1)
    by (auto simp: msg_def [symmetric] n_def [symmetric] cost_def [symmetric] b1_def [symmetric] a1_def [symmetric] elim: refinesE)
  have f1: "funded good (put_world ?from a1 ?w) ?from a1 b1"
    by (rule funded_same [OF f(1)]) (use f(1) in \<open>auto simp: a1_def funded_def account_wf_def EthAccount_IsEmpty_def\<close>)
  define a2 where "a2 = a1\<lparr>ea_Nonce := ea_Nonce a + 1\<rparr>"
  have a2: "a2\<lparr>ea_Balance := Some b1\<rparr> = a2" by (simp add: a2_def a1_def)
  obtain s2 where s2: "bump_nonce E ?from s1 = Some s2" "sdb_inv ok s2" "world_of view s2 = put_world ?from a2 (put_world ?from a1 ?w)"
    using bump_refines [OF s1(2), of ?from a1 b1] f1 unfolding s1(3) by (auto simp: a2_def a1_def elim: refines_toE)
  have f2: "funded good (world_of view s2) ?from a2 b1"
    unfolding s2(3) by (rule funded_same [OF f1]) (use f f1 in \<open>auto simp: a2_def a1_def funded_def account_wf_def EthAccount_IsEmpty_def\<close>)
  have r2: "sd_refund s2 = 0" using arg_cong [OF s2(3), of w_refund] s(2) by simp
  obtain s3 where s3: "refundGas (evm_store E) ?st2 s2 = Some (?st2, s3)" "sdb_inv ok s3" "world_of view s3 = put_world ?from a2 (world_of view s2)"
    using refundGas_refines [OF s2(2), of ?st2 a2 b1] f2 r2
    by (auto simp: msg_def [symmetric] FromBig_zero Add_zero a2 elim: refinesE)
  define b4 a4 where "b4 = Int_Add b'' (fst (Int_FromBig cost))" and "a4 = a''\<lparr>ea_Balance := Some b4\<rparr>"
  have c3: "funded good (world_of view s3) ?fee a'' b''" using c by (simp add: s3(3) s2(3))
  obtain s4 where s4: "StateDB_AddBalance (evm_store E) s3 ?fee cost = Some s4" "sdb_inv ok s4" "world_of view s4 = put_world ?fee a4 (world_of view s3)"
    using add_funded(1) [OF s3(2) c3, of cost] by (auto simp: b4_def a4_def elim: refines_toE)
  have run: "TransitionDb run E st s = Done (Inr \<lparr>er_UsedGas = n, er_Err = Some (ErrIntrinsicGas n need), er_ReturnData = [],
        er_RevertReason = ErrorText (ErrIntrinsicGas n need)\<rparr>, ?st2, with_db (with_db (with_db s s1) s2) s4)"
    using s1(1) s2(1) s3(1) s4(1) st(2) charge_too_little [of ?st1 need s1] g
    by (simp add: TransitionDb_def preCheck_def msg_def [symmetric] n_def [symmetric] run_message_def NewExecutionResult_def
        DecodeRevert_def gasUsed_def cost_def Let_def)
  have u4: "int (uval b4) = int (uval b'') + cost" unfolding b4_def using v cost by (intro uval_earn) (simp_all add: cost_def n_def)
  have "\<not> EthAccount_IsEmpty a2" "\<not> EthAccount_IsEmpty a4" using f2 c(1) by (auto simp: funded_def a4_def EthAccount_IsEmpty_def)
  then have "world_of view s4 = ?w\<lparr>w_accounts := (w_accounts ?w)(?from \<mapsto> a\<lparr>ea_Nonce := ea_Nonce a + 1, ea_Balance := Some b1\<rparr>,
       ?fee \<mapsto> a''\<lparr>ea_Balance := Some b4\<rparr>)\<rparr>"
    unfolding s4(3) s3(3) s2(3) put_world_def using c(2) by (auto simp: a4_def a2_def a1_def fun_eq_iff)
  then have "charged ?w ?from a ?fee a'' cost (world_of view s4)"
    unfolding charged_def using u1 u4 f(1) c(1) by (auto simp: funded_def)
  then show ?thesis using run s4(2) by (auto simp: cost_def n_def)
qed


text \<open>A sender that cannot pay for all the gas is not charged for the gas it gets: \<^verbatim>\<open>mgval\<close> is the quotient
  of its balance and the price by the time it is subtracted.\<close>

lemma buyGas_underfunded:
  assumes "sdb_inv ok s" "funded good (world_of view s) (msg_from (tr_msg st)) a b"
    "int (uval b) < uint (msg_gas (tr_msg st)) * tr_gasPrice st" "0 < tr_gasPrice st"
  shows "\<exists>b'. int (uval b') = int (uval b) - int (uval b) div tr_gasPrice st \<and>
    refines ok view (buyGas (evm_store E) st s)
      (st\<lparr>tr_gas := tr_gas st + big_Uint64 (int (uval b) div tr_gasPrice st), tr_initialGas := big_Uint64 (int (uval b) div tr_gasPrice st)\<rparr>)
      (put_world (msg_from (tr_msg st)) (a\<lparr>ea_Balance := Some b'\<rparr>) (world_of view s))"
proof -
  let ?q = "int (uval b) div tr_gasPrice st"
  obtain s1 where s1: "StateDB_GetBalance (evm_store E) s (msg_from (tr_msg st)) = Some (int (uval b), s1)" "sdb_inv ok s1"
    "world_of view s1 = world_of view s" using add_funded(3) [OF assms(1,2)] by (rule refinesE)
  have q: "0 \<le> ?q" "?q \<le> int (uval b)" using assms(4) zdiv_mono2 [of "int (uval b)" 1 "tr_gasPrice st"] by (simp_all add: pos_imp_zdiv_nonneg_iff)
  from add_funded(2) [OF s1(2), of "msg_from (tr_msg st)" a b ?q] show ?thesis
    using s1 assms(2-4) uval_pay [OF q]
    by (intro exI [of _ "Int_Sub b (fst (Int_FromBig ?q))"]) (auto simp: refines_def refines_to_def buyGas_def Let_def)
qed

end

section \<open>Executing a transaction with too little gas\<close>

lemma ExecuteTransaction_intrinsic:
  fixes ops :: "'it StoreIterator"
  assumes L: "libs_ok L" and inv: "executor_inv L client self" and err: "w_err (executor_world L self) = None"
    and to: "t_To tx \<noteq> None"
    and f: "funded (remote_good L client) (executor_world L self) (t_From tx) a b" "ea_Nonce a + 1 \<noteq> 0"
    and c: "funded (remote_good L client) (executor_world L self) (ec_Coinbase ctx) a'' b''" "t_From tx \<noteq> ec_Coinbase ctx"
    and v: "uint (t_Gas tx) * uint (t_GasPrice tx) \<le> int (uval b)" "int (uval b'') + uint (t_Gas tx) * uint (t_GasPrice tx) < 2 ^ 256"
    and g: "IntrinsicGas (t_Input tx) False (IsHomestead (GetChainConfig (ex_chainID self)) (sint (ec_Height ctx)))
      (IsIstanbul (GetChainConfig (ex_chainID self)) (sint (ec_Height ctx))) = Some need" "t_Gas tx < need"
  shows "\<exists>receipt self'. ExecuteTransaction L C X ops fuel self tx ctx =
      Done (Inr (\<lparr>er_UsedGas = t_Gas tx, er_Err = Some (ErrIntrinsicGas (t_Gas tx) need), er_ReturnData = [],
        er_RevertReason = ErrorText (ErrIntrinsicGas (t_Gas tx) need)\<rparr>, receipt), self') \<and>
    rc_GasUsed receipt = t_Gas tx \<and> rc_Status receipt = 0 \<and> executor_inv L client self' \<and>
    charged (executor_world L self) (t_From tx) a (ec_Coinbase ctx) a'' (uint (t_Gas tx) * uint (t_GasPrice tx)) (executor_world L self')"
proof -
  let ?P = "charged (executor_world L self) (t_From tx) a (ec_Coinbase ctx) a'' (uint (t_Gas tx) * uint (t_GasPrice tx))"
  let ?E = "executor_evm L C ops self ctx (NewEVMTxContext (MessageFromTx tx False))" and ?s = "executor_start L X self tx ctx"
  let ?st = "NewStateTransition (MessageFromTx tx False) (ec_Coinbase ctx)"
  have run: "\<exists>st' s'. TransitionDb run ?E ?st ?s =
      Done (Inr \<lparr>er_UsedGas = t_Gas tx, er_Err = Some (ErrIntrinsicGas (t_Gas tx) need), er_ReturnData = [],
        er_RevertReason = ErrorText (ErrIntrinsicGas (t_Gas tx) need)\<rparr>, st', s') \<and>
      sdb_inv (remote_inv L client) (es_StateDB s') \<and> ?P (world_of (remote_view L) (es_StateDB s'))" for run
    using store_evm.TransitionDb_intrinsic [OF executor_evm_store [of L C ops self ctx "NewEVMTxContext (MessageFromTx tx False)" client],
        of ?st ?s a b a'' b'' need run] inv f c v g to
    by (simp add: executor_start_sel NewStateTransition_def MessageFromTx_def executor_evm_def NewEVMBlockContext_def)
  have P: "w_suicided w = [] \<and> w_err w = None \<and> w_logs w = [] \<and> w_refund w = 0" if "?P w" for w
    using that err by (auto simp: charged_def executor_world_def world_of_def NewStateDB_def)
  from ExecuteTransaction_message [where P = ?P, OF L inv to run P] show ?thesis by (simp add: ExecutionResult_Failed_def)
qed

section \<open>Errors of the executor\<close>

text \<open>The executor passes messages on with the nonce check turned off, so only the database can make it fail.\<close>

lemma preCheck_unchecked: "\<not> msg_checkNonce (tr_msg st) \<Longrightarrow> preCheck ps st db \<noteq> Some (Some e, st', db')"
  by (auto simp: preCheck_def Let_def split: bind_splits)

lemma ExecuteTransaction_errors:
  fixes ops :: "'it StoreIterator"
  assumes "ExecuteTransaction L C X ops fuel self tx ctx = Done (Inl e, self')"
  shows "\<exists>d. e = DbError d"
proof -
  obtain r db where a: "ApplyTransaction L C X (RemoteDB_store L ops) fuel (GetChainConfig (ex_chainID self))
      (RemoteDB_GetBlockHash (ex_db self)) (NewStateDB (ex_cacheDB self) (Transaction_Hash L X tx) (ec_BlockHash ctx))
      (ec_Height ctx) (ec_Timestamp ctx) tx 0 (ec_Coinbase ctx)
      \<lparr>cfg_NoRecursion = False, cfg_EnablePreimageRecording = False, cfg_ExtraEips = []\<rparr> False = Done (r, db)"
    and e: "r = Inl e \<or> (\<exists>d. e = DbError d)"
    using assms unfolding ExecuteTransaction_def Let_def by (auto elim!: obind_DoneE split: sum.split_asm option.split_asm)
  show ?thesis
  proof (rule ccontr)
    assume db_err: "\<nexists>d. e = DbError d"
    then have "r = Inl e" using e by blast
    note a' = a [unfolded this]
    let ?msg = "MessageFromTx tx False" and ?db = "NewStateDB (ex_cacheDB self) (Transaction_Hash L X tx) (ec_BlockHash ctx)"
    obtain E :: "(RemoteDB, 'it) EVM" and jt s where "applyTransaction X fuel jt ?msg ?db tx 0 E s (ec_Coinbase ctx) = Done (Inl e, db)"
      using a' unfolding ApplyTransaction_def Let_def by (auto elim!: obind_DoneE)
    then obtain r1 st s1 where t: "TransitionDb (EVMInterpreter_Run (E\<lparr>evm_TxContext := NewEVMTxContext ?msg\<rparr>) jt fuel)
        (E\<lparr>evm_TxContext := NewEVMTxContext ?msg\<rparr>) (NewStateTransition ?msg (ec_Coinbase ctx)) (with_db s ?db) = Done (r1, st, s1)"
      and "r1 = Inl e"
      by (rule applyTransaction_cases [OF _ refl refl refl]) (use db_err in \<open>auto split: sum.split_asm\<close>)
    from t [unfolded this(2)] show False
      by (rule TransitionDb_rejects) (simp add: preCheck_unchecked NewStateTransition_def MessageFromTx_def)
  qed
qed

end
