(* ===== verification/Instances.thy ===== *)
theory Instances
  imports Transfer_Laws
begin

text \<open>
  Concrete instances of what the model takes as parameters: the Go libraries, the cryptography, the node a remote
  store asks, and the executor and the machine over it.  The properties are applied to them.
\<close>

section \<open>Libraries\<close>

text \<open>\<^verbatim>\<open>util.BytesPrefix\<close> of goleveldb: the range of the keys with a prefix.\<close>

fun prefix_limit :: "bytes \<Rightarrow> bytes option" where
  "prefix_limit [] = None"
| "prefix_limit (c # cs) =
     (case prefix_limit cs of Some l \<Rightarrow> Some (c # l) | None \<Rightarrow> if c < 0xff then Some [c + 1] else None)"

definition BytesPrefix :: "bytes \<Rightarrow> util_Range" where
  "BytesPrefix p = \<lparr>Start = Some p, Limit = prefix_limit p\<rparr>"

lemma max_byte: "c \<le> (0xff :: byte)"
  by (simp add: word_le_nat_alt) (use unat_byte_less [of c] in simp)

lemma less_next_byte: "c < (0xff :: byte) \<Longrightarrow> b < c + 1 \<longleftrightarrow> b \<le> c"
  by (simp add: word_le_nat_alt word_less_nat_alt unat_word_ariths less_Suc_eq_le)

lemma prefix_limit_range: "p \<le> k \<and> (case prefix_limit p of None \<Rightarrow> True | Some l \<Rightarrow> k < l) \<longleftrightarrow> take (length p) k = p"
proof (induction p arbitrary: k)
  case (Cons c cs)
  show ?case
  proof (cases k)
    case (Cons b bs)
    have 1: "\<not> c < b" if "\<not> c < 0xff" using that max_byte [of b] by simp
    have 2: "\<not> c < b" if "b < c + 1" "c < 0xff" using that less_next_byte [of c b] by simp
    have 3: "c < c + 1" if "c < 0xff" using that less_next_byte [of c c] by simp
    show ?thesis using Cons.IH [of bs] Cons 1 2 3
      by (auto split: option.splits)
  qed simp
qed simp

text \<open>The hash functions pad or cut their input; the last byte is one.\<close>

definition toy_hash :: "bytes \<Rightarrow> bytes" where
  "toy_hash b = take 31 (b @ zero_hash) @ [1]"

definition go_std :: go_libs where
  "go_std = \<lparr>lib_cmp = bytes_compare, lib_rand = (\<lambda>i. i), lib_BytesPrefix = BytesPrefix, lib_Sha256 = toy_hash,
     lib_Keccak256 = toy_hash, lib_range = (\<lambda>ks. ks), lib_spare = (\<lambda>b. [])\<rparr>"

lemma toy_hash [simp]: "length (toy_hash b) = 32" "toy_hash b \<noteq> zero_hash"
proof -
  show "length (toy_hash b) = 32" by (simp add: toy_hash_def)
  have "last (toy_hash b) \<noteq> last zero_hash" by (simp add: toy_hash_def zero_hash_def HashLength_def)
  then show "toy_hash b \<noteq> zero_hash" by auto
qed

lemma go_std_ok: "libs_ok go_std"
  by (auto simp: libs_ok_def go_std_def three_way_compare in_range_def BytesPrefix_def is_prefix_def prefix_limit_range [symmetric])

definition no_crypto :: crypto_libs where
  "no_crypto = \<lparr>cl_RecoverCompact = (\<lambda>h s. None), cl_Ripemd160 = (\<lambda>b. replicate 20 0), cl_rlp_address_nonce = (\<lambda>a n. a),
     cl_bn_G1_Unmarshal = (\<lambda>b. Inl ErrOutOfGas), cl_bn_G2_Unmarshal = (\<lambda>b. Inl ErrOutOfGas), cl_bn_Add = (\<lambda>p q. p),
     cl_bn_ScalarMult = (\<lambda>p k. p), cl_bn_Marshal = (\<lambda>p. []), cl_bn_PairingCheck = (\<lambda>ps qs. True),
     cl_G1_DecodePoint = (\<lambda>b. Inl ErrOutOfGas), cl_G1_EncodePoint = (\<lambda>p. []), cl_G1_Add = (\<lambda>p q. p),
     cl_G1_MulScalar = (\<lambda>p k. p), cl_G1_MultiExp = (\<lambda>ps ks. []), cl_G1_MapToCurve = (\<lambda>b. Inl ErrOutOfGas),
     cl_G1_InCorrectSubgroup = (\<lambda>p. True), cl_G2_DecodePoint = (\<lambda>b. Inl ErrOutOfGas), cl_G2_EncodePoint = (\<lambda>p. []),
     cl_G2_Add = (\<lambda>p q. p), cl_G2_MulScalar = (\<lambda>p k. p), cl_G2_MultiExp = (\<lambda>ps ks. []),
     cl_G2_MapToCurve = (\<lambda>b. Inl ErrOutOfGas), cl_G2_InCorrectSubgroup = (\<lambda>p. True), cl_Pairing_Check = (\<lambda>ps. True),
     cl_console_decodes = (\<lambda>b. True)\<rparr>"

definition no_logs :: exec_libs where
  "no_logs = \<lparr>el_rlp_tx = (\<lambda>t. t_Input t), el_parse_log = (\<lambda>l. None)\<rparr>"

section \<open>A node, an executor and a machine\<close>

text \<open>The node has one contract, whose code is \<^verbatim>\<open>PUSH1 1; PUSH1 0; SSTORE; INVALID\<close>, and every account has a hundred wei.\<close>

definition contract_addr :: bytes where "contract_addr = replicate 19 0 @ [0x77]"

definition alice :: bytes where "alice = replicate 19 0 @ [0x55]"

definition bob :: bytes where "bob = replicate 19 0 @ [0x66]"

definition miner :: bytes where "miner = replicate 19 0 @ [0x44]"

definition node :: rpc_client where
  "node = \<lparr>rpc_GetNonce = (\<lambda>a. Some 0), rpc_GetBalance = (\<lambda>a. Some 100),
     rpc_GetCode = (\<lambda>a. Some (if a = contract_addr then ''0x6001600055fe'' else ''0x'')),
     rpc_GetStorage = (\<lambda>a k. Some zero_hash), rpc_GetBlockHash = (\<lambda>h. Some zero_hash)\<rparr>"

definition node_executor :: Executor where
  "node_executor = NewExecutor go_std node"

definition plain_account :: EthAccount where
  "plain_account = \<lparr>ea_Nonce = 0, ea_Balance = Some (fst (Int_FromBig 100)), ea_Code = [], ea_CodeHash = toy_hash []\<rparr>"

definition transfer_tx :: Transaction where
  "transfer_tx = \<lparr>t_hash = zero_hash, t_From = alice, t_To = Some bob, t_Input = [], t_GasPrice = 0, t_Gas = 21000, t_Value = Some 7,
     t_Nonce = 0, t_V = [], t_R = [], t_S = [], t_BlockHash = zero_hash, t_BlockNumber = 0, t_TxnIndex = 0\<rparr>"

definition first_block :: Eip155Context where
  "first_block = \<lparr>ec_BlockHash = zero_hash, ec_TxIndex = 0, ec_Height = 0, ec_Timestamp = 0, ec_Coinbase = miner\<rparr>"

lemma addrs [simp]: "length alice = 20" "length bob = 20" "length miner = 20" "length contract_addr = 20"
  "alice \<noteq> contract_addr" "bob \<noteq> contract_addr" "miner \<noteq> contract_addr" "alice \<noteq> bob" "alice \<noteq> miner" "bob \<noteq> miner"
  by (simp_all add: alice_def bob_def miner_def contract_addr_def)

lemma node_inv: "executor_inv go_std node node_executor"
  by (simp add: node_executor_def NewExecutor_inv go_std_ok)

lemma node_fetch: "a \<noteq> contract_addr \<Longrightarrow> fetch_account go_std node a = Some plain_account"
  by (simp add: fetch_account_def node_def plain_account_def go_std_def go_slice_def)

lemma plain_wf [simp]: "account_wf plain_account" "\<not> EthAccount_IsEmpty plain_account" "ea_Code plain_account = []"
  "ea_Balance plain_account = Some (fst (Int_FromBig 100))" "ea_Nonce plain_account = 0"
  by (simp_all add: account_wf_def EthAccount_IsEmpty_def plain_account_def)

lemma node_funded:
  assumes "length a = 20" "a \<noteq> contract_addr"
  shows "funded (remote_good go_std node) (executor_world go_std node_executor) a plain_account (fst (Int_FromBig 100))"
  using NewExecutor_account [OF go_std_ok node_fetch [OF assms(2)] _ assms(1)] remote_fetch_account [OF node_fetch [OF assms(2)] _ assms(1)]
  by (simp add: funded_def remote_good_def executor_account_def executor_world_def node_executor_def NewStateDB_def)

lemma hundred: "uval (fst (Int_FromBig 100)) = 100"
  using uval_FromBig_small [of 100] by simp

lemma node_err: "w_err (executor_world go_std node_executor) = None"
  by (simp add: executor_world_def node_executor_def NewExecutor_def NewStateDB_def StateDB_DbErr_def OverlayDB_Error_def NewCacheDB_def
      NewOverlayDB_def)

lemma bob_plain: "EVM_precompile (ChainConfig_Rules (GetChainConfig (ex_chainID node_executor)) (sint (ec_Height first_block))) bob = None"
  by code_simp

end
