(* ===== verification/Executor_Props.thy ===== *)
theory Executor_Props
  imports Failure_Laws Instances
begin

text \<open>
  The properties of transaction execution, each applied to the executor over the node of \<open>Instances\<close>.
\<close>

section \<open>A transaction that transfers value\<close>

text \<open>C1: Executing a transaction that only transfers value succeeds: it uses the intrinsic gas of 21000, the receipt has
  status 1, the nonce of the sender goes up by one, the sender pays the value and the price of the gas used, the
  receiver gets the value and the fee account the price of the gas, and nothing else in the state of the executor
  changes.  The three accounts are different, they can be read and are not dropped when written (nonce or code hash
  not zero), the receiver has no code and is not a precompiled contract, and no balance overflows.\<close>

theorem execute_transfer:
  fixes ops :: "'it StoreIterator"
  assumes "libs_ok L" "executor_inv L client self" "w_err (executor_world L self) = None"
    and "t_To tx = Some to_addr" "t_Input tx = []" "t_Value tx = Some val" "0 \<le> val" "21000 \<le> t_Gas tx"
    and "distinct [t_From tx, to_addr, ec_Coinbase ctx]"
    and "funded (remote_good L client) (executor_world L self) (t_From tx) a b" "ea_Nonce a + 1 \<noteq> 0"
    and "funded (remote_good L client) (executor_world L self) to_addr a' b'" "ea_Code a' = []"
    and "EVM_precompile (ChainConfig_Rules (GetChainConfig (ex_chainID self)) (sint (ec_Height ctx))) to_addr = None"
    and "funded (remote_good L client) (executor_world L self) (ec_Coinbase ctx) a'' b''"
    and "uint (t_Gas tx) * uint (t_GasPrice tx) + val \<le> int (uval b)" "int (uval b') + val < 2 ^ 256"
    and "int (uval b'') + 21000 * uint (t_GasPrice tx) < 2 ^ 256"
  shows "\<exists>receipt self'. ExecuteTransaction L C X ops fuel self tx ctx =
      Done (Inr (\<lparr>er_UsedGas = 21000, er_Err = None, er_ReturnData = [], er_RevertReason = NoReason\<rparr>, receipt), self') \<and>
    rc_GasUsed receipt = 21000 \<and> rc_Status receipt = 1 \<and> executor_inv L client self' \<and>
    transferred (executor_world L self) (t_From tx) a to_addr a' (ec_Coinbase ctx) a'' val (uint (t_GasPrice tx)) (executor_world L self')"
  using assms by (intro ExecuteTransaction_transfer)

lemmas node_accounts = node_funded [of alice, simplified] node_funded [of bob, simplified] node_funded [of miner, simplified]

theorem execute_transfer_witness:
  "\<exists>receipt self'. ExecuteTransaction go_std no_crypto no_logs dbIter_ops 30000 node_executor transfer_tx first_block =
      Done (Inr (\<lparr>er_UsedGas = 21000, er_Err = None, er_ReturnData = [], er_RevertReason = NoReason\<rparr>, receipt), self') \<and>
    rc_GasUsed receipt = 21000 \<and> rc_Status receipt = 1 \<and> executor_inv go_std node self' \<and>
    transferred (executor_world go_std node_executor) alice plain_account bob plain_account miner plain_account 7 0
      (executor_world go_std self')"
  using execute_transfer [of go_std node node_executor transfer_tx bob 7 first_block plain_account "fst (Int_FromBig 100)"
      plain_account "fst (Int_FromBig 100)" plain_account "fst (Int_FromBig 100)" no_crypto no_logs dbIter_ops 30000]
    go_std_ok node_inv node_err node_accounts bob_plain
  by (simp add: transfer_tx_def first_block_def hundred)

text \<open>The transfer, for the witnesses below.\<close>

lemma node_transfer:
  "\<exists>receipt self'. ExecuteTransaction go_std no_crypto no_logs dbIter_ops fuel node_executor transfer_tx first_block =
      Done (Inr (\<lparr>er_UsedGas = 21000, er_Err = None, er_ReturnData = [], er_RevertReason = NoReason\<rparr>, receipt), self')"
  using ExecuteTransaction_transfer [of go_std node node_executor transfer_tx bob 7 first_block plain_account "fst (Int_FromBig 100)"
      plain_account "fst (Int_FromBig 100)" plain_account "fst (Int_FromBig 100)" no_crypto no_logs dbIter_ops fuel]
    go_std_ok node_inv node_err node_accounts bob_plain
  by (auto simp add: transfer_tx_def first_block_def hundred)

section \<open>Every transaction\<close>

text \<open>C2: Executing a transaction ends: with a step budget above the transaction's gas, which counts every instruction
  of every nested call, the budget is never exhausted.\<close>

theorem execute_ends:
  assumes "unat (t_Gas tx) < fuel"
  shows "ExecuteTransaction L C X ops fuel self tx ctx \<noteq> Exhausted"
  using ExecuteTransaction_returns [OF assms] by (simp add: returns_def)

theorem execute_ends_witness:
  "ExecuteTransaction go_std no_crypto no_logs dbIter_ops 21001 node_executor transfer_tx first_block \<noteq> Exhausted"
  by (rule execute_ends) (simp add: transfer_tx_def)

text \<open>C19: Executing a transaction keeps the invariant of the executor, whatever the transaction does: the skip lists of the
  cache and of the overlay are well formed, and what the remote store has cached is what the node answers.\<close>

theorem execute_keeps_invariant:
  assumes "libs_ok L" "executor_inv L client self" "ExecuteTransaction L C X ops fuel self tx ctx = Done (r, self')"
  shows "executor_inv L client self'"
  using assms by (rule ExecuteTransaction_remote(1))

theorem execute_keeps_invariant_witness:
  "\<exists>r self'. ExecuteTransaction go_std no_crypto no_logs dbIter_ops 30000 node_executor transfer_tx first_block = Done (r, self') \<and>
    executor_inv go_std node self'"
  using node_transfer [of 30000] execute_keeps_invariant [OF go_std_ok node_inv, of no_crypto no_logs dbIter_ops 30000 transfer_tx first_block]
  by blast

text \<open>C20: A transaction never uses more gas than its limit, and the receipt reports the gas used and, as its status,
  whether the execution failed.\<close>

theorem execute_gas_bound:
  assumes "libs_ok L" "executor_inv L client self" "unat (t_Gas tx) < fuel"
    and "ExecuteTransaction L C X ops fuel self tx ctx = Done (Inr (result, receipt), self')"
  shows "er_UsedGas result \<le> t_Gas tx \<and> rc_GasUsed receipt = er_UsedGas result \<and>
    rc_Status receipt = (if ExecutionResult_Failed result then 0 else 1)"
  using ExecuteTransaction_remote(3,4) [OF assms(1,2,4) refl] assms(3) by blast

theorem execute_gas_bound_witness:
  "\<exists>result receipt self'. ExecuteTransaction go_std no_crypto no_logs dbIter_ops 30000 node_executor transfer_tx first_block =
      Done (Inr (result, receipt), self') \<and> er_UsedGas result \<le> t_Gas transfer_tx \<and> rc_GasUsed receipt = er_UsedGas result \<and>
    rc_Status receipt = (if ExecutionResult_Failed result then 0 else 1)"
proof -
  have "unat (t_Gas transfer_tx) < 30000" by (simp add: transfer_tx_def)
  then show ?thesis
    using node_transfer [of 30000] execute_gas_bound [OF go_std_ok node_inv, of transfer_tx 30000 no_crypto no_logs dbIter_ops first_block]
    by blast
qed

section \<open>Transactions that fail\<close>

text \<open>C3: A transaction whose execution fails, be it a message call or a contract creation, leaves every storage slot of every
  contract as it was before the transaction, and its receipt has no logs.  The one exception is a creation under the rules
  before Homestead that cannot pay for storing its code, which is not reverted.\<close>

theorem execute_failure_keeps_storage:
  assumes "libs_ok L" "executor_inv L client self" "er_Err result \<noteq> None"
    and "t_To tx \<noteq> None \<or> IsHomestead (GetChainConfig (ex_chainID self)) (sint (ec_Height ctx)) \<or>
      er_Err result \<noteq> Some (VmError ErrCodeStoreOutOfGas)"
    and "ExecuteTransaction L C X ops fuel self tx ctx = Done (Inr (result, receipt), self')"
  shows "executor_slot L self' = executor_slot L self \<and> rc_Logs receipt = []"
  using ExecuteTransaction_remote(5) [OF assms(1,2,5) refl] assms(3,4) by (simp add: undone_def)

definition poor_tx :: Transaction where
  "poor_tx = transfer_tx\<lparr>t_Gas := 20999\<rparr>"

lemma node_intrinsic:
  "\<exists>receipt self'. ExecuteTransaction go_std no_crypto no_logs dbIter_ops fuel node_executor poor_tx first_block =
      Done (Inr (\<lparr>er_UsedGas = 20999, er_Err = Some (ErrIntrinsicGas 20999 21000), er_ReturnData = [],
        er_RevertReason = ErrorText (ErrIntrinsicGas 20999 21000)\<rparr>, receipt), self')"
  using ExecuteTransaction_intrinsic [of go_std node node_executor poor_tx plain_account "fst (Int_FromBig 100)" first_block
      plain_account "fst (Int_FromBig 100)" 21000 no_crypto no_logs dbIter_ops fuel]
    go_std_ok node_inv node_err node_accounts
  by (auto simp add: poor_tx_def transfer_tx_def first_block_def hundred IntrinsicGas_def)

theorem execute_failure_keeps_storage_witness:
  "\<exists>result receipt self'. ExecuteTransaction go_std no_crypto no_logs dbIter_ops 30000 node_executor poor_tx first_block =
      Done (Inr (result, receipt), self') \<and> er_Err result \<noteq> None \<and>
    executor_slot go_std self' = executor_slot go_std node_executor \<and> rc_Logs receipt = []"
proof -
  obtain receipt self' where r: "ExecuteTransaction go_std no_crypto no_logs dbIter_ops 30000 node_executor poor_tx first_block =
      Done (Inr (\<lparr>er_UsedGas = 20999, er_Err = Some (ErrIntrinsicGas 20999 21000), er_ReturnData = [],
        er_RevertReason = ErrorText (ErrIntrinsicGas 20999 21000)\<rparr>, receipt), self')" using node_intrinsic by blast
  from execute_failure_keeps_storage [OF go_std_ok node_inv _ _ r] r show ?thesis
    by (auto simp: poor_tx_def transfer_tx_def)
qed




definition late_msg :: Message where
  "late_msg = (MessageFromTx transfer_tx True)\<lparr>msg_nonce := 5\<rparr>"

lemma node_start: "sdb_inv (remote_inv go_std node) (es_StateDB (executor_start go_std no_logs node_executor transfer_tx first_block))"
  "account_of (remote_view go_std) (sd_cacheDB (es_StateDB (executor_start go_std no_logs node_executor transfer_tx first_block))) alice =
    Some plain_account" "remote_good go_std node (ST_ETH_ACCOUNT # alice)"
  using executor_start_sel(4) [OF node_inv] node_accounts(1)
    arg_cong [OF executor_start_sel(1) [of go_std no_logs node_executor transfer_tx first_block], of w_accounts]
  by (simp_all add: funded_def)



section \<open>Buying gas\<close>

text \<open>C36: When the sender cannot pay for the gas limit, the gas bought is what the balance affords, but the sender is not
  charged its price: the amount subtracted from the balance is the number of units of gas, because the division that
  computes it overwrites the amount to be charged.\<close>

theorem buyGas_undercharges:
  assumes "sdb_inv (remote_inv L client) s" "funded (remote_good L client) (world_of (remote_view L) s) (msg_from (tr_msg st)) a b"
    and "int (uval b) < uint (msg_gas (tr_msg st)) * tr_gasPrice st" "0 < tr_gasPrice st"
  shows "\<exists>b'. int (uval b') = int (uval b) - int (uval b) div tr_gasPrice st \<and>
    refines (remote_inv L client) (remote_view L) (buyGas (RemoteDB_store L ops) st s)
      (st\<lparr>tr_gas := tr_gas st + big_Uint64 (int (uval b) div tr_gasPrice st), tr_initialGas := big_Uint64 (int (uval b) div tr_gasPrice st)\<rparr>)
      (put_world (msg_from (tr_msg st)) (a\<lparr>ea_Balance := Some b'\<rparr>) (world_of (remote_view L) s))"
  using store_evm.buyGas_underfunded [OF executor_evm_store [of L no_crypto ops node_executor first_block "NewEVMTxContext late_msg" client] assms]
  by (simp add: executor_evm_def)

definition costly_msg :: Message where
  "costly_msg = (MessageFromTx transfer_tx False)\<lparr>msg_gasPrice := 10\<rparr>"

text \<open>A hundred wei buy ten units of gas at a price of ten, and ten wei are charged.\<close>

theorem buyGas_undercharges_witness:
  "\<exists>b' s'. uval b' = 90 \<and>
    buyGas (RemoteDB_store go_std dbIter_ops) (NewStateTransition costly_msg miner)
        (es_StateDB (executor_start go_std no_logs node_executor transfer_tx first_block)) =
      Some ((NewStateTransition costly_msg miner)\<lparr>tr_gas := 10, tr_initialGas := 10\<rparr>, s') \<and>
    w_accounts (world_of (remote_view go_std) s') alice = Some (plain_account\<lparr>ea_Balance := Some b'\<rparr>)"
proof -
  have n: "\<not> EthAccount_IsEmpty (plain_account\<lparr>ea_Balance := b\<rparr>)" for b
    by (simp add: EthAccount_IsEmpty_def plain_account_def)
  show ?thesis
    using buyGas_undercharges [of go_std node "es_StateDB (executor_start go_std no_logs node_executor transfer_tx first_block)"
        "NewStateTransition costly_msg miner" plain_account "fst (Int_FromBig 100)" dbIter_ops] node_start(1) node_accounts(1) hundred n
    by (auto simp: NewStateTransition_def costly_msg_def MessageFromTx_def transfer_tx_def executor_start_sel refines_def
        big_Uint64_def put_world_def simp del: world_sel)
qed

text \<open>C35: The intrinsic gas of a transaction is 21000, or 53000 for a contract creation under the Homestead rules, plus 4
  for every zero byte of its data and 16 (68 before EIP 2028) for every other byte; for data below 2^56 bytes the
  computation never overflows.\<close>

theorem intrinsic_gas_formula:
  assumes "length data < 2 ^ 56"
  shows "\<exists>g. IntrinsicGas data create homestead eip2028 = Some g \<and>
    unat g = (if create \<and> homestead then 53000 else 21000) +
      (if eip2028 then 16 else 68) * length (filter (\<lambda>b. b \<noteq> 0) data) + 4 * length (filter (\<lambda>b. b = 0) data)"
  using assms by (rule IntrinsicGas_spec)

theorem intrinsic_gas_formula_witness:
  "\<exists>g. IntrinsicGas [0, 7, 0] True True True = Some g \<and> unat g = 53000 + 16 + 8"
  using intrinsic_gas_formula [of "[0, 7, 0]" True True True] by simp

section \<open>The executor and the node\<close>

text \<open>C32: A new executor shows the state of the node: the accounts it answers for, as the code fetches them, and its
  storage slots.\<close>

theorem new_executor_shows_node:
  assumes "libs_ok L" "length addr = 20" "length key = 32"
    and "fetch_account L client addr = Some a" "account_wf a" "rpc_GetStorage client addr key = Some v"
  shows "executor_inv L client (NewExecutor L client) \<and> executor_account L (NewExecutor L client) addr = Some a \<and>
    executor_slot L (NewExecutor L client) addr key = Inr (BytesToHash v)"
  using NewExecutor_inv [OF assms(1)] NewExecutor_account [OF assms(1,4,5,2)] NewExecutor_slot [OF assms(1,6,2,3)] by simp

theorem new_executor_shows_node_witness:
  "executor_inv go_std node (NewExecutor go_std node) \<and> executor_account go_std (NewExecutor go_std node) alice = Some plain_account \<and>
    executor_slot go_std (NewExecutor go_std node) alice zero_hash = Inr zero_hash"
  using new_executor_shows_node [of go_std alice zero_hash node plain_account zero_hash] go_std_ok node_fetch [of alice]
  by (simp add: node_def)

text \<open>C37: The remote store has no iterators, so committing a transaction in which a contract has destroyed itself panics.\<close>

theorem remote_commit_suicide_panics:
  assumes "libs_ok L" "sdb_inv (remote_inv L client) s" "sd_Suicided s \<noteq> []"
  shows "StateDB_Commit L (RemoteDB_store L ops) s = None"
  using assms by (rule Commit_suicided_remote)

theorem remote_commit_suicide_panics_witness:
  "StateDB_Commit go_std (RemoteDB_store go_std dbIter_ops)
     ((es_StateDB (executor_start go_std no_logs node_executor transfer_tx first_block))\<lparr>sd_Suicided := [alice]\<rparr>) = None"
  by (rule remote_commit_suicide_panics [OF go_std_ok, of node]) (use node_start(1) in \<open>auto simp: sdb_inv_def\<close>)

end
