(* ===== verification/Evm_Props.thy ===== *)
theory Evm_Props
  imports Executor_Props
begin

text \<open>
  The properties of the virtual machine: termination and gas of calls, atomicity of failing calls, read-only calls, the
  operand stack and the gas of a frame.
\<close>

section \<open>Calls\<close>

text \<open>C7: A call or creation given less gas than the step budget ends, however deeply it nests, and gives back no more gas
  than it was given.\<close>

theorem calls_end_within_gas:
  assumes "NewEVMInterpreter rules cfg = Some jt" "unat gas < fuel"
  shows "call_gas_ok gas (EVM_Call (EVMInterpreter_Run E jt fuel) E clr addr input gas val s) \<and>
    call_gas_ok gas (EVM_CallCode (EVMInterpreter_Run E jt fuel) E clr addr input gas val s) \<and>
    call_gas_ok gas (EVM_DelegateCall (EVMInterpreter_Run E jt fuel) E clr addr input gas s) \<and>
    call_gas_ok gas (EVM_StaticCall (EVMInterpreter_Run E jt fuel) E clr addr input gas s) \<and>
    create_gas_ok gas (EVM_Create (EVMInterpreter_Run E jt fuel) E clr code gas val s) \<and>
    create_gas_ok gas (EVM_Create2 (EVMInterpreter_Run E jt fuel) E clr code gas val salt s)"
proof -
  have r: "gas_runner (EVMInterpreter_Run E jt fuel) fuel" by (rule table_gas_runner [OF entries.NewEVMInterpreter_all [OF assms(1)]])
  show ?thesis
    by (intro conjI gas_runner.Call_gas [OF r assms(2)] gas_runner.other_calls_gas [OF r assms(2)] gas_runner.Create_gas [OF r assms(2)])
qed

definition node_evm :: "(RemoteDB, dbIter) EVM" where
  "node_evm = executor_evm go_std no_crypto dbIter_ops node_executor first_block (NewEVMTxContext late_msg)"

definition node_state :: "RemoteDB EVM_state" where
  "node_state = executor_start go_std no_logs node_executor transfer_tx first_block"

definition node_table :: "(RemoteDB, dbIter) JumpTable" where
  "node_table = the (NewEVMInterpreter (evm_chainRules node_evm) (evm_vmConfig node_evm))"

lemma node_table: "NewEVMInterpreter (evm_chainRules node_evm) (evm_vmConfig node_evm) = Some node_table"
proof -
  have "cfg_ExtraEips (evm_vmConfig node_evm) = []" by (simp add: node_evm_def executor_evm_def)
  then obtain jt :: "(RemoteDB, dbIter) JumpTable" where "NewEVMInterpreter (evm_chainRules node_evm) (evm_vmConfig node_evm) = Some jt"
    by (meson NewEVMInterpreter_defined)
  then show ?thesis by (simp add: node_table_def)
qed

lemma node_store: "store_evm node_evm (remote_inv go_std node) (remote_view go_std) (remote_good go_std node)"
  unfolding node_evm_def by (rule executor_evm_store)

lemma node_state_inv: "sdb_inv (remote_inv go_std node) (es_StateDB node_state)"
  using node_start(1) by (simp add: node_state_def)

lemma node_state_funded: "length a = 20 \<Longrightarrow> a \<noteq> contract_addr \<Longrightarrow>
    funded (remote_good go_std node) (world_of (remote_view go_std) (es_StateDB node_state)) a plain_account (fst (Int_FromBig 100))"
  using node_funded [of a] by (simp add: node_state_def executor_start_sel)

theorem calls_end_within_gas_witness:
  "call_gas_ok 5000 (EVM_Call (EVMInterpreter_Run node_evm node_table 5001) node_evm (AccountRef alice) contract_addr [] 5000 1 node_state)"
  using calls_end_within_gas [OF node_table, of 5000 5001] by simp

text \<open>C4: A call that fails, for whatever reason and however deep, restores the state database: accounts, storage, logs,
  self-destructed accounts, refund and snapshots are as they were before the call, and the invariant holds.\<close>

theorem failed_call_restores_state:
  assumes "NewEVMInterpreter rules cfg = Some jt" "store_evm E (remote_inv L client) (remote_view L) (remote_good L client)"
    and "sdb_inv (remote_inv L client) (es_StateDB s)"
    and "r \<in> {EVM_Call (EVMInterpreter_Run E jt fuel) E clr addr input gas val s,
              EVM_CallCode (EVMInterpreter_Run E jt fuel) E clr addr input gas val s,
              EVM_DelegateCall (EVMInterpreter_Run E jt fuel) E clr addr input gas s,
              EVM_StaticCall (EVMInterpreter_Run E jt fuel) E clr addr input gas s}"
    and "r = Done ((ret, g, Some err), s')"
  shows "sdb_inv (remote_inv L client) (es_StateDB s') \<and> sdb_same (remote_view L) (es_StateDB s) (es_StateDB s')"
proof -
  have k: "state_runner E (sdb_step (remote_inv L client) (remote_view L)) (same_step (remote_inv L client) (remote_view L)) True
      (EVMInterpreter_Run E jt fuel)" by (rule store_evm.runs_write [OF assms(2,1)])
  obtain ro where "call_kept True (sdb_step (remote_inv L client) (remote_view L)) (same_step (remote_inv L client) (remote_view L)) E ro s r"
    using assms(4) state_runner.Call_kept [OF k, of s clr addr input gas val] state_runner.other_calls_kept [OF k, of s clr addr input gas]
    by auto
  then have "same_step (remote_inv L client) (remote_view L) (es_StateDB s) (es_StateDB s')"
    using assms(5) by (simp add: call_kept_def may_run_def)
  then show ?thesis using assms(3) by (simp add: same_step_def)
qed

text \<open>A call that sends more than the caller has.\<close>

lemma node_overdraft:
  "\<exists>s'. EVM_Call run node_evm (AccountRef alice) bob [] 5000 200 node_state = Done ((Fresh [], 5000, Some ErrInsufficientBalance), s')"
proof -
  obtain s1 where "StateDB_GetBalance (evm_store node_evm) (es_StateDB node_state) alice = Some (100, s1)"
    using store_evm.add_funded(3) [OF node_store node_state_inv node_state_funded [of alice]] hundred by (auto simp: refines_def)
  then show ?thesis
    by (simp add: EVM_Call_def store_evm.transfer_functions [OF node_store] CanTransfer_def)
      (simp add: node_evm_def executor_evm_def node_state_def executor_start_def)
qed

theorem failed_call_restores_state_witness:
  "\<exists>s'. EVM_Call (EVMInterpreter_Run node_evm node_table 6000) node_evm (AccountRef alice) bob [] 5000 200 node_state =
      Done ((Fresh [], 5000, Some ErrInsufficientBalance), s') \<and>
    sdb_inv (remote_inv go_std node) (es_StateDB s') \<and> sdb_same (remote_view go_std) (es_StateDB node_state) (es_StateDB s')"
  using node_overdraft [of "EVMInterpreter_Run node_evm node_table 6000"]
    failed_call_restores_state [OF node_table node_store node_state_inv, of _ 6000 "AccountRef alice" bob "[]" 5000 200]
  by blast

text \<open>C6: From Byzantium on, a static call writes nothing, whatever code runs in it: every storage slot, the logs, the
  self-destructed accounts and the refund are as they were, whether it succeeds or fails.\<close>

theorem static_call_is_readonly:
  assumes "NewEVMInterpreter rules cfg = Some jt" "store_evm E (remote_inv L client) (remote_view L) (remote_good L client)"
    and "sdb_inv (remote_inv L client) (es_StateDB s)" "r_IsByzantium (evm_chainRules E)"
    and "EVM_StaticCall (EVMInterpreter_Run E jt fuel) E clr addr input gas s = Done ((ret, g, err), s')"
  shows "sdb_inv (remote_inv L client) (es_StateDB s') \<and>
    slot_of (remote_view L) (sd_cacheDB (es_StateDB s')) = slot_of (remote_view L) (sd_cacheDB (es_StateDB s)) \<and>
    sd_logs (es_StateDB s') = sd_logs (es_StateDB s) \<and> sd_Suicided (es_StateDB s') = sd_Suicided (es_StateDB s) \<and>
    sd_refund (es_StateDB s') = sd_refund (es_StateDB s)"
proof -
  have k: "state_runner E (quiet_step (remote_inv L client) (remote_view L)) (same_step (remote_inv L client) (remote_view L)) False
      (EVMInterpreter_Run E jt fuel)" by (rule store_evm.runs_read [OF assms(2,1)])
  have "quiet_step (remote_inv L client) (remote_view L) (es_StateDB s) (es_StateDB s')"
    using state_runner.other_calls_kept(3) [OF k, of s clr addr input gas] assms(4,5) by (simp add: call_kept_def may_run_def)
  then show ?thesis using assms(3) by (simp add: quiet_step_def)
qed

text \<open>Calling the identity contract.\<close>

definition identity_addr :: bytes where
  "identity_addr = replicate 19 0 @ [4]"

lemma identity_addr [simp]: "length identity_addr = 20" "identity_addr \<noteq> contract_addr"
  by (simp_all add: identity_addr_def contract_addr_def)

lemma identity_precompile: "EVM_precompile (evm_chainRules node_evm) identity_addr = Some P_dataCopy" "r_IsByzantium (evm_chainRules node_evm)"
proof -
  have r: "evm_chainRules node_evm = ChainConfig_Rules (GetChainConfig (ex_chainID node_executor)) (sint (ec_Height first_block))"
    by (simp add: node_evm_def executor_evm_def)
  show "EVM_precompile (evm_chainRules node_evm) identity_addr = Some P_dataCopy" unfolding r by code_simp
  show "r_IsByzantium (evm_chainRules node_evm)" unfolding r by code_simp
qed

lemma identity_run: "RunPrecompiledContract L C P_dataCopy [1, 2, 3] 5000 = Some (SameAsInput, 4982, None)"
  by code_simp

lemma node_static:
  "\<exists>s'. EVM_StaticCall run node_evm (AccountRef alice) identity_addr [1, 2, 3] 5000 node_state = Done ((SameAsInput, 4982, None), s')"
proof -
  obtain n db1 where db1: "StateDB_Snapshot (es_StateDB node_state) = (n, db1)" by fastforce
  have i1: "sdb_inv (remote_inv go_std node) db1"
    "world_of (remote_view go_std) db1 = world_of (remote_view go_std) (es_StateDB node_state)"
    using Snapshot_inv [OF node_state_inv] Snapshot_world [of "remote_view go_std" "es_StateDB node_state"] by (simp_all add: db1)
  obtain db2 where "StateDB_AddBalance (evm_store node_evm) db1 identity_addr 0 = Some db2"
    using store_evm.add_funded(1) [OF node_store i1(1), of identity_addr plain_account "fst (Int_FromBig 100)" 0]
      node_state_funded [of identity_addr] unfolding i1(2) by (auto simp: refines_to_def)
  moreover have "es_depth node_state = 0" "\<not> cfg_NoRecursion (evm_vmConfig node_evm)"
    by (simp_all add: node_state_def executor_start_sel node_evm_def executor_evm_def)
  ultimately show ?thesis
    using db1 by (simp add: EVM_StaticCall_def run_code_at_def identity_precompile run_precompile_def identity_run settle_call_def split_beta)
qed

theorem static_call_is_readonly_witness:
  "\<exists>s'. EVM_StaticCall (EVMInterpreter_Run node_evm node_table 6000) node_evm (AccountRef alice) identity_addr [1, 2, 3] 5000 node_state =
      Done ((SameAsInput, 4982, None), s') \<and>
    slot_of (remote_view go_std) (sd_cacheDB (es_StateDB s')) = slot_of (remote_view go_std) (sd_cacheDB (es_StateDB node_state))"
  using node_static [of "EVMInterpreter_Run node_evm node_table 6000"]
    static_call_is_readonly [OF node_table node_store node_state_inv identity_precompile(2), of 6000 "AccountRef alice" identity_addr "[1, 2, 3]" 5000]
  by blast

section \<open>The operand stack and the gas of a frame\<close>

text \<open>C14: In every state the interpreter loop reaches from the start of a frame the operand stack holds at most 1024 items,
  for the instruction table of every fork and every set of extra proposals.\<close>

theorem operand_stack_bounded:
  assumes "NewEVMInterpreter rules cfg = Some jt" "loop_reach run E jt cx0 s0 n pc cx s" "cx_stack cx0 = []"
  shows "length (cx_stack cx) \<le> 1024"
  using reach_stack [OF assms(2) entries.NewEVMInterpreter_all [OF assms(1)]] assms(3) by simp

text \<open>C15: Every instruction that continues costs at least one unit of gas: after \<open>n\<close> rounds of the loop the gas has gone down
  by at least \<open>n\<close>, calls and creations included.\<close>

theorem every_step_costs_gas:
  assumes "NewEVMInterpreter rules cfg = Some jt" "loop_reach (EVMInterpreter_Run E jt (unat (ct_Gas (cx_contract cx0)))) E jt cx0 s0 n pc cx s"
  shows "unat (ct_Gas (cx_contract cx)) + n \<le> unat (ct_Gas (cx_contract cx0))"
proof -
  have t: "table_ok jt" by (rule entries.NewEVMInterpreter_all [OF assms(1)])
  from reach_gas [OF assms(2) t] table_gas_runner [OF t, of E "gas_of cx0"] show ?thesis by (simp add: gas_of_def)
qed

text \<open>A frame that runs \<^verbatim>\<open>PUSH1 7\<close> with ten units of gas.\<close>

definition push_ctx :: callCtx where
  "push_ctx = \<lparr>cx_memory = NewMemory, cx_stack = [], cx_rstack = [], cx_contract =
     \<lparr>ct_CallerAddress = alice, ct_caller = AccountRef alice, ct_self = AccountRef bob, ct_analysis = None, ct_Code = [0x60, 7],
      ct_CodeHash = zero_hash, ct_CodeAddr = None, ct_Input = [], ct_Gas = 10, ct_value = None\<rparr>\<rparr>"

definition frontier_rules :: Rules where
  "frontier_rules = \<lparr>r_ChainID = 1, r_IsHomestead = False, r_IsEIP150 = False, r_IsEIP155 = False, r_IsEIP158 = False, r_IsByzantium = False,
     r_IsConstantinople = False, r_IsPetersburg = False, r_IsIstanbul = False, r_IsYoloV2 = False\<rparr>"

definition no_config :: Config where
  "no_config = \<lparr>cfg_NoRecursion = False, cfg_EnablePreimageRecording = False, cfg_ExtraEips = []\<rparr>"

lemma plain_table: "NewEVMInterpreter frontier_rules no_config = Some newFrontierInstructionSet"
  by (simp add: NewEVMInterpreter_def default_table_def frontier_rules_def no_config_def)

lemma push_entry: "newFrontierInstructionSet PUSH1 = Some (mk_op (lift_op opPush1) GasFastestStep (minStack 0 1) (maxStack 0 1))"
  by (simp add: newFrontierInstructionSet_def frontier_entries_def map_add_def frontier_arithmetic_def frontier_environment_def
      frontier_memory_flow_def frontier_push_low_def)

definition pushed_ctx :: callCtx where
  "pushed_ctx = push_ctx\<lparr>cx_stack := [Int_SetUint64 7], cx_contract := (cx_contract push_ctx)\<lparr>ct_Gas := 7\<rparr>\<rparr>"

lemma push_step: "interp_step run E newFrontierInstructionSet 1 0 push_ctx s = Done (Next 2 pushed_ctx s)"
  by (simp add: interp_step_def push_entry Contract_GetOp_def Contract_GetByte_def push_ctx_def exec_op_def mk_op_def minStack_def maxStack_def
      write_violation_def Contract_UseGas_def op_memory_def charge_dynamic_def lift_op_def opPush1_def after_op_def pushed_ctx_def Stack_push_def Stack_len_def)

lemma push_reach: "loop_reach run E newFrontierInstructionSet push_ctx s (0 + 1) 2 pushed_ctx s"
  using reach_step [OF reach_start] push_step by fastforce

theorem operand_stack_bounded_witness:
  "length (cx_stack pushed_ctx) \<le> 1024 \<and> cx_stack pushed_ctx = [Int_SetUint64 7]"
proof -
  have "cx_stack push_ctx = []" by (simp add: push_ctx_def)
  from operand_stack_bounded [OF plain_table push_reach [of "\<lambda>c i r s. Panicked" node_evm node_state] this]
  show ?thesis by (simp add: pushed_ctx_def)
qed

theorem every_step_costs_gas_witness:
  "unat (ct_Gas (cx_contract pushed_ctx)) + (0 + 1) \<le> unat (ct_Gas (cx_contract push_ctx))"
  by (rule every_step_costs_gas [OF plain_table push_reach [of _ node_evm node_state]])

end
