(* ===== verification/Uint256_Knuth.thy ===== *)
theory Uint256_Knuth
  imports Uint256_Arith
begin

text \<open>
  The division of \<^verbatim>\<open>div.go\<close> and the limb routines of \<^verbatim>\<open>uint256.go\<close> under it: the two-by-one division with
  a precomputed reciprocal (Moeller and Granlund), \<^verbatim>\<open>addTo\<close>, \<^verbatim>\<open>subMulTo\<close>, \<^verbatim>\<open>udivremBy1\<close> and
  \<^verbatim>\<open>udivremKnuth\<close> (Knuth's algorithm D), on normalised divisors.
\<close>

section \<open>Two limbs by one\<close>

text \<open>The candidate remainder of the quotient estimate: the error is bounded on both sides.\<close>

lemma estimate_bounds:
  fixes \<beta> d v u1 u0 q1 q0 :: int
  assumes k: "1 \<le> \<beta> * \<beta> - (\<beta> + v) * d" "\<beta> * \<beta> - (\<beta> + v) * d \<le> d"
    and d: "0 < d" "d < \<beta>" and u: "0 \<le> u1" "u1 < d" "0 \<le> u0" "u0 < \<beta>"
    and q: "(v + \<beta>) * u1 + u0 = q1 * \<beta> + q0" "0 \<le> q0" "q0 < \<beta>"
  defines "r \<equiv> u1 * \<beta> + u0 - (q1 + 1) * d"
  shows "- d \<le> r" "q0 - \<beta> < r" "r < max (\<beta> - d) q0"
proof -
  define k where "k = \<beta> * \<beta> - (\<beta> + v) * d"
  have k': "1 \<le> k" "k \<le> d" using k by (simp_all add: k_def)
  have "\<beta> * r = u1 * k + u0 * (\<beta> - d) + q0 * d - \<beta> * d"
  proof -
    have "\<beta> * r = u1 * \<beta> * \<beta> + u0 * \<beta> - (q1 * \<beta>) * d - \<beta> * d" by (simp add: r_def algebra_simps)
    also have "q1 * \<beta> = (v + \<beta>) * u1 + u0 - q0" using q(1) by simp
    finally show ?thesis by (simp add: k_def algebra_simps)
  qed
  moreover have "0 \<le> u1 * k" "0 \<le> u0 * (\<beta> - d)" "0 \<le> q0 * d" using u d k' q(2) by simp_all
  ultimately have low: "q0 * d - \<beta> * d \<le> \<beta> * r" "\<beta> * r = u1 * k + u0 * (\<beta> - d) + q0 * d - \<beta> * d" "\<beta> * (- d) \<le> \<beta> * r" by simp_all
  show "- d \<le> r" using low(3) d mult_le_cancel_left_pos [of \<beta> "- d" r] by linarith
  have "(\<beta> - q0) * d < (\<beta> - q0) * \<beta>" using q(3) d by (intro mult_strict_left_mono) auto
  then have "\<beta> * (q0 - \<beta>) < \<beta> * r" using low(1) by (simp add: algebra_simps)
  then show "q0 - \<beta> < r" using d by simp
  have "u1 * k \<le> (d - 1) * d" using u k' by (intro mult_mono) auto
  moreover have "u0 * (\<beta> - d) \<le> (\<beta> - 1) * (\<beta> - d)" using u d by (intro mult_right_mono) auto
  ultimately have "\<beta> * r < (\<beta> - d) * (\<beta> - d) + q0 * d" using low(2) d by (simp add: algebra_simps)
  also have "\<dots> \<le> max (\<beta> - d) q0 * (\<beta> - d) + max (\<beta> - d) q0 * d" using d by (intro add_mono mult_right_mono) auto
  also have "\<dots> = \<beta> * max (\<beta> - d) q0" by (simp add: algebra_simps)
  finally show "r < max (\<beta> - d) q0" using d by simp
qed

lemma unat_of_int_word: "0 \<le> x \<Longrightarrow> x < 2 ^ 64 \<Longrightarrow> int (unat (of_int x :: u64)) = x"
  by (simp add: take_bit_int_eq_self uint_word_of_int_eq flip: uint_nat)

lemma uint_of_int_small: "0 \<le> x \<Longrightarrow> x < 2 ^ 64 \<Longrightarrow> uint (of_int x :: u64) = x"
  by (simp add: take_bit_int_eq_self uint_word_of_int_eq)

lemma reciprocal_spec:
  assumes "2 ^ 63 \<le> unat d"
  shows "\<exists>v. reciprocal2by1 d = Some v \<and> int (unat v) = (2 ^ 128 - 1) div int (unat d) - 2 ^ 64"
proof -
  have n: "unat (NOT d) = 2 ^ 64 - 1 - unat d" "unat (NOT (0 :: u64)) = 2 ^ 64 - 1" by (simp_all add: unat_not64 unat_max_u64)
  have d: "unat d < 2 ^ 64" "0 < unat d" using unat_u64_less [of d] assms by simp_all
  define x where "x = unat (NOT d) * 2 ^ 64 + unat (NOT (0 :: u64))"
  have "x = (2 ^ 64 - 1 - unat d) * 2 ^ 64 + (2 ^ 64 - 1)" by (simp only: x_def n)
  then have x: "int x = 2 ^ 128 - 1 - 2 ^ 64 * int (unat d)" using d by (simp add: of_nat_diff)
  have "int (x div unat d) = (2 ^ 128 - 1 + (- (2 ^ 64)) * int (unat d)) div int (unat d)" by (simp add: zdiv_int x)
  also have "\<dots> = (2 ^ 128 - 1) div int (unat d) - 2 ^ 64" using d(2) by (subst div_mult_self1) (auto simp del: of_nat_unat)
  finally have q: "int (x div unat d) = (2 ^ 128 - 1) div int (unat d) - 2 ^ 64" .
  define e where "e = 2 ^ 64 - 1 - unat d"
  have "x = e * 2 ^ 64 + (2 ^ 64 - 1)" "unat d + e = 2 ^ 64 - 1" using d by (simp_all only: x_def n e_def)
  then have "x < 2 ^ 64 * unat d" using assms by simp
  then have "x div unat d < 2 ^ 64" using d by (simp add: less_mult_imp_div_less)
  then have "unat (of_nat (x div unat d) :: u64) = x div unat d" by (simp add: unat_of_nat)
  then have "int (unat (of_nat (x div unat d) :: u64)) = (2 ^ 128 - 1) div int (unat d) - 2 ^ 64" by (simp only: q)
  moreover have "\<not> (d = 0 \<or> d \<le> NOT d)" using assms d n by (auto simp: word_le_nat_alt)
  then have "reciprocal2by1 d = Some (of_nat (x div unat d))" by (simp add: reciprocal2by1_def bits_Div64_def x_def)
  ultimately show ?thesis by blast
qed

definition settle :: "u64 \<Rightarrow> u64 \<Rightarrow> u64 \<Rightarrow> u64 \<Rightarrow> u64 \<times> u64" where
  "settle d q0 qh r = (let (qh, r) = (if r > q0 then (qh - 1, r + d) else (qh, r)) in if r \<ge> d then (qh + 1, r - d) else (qh, r))"

lemma udivrem2by1_cases:
  assumes "udivrem2by1 uh ul d v = (q, r)"
  obtains q1 :: int and q0 :: u64 where "(int (unat v) + 2 ^ 64) * int (unat uh) + int (unat ul) = q1 * 2 ^ 64 + int (unat q0)"
    and "(q, r) = settle d q0 (of_int (q1 + 1)) (of_int (int (unat uh) * 2 ^ 64 + int (unat ul) - (q1 + 1) * int (unat d)))"
proof -
  obtain qh0 ql0 where m: "bits_Mul64 v uh = (qh0, ql0)" by force
  obtain ql c where a: "bits_Add64 ql0 ul 0 = (ql, c)" by force
  obtain qh1 c' where b: "bits_Add64 qh0 uh c = (qh1, c')" by force
  have z: "unat (0 :: u64) \<le> 1" by simp
  note ms = bits_Mul64_spec [OF m] and as = bits_Add64_spec [OF a z]
  note bs = bits_Add64_spec [OF b as(2)]
  define q1 where "q1 = int (unat qh1 + 2 ^ 64 * unat c')"
  have "(unat v + 2 ^ 64) * unat uh + unat ul = (unat qh1 + 2 ^ 64 * unat c') * 2 ^ 64 + unat ql"
    using ms as(1) bs(1) by (simp add: algebra_simps)
  then have "int ((unat v + 2 ^ 64) * unat uh + unat ul) = int ((unat qh1 + 2 ^ 64 * unat c') * 2 ^ 64 + unat ql)" by (simp only:)
  then have 1: "(int (unat v) + 2 ^ 64) * int (unat uh) + int (unat ul) = q1 * 2 ^ 64 + int (unat ql)" by (simp add: q1_def)
  have p: "(18446744073709551616 :: u64) = 0" by simp
  have w: "of_int (q1 + 1) = qh1 + 1" by (simp add: q1_def p)
  have "of_int (int (unat uh) * 2 ^ 64 + int (unat ul) - (q1 + 1) * int (unat d)) = ul - (of_int (q1 + 1) :: u64) * d"
    by (simp add: p)
  then have rw: "of_int (int (unat uh) * 2 ^ 64 + int (unat ul) - (q1 + 1) * int (unat d)) = ul - (qh1 + 1) * d" unfolding w .
  have "(q, r) = settle d ql (qh1 + 1) (ul - (qh1 + 1) * d)"
    using assms by (simp add: udivrem2by1_def m a b Let_def settle_def)
  then have "(q, r) = settle d ql (of_int (q1 + 1)) (of_int (int (unat uh) * 2 ^ 64 + int (unat ul) - (q1 + 1) * int (unat d)))"
    unfolding w rw .
  from that [OF 1 this] show ?thesis .
qed

lemma settle_spec:
  fixes qt rt D u :: int
  assumes D: "D = uint d" "2 ^ 63 \<le> D" and u: "qt * D + rt = u" "0 \<le> u" "u < D * 2 ^ 64"
    and b: "- D \<le> rt" "uint q0 - 2 ^ 64 < rt" "rt < max (2 ^ 64 - D) (uint q0)"
    and s: "settle d q0 (of_int qt) (of_int rt) = (q, r)"
  shows "uint q = u div D \<and> uint r = u mod D"
proof -
  have db: "D < 2 ^ 64" "uint q0 < 2 ^ 64" "0 \<le> uint q0" "of_int D = d"
    using uint_lt2p [of d] uint_lt2p [of q0] by (simp_all add: D)
  have qr: ?thesis
    if "q = of_int q'" "r = of_int r'" "q' * D + r' = u" "0 \<le> r'" "r' < D" for q' r'
  proof -
    have e: "u div D = q'" "u mod D = r'" using that by (auto simp: div_pos_pos_trivial)
    have "0 \<le> u div D" using u D(2) by (simp add: pos_imp_zdiv_nonneg_iff)
    moreover have "D * (u div D) < D * 2 ^ 64" using u(3) mult_div_mod_eq [of D u] e(2) that(4) by linarith
    then have "u div D < 2 ^ 64" using D(2) by simp
    ultimately show ?thesis using that(1,2,4,5) db e by (simp add: uint_of_int_small)
  qed
  have h: "of_int (qt - 1) = (of_int qt - 1 :: u64)" "of_int (qt + 1) = (of_int qt + 1 :: u64)"
    "of_int (rt + D) = (of_int rt + d :: u64)" "of_int (rt - D) = (of_int rt - d :: u64)" using db(4) by simp_all
  consider "rt < 0" | "0 \<le> rt" "uint q0 < rt" | "0 \<le> rt" "rt \<le> uint q0" "D \<le> rt" | "0 \<le> rt" "rt \<le> uint q0" "rt < D" by linarith
  then show ?thesis
  proof cases
    case 1
    have "(of_int rt :: u64) = of_int (rt + 2 ^ 64)" by simp
    then have "uint (of_int rt :: u64) = rt + 2 ^ 64" using 1 b(1) db by (simp only: uint_of_int_small)
    then have c: "q0 < of_int rt" using b(2) by (simp add: word_less_def)
    have "uint (of_int (rt + D) :: u64) = rt + D" using 1 b(1) db by (intro uint_of_int_small) auto
    then have "\<not> d \<le> of_int rt + d" using 1 by (simp add: word_le_def h(3) [symmetric] D(1) [symmetric] del: of_int_add)
    with c s have "q = of_int (qt - 1)" "r = of_int (rt + D)" unfolding h settle_def by simp_all
    then show ?thesis by (rule qr) (use 1 b(1) u in \<open>auto simp: algebra_simps\<close>)
  next
    case 2
    then have lt: "rt < 2 ^ 64 - D" using b(3) by linarith
    then have "uint (of_int rt :: u64) = rt" "uint (of_int (rt + D) :: u64) = rt + D"
      using 2(1) D(2) by - (rule uint_of_int_small; simp)+
    then have "q0 < of_int rt" "d \<le> of_int rt + d" using 2
      by (simp_all add: word_less_def word_le_def h(3) [symmetric] D(1) [symmetric] del: of_int_add)
    with s have "q = of_int qt" "r = of_int rt" by (simp_all add: settle_def)
    then show ?thesis by (rule qr) (use 2 lt u D in auto)
  next
    case 3
    then have "uint (of_int rt :: u64) = rt" using db by (intro uint_of_int_small) auto
    then have "\<not> q0 < of_int rt" "d \<le> of_int rt" using 3 by (simp_all add: word_less_def word_le_def D(1) [symmetric])
    with s have "q = of_int (qt + 1)" "r = of_int (rt - D)" unfolding h settle_def by simp_all
    then show ?thesis by (rule qr) (use 3 db D(2) u in \<open>auto simp: algebra_simps\<close>)
  next
    case 4
    then have "uint (of_int rt :: u64) = rt" using db by (intro uint_of_int_small) auto
    then have "\<not> q0 < of_int rt" "\<not> d \<le> of_int rt" using 4 by (simp_all add: word_less_def word_le_def D(1) [symmetric])
    with s have "q = of_int qt" "r = of_int rt" by (simp_all add: settle_def)
    then show ?thesis by (rule qr) (use 4 u in auto)
  qed
qed

lemma udivrem2by1_spec:
  assumes d: "2 ^ 63 \<le> unat d" and uh: "uh < d" and v: "reciprocal2by1 d = Some v" and r: "udivrem2by1 uh ul d v = (q, r)"
  shows "unat q = (unat uh * 2 ^ 64 + unat ul) div unat d" "unat r = (unat uh * 2 ^ 64 + unat ul) mod unat d"
proof -
  let ?u = "uint uh * 2 ^ 64 + uint ul"
  obtain q1 :: int and q0 :: u64 where q1: "(uint v + 2 ^ 64) * uint uh + uint ul = q1 * 2 ^ 64 + uint q0"
    and qr: "(q, r) = settle d q0 (of_int (q1 + 1)) (of_int (?u - (q1 + 1) * uint d))"
    using udivrem2by1_cases [OF r] unfolding of_nat_unat by blast
  have D: "2 ^ 63 \<le> uint d" "uint d < 2 ^ 64" "uint uh < uint d" "0 \<le> uint uh" "uint ul < 2 ^ 64" "0 \<le> uint ul" "uint q0 < 2 ^ 64" "0 \<le> uint q0"
    using d uh uint_lt2p [of d] uint_lt2p [of ul] uint_lt2p [of q0] unfolding uint_nat by (auto simp: word_less_nat_alt simp del: of_nat_unat)
  have V: "uint v + 2 ^ 64 = (2 ^ 128 - 1) div uint d" using reciprocal_spec [OF d] v by auto
  define Q R where "Q = (2 ^ 128 - 1) div uint d" "R = (2 ^ 128 - 1) mod uint d"
  have "uint d * Q + R = 2 ^ 128 - 1" "0 \<le> R" "R < uint d" using D(1) by (simp_all add: Q_R_def)
  moreover have e: "(2 ^ 64 + uint v) * uint d = uint d * Q" using V by (simp add: Q_R_def algebra_simps)
  ultimately have k: "1 \<le> 2 ^ 64 * 2 ^ 64 - (2 ^ 64 + uint v) * uint d" "2 ^ 64 * 2 ^ 64 - (2 ^ 64 + uint v) * uint d \<le> uint d" unfolding e by simp_all
  have "0 < uint d" using D(1) by simp
  note bounds = estimate_bounds [OF k this D(2,4,3,6,5) q1 D(8,7)]
  have "uint uh * 2 ^ 64 \<le> (uint d - 1) * 2 ^ 64" using D(3) by (intro mult_right_mono) auto
  then have lt: "?u < uint d * 2 ^ 64" using D(5) by (simp add: algebra_simps)
  have ge: "0 \<le> ?u" using D by simp
  have "(q1 + 1) * uint d + (?u - (q1 + 1) * uint d) = ?u" by simp
  from settle_spec [OF refl D(1) this ge lt bounds qr [symmetric]]
  have "uint q = ?u div uint d" "uint r = ?u mod uint d" by blast+
  then have "int (unat q) = int ((unat uh * 2 ^ 64 + unat ul) div unat d)" "int (unat r) = int ((unat uh * 2 ^ 64 + unat ul) mod unat d)"
    by (simp_all add: zdiv_int zmod_int)
  then show "unat q = (unat uh * 2 ^ 64 + unat ul) div unat d" "unat r = (unat uh * 2 ^ 64 + unat ul) mod unat d"
    by (simp_all only: of_nat_eq_iff)
qed

section \<open>Lists of limbs\<close>

lemma wval_append: "wval (xs @ ys) = wval xs + (2 ^ 64) ^ length xs * wval ys"
  by (induction xs) (simp_all add: algebra_simps)

lemma wval_less: "wval xs < (2 ^ 64) ^ length xs"
proof (induction xs)
  case (Cons x xs)
  then have "wval xs + 1 \<le> (2 ^ 64) ^ length xs" by simp
  then have "2 ^ 64 * (wval xs + 1) \<le> 2 ^ 64 * (2 ^ 64) ^ length xs" by (rule mult_le_mono2)
  then show ?case using unat_u64_less [of x] by simp
qed simp

lemma wval_split: "n \<le> length xs \<Longrightarrow> wval xs = wval (take n xs) + (2 ^ 64) ^ n * wval (drop n xs)"
  using wval_append [of "take n xs" "drop n xs"] by simp

lemma wval_take_Suc: "n < length xs \<Longrightarrow> wval (take (Suc n) xs) = wval (take n xs) + (2 ^ 64) ^ n * unat (xs ! n)"
  using wval_append [of "take n xs" "[xs ! n]"] by (simp add: take_Suc_conv_app_nth)

lemma wval_take_less: "n \<le> length xs \<Longrightarrow> wval (take n xs) < (2 ^ 64) ^ n"
  using wval_less [of "take n xs"] by (simp add: min_absorb2)

lemma addTo_loop_spec:
  assumes "length ys \<le> length xs" "unat c \<le> 1"
  shows "\<exists>r c'. addTo_loop xs ys c = Some (r, c') \<and> length r = length xs \<and> drop (length ys) r = drop (length ys) xs \<and> unat c' \<le> 1 \<and>
    wval (take (length ys) r) + (2 ^ 64) ^ length ys * unat c' = wval (take (length ys) xs) + wval ys + unat c"
  using assms
proof (induction xs ys c rule: addTo_loop.induct)
  case (3 x xs y ys carry)
  obtain s c1 where a: "bits_Add64 x y carry = (s, c1)" by force
  note as = bits_Add64_spec [OF a 3(3)]
  obtain r c' where r: "addTo_loop xs ys c1 = Some (r, c')" "length r = length xs" "drop (length ys) r = drop (length ys) xs" "unat c' \<le> 1"
    "wval (take (length ys) r) + (2 ^ 64) ^ length ys * unat c' = wval (take (length ys) xs) + wval ys + unat c1"
    using "3.IH" [OF a [symmetric] refl] 3(2) as(2) by auto
  have "2 ^ 64 * (wval (take (length ys) r) + (2 ^ 64) ^ length ys * unat c') = 2 ^ 64 * (wval (take (length ys) xs) + wval ys + unat c1)"
    using r(5) by (simp only:)
  then show ?case using as(1) r(1-4) by (simp add: a algebra_simps)
qed auto

lemma subMulTo_step:
  assumes "bits_Sub64 x b 0 = (s, c1)" "bits_Mul64 y m = (ph, pl)" "bits_Sub64 s pl 0 = (t, c2)"
  shows "unat t + unat b + unat y * unat m = unat x + 2 ^ 64 * unat (ph + c1 + c2)"
proof -
  have z: "unat (0 :: u64) \<le> 1" by simp
  note s1 = bits_Sub64_spec [OF assms(1) z] and s2 = bits_Sub64_spec [OF assms(3) z] and p = bits_Mul64_spec [OF assms(2)]
  have e: "unat t + unat b + unat y * unat m = unat x + 2 ^ 64 * (unat ph + unat c1 + unat c2)" using s1 s2 p by simp
  have "unat y * unat m \<le> (2 ^ 64 - 1) * (2 ^ 64 - 1)" by (rule mul64_bound)
  then have "unat ph + unat c1 + unat c2 < 2 ^ 64" using e unat_u64_less [of t] unat_u64_less [of b] by simp
  then have "unat (ph + c1 + c2) = unat ph + unat c1 + unat c2" by (simp add: unat_word_ariths)
  with e show ?thesis by simp
qed

lemma subMulTo_loop_spec:
  assumes "length ys \<le> length xs"
  shows "\<exists>r b'. subMulTo_loop xs ys m b = Some (r, b') \<and> length r = length xs \<and> drop (length ys) r = drop (length ys) xs \<and>
    wval (take (length ys) r) + unat b + wval ys * unat m = wval (take (length ys) xs) + (2 ^ 64) ^ length ys * unat b'"
  using assms
proof (induction xs ys m b rule: subMulTo_loop.induct)
  case (3 x xs y ys m b)
  obtain s c1 where a: "bits_Sub64 x b 0 = (s, c1)" by force
  obtain ph pl where p: "bits_Mul64 y m = (ph, pl)" by force
  obtain t c2 where c: "bits_Sub64 s pl 0 = (t, c2)" by force
  obtain r b' where r: "subMulTo_loop xs ys m (ph + c1 + c2) = Some (r, b')" "length r = length xs" "drop (length ys) r = drop (length ys) xs"
    "wval (take (length ys) r) + unat (ph + c1 + c2) + wval ys * unat m = wval (take (length ys) xs) + (2 ^ 64) ^ length ys * unat b'"
    using "3.IH" [OF a [symmetric] refl p [symmetric] refl c [symmetric] refl] 3(2) by auto
  have "2 ^ 64 * (wval (take (length ys) r) + unat (ph + c1 + c2) + wval ys * unat m) =
      2 ^ 64 * (wval (take (length ys) xs) + (2 ^ 64) ^ length ys * unat b')"
    using r(4) by (simp only:)
  then show ?case using subMulTo_step [OF a p c] r(1-3) by (simp add: a p c algebra_simps)
qed auto

section \<open>One limb divisors\<close>

lemma div_mod_plus: "V = b * (q * d) + V1 \<Longrightarrow> 0 < d \<Longrightarrow> V div d = b * q + V1 div d \<and> V mod d = V1 mod (d :: nat)"
  by (simp add: mult.assoc [symmetric])

lemma list_update_drop: "drop j xs' = drop j (xs[j := q]) \<Longrightarrow> j < length xs \<Longrightarrow> length xs' = length xs \<Longrightarrow>
    xs' ! j = q \<and> drop (Suc j) xs' = drop (Suc j) xs"
  by (metis Cons_nth_drop_Suc drop_update_cancel length_list_update lessI list.inject nth_list_update_eq)

lemma udivremBy1_loop_spec:
  assumes "2 ^ 63 \<le> unat d" "reciprocal2by1 d = Some v" "r < d" "k \<le> length u" "k \<le> length quot"
  shows "\<exists>quot' r'. udivremBy1_loop k quot u d v r = Some (quot', r') \<and> length quot' = length quot \<and> drop k quot' = drop k quot \<and>
    wval (take k quot') = (wval (take k u) + (2 ^ 64) ^ k * unat r) div unat d \<and>
    unat r' = (wval (take k u) + (2 ^ 64) ^ k * unat r) mod unat d"
  using assms(3-5)
proof (induction k arbitrary: quot r)
  case 0
  then show ?case by (auto simp: word_less_nat_alt)
next
  case (Suc j)
  have d: "0 < unat d" using assms(1) by simp
  obtain q r1 where qr: "udivrem2by1 r (u ! j) d v = (q, r1)" by force
  note sp = udivrem2by1_spec [OF assms(1) Suc.prems(1) assms(2) qr]
  have "r1 < d" using sp(2) d by (simp add: word_less_nat_alt)
  then obtain quot' r' where IH: "udivremBy1_loop j (quot[j := q]) u d v r1 = Some (quot', r')" "length quot' = length quot"
    "drop j quot' = drop j (quot[j := q])" "wval (take j quot') = (wval (take j u) + (2 ^ 64) ^ j * unat r1) div unat d"
    "unat r' = (wval (take j u) + (2 ^ 64) ^ j * unat r1) mod unat d"
    using Suc.IH [of r1 "quot[j := q]"] Suc.prems by auto
  have dr: "quot' ! j = q \<and> drop (Suc j) quot' = drop (Suc j) quot" using list_update_drop [OF IH(3)] IH(2) Suc.prems by simp
  have w: "unat q * unat d + unat r1 = unat r * 2 ^ 64 + unat (u ! j)" unfolding sp by simp
  have "wval (take (Suc j) u) + (2 ^ 64) ^ Suc j * unat r = wval (take j u) + (2 ^ 64) ^ j * (unat r * 2 ^ 64 + unat (u ! j))"
    using Suc.prems by (simp add: wval_take_Suc algebra_simps)
  also have "\<dots> = (2 ^ 64) ^ j * (unat q * unat d) + (wval (take j u) + (2 ^ 64) ^ j * unat r1)"
    unfolding w [symmetric] by (simp only: algebra_simps)
  finally have "(wval (take (Suc j) u) + (2 ^ 64) ^ Suc j * unat r) div unat d = (2 ^ 64) ^ j * unat q + wval (take j quot')"
    "(wval (take (Suc j) u) + (2 ^ 64) ^ Suc j * unat r) mod unat d = unat r'"
    using div_mod_plus d IH(4,5) by auto
  moreover have "wval (take (Suc j) quot') = wval (take j quot') + (2 ^ 64) ^ j * unat q"
    using dr IH(2) Suc.prems by (simp add: wval_take_Suc)
  ultimately show ?case using IH(1,2) dr Suc.prems by (simp add: idx_def put_at_def qr)
qed

section \<open>The quotient digit of Knuth's algorithm\<close>

lemma digit_upper:
  fixes q D U M E N :: nat
  assumes "q * D \<le> U" "M * E \<le> D" "U < (N + 1) * E"
  shows "q * M \<le> N"
proof -
  have "q * (M * E) \<le> q * D" using assms(2) by (rule mult_le_mono2)
  then have "(q * M) * E < (N + 1) * E" using assms(1,3) unfolding mult.assoc by linarith
  then have "q * M < N + 1" by (rule mult_less_cancel2 [THEN iffD1, THEN conjunct2])
  then show ?thesis by simp
qed

lemma digit_overflow:
  fixes B dh D U F :: nat
  assumes "D < (dh + 1) * F" "dh * B * F \<le> U" "B \<le> 2 * dh" "2 \<le> B"
  shows "(B - 2) * D \<le> U"
proof -
  have "(B - 2) * D \<le> (B - 2) * ((dh + 1) * F)" using assms(1) by (intro mult_le_mono2) simp
  also have "(B - 2) * (dh + 1) \<le> dh * B" using assms(3,4) by (simp add: algebra_simps diff_mult_distrib)
  then have "(B - 2) * ((dh + 1) * F) \<le> dh * B * F" unfolding mult.assoc [symmetric] by (rule mult_le_mono1)
  also note assms(2)
  finally show ?thesis .
qed

lemma digit_guess:
  fixes B dh D D' U F T q :: nat
  assumes "D = dh * F + D'" "D' < F" "T * F \<le> U" "q * dh \<le> T" "q \<le> 2 * dh + 2"
  shows "(q - 2) * D \<le> U"
proof (cases "q \<le> 2")
  case False
  have "(q - 2) * D = q * dh * F + (q - 2) * D' - 2 * dh * F" using False by (simp add: assms(1) algebra_simps diff_mult_distrib)
  also have "(q - 2) * D' \<le> (2 * dh) * F" using assms(2,5) by (intro mult_le_mono) auto
  finally have "(q - 2) * D \<le> q * dh * F" by simp
  also have "\<dots> \<le> T * F" using assms(4) by (rule mult_le_mono1)
  finally show ?thesis using assms(3) by simp
qed simp

lemma digit_close:
  fixes q D U M E N d' :: nat
  assumes "D = M * E + d'" "q * M \<le> N" "N * E \<le> U" "q * d' \<le> D"
  shows "(q - 1) * D \<le> U"
proof -
  have "q * M * E \<le> N * E" using assms(2) by (rule mult_le_mono1)
  moreover have "q * D = q * M * E + q * d'" by (simp add: assms(1) algebra_simps)
  ultimately have "q * D \<le> U + D" using assms(3,4) by linarith
  then show ?thesis by (simp add: diff_mult_distrib)
qed

lemma qhat_test:
  assumes "bits_Mul64 q dl = (ph, pl)"
  shows "(ph > r \<or> (ph = r \<and> pl > u0)) \<longleftrightarrow> unat r * 2 ^ 64 + unat u0 < unat q * unat dl"
proof -
  have p: "2 ^ 64 * unat ph + unat pl = unat q * unat dl" by (rule bits_Mul64_spec [OF assms])
  have "unat pl < 2 ^ 64" "unat u0 < 2 ^ 64" by (rule unat_u64_less)+
  then show ?thesis unfolding p [symmetric] word_less_nat_alt word_unat_eq_iff by auto
qed

lemma knuth_qhat_spec:
  fixes D U E :: nat
  assumes dh: "2 ^ 63 \<le> unat dh" and v: "reciprocal2by1 dh = Some v"
    and D: "D = (unat dh * 2 ^ 64 + unat dl) * E + d'" "d' < E"
    and U: "U = ((unat u2 * 2 ^ 64 + unat u1) * 2 ^ 64 + unat u0) * E + u'" "u' < E" "U < 2 ^ 64 * D"
  shows "U div D \<le> unat (knuth_qhat u2 u1 u0 dh dl v)" "unat (knuth_qhat u2 u1 u0 dh dl v) \<le> U div D + 1"
proof -
  let ?B = "2 ^ 64 :: nat"
  define F where "F = ?B * E"
  have b: "unat dl < ?B" "unat u0 < ?B" "unat u1 < ?B" "0 < E" using D(2) by (auto intro: unat_u64_less [simplified])
  have D0: "0 < D" using D dh b by simp
  have lt: "U div D < ?B" using U(3) by (simp add: less_mult_imp_div_less)
  have ge: "k \<le> U div D" if "k * D \<le> U" for k using that D0 by (simp add: less_eq_div_iff_mult_less_eq)
  have qD: "U div D * D \<le> U" by simp
  have "(unat dl + 1) * E \<le> F" unfolding F_def using b(1) by (intro mult_le_mono1) simp
  then have "unat dl * E + d' < F" using D(2) unfolding add_mult_distrib by linarith
  moreover have "D = unat dh * F + (unat dl * E + d')" using D(1) by (simp add: F_def algebra_simps)
  ultimately have DF: "D = unat dh * F + (unat dl * E + d')" "unat dl * E + d' < F" by blast+
  define T where "T = unat u2 * ?B + unat u1"
  define N where "N = T * ?B + unat u0"
  define M where "M = unat dh * ?B + unat dl"
  have UN: "U = N * E + u'" "U < (N + 1) * E" "N * E \<le> U" using U by (simp_all add: N_def T_def)
  have DM: "D = M * E + d'" "M * E \<le> D" using D by (simp_all add: M_def)
  have "T * F \<le> N * E" by (simp add: N_def F_def algebra_simps)
  then have TF: "T * F \<le> U" using UN(3) by linarith
  have qM: "U div D * M \<le> N" by (rule digit_upper [OF qD DM(2) UN(2)])
  have "unat dh * ?B \<le> M" "N < (T + 1) * ?B" using b by (simp_all add: M_def N_def)
  then have qT: "U div D * unat dh \<le> T" by (rule digit_upper [OF qM])
  have "U div D \<le> unat (knuth_qhat u2 u1 u0 dh dl v) \<and> unat (knuth_qhat u2 u1 u0 dh dl v) \<le> U div D + 1"
  proof (cases "dh \<le> u2")
    case True
    have "unat dh * ?B * F \<le> T * F" using True by (intro mult_le_mono1) (simp add: T_def word_le_nat_alt)
    then have "unat dh * ?B * F \<le> U" using TF by linarith
    then have "(?B - 2) * D \<le> U" by (rule digit_overflow [rotated]) (use DF dh in auto)
    from ge [OF this] show ?thesis using True lt by (simp add: knuth_qhat_def unat_max_u64)
  next
    case False
    obtain q r where qr: "udivrem2by1 u2 u1 dh v = (q, r)" by force
    obtain ph pl where p: "bits_Mul64 q dl = (ph, pl)" by force
    note sp = udivrem2by1_spec [OF dh _ v qr]
    have T: "unat q * unat dh + unat r = T" "unat q = T div unat dh" using False sp by (simp_all add: T_def)
    have "unat r * ?B + unat u0 < unat q * unat dl \<longleftrightarrow> N < unat q * M"
      unfolding N_def M_def T(1) [symmetric] by (simp add: algebra_simps)
    with qhat_test [OF p, of r u0] have h: "knuth_qhat u2 u1 u0 dh dl v = (if N < unat q * M then q - 1 else q)"
      using False by (simp add: knuth_qhat_def qr p)
    have q: "U div D \<le> unat q" unfolding T(2) using qT dh by (simp add: less_eq_div_iff_mult_less_eq)
    show ?thesis
    proof (cases "N < unat q * M")
      case True
      then have lt: "U div D < unat q" using qM q by (metis le_neq_implies_less not_less)
      then have "unat (q - 1) = unat q - 1" by (simp add: unat_sub word_le_nat_alt)
      moreover have "(unat q - 2) * D \<le> U" using digit_guess [OF DF TF] T(1) dh unat_u64_less [of q] by simp
      ultimately have "U div D \<le> unat (q - 1)" "unat (q - 1) \<le> U div D + 1" using ge [of "unat q - 2"] lt by linarith+
      then show ?thesis using True by (simp add: h)
    next
      case False
      have "unat q * d' \<le> ?B * E" using D(2) unat_u64_less [of q] by (intro mult_le_mono) auto
      also have "\<dots> \<le> M * E" using dh by (intro mult_le_mono1) (simp add: M_def)
      finally have "unat q * d' \<le> D" using DM(2) by linarith
      then have "(unat q - 1) * D \<le> U" using False by (intro digit_close [OF DM(1) _ UN(3)]) auto
      from ge [OF this] show ?thesis using False q by (simp add: h)
    qed
  qed
  then show "U div D \<le> unat (knuth_qhat u2 u1 u0 dh dl v)" "unat (knuth_qhat u2 u1 u0 dh dl v) \<le> U div D + 1" by blast+
qed

section \<open>Knuth's algorithm\<close>

text \<open>One round: the quotient digit, the subtraction of its multiple of the divisor and the correction.\<close>

definition knuth_round :: "u64 list \<Rightarrow> u64 list \<Rightarrow> u64 \<Rightarrow> nat \<Rightarrow> (u64 \<times> u64 list) option" where
  "knuth_round u d v j = do {
     let n = length d;
     dh \<leftarrow> idx d (n - 1);
     dl \<leftarrow> idx d (n - 2);
     u2 \<leftarrow> idx u (j + n);
     u1 \<leftarrow> idx u (j + n - 1);
     u0 \<leftarrow> idx u (j + n - 2);
     let qhat = knuth_qhat u2 u1 u0 dh dl v;
     (s, borrow) \<leftarrow> subMulTo (drop j u) d qhat;
     u \<leftarrow> put_at (take j u @ s) (j + n) (u2 - borrow);
     if u2 < borrow then do {
       (s, c) \<leftarrow> addTo (drop j u) d;
       top \<leftarrow> idx (take j u @ s) (j + n);
       u \<leftarrow> put_at (take j u @ s) (j + n) (top + c);
       Some (qhat - 1, u)
     } else Some (qhat, u)
   }"

lemma udivremKnuth_loop_Suc:
  "udivremKnuth_loop (Suc j) quot u d v = do {
     (q, u) \<leftarrow> knuth_round u d v j;
     quot \<leftarrow> put_at quot j q;
     udivremKnuth_loop j quot u d v
   }"
  by (simp add: knuth_round_def Let_def case_prod_unfold)

lemma wval_window:
  assumes "n < length xs" "2 \<le> n"
  shows "wval (take (Suc n) xs) =
    ((unat (xs ! n) * 2 ^ 64 + unat (xs ! (n - 1))) * 2 ^ 64 + unat (xs ! (n - 2))) * (2 ^ 64) ^ (n - 2) + wval (take (n - 2) xs)"
proof -
  obtain m where n: "n = Suc (Suc m)" using assms(2) by (metis Suc_le_D numeral_2_eq_2 Suc_le_mono)
  show ?thesis using assms(1) by (simp add: n wval_take_Suc algebra_simps)
qed

lemma wval_whole:
  assumes "2 \<le> length d"
  shows "wval d = (unat (d ! (length d - 1)) * 2 ^ 64 + unat (d ! (length d - 2))) * (2 ^ 64) ^ (length d - 2) + wval (take (length d - 2) d)"
proof -
  obtain m where n: "length d = Suc (Suc m)" using assms by (metis Suc_le_D numeral_2_eq_2 Suc_le_mono)
  have "take (Suc (Suc m)) d = d" using n by simp
  then have "wval d = wval (take m d) + (2 ^ 64) ^ m * unat (d ! m) + (2 ^ 64) ^ Suc m * unat (d ! Suc m)"
    using wval_take_Suc [of m d] wval_take_Suc [of "Suc m" d] n by simp
  then show ?thesis using n by (simp add: algebra_simps)
qed

lemma knuth_round_spec:
  assumes n: "2 \<le> length d" and dh: "2 ^ 63 \<le> unat (d ! (length d - 1))" and v: "reciprocal2by1 (d ! (length d - 1)) = Some v"
    and j: "j + length d < length u" and U: "U = wval (take (Suc (length d)) (drop j u))" "U < 2 ^ 64 * wval d"
  shows "\<exists>q u'. knuth_round u d v j = Some (q, u') \<and> unat q = U div wval d \<and> length u' = length u \<and> take j u' = take j u \<and>
    wval (take (Suc (length d)) (drop j u')) = U mod wval d"
proof -
  let ?n = "length d" and ?D = "wval d" and ?B = "2 ^ 64 :: nat"
  define xs where "xs = drop j u"
  have xs: "?n < length xs" "xs ! ?n = u ! (j + ?n)" "xs ! (?n - 1) = u ! (j + ?n - 1)" "xs ! (?n - 2) = u ! (j + ?n - 2)"
    using j n by (simp_all add: xs_def)
  define qhat where "qhat = knuth_qhat (u ! (j + ?n)) (u ! (j + ?n - 1)) (u ! (j + ?n - 2)) (d ! (?n - 1)) (d ! (?n - 2)) v"
  have ix: "idx d (?n - 1) = Some (d ! (?n - 1))" "idx d (?n - 2) = Some (d ! (?n - 2))" "idx u (j + ?n) = Some (u ! (j + ?n))"
    "idx u (j + ?n - 1) = Some (u ! (j + ?n - 1))" "idx u (j + ?n - 2) = Some (u ! (j + ?n - 2))" using n j by (auto simp: idx_def)
  have round: "knuth_round u d v j = do {
     (s, borrow) \<leftarrow> subMulTo xs d qhat;
     u' \<leftarrow> put_at (take j u @ s) (j + ?n) (u ! (j + ?n) - borrow);
     if u ! (j + ?n) < borrow then do {
       (s, c) \<leftarrow> addTo (drop j u') d;
       top \<leftarrow> idx (take j u' @ s) (j + ?n);
       u'' \<leftarrow> put_at (take j u' @ s) (j + ?n) (top + c);
       Some (qhat - 1, u'')
     } else Some (qhat, u') }"
    unfolding knuth_round_def Let_def qhat_def xs_def by (simp only: ix bind.bind_lunit)
  have b: "wval (take (?n - 2) d) < ?B ^ (?n - 2)" "wval (take (?n - 2) xs) < ?B ^ (?n - 2)"
    by (rule wval_take_less, use xs(1) in simp)+
  have "U = ((unat (xs ! ?n) * ?B + unat (xs ! (?n - 1))) * ?B + unat (xs ! (?n - 2))) * ?B ^ (?n - 2) + wval (take (?n - 2) xs)"
    using wval_window [OF xs(1) n] U(1) by (simp only: xs_def)
  note kq = knuth_qhat_spec [OF dh v wval_whole [OF n] b(1) this b(2) U(2)]
  have q: "U div ?D \<le> unat qhat" "unat qhat \<le> U div ?D + 1" using kq unfolding qhat_def xs(2-4) by blast+
  obtain s b where sub: "subMulTo xs d qhat = Some (s, b)" "length s = length xs" "drop ?n s = drop ?n xs"
      "wval (take ?n s) + ?D * unat qhat = wval (take ?n xs) + ?B ^ ?n * unat b"
    using subMulTo_loop_spec [of d xs qhat 0] xs(1) by (auto simp: subMulTo_def)
  have Un: "U = wval (take ?n xs) + ?B ^ ?n * unat (xs ! ?n)" using U(1) xs(1) by (simp add: xs_def [symmetric] wval_take_Suc)
  have D: "?D < ?B ^ ?n" "wval (take ?n s) < ?B ^ ?n" "0 < ?D" using wval_less [of d] wval_take_less [of ?n s] sub(2) xs(1) U(2) by (auto intro: gr0I)
  define s' where "s' = s[?n := xs ! ?n - b]"
  have s': "length s' = length xs" "take ?n s' = take ?n s" "s' ! ?n = xs ! ?n - b" using sub(2) xs(1) by (simp_all add: s'_def)
  have lj: "length (take j u) = j" using j by simp
  have u': "(take j u @ s)[j + ?n := u ! (j + ?n) - b] = take j u @ s'" using lj xs(2) by (simp add: s'_def list_update_append)
  show ?thesis
  proof (cases "u ! (j + ?n) < b")
    case False
    then have "unat (xs ! ?n - b) = unat (xs ! ?n) - unat b" "unat b \<le> unat (xs ! ?n)" using xs(2) by (simp_all add: unat_sub word_le_nat_alt not_less)
    then have "wval (take (Suc ?n) s') = wval (take ?n s) + ?B ^ ?n * (unat (xs ! ?n) - unat b)" "?B ^ ?n * unat b \<le> ?B ^ ?n * unat (xs ! ?n)"
      using s' xs(1) by (simp_all only: wval_take_Suc mult_le_mono2)
    then have W: "wval (take (Suc ?n) s') + ?D * unat qhat = U" using sub(4) Un unfolding diff_mult_distrib2 by linarith
    have "unat qhat = U div ?D" using q(1) W D(3) by (metis div_le_mono div_mult_self1_is_m le_add2 le_antisym)
    moreover from this have "wval (take (Suc ?n) s') = U mod ?D" using W by (metis add_right_cancel mod_mult_div_eq)
    ultimately show ?thesis
      using False sub(1,2) u' lj s'(1) xs(1) j by (simp add: round put_at_def) (simp add: xs_def)
  next
    case True
    then have ub: "unat (xs ! ?n) < unat b" using xs(2) by (simp add: word_less_nat_alt)
    have e: "U + ?B ^ ?n * (unat b - unat (xs ! ?n)) = wval (take ?n s) + ?D * unat qhat"
      using sub(4) Un ub by (simp add: diff_mult_distrib2 less_imp_le)
    have "?B ^ ?n * 1 \<le> ?B ^ ?n * (unat b - unat (xs ! ?n))" using ub by (intro mult_le_mono2) simp
    then have "U < ?D * unat qhat" using e D(2) by linarith
    then have "U div ?D < unat qhat" using D(3) by (metis div_less_iff_less_mult mult.commute)
    then have qd: "unat qhat = U div ?D + 1" using q(2) by simp
    obtain r c where add: "addTo s' d = Some (r, c)" "length r = length s'" "drop ?n r = drop ?n s'" "unat c \<le> 1"
        "wval (take ?n r) + ?B ^ ?n * unat c = wval (take ?n s') + ?D"
      using addTo_loop_spec [of d s' 0] s'(1) xs(1) by (auto simp: addTo_def)
    have "U = ?D * (U div ?D) + U mod ?D" by simp
    then have "wval (take ?n s) + ?D = U mod ?D + ?B ^ ?n * (unat b - unat (xs ! ?n))"
      using e unfolding qd distrib_left mult_1_right by linarith
    with add(5) s'(2) have "wval (take ?n r) + ?B ^ ?n * unat c = U mod ?D + ?B ^ ?n * (unat b - unat (xs ! ?n))" by simp
    moreover have "wval (take ?n r) < ?B ^ ?n" using add(2) s'(1) xs(1) by (intro wval_take_less) simp
    moreover have "U mod ?D < ?B ^ ?n" using D(1,3) mod_less_divisor [of ?D U] by linarith
    ultimately have rc: "wval (take ?n r) = U mod ?D" "unat c = unat b - unat (xs ! ?n)" by (rule digit_unique)+
    have "r ! ?n = s' ! ?n" using add(2,3) s'(1) xs(1) by (metis hd_drop_conv_nth)
    moreover have "c = b - xs ! ?n" using rc(2) ub by (simp add: word_unat_eq_iff unat_sub word_le_nat_alt)
    ultimately have top: "r ! ?n + c = 0" using s'(3) by simp
    define r' where "r' = r[?n := r ! ?n + c]"
    have r': "length r' = length xs" "wval (take (Suc ?n) r') = U mod ?D"
      using rc(1) add(2) s'(1) xs(1) top by (simp_all add: r'_def wval_take_Suc)
    have "unat (qhat - 1) = U div ?D" using qd by (simp add: unat_sub word_le_nat_alt)
    moreover have "knuth_round u d v j = Some (qhat - 1, take j u @ r')"
      using True sub(1,2) u' lj add(1,2) s'(1) xs(1)
      by (simp add: round put_at_def idx_def r'_def list_update_append nth_append)
    ultimately show ?thesis using r' lj j by (simp add: xs_def)
  qed
qed

lemma udivremKnuth_loop_spec:
  assumes n: "2 \<le> length d" and dh: "2 ^ 63 \<le> unat (d ! (length d - 1))" and v: "reciprocal2by1 (d ! (length d - 1)) = Some v"
    and k: "k + length d \<le> length u" "k \<le> length quot" and V: "wval (take (k + length d) u) < (2 ^ 64) ^ k * wval d"
  shows "\<exists>quot' u'. udivremKnuth_loop k quot u d v = Some (quot', u') \<and> length quot' = length quot \<and> drop k quot' = drop k quot \<and>
    length u' = length u \<and> wval (take k quot') = wval (take (k + length d) u) div wval d \<and>
    wval (take (length d) u') = wval (take (k + length d) u) mod wval d"
  using k V
proof (induction k arbitrary: quot u)
  case (Suc j)
  let ?n = "length d" and ?D = "wval d" and ?B = "2 ^ 64 :: nat"
  define U where "U = wval (take (Suc ?n) (drop j u))"
  define V where "V = wval (take (Suc j + ?n) u)"
  have VU: "V = wval (take j u) + ?B ^ j * U"
    using wval_append [of "take j u" "take (Suc ?n) (drop j u)"] Suc.prems(1) by (simp add: V_def U_def take_add [symmetric])
  have "V < ?B ^ Suc j * ?D" using Suc.prems(3) by (simp only: V_def)
  also have "?B ^ Suc j * ?D = ?B ^ j * (?B * ?D)" by (simp only: power_Suc2 mult.assoc)
  finally have "?B ^ j * U < ?B ^ j * (?B * ?D)" using VU by linarith
  then have U: "U < ?B * ?D" by (rule mult_less_cancel1 [THEN iffD1, THEN conjunct2])
  obtain q u1 where r: "knuth_round u d v j = Some (q, u1)" "unat q = U div ?D" "length u1 = length u" "take j u1 = take j u"
      "wval (take (Suc ?n) (drop j u1)) = U mod ?D"
    using knuth_round_spec [OF n dh v _ U_def U] Suc.prems(1) by auto
  define V1 where "V1 = wval (take (j + ?n) u1)"
  have w: "wval (take (Suc ?n) (drop j u1)) = wval (take ?n (drop j u1)) + ?B ^ ?n * unat (drop j u1 ! ?n)"
    using r(3) Suc.prems(1) by (intro wval_take_Suc) simp
  have D: "0 < ?D" "?D < ?B ^ ?n" using U wval_less [of d] by (auto intro: gr0I)
  have "U mod ?D < ?B ^ ?n" using D mod_less_divisor [of ?D U] by linarith
  then have "wval (take ?n (drop j u1)) = U mod ?D" using w r(5) digit_unique(1) [of "wval (take ?n (drop j u1))" "?B ^ ?n" _ "U mod ?D" 0]
      wval_take_less [of ?n "drop j u1"] r(3) Suc.prems(1) by simp
  then have V1: "V1 = wval (take j u) + ?B ^ j * (U mod ?D)"
    using wval_append [of "take j u" "take ?n (drop j u1)"] Suc.prems(1) unfolding V1_def take_add r(4) by simp
  have "wval (take j u) < ?B ^ j" using Suc.prems(1) by (intro wval_take_less) simp
  moreover have "?B ^ j * (U mod ?D + 1) \<le> ?B ^ j * ?D" using D by (intro mult_le_mono2) (simp add: Suc_leI)
  ultimately have lt: "V1 < ?B ^ j * ?D" unfolding V1 distrib_left mult_1_right by linarith
  obtain quot' u' where IH: "udivremKnuth_loop j (quot[j := q]) u1 d v = Some (quot', u')" "length quot' = length quot"
      "drop j quot' = drop j (quot[j := q])" "length u' = length u" "wval (take j quot') = V1 div ?D" "wval (take ?n u') = V1 mod ?D"
    using Suc.IH [of u1 "quot[j := q]"] lt r(3) Suc.prems(1,2) by (auto simp: V1_def)
  have dr: "quot' ! j = q \<and> drop (Suc j) quot' = drop (Suc j) quot" using list_update_drop [OF IH(3)] IH(2) Suc.prems by simp
  have "V = ?B ^ j * (U div ?D * ?D) + V1"
    unfolding VU V1 by (subst (1) div_mult_mod_eq [of U ?D, symmetric]) (simp only: algebra_simps)
  with D(1) have "V div ?D = ?B ^ j * (U div ?D) + V1 div ?D \<and> V mod ?D = V1 mod ?D" by (intro div_mod_plus)
  moreover have "wval (take (Suc j) quot') = wval (take j quot') + ?B ^ j * unat q"
    using dr IH(2) Suc.prems by (simp only: wval_take_Suc)
  ultimately show ?case using IH dr r(1,2) Suc.prems(2)
    by (simp add: udivremKnuth_loop_Suc put_at_def V_def del: udivremKnuth_loop.simps)
qed (use V in simp)

end
