(* ===== verification/Uint256_Bits.thy ===== *)
theory Uint256_Bits
  imports Uint256_Arith
begin

text \<open>
  The bits of 256-bit integers: the bitwise operations, the arithmetic right shift, \<^verbatim>\<open>Byte\<close> and \<^verbatim>\<open>ExtendSign\<close> of
  \<^verbatim>\<open>uint256.go\<close> in terms of the value.
\<close>

lemma bit_two_limbs:
  assumes "a < 2 ^ 64"
  shows "bit (a + 2 ^ 64 * b) i \<longleftrightarrow> (if i < 64 then bit a i else bit (b :: nat) (i - 64))"
proof -
  have hi: "\<not> bit a k" if "64 \<le> k" for k
    using assms that by (metis bit_take_bit_iff not_le take_bit_nat_eq_self)
  have "a + push_bit 64 b = (a OR push_bit 64 b)"
    by (rule disjunctive_add) (use hi in \<open>auto simp: bit_push_bit_iff\<close>)
  then have "a + 2 ^ 64 * b = (a OR push_bit 64 b)" by (simp add: push_bit_eq_mult mult.commute)
  then show ?thesis using hi by (auto simp: bit_or_iff bit_push_bit_iff)
qed

lemma bit_uval: "bit (uval z) i \<longleftrightarrow> i < 256 \<and> bit (limbs z ! (i div 64)) (i mod 64)"
proof -
  have l: "bit (uval z) i \<longleftrightarrow> (if i < 64 then bit (limb0 z) i else if i < 128 then bit (limb1 z) (i - 64)
      else if i < 192 then bit (limb2 z) (i - 128) else bit (limb3 z) (i - 192))"
    unfolding uval_nest bit_two_limbs [OF unat_u64_less] by (auto simp: bit_unsigned_iff)
  consider "i < 64" | "64 \<le> i" "i < 128" | "128 \<le> i" "i < 192" | "192 \<le> i" "i < 256" | "256 \<le> i" by linarith
  then show ?thesis
  proof cases
    case 2
    then have "i div 64 = 1" "i mod 64 = i - 64" by (auto simp: div_nat_eqI mod_if)
    then show ?thesis using 2 by (simp add: l limbs_def)
  next
    case 3
    then have "i div 64 = 2" "i mod 64 = i - 128" by (auto simp: div_nat_eqI mod_if)
    then show ?thesis using 3 by (simp add: l limbs_def)
  next
    case 4
    then have "i div 64 = 3" "i mod 64 = i - 192" by (auto simp: div_nat_eqI mod_if)
    then show ?thesis using 4 by (simp add: l limbs_def numeral_3_eq_3)
  next
    case 5
    then show ?thesis using bit_u64 [of "limb3 z" "i - 192"] by (auto simp: l)
  qed (simp add: l limbs_def)
qed

lemma uval_eqI: "(\<And>i. i < 256 \<Longrightarrow> bit (limbs z ! (i div 64)) (i mod 64) \<longleftrightarrow> bit n i) \<Longrightarrow> n < 2 ^ 256 \<Longrightarrow> uval z = n"
proof (rule bit_eqI)
  fix i
  assume a: "\<And>i. i < 256 \<Longrightarrow> bit (limbs z ! (i div 64)) (i mod 64) \<longleftrightarrow> bit n i" "n < 2 ^ 256"
  have "\<not> bit n i" if "256 \<le> i" using a(2) that by (metis bit_take_bit_iff not_le take_bit_nat_eq_self)
  then show "bit (uval z) i \<longleftrightarrow> bit n i" using a(1) [of i] by (cases "i < 256") (auto simp: bit_uval)
qed

lemma limb_cases: "i < 256 \<Longrightarrow> i div 64 = 0 \<or> i div 64 = 1 \<or> i div 64 = 2 \<or> i div 64 = (3 :: nat)"
  by auto

lemma limbs_nth: "limbs z ! 0 = limb0 z" "limbs z ! 1 = limb1 z" "limbs z ! 2 = limb2 z" "limbs z ! 3 = limb3 z" "limbs z ! Suc 0 = limb1 z"
  by (simp_all add: limbs_def numeral_3_eq_3)

lemma uval_take_bit: "take_bit 256 (uval z) = uval z"
  by (rule take_bit_nat_eq_self [OF uval_less])

lemma bitwise_less: "(uval x AND uval y) < 2 ^ 256" "(uval x OR uval y) < 2 ^ 256" "(uval x XOR uval y) < 2 ^ 256"
  using take_bit_nat_less_exp [of 256 "uval x AND uval y"] take_bit_nat_less_exp [of 256 "uval x OR uval y"]
    take_bit_nat_less_exp [of 256 "uval x XOR uval y"]
  unfolding take_bit_and take_bit_or take_bit_xor uval_take_bit by blast+

lemma limbs_bitwise:
  assumes "k = 0 \<or> k = 1 \<or> k = 2 \<or> k = (3 :: nat)"
  shows "limbs (Int_And x y) ! k = (limbs x ! k AND limbs y ! k)" "limbs (Int_Or x y) ! k = (limbs x ! k OR limbs y ! k)"
    "limbs (Int_Xor x y) ! k = (limbs x ! k XOR limbs y ! k)" "limbs (Int_Not x) ! k = NOT (limbs x ! k)"
  using assms by (auto simp: limbs_nth Int_And_def Int_Or_def Int_Xor_def Int_Not_def)

lemma uval_bitwise:
  "uval (Int_And x y) = (uval x AND uval y)" "uval (Int_Or x y) = (uval x OR uval y)" "uval (Int_Xor x y) = (uval x XOR uval y)"
  by (rule uval_eqI [OF _ bitwise_less(1)], simp add: limbs_bitwise [OF limb_cases] bit_and_iff bit_uval)
    (rule uval_eqI [OF _ bitwise_less(2)], simp add: limbs_bitwise [OF limb_cases] bit_or_iff bit_uval,
     rule uval_eqI [OF _ bitwise_less(3)], simp add: limbs_bitwise [OF limb_cases] bit_xor_iff bit_uval)

section \<open>Arithmetic right shift\<close>

lemma shr_not: "0 < n \<Longrightarrow> n < 64 \<Longrightarrow> NOT (drop_bit n (NOT a) OR push_bit (64 - n) (NOT b)) = (drop_bit n a OR push_bit (64 - n) (b :: u64))"
  by (rule bit_word_eqI) (auto simp: bit_simps dest: bit_u64)

lemma shr_not_top: "0 < n \<Longrightarrow> n < 64 \<Longrightarrow> NOT (drop_bit n (NOT a)) = (drop_bit n a OR push_bit (64 - n) (- 1 :: u64))"
  by (rule bit_word_eqI) (auto simp: bit_simps dest: bit_u64)

lemma shr_not_mask:
  "0 < n \<Longrightarrow> n < 64 \<Longrightarrow> (drop_bit n a OR NOT (mask (64 - n))) AND NOT (push_bit (64 - n) (NOT b)) = (drop_bit n a OR push_bit (64 - n) (b :: u64))"
  by (rule bit_word_eqI) (auto simp: bit_simps dest: bit_u64)

lemmas shift_defs = Int_SRsh_def Int_isBitSet_255 Int_Rsh_def Int_Not_def srsh64_def srsh128_def srsh192_def rsh64_def rsh128_def rsh192_def
  Int_SetAllOne_def Int_Clear_def Let_def

lemma part_limb: "k < 64 \<Longrightarrow> (64 * c + k) mod 64 = (k :: nat)"
  by simp

lemma Int_SRsh_not:
  assumes "is_neg x"
  shows "Int_SRsh x n = Some (Int_Not (Int_Rsh (Int_Not x) n))"
proof (cases n rule: shift_cases)
  case 5
  then show ?thesis using assms by (auto simp: shift_defs)
next
  case 6
  then have "n mod 64 = n" "0 < n" by (auto intro: gr0I)
  then show ?thesis using assms 6 by (simp add: shift_defs shr_not shr_not_top shr_not_mask)
next
  case 7
  define k where "k = n - 64"
  have k: "n = 64 + k" "0 < k" "k < 64" using 7 by (simp_all add: k_def)
  have m: "(64 + k) mod 64 = k" using part_limb [OF k(3), of 1] by simp
  from assms k(2,3) show ?thesis unfolding k(1) by (simp add: m shift_defs shr_not shr_not_top shr_not_mask)
next
  case 8
  define k where "k = n - 128"
  have k: "n = 128 + k" "0 < k" "k < 64" using 8 by (simp_all add: k_def)
  have m: "(128 + k) mod 64 = k" using part_limb [OF k(3), of 2] by simp
  from assms k(2,3) show ?thesis unfolding k(1) by (simp add: m shift_defs shr_not shr_not_top shr_not_mask)
next
  case 9
  define k where "k = n - 192"
  have k: "n = 192 + k" "0 < k" "k < 64" using 9 by (simp_all add: k_def)
  have m: "(192 + k) mod 64 = k" using part_limb [OF k(3), of 3] by simp
  from assms k(2,3) show ?thesis unfolding k(1) by (simp add: m shift_defs shr_not shr_not_top shr_not_mask)
qed (use assms in \<open>simp_all add: shift_defs\<close>)

lemma floor_not:
  fixes u P :: nat
  assumes "u < M" "0 < P"
  shows "(int u - int M) div int P mod int M = int (M - 1 - (M - 1 - u) div P)"
proof -
  define m where "m = M - 1 - u"
  have m: "int u - int M = - (int m + 1)" using assms(1) by (simp add: m_def of_nat_diff)
  have e: "- (int m + 1) = int P * (- int (m div P) - 1) + (int P - 1 - int (m mod P))"
  proof -
    have "int m = int P * int (m div P) + int (m mod P)" by (simp flip: of_nat_mult of_nat_add)
    then show ?thesis by (simp add: algebra_simps)
  qed
  have "int (m mod P) < int P" using assms(2) by simp
  then have "(int u - int M) div int P = - int (m div P) - 1" unfolding m using int_div_pos_eq [OF e] by simp
  moreover have b: "m div P \<le> m" "m < M" using assms(1) by (simp_all add: m_def)
  have "(- int (m div P) - 1) mod int M = int M - 1 - int (m div P)"
  proof -
    have "(- int (m div P) - 1) mod int M = (- int (m div P) - 1 + int M) mod int M" by simp
    also have "\<dots> = int M - 1 - int (m div P)" using b by (subst mod_pos_pos_trivial) linarith+
    finally show ?thesis .
  qed
  moreover have "int (M - 1 - m div P) = int M - 1 - int (m div P)" using b by linarith
  ultimately show ?thesis by (simp only: m_def [symmetric])
qed

lemma uval_mod_id: "int (uval w) mod 2 ^ 256 = int (uval w)"
  using int_uval_less [of w] by (simp only: mod_pos_pos_trivial of_nat_0_le_iff)

lemma Int_SRsh_spec: "\<exists>z. Int_SRsh x n = Some z \<and> int (uval z) = sval x div 2 ^ n mod 2 ^ 256"
proof (cases "is_neg x")
  case True
  have "(int (uval x) - int (2 ^ 256)) div int (2 ^ n) mod int (2 ^ 256) = int (2 ^ 256 - 1 - (2 ^ 256 - 1 - uval x) div 2 ^ n)"
    by (rule floor_not [OF uval_less]) simp
  then have "sval x div 2 ^ n mod 2 ^ 256 = int (uval (Int_Not (Int_Rsh (Int_Not x) n)))"
    unfolding sval_neg [OF True] uval_Not uval_Rsh of_nat_power of_nat_numeral .
  then show ?thesis using Int_SRsh_not [OF True, of n] by (simp only: option.inject) blast
next
  case False
  have "sval x div 2 ^ n mod 2 ^ 256 = int (uval (Int_Rsh x n)) mod 2 ^ 256"
    unfolding sval_pos [OF False] uval_Rsh zdiv_int of_nat_power of_nat_numeral ..
  then show ?thesis using False unfolding uval_mod_id by (simp add: Int_SRsh_def Int_isBitSet_255)
qed

section \<open>Single bytes\<close>

lemma byte_of_limb:
  assumes "b < 8"
  shows "drop_bit (56 - 8 * b) (w AND drop_bit (8 * b) 0xff00000000000000) = take_bit 8 (drop_bit (56 - 8 * b) (w :: u64))"
proof -
  have "(0xff00000000000000 :: u64) = push_bit 56 (mask 8)" by (simp add: mask_eq_exp_minus_1)
  then have m: "bit (0xff00000000000000 :: u64) k \<longleftrightarrow> 56 \<le> k \<and> k < 64" for k
    by (simp only: bit_push_bit_iff bit_mask_iff) auto
  show ?thesis
  proof (rule bit_word_eqI)
    fix k
    have "8 * b + (56 - 8 * b + k) = 56 + k" using assms by simp
    then show "bit (drop_bit (56 - 8 * b) (w AND drop_bit (8 * b) 0xff00000000000000)) k \<longleftrightarrow> bit (take_bit 8 (drop_bit (56 - 8 * b) w)) k"
      unfolding bit_drop_bit_eq comp_def bit_and_iff bit_take_bit_iff m by (simp only:) auto
  qed
qed

lemma unat_take_drop: "unat (take_bit 8 (drop_bit k (w :: u64))) = unat w div 2 ^ k mod 256"
proof -
  have "unat (take_bit 8 (drop_bit k w)) = take_bit 8 (unat (drop_bit k w))" by (simp only: unsigned_take_bit_eq)
  then show ?thesis by (simp add: take_bit_eq_mod unat_drop)
qed

lemma byte_bits:
  assumes "c < 4" "t + 8 \<le> 64"
  shows "take_bit 8 (drop_bit (64 * c + t) (uval x)) = take_bit 8 (drop_bit t (unat (limbs x ! c)))"
proof (rule bit_eqI)
  fix k :: nat
  have "(64 * c + t + k) div 64 = c \<and> (64 * c + t + k) mod 64 = t + k \<and> 64 * c + t + k < 256" if "k < 8"
  proof -
    have l: "t + k < 64" using assms(2) that by simp
    have e: "64 * c + t + k = 64 * c + (t + k)" by simp
    show ?thesis unfolding e using part_limb [OF l, of c] l assms(1) by simp
  qed
  then show "bit (take_bit 8 (drop_bit (64 * c + t) (uval x))) k \<longleftrightarrow> bit (take_bit 8 (drop_bit t (unat (limbs x ! c)))) k"
    unfolding bit_take_bit_iff bit_drop_bit_eq comp_def bit_uval by (auto simp: bit_unsigned_iff)
qed

lemma byte_of_value:
  assumes "a < 4" "b < 8"
  shows "uval x div 2 ^ (8 * (31 - (8 * a + b))) mod 256 = unat (limbs x ! (3 - a)) div 2 ^ (56 - 8 * b) mod 256"
proof -
  have e: "8 * (31 - (8 * a + b)) = 64 * (3 - a) + (56 - 8 * b)" using assms by linarith
  have "take_bit 8 (drop_bit (64 * (3 - a) + (56 - 8 * b)) (uval x)) = take_bit 8 (drop_bit (56 - 8 * b) (unat (limbs x ! (3 - a))))"
    by (rule byte_bits) (use assms in linarith)+
  then show ?thesis unfolding e by (simp add: take_bit_eq_mod drop_bit_eq_div)
qed

lemma low_bits: "unat (w AND (7 :: u64)) = unat w mod 8"
proof -
  have "w AND 7 = take_bit 3 w" by (simp add: take_bit_eq_mask mask_eq_exp_minus_1)
  then have "unat (w AND 7) = take_bit 3 (unat w)" by (simp only: unsigned_take_bit_eq)
  then show ?thesis by (simp add: take_bit_eq_mod)
qed

lemma byte_offset: "unat (push_bit 3 (w AND (0x7 :: u64))) = 8 * (unat w mod 8)"
proof -
  have "unat w mod 8 * 2 ^ 3 < 2 ^ 64" using mod_less_divisor [of 8 "unat w"] by simp
  then have "unat w mod 8 * 2 ^ 3 mod 2 ^ 64 = unat w mod 8 * 2 ^ 3" by (rule mod_less)
  then show ?thesis by (simp only: unat_push low_bits) simp
qed

lemma byte_limb: "w < 32 \<Longrightarrow> unat (4 - 1 - w div (8 :: u64)) = 3 - unat w div 8"
  by (simp add: unat_sub word_le_nat_alt word_less_nat_alt unat_div)

lemma Int_Byte_spec: "\<exists>z. Int_Byte x n = Some z \<and> uval z = (if uval n < 32 then uval x div 2 ^ (8 * (31 - uval n)) mod 256 else 0)"
proof (cases "uval n < 32")
  case True
  then have o: "(limb1 n OR limb2 n OR limb3 n) = 0" "unat (limb0 n) = uval n"
    using Int_IsUint64_iff [of n] Int_Uint64_small [of n] by (simp_all add: Int_IsUint64_def Int_Uint64_def)
  define a b where "a = uval n div 8" "b = uval n mod 8"
  have ab: "a < 4" "b < 8" "uval n = 8 * a + b" using True by (simp_all add: a_b_def)
  have lt: "limb0 n < 32" using True o(2) by (simp add: word_less_nat_alt)
  note i = byte_limb [OF lt, unfolded o(2), folded a_b_def] and f = byte_offset [of "limb0 n", unfolded o(2), folded a_b_def]
  have ix: "idx (limbs x) (3 - a) = Some (limbs x ! (3 - a))" by (simp add: idx_def limbs_def)
  have "Int_Byte x n = Some (U256 (take_bit 8 (drop_bit (56 - 8 * b) (limbs x ! (3 - a)))) 0 0 0)"
    by (simp only: Int_Byte_def Int_Uint64WithOverflow_def Let_def prod.case i f ix o(1) byte_of_limb [OF ab(2)] lt bind.bind_lunit
        if_True simp_thms)
  moreover have "uval (U256 (take_bit 8 (drop_bit (56 - 8 * b) (limbs x ! (3 - a)))) 0 0 0) = uval x div 2 ^ (8 * (31 - uval n)) mod 256"
    unfolding ab(3) byte_of_value [OF ab(1,2)] unat_take_drop [symmetric] by (simp only: uval_def U256.sel unsigned_0 mult_0 add_0_right)
  ultimately show ?thesis using True by (simp only: option.inject if_True) blast
next
  case False
  then have "\<not> ((limb1 n OR limb2 n OR limb3 n) = 0 \<and> limb0 n < 32)"
    using Int_IsUint64_iff [of n] Int_Uint64_small [of n] by (auto simp: Int_IsUint64_def Int_Uint64_def word_less_nat_alt)
  then show ?thesis using False by (auto simp: Int_Byte_def Int_Uint64WithOverflow_def)
qed

section \<open>Sign extension\<close>

text \<open>\<^verbatim>\<open>SubUint64\<close> with the receiver as its argument.\<close>

lemma uval_SubUint64:
  assumes "unat y \<le> uval x"
  shows "uval (Int_SubUint64 x x y) = uval x - unat y"
proof -
  obtain z0 c0 where a0: "bits_Sub64 (limb0 x) y 0 = (z0, c0)" by force
  obtain z1 c1 where a1: "bits_Sub64 (limb1 x) 0 c0 = (z1, c1)" by force
  obtain z2 c2 where a2: "bits_Sub64 (limb2 x) 0 c1 = (z2, c2)" by force
  have z: "unat (0 :: u64) \<le> 1" by simp
  note s0 = bits_Sub64_spec [OF a0 z]
  note s1 = bits_Sub64_spec [OF a1 s0(2)]
  note s2 = bits_Sub64_spec [OF a2 s1(2)]
  note c = unat_carry [OF s0(2)] unat_carry [OF s1(2)] unat_carry [OF s2(2)]
  have t: "unat (limb3 x - 1) = unat (limb3 x) - 1" "0 < unat (limb3 x)" if "c0 \<noteq> 0" "c1 \<noteq> 0" "c2 \<noteq> 0"
  proof -
    have "0 < unat (limb3 x)"
      using assms s0 s1 s2 c that unat_u64_less [of z0] unat_u64_less [of z1] unat_u64_less [of z2] by (intro gr0I) (simp add: uval_def)
    then show "unat (limb3 x - 1) = unat (limb3 x) - 1" "0 < unat (limb3 x)" by (simp_all add: unat_sub word_le_nat_alt Suc_leI)
  qed
  show ?thesis
    using s0 s1 s2 c t assms by (auto simp: Int_SubUint64_def a0 a1 a2 uval_def split: if_splits)
qed

lemma Int_isBitSet_bit: "n < 256 \<Longrightarrow> Int_isBitSet x n = Some (bit (uval x) n)"
proof -
  assume n: "n < 256"
  then have "idx (limbs x) (n div 64) = Some (limbs x ! (n div 64))" by (simp add: idx_def limbs_def less_mult_imp_div_less)
  then show ?thesis using n by (simp only: Int_isBitSet_def bind.bind_lunit and_1_shl bit_uval not_not simp_thms)
qed

lemma bit_not: "bit (uval (Int_Not z)) i \<longleftrightarrow> i < 256 \<and> \<not> bit (uval z) i"
  by (auto simp: bit_uval limbs_bitwise [OF limb_cases] bit_not_iff)

lemma uval_mask:
  assumes "t < 256"
  shows "uval (Int_SubUint64 (Int_Lsh Int_SetOne t) (Int_Lsh Int_SetOne t) 1) = mask t"
proof -
  have "(2 :: nat) ^ t < 2 ^ 256" using assms by (rule power_strict_increasing) simp
  then have "uval (Int_Lsh Int_SetOne t) = 2 ^ t" by (simp only: uval_Lsh uval_consts mult_1 mod_less)
  then show ?thesis by (simp add: uval_SubUint64 mask_eq_exp_minus_1)
qed

lemma extend_bits:
  assumes "t < 256" "uval m = mask t"
  shows "int (uval (if bit (uval x) t then Int_Or x (Int_Not m) else Int_And x m)) = take_bit 256 (signed_take_bit t (int (uval x)))"
proof (rule bit_eqI)
  fix i
  have x: "bit (uval x) j \<Longrightarrow> j < 256" for j by (simp add: bit_uval)
  show "bit (int (uval (if bit (uval x) t then Int_Or x (Int_Not m) else Int_And x m))) i \<longleftrightarrow> bit (take_bit 256 (signed_take_bit t (int (uval x)))) i"
    using assms x [of i]
    by (cases "i < t") (auto simp: bit_take_bit_iff bit_signed_take_bit_iff bit_of_nat_iff uval_bitwise bit_or_iff bit_and_iff bit_not bit_mask_iff min_def)
qed

lemma Int_ExtendSign_spec:
  "\<exists>z. Int_ExtendSign x k = Some z \<and>
    int (uval z) = (if uval k < 32 then signed_take_bit (8 * uval k + 7) (int (uval x)) mod 2 ^ 256 else int (uval x))"
proof -
  have g: "Int_GtUint64 k 31 \<longleftrightarrow> \<not> uval k < 32"
  proof (cases "uval k < 2 ^ 64")
    case True
    then show ?thesis using Int_IsUint64_iff [of k] Int_Uint64_small [of k]
      by (auto simp: Int_GtUint64_def Int_IsUint64_def Int_Uint64_def word_less_nat_alt)
  next
    case False
    then show ?thesis using Int_IsUint64_iff [of k] by (auto simp: Int_GtUint64_def Int_IsUint64_def)
  qed
  show ?thesis
  proof (cases "uval k < 32")
    case True
    then have u: "unat (Int_Uint64 k) = uval k" by (intro Int_Uint64_small) simp
    have t: "unat (Int_Uint64 k * 8 + 7) = 8 * uval k + 7" using True u by (simp add: unat_word_ariths)
    have lt: "8 * uval k + 7 < 256" using True by simp
    let ?m = "Int_SubUint64 (Int_Lsh Int_SetOne (8 * uval k + 7)) (Int_Lsh Int_SetOne (8 * uval k + 7)) 1"
    have "Int_ExtendSign x k = Some (if bit (uval x) (8 * uval k + 7) then Int_Or x (Int_Not ?m) else Int_And x ?m)"
      using True by (simp only: Int_ExtendSign_def g Let_def t Int_isBitSet_bit [OF lt] bind.bind_lunit if_False simp_thms)
    moreover note extend_bits [OF lt uval_mask [OF lt], of x, unfolded take_bit_eq_mod]
    ultimately show ?thesis using True by (simp only: option.inject if_True) blast
  next
    case False
    then show ?thesis by (simp add: Int_ExtendSign_def g)
  qed
qed

end
