(* ===== verification/Uint256_Div.thy ===== *)
theory Uint256_Div
  imports Uint256_Knuth Uint256_Bits
begin

text \<open>
  The operations of \<^verbatim>\<open>uint256.go\<close> that divide: normalisation, \<^verbatim>\<open>udivrem\<close>, and \<^verbatim>\<open>Div\<close>,
  \<^verbatim>\<open>Mod\<close>, \<^verbatim>\<open>AddMod\<close>, \<^verbatim>\<open>MulMod\<close>, \<^verbatim>\<open>SDiv\<close>, \<^verbatim>\<open>SMod\<close> built on it compute the quotient and the remainder
  of the values.  Every index the code uses is in range and \<^verbatim>\<open>bits.Div64\<close> never overflows, so none of them panics.
\<close>

section \<open>Normalisation\<close>

lemma shl_words_snoc:
  "xs \<noteq> [] \<Longrightarrow> shl_words s (xs @ [x]) = shl_words s xs @ [push_bit s x OR drop_bit (64 - s) (last xs)]"
  by (auto simp: shl_words_def nth_append last_conv_nth)

lemma shl_words_val:
  assumes "s \<le> 64" "l \<noteq> []"
  shows "wval (shl_words s l) + (2 ^ 64) ^ length l * (unat (last l) div 2 ^ (64 - s)) = wval l * 2 ^ s \<and> length (shl_words s l) = length l"
  using assms(2)
proof (induction l rule: rev_induct)
  case (snoc x xs)
  show ?case
  proof (cases "xs = []")
    case True
    then show ?thesis using shl_limb0 [OF assms(1), of x] by (simp add: shl_words_def)
  next
    case False
    let ?b = "(2 ^ 64) ^ length xs :: nat" and ?c = "unat (last xs) div 2 ^ (64 - s)"
    have "?b * (unat (push_bit s x OR drop_bit (64 - s) (last xs)) + 2 ^ 64 * (unat x div 2 ^ (64 - s))) = ?b * (unat x * 2 ^ s + ?c)"
      using shl_limb [OF assms(1), of x "last xs"] by (simp only:)
    moreover have "wval (shl_words s xs) + ?b * ?c = wval xs * 2 ^ s" "length (shl_words s xs) = length xs" using snoc.IH False by blast+
    ultimately show ?thesis using False by (simp add: shl_words_snoc wval_append algebra_simps)
  qed
qed simp

fun shr_words :: "nat \<Rightarrow> u64 list \<Rightarrow> u64 list" where
  "shr_words s [] = []"
| "shr_words s [x] = [drop_bit s x]"
| "shr_words s (x # y # r) = (drop_bit s x OR push_bit (64 - s) y) # shr_words s (y # r)"

lemma shr_words_length [simp]: "length (shr_words s l) = length l"
  by (induction s l rule: shr_words.induct) auto

lemma shr_words_val:
  assumes "s \<le> 64" "l \<noteq> []"
  shows "2 ^ s * wval (shr_words s l) + unat (hd l) mod 2 ^ s = wval l"
  using assms
proof (induction s l rule: shr_words.induct)
  case (2 s x)
  then show ?case using shr_limb3 [of s x] by simp
next
  case (3 s x y r)
  then have IH: "2 ^ s * wval (shr_words s (y # r)) + unat y mod 2 ^ s = wval (y # r)" by simp
  have l: "2 ^ s * unat (drop_bit s x OR push_bit (64 - s) y) + unat x mod 2 ^ s = unat x + 2 ^ 64 * (unat y mod 2 ^ s)"
    using 3 by (intro shr_limb)
  have "2 ^ s * wval (shr_words s (x # y # r)) + unat x mod 2 ^ s =
      2 ^ s * unat (drop_bit s x OR push_bit (64 - s) y) + unat x mod 2 ^ s + 2 ^ 64 * (2 ^ s * wval (shr_words s (y # r)))"
    by (simp add: algebra_simps)
  also have "\<dots> = unat x + 2 ^ 64 * (2 ^ s * wval (shr_words s (y # r)) + unat y mod 2 ^ s)" unfolding l by (simp only: algebra_simps)
  finally show ?case unfolding IH by simp
qed simp

lemma shr_words_nth:
  "i < length l \<Longrightarrow> shr_words s l ! i = (if i < length l - 1 then drop_bit s (l ! i) OR push_bit (64 - s) (l ! (i + 1)) else drop_bit s (l ! i))"
proof (induction s l arbitrary: i rule: shr_words.induct)
  case (3 s x y r)
  then show ?case by (cases i) auto
qed auto

lemma sig_len_spec:
  "sig_len l \<le> length l" "wval (take (sig_len l) l) = wval l" "0 < sig_len l \<Longrightarrow> l ! (sig_len l - 1) \<noteq> 0"
proof -
  have "sig_len l \<le> length l \<and> wval (take (sig_len l) l) = wval l \<and> (0 < sig_len l \<longrightarrow> l ! (sig_len l - 1) \<noteq> 0)"
  proof (induction l rule: rev_induct)
    case (snoc x xs)
    have "sig_len (xs @ [x]) = (if x = 0 then sig_len xs else Suc (length xs))" by (simp add: sig_len_def)
    then show ?case using snoc by (auto simp: wval_append nth_append)
  qed (simp add: sig_len_def)
  then show "sig_len l \<le> length l" "wval (take (sig_len l) l) = wval l" "0 < sig_len l \<Longrightarrow> l ! (sig_len l - 1) \<noteq> 0" by blast+
qed

lemma leading_zeros:
  assumes "x \<noteq> 0"
  shows "bits_LeadingZeros64 x < 64" "2 ^ 63 \<le> unat x * 2 ^ bits_LeadingZeros64 x" "unat x < 2 ^ (64 - bits_LeadingZeros64 x)"
proof -
  have l: "unat x < 2 ^ bits_Len64 x" "bits_Len64 x \<le> 64" "0 < bits_Len64 x" using Len64_bounds [of x] assms by simp_all
  show "bits_LeadingZeros64 x < 64" "unat x < 2 ^ (64 - bits_LeadingZeros64 x)" using l by (simp_all add: bits_LeadingZeros64_def)
  have "2 ^ (bits_Len64 x - 1) \<le> unat x" 
  proof (rule ccontr)
    assume "\<not> 2 ^ (bits_Len64 x - 1) \<le> unat x"
    then have "nat_len (unat x) \<le> bits_Len64 x - 1" by (intro nat_len_le) simp
    then show False using l(3) by (simp add: bits_Len64_def)
  qed
  then have "2 ^ (bits_Len64 x - 1) * 2 ^ bits_LeadingZeros64 x \<le> unat x * 2 ^ bits_LeadingZeros64 x" by (rule mult_le_mono1)
  moreover have "bits_Len64 x - 1 + bits_LeadingZeros64 x = 63" using l by (simp add: bits_LeadingZeros64_def)
  ultimately show "2 ^ 63 \<le> unat x * 2 ^ bits_LeadingZeros64 x" by (simp only: power_add [symmetric])
qed

lemma wval_limbs: "wval (limbs z) = uval z"
  by (simp add: limbs_def uval_def)

lemma uval_of_limbs: "length l = 4 \<Longrightarrow> uval (of_limbs l) = wval l"
proof -
  assume "length l = 4"
  then obtain a b c d where "l = [a, b, c, d]" by (auto simp: eval_nat_numeral length_Suc_conv)
  then show ?thesis by (simp add: of_limbs_def uval_def)
qed

lemma wval_top:
  assumes "l \<noteq> []"
  shows "(2 ^ 64) ^ (length l - 1) * unat (last l) \<le> wval l" "wval l < (2 ^ 64) ^ (length l - 1) * (unat (last l) + 1)"
proof -
  have "butlast l @ [last l] = l" using assms by simp
  then have "wval l = wval (butlast l) + (2 ^ 64) ^ (length l - 1) * unat (last l)"
    using wval_append [of "butlast l" "[last l]"] by simp
  moreover have "wval (butlast l) < (2 ^ 64) ^ (length l - 1)" using wval_less [of "butlast l"] by simp
  ultimately show "(2 ^ 64) ^ (length l - 1) * unat (last l) \<le> wval l" "wval l < (2 ^ 64) ^ (length l - 1) * (unat (last l) + 1)"
    unfolding distrib_left mult_1_right by linarith+
qed

text \<open>The divisor, shifted until its top bit is set.\<close>

lemma normal_divisor:
  assumes "l \<noteq> []" "last l \<noteq> 0" "s = bits_LeadingZeros64 (last l)"
  shows "wval (shl_words s l) = wval l * 2 ^ s" "length (shl_words s l) = length l" "2 ^ 63 \<le> unat (last (shl_words s l))" "s < 64"
proof -
  note z = leading_zeros [OF assms(2), folded assms(3)]
  have "unat (last l) div 2 ^ (64 - s) = 0" using z(3) by (rule div_less)
  then show w: "wval (shl_words s l) = wval l * 2 ^ s" and len: "length (shl_words s l) = length l" and "s < 64"
    using shl_words_val [of s l] z(1) assms(1) by simp_all
  have ne: "shl_words s l \<noteq> []" using len assms(1) by auto
  have "(2 ^ 64) ^ (length l - 1) * 2 ^ 63 \<le> (2 ^ 64) ^ (length l - 1) * (unat (last l) * 2 ^ s)" using z(2) by (rule mult_le_mono2)
  also have "\<dots> \<le> wval l * 2 ^ s" using wval_top(1) [OF assms(1)] unfolding mult.assoc [symmetric] by (rule mult_le_mono1)
  also have "\<dots> < (2 ^ 64) ^ (length l - 1) * (unat (last (shl_words s l)) + 1)"
    using wval_top(2) [OF ne] by (simp only: len w)
  finally have "2 ^ 63 < unat (last (shl_words s l)) + 1" by (rule mult_less_cancel1 [THEN iffD1, THEN conjunct2])
  then show "2 ^ 63 \<le> unat (last (shl_words s l))" by simp
qed

text \<open>The dividend, shifted by the same amount into one more limb.\<close>

lemma normal_dividend:
  assumes "l \<noteq> []" "s < 64"
  shows "wval (shl_words s l @ [drop_bit (64 - s) (last l)]) = wval l * 2 ^ s" "unat (drop_bit (64 - s) (last l)) < 2 ^ 63"
proof -
  show "wval (shl_words s l @ [drop_bit (64 - s) (last l)]) = wval l * 2 ^ s"
    using shl_words_val [of s l] assms by (simp add: wval_append unat_drop)
  have "unat (last l) < 2 ^ s * 2 ^ (64 - s)" using unat_u64_less [of "last l"] assms(2) by (simp flip: power_add)
  then have "unat (last l) div 2 ^ (64 - s) < 2 ^ s" by (rule less_mult_imp_div_less)
  also have "(2 :: nat) ^ s \<le> 2 ^ 63" using assms(2) by (intro power_increasing) simp_all
  finally show "unat (drop_bit (64 - s) (last l)) < 2 ^ 63" by (simp only: unat_drop)
qed

lemma shifted_div: "0 < d \<Longrightarrow> (u * 2 ^ s) div (d * 2 ^ s) = u div d \<and> (u * 2 ^ s) mod (d * 2 ^ s) = (u mod d) * (2 :: nat) ^ s"
  by simp

lemma last_take: "0 < n \<Longrightarrow> n \<le> length l \<Longrightarrow> last (take n l) = l ! (n - 1)"
  by (subst last_conv_nth) (auto simp: min_def)

lemma shr_words_div:
  assumes "s < 64" "l \<noteq> []" "wval l = r * 2 ^ s"
  shows "wval (shr_words s l) = r"
proof -
  have "wval l div 2 ^ s = wval (shr_words s l)" by (rule div_of_digits [OF shr_words_val]) (use assms in simp_all)
  then show ?thesis by (simp add: assms(3))
qed

section \<open>Division of any two numbers\<close>

lemma udivremBy1_spec:
  assumes d: "2 ^ 63 \<le> unat d" and u: "u \<noteq> []" "unat (last u) < unat d" "length u \<le> Suc (length quot)"
  shows "\<exists>quot' r. udivremBy1 quot u d = Some (quot', r) \<and> length quot' = length quot \<and> drop (length u - 1) quot' = drop (length u - 1) quot \<and>
    wval (take (length u - 1) quot') = wval u div unat d \<and> unat r = wval u mod unat d"
proof -
  obtain v where v: "reciprocal2by1 d = Some v" using reciprocal_spec [OF d] by blast
  let ?k = "length u - 1"
  have l: "last u = u ! ?k" "?k < length u" using u(1) by (simp_all add: last_conv_nth)
  have "wval u = wval (take ?k u) + (2 ^ 64) ^ ?k * unat (u ! ?k)" using wval_take_Suc [OF l(2)] u(1) by simp
  then show ?thesis
    using udivremBy1_loop_spec [OF d v, of "u ! ?k" ?k u quot] u l
    by (simp add: udivremBy1_def v idx_def word_less_nat_alt)
qed

lemma udivremKnuth_spec:
  assumes d: "2 \<le> length d" "2 ^ 63 \<le> unat (last d)" and k: "length u = k + length d" "k \<le> length quot" and V: "wval u < (2 ^ 64) ^ k * wval d"
  shows "\<exists>quot' u'. udivremKnuth quot u d = Some (quot', u') \<and> length quot' = length quot \<and> drop k quot' = drop k quot \<and>
    length u' = length u \<and> wval (take k quot') = wval u div wval d \<and> wval (take (length d) u') = wval u mod wval d"
proof -
  have l: "last d = d ! (length d - 1)" using d(1) by (intro last_conv_nth) auto
  obtain v where v: "reciprocal2by1 (last d) = Some v" using reciprocal_spec [OF d(2)] by blast
  have "length d - 1 < length d" using d(1) by linarith
  then have "udivremKnuth quot u d = udivremKnuth_loop k quot u d v" using d(1) k(1) v [unfolded l] by (simp add: udivremKnuth_def idx_def)
  moreover have "take (k + length d) u = u" using k(1) by simp
  ultimately show ?thesis using udivremKnuth_loop_spec [OF d(1) d(2) [unfolded l] v [unfolded l], of k u quot] k V by simp
qed

lemma rem_words:
  assumes "n \<le> length un" "0 < n" "n \<le> 4"
  shows "map (\<lambda>i. if i < n - 1 then drop_bit s (un ! i) OR push_bit (64 - s) (un ! (i + 1))
      else if i = n - 1 then drop_bit s (un ! i) else 0) [0..<4] = shr_words s (take n un) @ replicate (4 - n) 0"
  by (rule nth_equalityI) (use assms in \<open>auto simp: nth_append shr_words_nth min_def\<close>)

lemma wval_zeros [simp]: "wval (replicate n 0) = 0"
  by (induction n) simp_all

lemma wval_quot: "length q = n \<Longrightarrow> drop k q = drop k (replicate n 0) \<Longrightarrow> k \<le> n \<Longrightarrow> wval q = wval (take k q)"
  using wval_split [of k q] by (simp only: drop_replicate wval_zeros)

lemma small_shift:
  assumes "wval dn = D * 2 ^ s" "0 < D" "length dn = 1" "wval un = U * 2 ^ s" "2 ^ 63 \<le> unat (last dn)"
    "un \<noteq> []" "unat (last un) < 2 ^ 63" "length un \<le> Suc n"
  shows "\<exists>quot' r. udivremBy1 (replicate n 0) un (dn ! 0) = Some (quot', r) \<and> length quot' = n \<and> wval quot' = U div D \<and>
    unat (drop_bit s r) = U mod D"
proof -
  have d: "last dn = dn ! 0" "unat (dn ! 0) = D * 2 ^ s" using assms(1,3) by (cases dn; simp)+
  obtain quot' r where r: "udivremBy1 (replicate n 0) un (dn ! 0) = Some (quot', r)" "length quot' = n"
      "drop (length un - 1) quot' = drop (length un - 1) (replicate n 0)" "wval (take (length un - 1) quot') = wval un div unat (dn ! 0)"
      "unat r = wval un mod unat (dn ! 0)"
    using udivremBy1_spec [of "dn ! 0" un "replicate n 0"] assms(5-8) d(1) by auto
  have "wval quot' = wval (take (length un - 1) quot')" using assms(8) by (intro wval_quot [OF r(2,3)]) simp
  then show ?thesis using r(1,2,4,5) shifted_div [OF assms(2), of U s] by (simp add: assms(4) d(2) unat_drop)
qed

lemma large_shift:
  assumes "wval dn = D * 2 ^ s" "0 < D" "2 \<le> length dn" "length dn \<le> 4" "wval un = U * 2 ^ s" "2 ^ 63 \<le> unat (last dn)" "s < 64"
    "length un = k + length dn" "k \<le> n" "U < (2 ^ 64) ^ (k + length dn - 1)"
  shows "\<exists>quot' un'. udivremKnuth (replicate n 0) un dn = Some (quot', un') \<and> length quot' = n \<and> wval quot' = U div D \<and> length un' = length un \<and>
    uval (of_limbs (map (\<lambda>i. if i < length dn - 1 then drop_bit s (un' ! i) OR push_bit (64 - s) (un' ! (i + 1))
      else if i = length dn - 1 then drop_bit s (un' ! i) else 0) [0..<4])) = U mod D"
proof -
  let ?m = "k + length dn - 1"
  have "wval un < (2 ^ 64) ^ ?m * 2 ^ s" unfolding assms(5) using assms(10) by (intro mult_strict_right_mono) simp_all
  also have "\<dots> \<le> (2 ^ 64) ^ ?m * 2 ^ 63" using assms(7) by (intro mult_le_mono2 power_increasing) simp_all
  also have "\<dots> = (2 ^ 64) ^ k * ((2 ^ 64) ^ (length dn - 1) * 2 ^ 63)" using assms(3) by (simp add: power_add [symmetric] mult.assoc [symmetric])
  also have "\<dots> \<le> (2 ^ 64) ^ k * ((2 ^ 64) ^ (length dn - 1) * unat (last dn))" using assms(6) by (intro mult_le_mono2)
  also have "\<dots> \<le> (2 ^ 64) ^ k * wval dn" using wval_top(1) [of dn] assms(3) by (intro mult_le_mono2) fastforce
  finally obtain quot' un' where r: "udivremKnuth (replicate n 0) un dn = Some (quot', un')" "length quot' = n" "drop k quot' = drop k (replicate n 0)"
      "length un' = length un" "wval (take k quot') = wval un div wval dn" "wval (take (length dn) un') = wval un mod wval dn"
    using udivremKnuth_spec [OF assms(3,6,8), of "replicate n 0"] assms(9) by auto
  have "wval quot' = U div D" using wval_quot [OF r(2,3) assms(9)] r(5) shifted_div [OF assms(2), of U s] by (simp only: assms(1,5))
  moreover have "wval (take (length dn) un') = (U mod D) * 2 ^ s" using r(6) shifted_div [OF assms(2), of U s] by (simp only: assms(1,5))
  then have "wval (shr_words s (take (length dn) un')) = U mod D" using assms(3,7,8) r(4) by (intro shr_words_div) auto
  moreover have "length dn \<le> length un'" "0 < length dn" using r(4) assms(3,8) by linarith+
  note w = rem_words [OF this assms(4), of s]
  have "length (shr_words s (take (length dn) un') @ replicate (4 - length dn) 0) = 4" using r(4) assms(4,8) by simp
  note l = uval_of_limbs [OF this]
  ultimately have "uval (of_limbs (map (\<lambda>i. if i < length dn - 1 then drop_bit s (un' ! i) OR push_bit (64 - s) (un' ! (i + 1))
      else if i = length dn - 1 then drop_bit s (un' ! i) else 0) [0..<4])) = U mod D" unfolding w l by (simp add: wval_append)
  then show ?thesis using r(1,2,4) \<open>wval quot' = U div D\<close> by blast
qed

text \<open>The dividends the nine words of storage hold.\<close>

lemma sig_len_bound: "sig_len u \<le> 8 \<longleftrightarrow> wval u < 2 ^ 512"
proof
  assume "sig_len u \<le> 8"
  then have "(2 ^ 64) ^ length (take (sig_len u) u) \<le> ((2 ^ 64) ^ 8 :: nat)" by (intro power_increasing) simp_all
  then show "wval u < 2 ^ 512" using wval_less [of "take (sig_len u) u"] unfolding sig_len_spec(2) by simp
next
  assume less: "wval u < 2 ^ 512"
  show "sig_len u \<le> 8"
  proof (rule ccontr)
    let ?t = "take (sig_len u) u"
    assume "\<not> sig_len u \<le> 8"
    moreover note len = sig_len_spec(1) [of u]
    ultimately have t: "?t \<noteq> []" "8 \<le> length ?t - 1" "last ?t \<noteq> 0"
      using sig_len_spec(3) [of u] by (auto simp: last_take)
    have "2 ^ 512 = ((2 ^ 64) ^ 8 * 1 :: nat)" by simp
    also have "\<dots> \<le> (2 ^ 64) ^ (length ?t - 1) * unat (last ?t)"
      using t by (intro mult_le_mono power_increasing) (simp_all add: unat_gt_0 Suc_leI)
    also have "\<dots> \<le> wval u" using wval_top(1) [OF t(1)] unfolding sig_len_spec(2) .
    finally show False using less by simp
  qed
qed

lemma wval_short: "length u \<le> 8 \<Longrightarrow> wval u < 2 ^ 512"
  using sig_len_bound [of u] sig_len_spec(1) [of u] by simp

lemma udivrem_too_long: "2 ^ 512 \<le> wval u \<Longrightarrow> udivrem quot u d = None"
  using sig_len_bound [of u] by (simp add: udivrem_def Let_def)

lemma udivrem_spec:
  assumes D: "0 < uval d" "uval d \<le> wval u" and n: "length u \<le> n" and w: "wval u < 2 ^ 512"
  shows "\<exists>r quot'. udivrem (replicate n 0) u d = Some (r, quot') \<and> uval r = wval u mod uval d \<and>
    length quot' = n \<and> wval quot' = wval u div uval d"
proof -
  define dl ul where "dl = sig_len (limbs d)" "ul = sig_len u"
  define dd uu where "dd = take dl (limbs d)" "uu = take ul u"
  define s where "s = bits_LeadingZeros64 (limbs d ! (dl - 1))"
  define dn un where "dn = shl_words s dd" "un = shl_words s uu @ [drop_bit (64 - s) (u ! (ul - 1))]"
  note defs = dl_ul_def dd_uu_def
  have vd: "wval dd = uval d" "wval uu = wval u" "ul \<le> length u" "dl \<le> 4"
    using sig_len_spec(1,2) [of "limbs d"] sig_len_spec(1,2) [of u] by (simp_all add: defs wval_limbs) (simp add: limbs_def)
  have pos: "0 < dl" "0 < ul" using vd(1,2) D by (auto simp: dd_uu_def intro: gr0I)
  have len: "length dd = dl" "length uu = ul" using vd(3,4) by (simp_all add: dd_uu_def limbs_def)
  have ne: "dd \<noteq> []" "uu \<noteq> []" using len pos by auto
  have top: "last dd = limbs d ! (dl - 1)" "last uu = u ! (ul - 1)" unfolding dd_uu_def using pos vd(3,4) by (simp_all add: last_take limbs_def)
  have nz: "last dd \<noteq> 0" using sig_len_spec(3) [of "limbs d"] pos(1) unfolding top by (simp add: defs)
  note nd = normal_divisor [OF ne(1) nz s_def [folded top(1)], folded dn_un_def]
  note nu = normal_dividend [OF ne(2) nd(4), folded dn_un_def]
  have U: "wval un = wval u * 2 ^ s" "unat (last un) < 2 ^ 63" "length un = Suc ul" "un \<noteq> []"
    using nu len(2) shl_words_val [of s uu] ne(2) nd(4) vd(2) by (simp_all add: dn_un_def top)
  have dn: "wval dn = uval d * 2 ^ s" "length dn = dl" using nd(1,2) vd(1) len(1) by simp_all
  have ud: "udivrem (replicate n 0) u d = (if dl = 1 then do {
        (quot, r) \<leftarrow> udivremBy1 (replicate n 0) un (dn ! 0);
        Some (Int_SetUint64 (drop_bit s r), quot) }
      else do {
        (quot, un) \<leftarrow> udivremKnuth (replicate n 0) un dn;
        if dl > length un then None else Some (of_limbs (map (\<lambda>i. if i < dl - 1 then drop_bit s (un ! i) OR push_bit (64 - s) (un ! (i + 1))
          else if i = dl - 1 then drop_bit s (un ! i) else 0) [0..<4]), quot) })"
    unfolding udivrem_def Let_def dn_un_def s_def defs using pos [unfolded dl_ul_def] w [folded sig_len_bound] by simp
  have "(2 ^ 64) ^ (dl - 1) * 1 \<le> (2 ^ 64) ^ (dl - 1) * unat (last dd)" using nz by (intro mult_le_mono2) (simp add: unat_gt_0 Suc_leI)
  also have "\<dots> < (2 ^ 64) ^ ul" using wval_top(1) [OF ne(1)] wval_less [of uu] vd(1,2) len D(2) by simp
  finally have "dl - 1 < ul" by (simp add: power_strict_increasing_iff)
  then have k: "Suc ul = (Suc ul - dl) + dl" "Suc ul - dl \<le> n" "Suc ul - dl + dl - 1 = ul" using vd(3) n pos by linarith+
  show ?thesis
  proof (cases "dl = 1")
    case True
    then show ?thesis using small_shift [OF dn(1) D(1) _ U(1) nd(3) U(4,2), of n] U(3) vd(3) n dn(2) by (auto simp: ud)
  next
    case False
    have "wval u < (2 ^ 64) ^ (Suc ul - dl + dl - 1)" using wval_less [of uu] vd(2) len(2) k(3) by simp
    then show ?thesis
      using large_shift [OF dn(1) D(1) _ _ U(1) nd(3,4), of "Suc ul - dl" n] False pos(1) vd(4) k(1,2) U(3) dn(2) by (auto simp: ud)
  qed
qed

section \<open>The operations\<close>

lemma Int_Div_spec: "\<exists>z. Int_Div x y = Some z \<and> uval z = uval x div uval y"
proof -
  consider "uval y = 0 \<or> uval x < uval y" | "x = y" "uval y \<noteq> 0" | "uval y \<noteq> 0" "uval y < uval x" "uval x < 2 ^ 64"
    | "uval y \<noteq> 0" "uval y < uval x" "\<not> uval x < 2 ^ 64" using uval_inject [of x y] by linarith
  then show ?thesis
  proof cases
    case 3
    then have "uval y < 2 ^ 64" "x \<noteq> y" by auto
    with 3 show ?thesis
      by (simp add: Int_Div_def Int_IsZero_iff Int_Gt_iff Int_Eq_iff Int_IsUint64_iff unat_div Int_Uint64_small)
  next
    case 4
    then obtain r q where "udivrem (replicate 4 0) (limbs x) y = Some (r, q)" "length q = 4" "wval q = uval x div uval y"
      using udivrem_spec [of y "limbs x" 4] wval_short [of "limbs x"] by (auto simp: wval_limbs) (auto simp: limbs_def)
    then show ?thesis using 4
      by (auto simp: Int_Div_def Int_IsZero_iff Int_Gt_iff Int_Eq_iff Int_IsUint64_iff uval_of_limbs)
  qed (auto simp: Int_Div_def Int_IsZero_iff Int_Gt_iff Int_Eq_iff)
qed

lemma Int_Mod_spec: "\<exists>z. Int_Mod x y = Some z \<and> uval z = (if uval y = 0 then 0 else uval x mod uval y)"
proof -
  consider "uval x = 0 \<or> uval y = 0" | "uval x \<noteq> 0" "uval x < uval y" | "uval y \<noteq> 0" "x = y" | "uval y \<noteq> 0" "uval y < uval x" "uval x < 2 ^ 64"
    | "uval y \<noteq> 0" "uval y < uval x" "\<not> uval x < 2 ^ 64" using uval_inject [of x y] by linarith
  then show ?thesis
  proof cases
    case 4
    then have "uval y < 2 ^ 64" by simp
    with 4 show ?thesis by (simp add: Int_Mod_def Int_IsZero_iff Int_Cmp_eq Int_IsUint64_iff unat_mod Int_Uint64_small)
  next
    case 5
    then obtain r q where "udivrem (replicate 4 0) (limbs x) y = Some (r, q)" "uval r = uval x mod uval y"
      using udivrem_spec [of y "limbs x" 4] wval_short [of "limbs x"] by (auto simp: wval_limbs) (auto simp: limbs_def)
    then show ?thesis using 5 by (auto simp: Int_Mod_def Int_IsZero_iff Int_Cmp_eq Int_IsUint64_iff)
  qed (auto simp: Int_Mod_def Int_IsZero_iff Int_Cmp_eq)
qed

lemma Int_AddMod_spec: "\<exists>z. Int_AddMod x y m = Some z \<and> uval z = (if uval m = 0 then 0 else (uval x + uval y) mod uval m)"
proof -
  obtain z ov where z: "Int_AddOverflow x y = (z, ov)" by force
  have s: "uval z + 2 ^ 256 * (if ov then 1 else 0) = uval x + uval y" using Int_AddOverflow_spec [of x y] by (simp add: z)
  show ?thesis
  proof (cases "uval m = 0 \<or> \<not> ov")
    case True
    then show ?thesis using s Int_Mod_spec [of z m] by (auto simp: Int_AddMod_def Int_IsZero_iff z)
  next
    case False
    have w: "wval (limbs z @ [1]) = uval x + uval y" using s False by (simp add: limbs_def uval_def)
    have "uval m \<le> wval (limbs z @ [1])" unfolding w using s False uval_less [of m] by simp
    then obtain r q where "udivrem (replicate 5 0) (limbs z @ [1]) m = Some (r, q)" "uval r = (uval x + uval y) mod uval m"
      using udivrem_spec [of m "limbs z @ [1]" 5] wval_short [of "limbs z @ [1]"] False unfolding w by (auto simp: limbs_def)
    then show ?thesis using False by (auto simp: Int_AddMod_def Int_IsZero_iff z)
  qed
qed

lemma Int_MulMod_spec: "\<exists>z. Int_MulMod x y m = Some z \<and> uval z = (if uval m = 0 then 0 else (uval x * uval y) mod uval m)"
proof (cases "uval x = 0 \<or> uval y = 0 \<or> uval m = 0")
  case False
  let ?p = "umul x y"
  note p = umul_spec [of x y]
  define pl ph where "pl = of_limbs (take 4 ?p)" "ph = of_limbs (drop 4 ?p)"
  have "uval pl = wval (take 4 ?p)" "uval ph = wval (drop 4 ?p)" using p(2) by (simp_all add: pl_ph_def uval_of_limbs)
  then have s: "uval pl + 2 ^ 256 * uval ph = uval x * uval y" using wval_split [of 4 ?p] p by simp
  show ?thesis
  proof (cases "uval ph = 0")
    case True
    then show ?thesis using False s Int_Mod_spec [of pl m] by (auto simp: Int_MulMod_def Int_IsZero_iff Let_def pl_ph_def [symmetric])
  next
    case ph: False
    have "2 ^ 256 * 1 \<le> 2 ^ 256 * uval ph" using ph by (intro mult_le_mono2) simp
    then have "uval m \<le> wval ?p" unfolding p(1) using s uval_less [of m] by linarith
    then obtain r q where "udivrem (replicate 8 0) ?p m = Some (r, q)" "uval r = (uval x * uval y) mod uval m"
      using udivrem_spec [of m ?p 8] wval_short [of ?p] False p by auto
    then show ?thesis using False ph by (auto simp: Int_MulMod_def Int_IsZero_iff Let_def pl_ph_def [symmetric])
  qed
qed (auto simp: Int_MulMod_def Int_IsZero_iff)

subsection \<open>Signed division\<close>

text \<open>Division that truncates towards zero, and its remainder with the sign of the dividend.\<close>

definition trunc_div :: "int \<Rightarrow> int \<Rightarrow> int" where
  "trunc_div a b = sgn a * sgn b * (\<bar>a\<bar> div \<bar>b\<bar>)"

definition trunc_mod :: "int \<Rightarrow> int \<Rightarrow> int" where
  "trunc_mod a b = (if b = 0 then 0 else sgn a * (\<bar>a\<bar> mod \<bar>b\<bar>))"

lemma uval_abs_neg: "sval x \<le> 0 \<Longrightarrow> int (uval (Int_Neg x)) = \<bar>sval x\<bar>"
proof -
  assume le: "sval x \<le> 0"
  have "int (uval (Int_Neg x)) = (- sval x) mod 2 ^ 256" unfolding uval_Neg sval_mod [of x, symmetric] by (rule mod_minus_eq)
  also have "\<dots> = - sval x" using le by (intro mod_pos_pos_trivial) (auto simp: sval_def)
  finally show ?thesis using le by simp
qed

lemma uval_abs_pos: "0 \<le> sval x \<Longrightarrow> int (uval x) = \<bar>sval x\<bar>"
  using sval_sign [of x] sval_pos [of x] by linarith

lemma Int_SDiv_spec: "\<exists>z. Int_SDiv x y = Some z \<and> int (uval z) = trunc_div (sval x) (sval y) mod 2 ^ 256"
proof -
  have q: "\<exists>w. Int_Div a b = Some w \<and> int (uval w) = \<bar>sval x\<bar> div \<bar>sval y\<bar>"
    if "int (uval a) = \<bar>sval x\<bar>" "int (uval b) = \<bar>sval y\<bar>" for a b
    using Int_Div_spec [of a b] that by (metis zdiv_int)
  have s: "Int_Sign v > 0 \<longleftrightarrow> 0 < sval v" "Int_Sign v < 0 \<longleftrightarrow> sval v < 0" for v by (simp_all add: Int_Sign_eq)
  consider (pp) "0 < sval x" "0 < sval y" | (pn) "0 < sval x" "sval y \<le> 0" | (nn) "sval x \<le> 0" "sval y < 0" | (np) "sval x \<le> 0" "0 \<le> sval y"
    by linarith
  then show ?thesis
  proof cases
    case pp
    then obtain w where "Int_Div x y = Some w" "int (uval w) = \<bar>sval x\<bar> div \<bar>sval y\<bar>" using q [of x y] uval_abs_pos by auto
    then show ?thesis using pp uval_mod_id [of w] by (simp add: Int_SDiv_def s trunc_div_def)
  next
    case pn
    then obtain w where w: "Int_Div x (Int_Neg y) = Some w" "int (uval w) = \<bar>sval x\<bar> div \<bar>sval y\<bar>"
      using q [of x "Int_Neg y"] uval_abs_pos uval_abs_neg by auto
    have "trunc_div (sval x) (sval y) = - int (uval w)" using pn unfolding trunc_div_def w(2) by (cases "sval y = 0") simp_all
    then show ?thesis using pn w(1) uval_Neg [of w] by (simp add: Int_SDiv_def s)
  next
    case nn
    then obtain w where w: "Int_Div (Int_Neg x) (Int_Neg y) = Some w" "int (uval w) = \<bar>sval x\<bar> div \<bar>sval y\<bar>"
      using q [of "Int_Neg x" "Int_Neg y"] uval_abs_neg by auto
    have "trunc_div (sval x) (sval y) = int (uval w)" using nn unfolding trunc_div_def w(2) by (cases "sval x = 0") simp_all
    then show ?thesis using nn w(1) uval_mod_id [of w] by (simp add: Int_SDiv_def s)
  next
    case np
    then obtain w where w: "Int_Div (Int_Neg x) y = Some w" "int (uval w) = \<bar>sval x\<bar> div \<bar>sval y\<bar>"
      using q [of "Int_Neg x" y] uval_abs_pos uval_abs_neg by auto
    have "trunc_div (sval x) (sval y) = - int (uval w)"
      using np unfolding trunc_div_def w(2) by (cases "sval x = 0"; cases "sval y = 0") simp_all
    then show ?thesis using np w(1) uval_Neg [of w] by (simp add: Int_SDiv_def s)
  qed
qed

lemma Int_SMod_spec: "\<exists>z. Int_SMod x y = Some z \<and> int (uval z) = trunc_mod (sval x) (sval y) mod 2 ^ 256"
proof -
  define a b where "a = (if Int_Sign x = - 1 then Int_Neg x else x)" "b = (if Int_Sign y = - 1 then Int_Neg y else y)"
  have s: "Int_Sign v = - 1 \<longleftrightarrow> sval v < 0" for v by (auto simp: Int_Sign_eq sgn_if)
  have ab: "int (uval a) = \<bar>sval x\<bar>" "int (uval b) = \<bar>sval y\<bar>" by (auto simp: a_b_def s uval_abs_pos uval_abs_neg)
  obtain w where w: "Int_Mod a b = Some w" "uval w = (if uval b = 0 then 0 else uval a mod uval b)" using Int_Mod_spec by blast
  have "uval b = 0 \<longleftrightarrow> sval y = 0" using ab(2) by linarith
  then have v: "int (uval w) = (if sval y = 0 then 0 else \<bar>sval x\<bar> mod \<bar>sval y\<bar>)" using w(2) ab by (simp add: zmod_int)
  have "trunc_mod (sval x) (sval y) = (if sval x < 0 then - int (uval w) else int (uval w))"
    unfolding trunc_mod_def v by (auto simp: sgn_if)
  moreover have "Int_SMod x y = Some (if Int_Sign x = - 1 then Int_Neg w else w)"
    unfolding Int_SMod_def Let_def a_b_def [symmetric] w(1) by simp
  ultimately show ?thesis using uval_Neg [of w] uval_mod_id [of w] by (simp add: s)
qed

end
