(* ===== verification/Evm_Arith.thy ===== *)
theory Evm_Arith
  imports Evm_Ops Uint256_Div
begin

text \<open>
  The arithmetic, comparison, bitwise and shift instructions of \<^verbatim>\<open>instructions.go\<close>: what they leave on the operand
  stack, as a function of the values of their operands.
\<close>

section \<open>Instructions that only use the operand stack\<close>

text \<open>An instruction that replaces its one, two or three topmost operands by a result of the given value, and does nothing else.\<close>

definition computes1 :: "('st, 'it) simple_op \<Rightarrow> (U256 \<Rightarrow> nat) \<Rightarrow> bool" where
  "computes1 f g \<longleftrightarrow> (\<forall>E pc cx s x rest. cx_stack cx = x # rest \<longrightarrow>
     (\<exists>r. f E pc cx s = Some (Inr [], pc, cx\<lparr>cx_stack := r # rest\<rparr>, s) \<and> uval r = g x))"

definition computes2 :: "('st, 'it) simple_op \<Rightarrow> (U256 \<Rightarrow> U256 \<Rightarrow> nat) \<Rightarrow> bool" where
  "computes2 f g \<longleftrightarrow> (\<forall>E pc cx s x y rest. cx_stack cx = x # y # rest \<longrightarrow>
     (\<exists>r. f E pc cx s = Some (Inr [], pc, cx\<lparr>cx_stack := r # rest\<rparr>, s) \<and> uval r = g x y))"

definition computes3 :: "('st, 'it) simple_op \<Rightarrow> (U256 \<Rightarrow> U256 \<Rightarrow> U256 \<Rightarrow> nat) \<Rightarrow> bool" where
  "computes3 f g \<longleftrightarrow> (\<forall>E pc cx s x y z rest. cx_stack cx = x # y # z # rest \<longrightarrow>
     (\<exists>r. f E pc cx s = Some (Inr [], pc, cx\<lparr>cx_stack := r # rest\<rparr>, s) \<and> uval r = g x y z))"

lemma unop_computes:
  assumes "\<And>x. \<exists>r. f x = Some r \<and> uval r = g x"
  shows "computes1 (unop f :: ('st, 'it) simple_op) g"
  unfolding computes1_def
proof (intro allI impI)
  fix E :: "('st, 'it) EVM" and pc and cx :: callCtx and s x rest
  assume st: "cx_stack cx = x # rest"
  obtain r where "f x = Some r" "uval r = g x" using assms by blast
  then show "\<exists>r. unop f E pc cx s = Some (Inr [], pc, cx\<lparr>cx_stack := r # rest\<rparr>, s) \<and> uval r = g x"
    using st by (intro exI [of _ r]) (simp add: unop_def stack_op_def Stack_peek_def idx_def)
qed

lemma binop_computes:
  assumes "\<And>x y. \<exists>r. f x y = Some r \<and> uval r = g x y"
  shows "computes2 (binop f :: ('st, 'it) simple_op) g"
  unfolding computes2_def
proof (intro allI impI)
  fix E :: "('st, 'it) EVM" and pc and cx :: callCtx and s x y rest
  assume st: "cx_stack cx = x # y # rest"
  obtain r where "f x y = Some r" "uval r = g x y" using assms by blast
  then show "\<exists>r. binop f E pc cx s = Some (Inr [], pc, cx\<lparr>cx_stack := r # rest\<rparr>, s) \<and> uval r = g x y"
    using st by (intro exI [of _ r]) (simp add: binop_def stack_op_def Stack_pop_def Stack_peek_def idx_def)
qed

lemma ternop_computes:
  assumes "\<And>x y z. \<exists>r. f x y z = Some r \<and> uval r = g x y z"
  shows "computes3 (ternop f :: ('st, 'it) simple_op) g"
  unfolding computes3_def
proof (intro allI impI)
  fix E :: "('st, 'it) EVM" and pc and cx :: callCtx and s x y z rest
  assume st: "cx_stack cx = x # y # z # rest"
  obtain r where "f x y z = Some r" "uval r = g x y z" using assms by blast
  then show "\<exists>r. ternop f E pc cx s = Some (Inr [], pc, cx\<lparr>cx_stack := r # rest\<rparr>, s) \<and> uval r = g x y z"
    using st by (intro exI [of _ r]) (simp add: ternop_def stack_op_def Stack_pop_def Stack_peek_def idx_def)
qed

lemma binop_total: "(\<And>x y. uval (f x y) = g x y) \<Longrightarrow> computes2 (binop (\<lambda>x y. Some (f x y))) g"
  by (rule binop_computes) simp

lemma unop_total: "(\<And>x. uval (f x) = g x) \<Longrightarrow> computes1 (unop (\<lambda>x. Some (f x))) g"
  by (rule unop_computes) simp

lemma LtUint64_iff: "Int_LtUint64 x n \<longleftrightarrow> uval x < unat n"
proof -
  have "uval x < unat n \<Longrightarrow> uval x < 2 ^ 64" using unsigned_less [of n, where ?'a = nat] by simp
  then show ?thesis
    using Int_IsUint64_iff [of x] Int_Uint64_small [of x] by (auto simp: Int_LtUint64_def Int_IsUint64_def Int_Uint64_def word_less_nat_alt)
qed

lemma uval_bool: "uval (of_bool256 b) = of_bool b"
  by (simp add: of_bool256_def Int_SetOne_def Int_Clear_def uval_def)

lemma uval_Sub_nat: "uval (Int_Sub x y) = nat ((int (uval x) - int (uval y)) mod 2 ^ 256)"
  by (simp only: uval_Sub [symmetric] nat_int)

lemma shift_distance: "uval x < 256 \<Longrightarrow> unat (Int_Uint64 x) = uval x" "Int_LtUint64 x 256 \<longleftrightarrow> uval x < 256"
  using Int_Uint64_small [of x] by (simp_all add: LtUint64_iff)

lemma shl_spec: "uval (if Int_LtUint64 x 256 then Int_Lsh y (unat (Int_Uint64 x)) else Int_Clear) = (uval y * 2 ^ uval x) mod 2 ^ 256"
proof (cases "uval x < 256")
  case True
  then show ?thesis by (simp only: shift_distance if_True uval_Lsh)
next
  case False
  then have "2 ^ 256 dvd (2 :: nat) ^ uval x" by (intro le_imp_power_dvd) simp
  then have "uval y * 2 ^ uval x mod 2 ^ 256 = 0" by (simp only: mod_eq_0_iff_dvd dvd_mult)
  then show ?thesis using False by (simp only: shift_distance if_False uval_consts)
qed

lemma shr_spec: "uval (if Int_LtUint64 x 256 then Int_Rsh y (unat (Int_Uint64 x)) else Int_Clear) = uval y div 2 ^ uval x"
proof (cases "uval x < 256")
  case True
  then show ?thesis by (simp only: shift_distance if_True uval_Rsh)
next
  case False
  then have "(2 :: nat) ^ 256 \<le> 2 ^ uval x" by (intro power_increasing) simp_all
  then have "uval y div 2 ^ uval x = 0" using uval_less [of y] by (intro div_less) (rule order.strict_trans2)
  then show ?thesis using False by (simp only: shift_distance if_False uval_consts)
qed

lemma compare_specs:
  "uval (of_bool256 (Int_Lt x y)) = of_bool (uval x < uval y)" "uval (of_bool256 (Int_Gt x y)) = of_bool (uval x > uval y)"
  "uval (of_bool256 (Int_Slt x y)) = of_bool (sval x < sval y)" "uval (of_bool256 (Int_Sgt x y)) = of_bool (sval x > sval y)"
  "uval (of_bool256 (Int_Eq x y)) = of_bool (uval x = uval y)"
  by (simp_all add: uval_bool Int_Lt_iff Int_Gt_iff Int_Slt_iff Int_Sgt_iff Int_Eq_iff uval_inject)

lemma GtUint64_iff: "Int_GtUint64 x n \<longleftrightarrow> unat n < uval x"
proof (cases "uval x < 2 ^ 64")
  case True
  then show ?thesis using Int_IsUint64_iff [of x] Int_Uint64_small [of x]
    by (auto simp: Int_GtUint64_def Int_IsUint64_def Int_Uint64_def word_less_nat_alt)
next
  case False
  then show ?thesis using Int_IsUint64_iff [of x] unsigned_less [of n, where ?'a = nat] by (auto simp: Int_GtUint64_def Int_IsUint64_def)
qed

lemma far_shift: "256 < n \<Longrightarrow> sval y div 2 ^ n = (if 0 \<le> sval y then 0 else - 1)"
proof -
  assume n: "256 < n"
  have p: "(2 :: int) ^ 256 \<le> 2 ^ n" using n by (intro power_increasing) simp_all
  have "sval y < 2 ^ 256" "- (2 ^ 256) \<le> sval y" using int_uval_less [of y] unfolding sval_def by auto
  then have b: "sval y < 2 ^ n" "- (2 ^ n) \<le> sval y" using p by linarith+
  show ?thesis
  proof (cases "0 \<le> sval y")
    case True
    then show ?thesis using b(1) by (simp add: div_pos_pos_trivial)
  next
    case False
    have "sval y = 2 ^ n * (- 1) + (sval y + 2 ^ n)" by simp
    then have "sval y div 2 ^ n = - 1" by (rule int_div_pos_eq) (use False b(2) in simp_all)
    then show ?thesis using False by simp
  qed
qed

lemma sar_spec:
  "\<exists>z. (if Int_GtUint64 x 256 then Some (if Int_Sign y \<ge> 0 then Int_Clear else Int_SetAllOne) else Int_SRsh y (unat (Int_Uint64 x))) = Some z \<and>
    uval z = nat (sval y div 2 ^ uval x mod 2 ^ 256)"
proof (cases "256 < uval x")
  case True
  have "Int_Sign y \<ge> 0 \<longleftrightarrow> 0 \<le> sval y" by (simp add: Int_Sign_eq sgn_if)
  moreover have "nat (- 1 mod 2 ^ 256) = uval Int_SetAllOne" by simp
  ultimately show ?thesis using True far_shift [OF True, of y] by (auto simp: GtUint64_iff)
next
  case False
  then have "unat (Int_Uint64 x) = uval x" by (intro Int_Uint64_small) simp
  then show ?thesis using False Int_SRsh_spec [of y "uval x"] by (auto simp: GtUint64_iff)
qed

section \<open>The instructions\<close>

lemma int_spec: "\<exists>z. r = Some z \<and> int (uval z) = v \<Longrightarrow> \<exists>z. r = Some z \<and> uval z = nat v"
  by (metis nat_int)

lemma addmod_spec: "\<exists>r. (if Int_IsZero z then Some Int_Clear else Int_AddMod x y z) = Some r \<and>
    uval r = (if uval z = 0 then 0 else (uval x + uval y) mod uval z)"
  using Int_AddMod_spec [of x y z] by (cases "uval z = 0") (auto simp: Int_IsZero_iff)

lemma sign_spec: "uval (of_bool256 (Int_IsZero x)) = of_bool (uval x = 0)" "uval (Int_Not x) = 2 ^ 256 - 1 - uval x"
  by (simp_all only: uval_bool Int_IsZero_iff uval_Not)

text \<open>C5: Every arithmetic, comparison, bitwise and shift instruction replaces its operands by the value the instruction set
  defines: sums, products, powers and differences modulo \<open>2 ^ 256\<close>; quotients and remainders with the result zero for a zero
  divisor; signed division that truncates towards zero; sums and products of full width modulo a third operand; unsigned and
  two's complement comparisons; bytes, sign extension, and shifts of any distance.  None of them panics.\<close>

theorem instructions_compute:
  "computes2 opAdd (\<lambda>x y. (uval x + uval y) mod 2 ^ 256) \<and>
   computes2 opSub (\<lambda>x y. nat ((int (uval x) - int (uval y)) mod 2 ^ 256)) \<and>
   computes2 opMul (\<lambda>x y. (uval x * uval y) mod 2 ^ 256) \<and>
   computes2 opDiv (\<lambda>x y. uval x div uval y) \<and>
   computes2 opSdiv (\<lambda>x y. nat (trunc_div (sval x) (sval y) mod 2 ^ 256)) \<and>
   computes2 opMod (\<lambda>x y. if uval y = 0 then 0 else uval x mod uval y) \<and>
   computes2 opSmod (\<lambda>x y. nat (trunc_mod (sval x) (sval y) mod 2 ^ 256)) \<and>
   computes3 opAddmod (\<lambda>x y z. if uval z = 0 then 0 else (uval x + uval y) mod uval z) \<and>
   computes3 opMulmod (\<lambda>x y z. if uval z = 0 then 0 else (uval x * uval y) mod uval z) \<and>
   computes2 opExp (\<lambda>x y. (uval x ^ uval y) mod 2 ^ 256) \<and>
   computes2 opSignExtend (\<lambda>x y. nat (if uval x < 32 then signed_take_bit (8 * uval x + 7) (int (uval y)) mod 2 ^ 256 else int (uval y))) \<and>
   computes2 opLt (\<lambda>x y. of_bool (uval x < uval y)) \<and>
   computes2 opGt (\<lambda>x y. of_bool (uval x > uval y)) \<and>
   computes2 opSlt (\<lambda>x y. of_bool (sval x < sval y)) \<and>
   computes2 opSgt (\<lambda>x y. of_bool (sval x > sval y)) \<and>
   computes2 opEq (\<lambda>x y. of_bool (uval x = uval y)) \<and>
   computes1 opIszero (\<lambda>x. of_bool (uval x = 0)) \<and>
   computes2 opAnd (\<lambda>x y. uval x AND uval y) \<and>
   computes2 opOr (\<lambda>x y. uval x OR uval y) \<and>
   computes2 opXor (\<lambda>x y. uval x XOR uval y) \<and>
   computes1 opNot (\<lambda>x. 2 ^ 256 - 1 - uval x) \<and>
   computes2 opByte (\<lambda>x y. if uval x < 32 then uval y div 2 ^ (8 * (31 - uval x)) mod 256 else 0) \<and>
   computes2 opSHL (\<lambda>x y. (uval y * 2 ^ uval x) mod 2 ^ 256) \<and>
   computes2 opSHR (\<lambda>x y. uval y div 2 ^ uval x) \<and>
   computes2 opSAR (\<lambda>x y. nat (sval y div 2 ^ uval x mod 2 ^ 256))"
  unfolding opAdd_def opSub_def opMul_def opDiv_def opSdiv_def opMod_def opSmod_def opAddmod_def opMulmod_def opExp_def opSignExtend_def
    opLt_def opGt_def opSlt_def opSgt_def opEq_def opIszero_def opAnd_def opOr_def opXor_def opNot_def opByte_def opSHL_def opSHR_def opSAR_def
  by (intro conjI binop_total unop_total uval_Add uval_Sub_nat uval_Mul uval_Exp compare_specs sign_spec shl_spec shr_spec uval_bitwise
      binop_computes [OF Int_Div_spec] binop_computes [OF Int_Mod_spec] binop_computes [OF Int_SDiv_spec [THEN int_spec]]
      binop_computes [OF Int_SMod_spec [THEN int_spec]] ternop_computes [OF addmod_spec] ternop_computes [OF Int_MulMod_spec]
      binop_computes [OF Int_ExtendSign_spec [THEN int_spec]] binop_computes [OF Int_Byte_spec] binop_computes [OF sar_spec])

end
