(* ===== verification/Storage_Props.thy ===== *)
theory Storage_Props
  imports Instances
begin

text \<open>
  The properties of the storage layers, \<^verbatim>\<open>src/evm/storage\<close>: the account encoding, the state database as a refinement of an
  abstract world, reverting, committing, and the iterator that merges the layers.
\<close>

section \<open>Accounts\<close>

text \<open>C27: An account that has a balance, a 32-byte code hash and code shorter than \<open>2\<^sup>5\<^sup>9\<close> bytes is serialized without
  a panic, and deserializing the bytes, into whatever account, gives it back without an error.\<close>

theorem account_roundtrip:
  assumes "ea_Balance a \<noteq> None" "length (ea_CodeHash a) = 32" "length (ea_Code a) < 2 ^ 59"
  shows "\<exists>raw. SerializeToBytes [EthAccount_Serialization a] = Some raw \<and>
    EthAccount_Deserialization z (NewZeroCopySource raw) = Some (None, a)"
  using SerializeToBytes_account [of a] Deserialization_account [of a z] assms by (auto simp: account_wf_def)

theorem account_roundtrip_witness:
  "\<exists>raw. SerializeToBytes [EthAccount_Serialization plain_account] = Some raw \<and>
    EthAccount_Deserialization no_account (NewZeroCopySource raw) = Some (None, plain_account)"
  by (rule account_roundtrip) (simp_all add: plain_account_def)

text \<open>C38: An account whose nonce is zero and that has no code hash is taken for empty whatever its balance: after
  \<^verbatim>\<open>PutEthAccount\<close> the account that \<^verbatim>\<open>GetEthAccount\<close> returns has no balance, and the state database panics when asked for it.\<close>

theorem put_account_drops_balance:
  fixes ops :: "'it StoreIterator"
  assumes "sdb_inv (remote_inv L client) s" "remote_good L client (ST_ETH_ACCOUNT # addr)"
    and "ea_Nonce a = 0" "ea_CodeHash a = zero_hash"
  shows "\<exists>c. CacheDB_PutEthAccount (sd_cacheDB s) addr a = Some c \<and>
    map_option fst (CacheDB_GetEthAccount (RemoteDB_store L ops) c addr) = Some (no_account, None) \<and>
    StateDB_GetBalance (RemoteDB_store L ops) (s\<lparr>sd_cacheDB := c\<rparr>) addr = None"
proof -
  have e: "EthAccount_IsEmpty a" using assms(3,4) by (simp add: EthAccount_IsEmpty_def)
  have ci: "cache_inv (remote_inv L client) (sd_cacheDB s)" using assms(1) by (simp add: sdb_inv_def)
  from PutEthAccount_ok [OF ci disjI1 [OF e], of addr] obtain c where c: "CacheDB_PutEthAccount (sd_cacheDB s) addr a = Some c"
    "cache_inv (remote_inv L client) c" "account_of (remote_view L) c addr = Some no_account"
    using e by (auto simp: stored_def)
  let ?s = "s\<lparr>sd_cacheDB := c\<rparr>"
  have "sdb_inv (remote_inv L client) ?s" using assms(1) c(2) by (simp add: sdb_inv_def)
  then have "StateDB_GetBalance (RemoteDB_store L ops) ?s addr = None"
    using remote.GetBalance_no_account [OF _ assms(2), of ?s no_account ops] c(3) by (simp add: no_account_def)
  then show ?thesis using c(1) remote.GetEthAccount_ok [OF c(2) assms(2) c(3), of ops] by auto
qed

definition node_db :: "RemoteDB StateDB" where
  "node_db = NewStateDB (ex_cacheDB node_executor) zero_hash zero_hash"

lemma node_db_inv: "sdb_inv (remote_inv go_std node) node_db"
  using node_inv by (simp add: node_db_def NewStateDB_def sdb_inv_def executor_inv_def)

lemma node_good: "length a = 20 \<Longrightarrow> a \<noteq> contract_addr \<Longrightarrow> remote_good go_std node (ST_ETH_ACCOUNT # a)"
  using node_funded [of a] by (simp add: funded_def)

theorem put_account_drops_balance_witness:
  "\<exists>c. CacheDB_PutEthAccount (sd_cacheDB node_db) alice (plain_account\<lparr>ea_CodeHash := zero_hash\<rparr>) = Some c \<and>
    ea_Balance (plain_account\<lparr>ea_CodeHash := zero_hash\<rparr>) \<noteq> None \<and>
    StateDB_GetBalance (RemoteDB_store go_std dbIter_ops) (node_db\<lparr>sd_cacheDB := c\<rparr>) alice = None"
  using put_account_drops_balance [OF node_db_inv node_good [of alice], of "plain_account\<lparr>ea_CodeHash := zero_hash\<rparr>" dbIter_ops]
  by auto

section \<open>The state database\<close>

text \<open>A reader returns \<open>x\<close> and a writer nothing; both leave a state database that shows the world \<open>w\<close>.\<close>

abbreviation reads :: "go_libs \<Rightarrow> rpc_client \<Rightarrow> ('x \<times> RemoteDB StateDB) option \<Rightarrow> 'x \<Rightarrow> world \<Rightarrow> bool" where
  "reads L client \<equiv> refines (remote_inv L client) (remote_view L)"

abbreviation writes :: "go_libs \<Rightarrow> rpc_client \<Rightarrow> RemoteDB StateDB option \<Rightarrow> world \<Rightarrow> bool" where
  "writes L client \<equiv> refines_to (remote_inv L client) (remote_view L)"

text \<open>C10: Over the remote store, the operations of the state database on an account that the node serves and that is not
  dropped as empty neither panic nor fail, and act on the abstract world (accounts, slots, logs, self-destructed accounts,
  refund, error) as their names say: the readers return the fields of the account and leave the world as it is, and each
  writer changes that one field of that one account, with balances modulo \<open>2\<^sup>2\<^sup>5\<^sup>6\<close>.\<close>

theorem statedb_refines_world:
  fixes ops :: "'it StoreIterator"
  assumes "sdb_inv (remote_inv L client) s" "w = world_of (remote_view L) s" "funded (remote_good L client) w addr a b"
    and "length (lib_Keccak256 L code) = 32" "length code < 2 ^ 59" "ps = RemoteDB_store L ops"
  shows "reads L client (StateDB_GetBalance ps s addr) (int (uval b)) w \<and>
    reads L client (StateDB_GetNonce ps s addr) (ea_Nonce a) w \<and>
    reads L client (StateDB_GetCode ps s addr) (ea_Code a) w \<and>
    reads L client (StateDB_GetCodeHash ps s addr) (ea_CodeHash a) w \<and>
    reads L client (StateDB_GetCodeSize ps s addr) (length (ea_Code a)) w \<and>
    reads L client (StateDB_Exist ps s addr) True w \<and>
    reads L client (StateDB_Empty ps s addr) False w \<and>
    writes L client (StateDB_AddBalance ps s addr v) (put_world addr (a\<lparr>ea_Balance := Some (Int_Add b (fst (Int_FromBig v)))\<rparr>) w) \<and>
    writes L client (StateDB_SubBalance ps s addr v) (put_world addr (a\<lparr>ea_Balance := Some (Int_Sub b (fst (Int_FromBig v)))\<rparr>) w) \<and>
    writes L client (StateDB_SetNonce ps s addr n) (put_world addr (a\<lparr>ea_Nonce := n\<rparr>) w) \<and>
    writes L client (StateDB_SetCode L ps s addr code) (put_world addr (a\<lparr>ea_CodeHash := lib_Keccak256 L code, ea_Code := code\<rparr>) w) \<and>
    writes L client (StateDB_SetState s addr key h) (put_slot (addr @ key) h w)"
proof -
  have f: "remote_good L client (ST_ETH_ACCOUNT # addr)" "account_of (remote_view L) (sd_cacheDB s) addr = Some a" "account_wf a"
    "\<not> EthAccount_IsEmpty a" "ea_Balance a = Some b"
    using assms(2,3) by (simp_all add: funded_def)
  note acc = remote.persist_store_axioms assms(1) f(1,2)
  show ?thesis unfolding assms(2,6)
    by (intro conjI persist_store.GetBalance_refines [OF acc f(5)] persist_store.GetNonce_refines [OF acc] persist_store.Exist_refines [OF acc f(5,4)]
        persist_store.AddBalance_refines [OF acc f(3,5)] persist_store.SetNonce_refines [OF acc f(3)] persist_store.SetCode_refines [OF acc f(3) assms(4,5)]
        SetState_refines [OF assms(1)])
qed

lemma node_db_funded:
  "length a = 20 \<Longrightarrow> a \<noteq> contract_addr \<Longrightarrow>
    funded (remote_good go_std node) (world_of (remote_view go_std) node_db) a plain_account (fst (Int_FromBig 100))"
  using node_funded [of a] by (simp add: funded_def node_db_def executor_world_def world_of_def executor_account_def NewStateDB_def)

theorem statedb_refines_world_witness:
  "reads go_std node (StateDB_GetBalance (RemoteDB_store go_std dbIter_ops) node_db alice) 100 (world_of (remote_view go_std) node_db)"
  using statedb_refines_world [OF node_db_inv refl node_db_funded [of alice], of "[]" "RemoteDB_store go_std dbIter_ops" dbIter_ops]
    hundred by (simp add: go_std_def)

text \<open>C11: Reverting to a snapshot undoes every sequence of operations made since, nested snapshots and reverts included: what
  every read of the cache and of the committed layer returns, the self-destructed accounts, the logs, the refund counter
  and the earlier snapshots are as they were when it was taken; and it does not panic.\<close>

theorem revert_undoes_run:
  fixes ops :: "'it StoreIterator"
  assumes "sdb_inv (remote_inv L client) s0" "StateDB_Snapshot s0 = (n, s1)" "statedb_run L (RemoteDB_store L ops) s1 s2"
  shows "\<exists>s3. StateDB_RevertToSnapshot s2 n = Some s3 \<and> sdb_inv (remote_inv L client) s3 \<and> sdb_same (remote_view L) s0 s3"
  by (rule remote.snapshot_revert [OF assms])

theorem revert_undoes_run_witness:
  "\<exists>s2 s3. StateDB_SetState (snd (StateDB_Snapshot node_db)) alice zero_hash (replicate 32 1) = Some s2 \<and>
     StateDB_RevertToSnapshot s2 0 = Some s3 \<and> sdb_same (remote_view go_std) node_db s3"
proof -
  have sn: "StateDB_Snapshot node_db = (0, snd (StateDB_Snapshot node_db))"
    by (simp add: StateDB_Snapshot_def node_db_def NewStateDB_def)
  have "sdb_inv (remote_inv go_std node) (snd (StateDB_Snapshot node_db))" by (rule Snapshot_inv [OF node_db_inv])
  from SetState_ok [OF this, of "replicate 32 1" alice zero_hash] obtain s2 where
    s2: "StateDB_SetState (snd (StateDB_Snapshot node_db)) alice zero_hash (replicate 32 1) = Some s2" by auto
  have "statedb_run go_std (RemoteDB_store go_std dbIter_ops) (snd (StateDB_Snapshot node_db)) s2"
    by (rule run_op [OF run_done op_SetState [OF s2]])
  from revert_undoes_run [OF node_db_inv sn this] s2 show ?thesis by blast
qed

section \<open>Committing\<close>

text \<open>A store that keeps its entries in a skip list, as an instance of \<^verbatim>\<open>schema.PersistStore\<close> that can be iterated over.\<close>

definition mem_store :: "go_libs \<Rightarrow> (MemDB, dbIter) PersistStore" where
  "mem_store L = \<lparr>ps_Get = (\<lambda>m k. map_option (\<lambda>(v, unknown). (if unknown then Inl ErrNotFound else Inr v, m)) (MemDB_Get m k)),
     ps_BatchPut = MemDB_Put, ps_BatchDelete = MemDB_Delete,
     ps_NewIterator = (\<lambda>m p. Some (MemDB_NewIterator m (Some (lib_BytesPrefix L p)))), ps_iter = dbIter_ops\<rparr>"

definition mem_view :: "MemDB \<Rightarrow> bytes \<Rightarrow> db_error + bytes" where
  "mem_view m k = (case MemDB_Get m k of Some (v, False) \<Rightarrow> Inr v | _ \<Rightarrow> Inl ErrNotFound)"

lemma mem_store_enumerates:
  assumes "libs_ok L" "mrep m es"
  shows "store_enumerates (mem_store L) mem_view m es dbIter_fresh dbIter_pos"
  using mem_iter_fresh [OF assms(2,1)] mrep_sorted [OF assms(2)] dbit.store_iterator_axioms
  by (auto simp: store_enumerates_def mem_store_def mem_view_def MemDB_Get_mrep [OF assms(2)] split: option.splits)

text \<open>C12: Committing a transaction over a store that can be iterated over (its \<^verbatim>\<open>Get\<close> and its iterators agree on sorted
  entries, and writing into the caches does not disturb them) succeeds without a panic: every account and slot of the
  self-destructed contracts is gone, every other key has in the block cache the value the transaction cache showed, the
  two caches agree, and no self-destructed account or snapshot is left.\<close>

theorem commit_publishes:
  assumes "libs_ok L" "store_enumerates ps view (od_store (cd_backend (sd_cacheDB s))) ses sfresh spos" "sdb_inv ok s"
  shows "\<exists>s'. StateDB_Commit L ps s = Some (None, s') \<and> sdb_inv ok s' \<and> sd_Suicided s' = [] \<and> sd_snapshots s' = [] \<and>
    (\<forall>k. overlay_lookup view (cd_backend (sd_cacheDB s')) k =
       (if \<exists>a \<in> set (sd_Suicided s). k = ST_ETH_ACCOUNT # a \<or> is_prefix (ST_STORAGE # a) k then Inr []
        else cache_lookup view (sd_cacheDB s) k)) \<and>
    (\<forall>k. cache_lookup view (sd_cacheDB s') k = overlay_lookup view (cd_backend (sd_cacheDB s')) k)"
  using StateDB_Commit_ok [OF assms] by (simp add: wiped_def)

definition mem_cache :: "MemDB CacheDB" where
  "mem_cache = NewCacheDB go_std (NewOverlayDB go_std (NewMemDB bytes_compare (\<lambda>n. 0)))"

definition doomed_db :: "MemDB StateDB" where
  "doomed_db = (NewStateDB mem_cache zero_hash zero_hash)\<lparr>sd_Suicided := [contract_addr]\<rparr>"

lemma empty_mrep: "mrep (NewMemDB bytes_compare r) []"
  by (rule NewMemDB_mrep [OF three_way_bytewise [OF three_way_compare]])

lemma mem_cache_inv: "cache_inv (\<lambda>m. True) mem_cache"
  using empty_mrep by (auto simp: mem_cache_def cache_inv_def overlay_inv_def NewCacheDB_def NewOverlayDB_def memdb_inv_def go_std_def)

lemma mem_cache_store: "od_store (cd_backend mem_cache) = NewMemDB bytes_compare (\<lambda>n. 0)"
  by (simp add: mem_cache_def NewCacheDB_def NewOverlayDB_def)

lemma doomed_db_inv: "sdb_inv (\<lambda>m. True) doomed_db"
  using mem_cache_inv by (simp add: doomed_db_def NewStateDB_def sdb_inv_def)

theorem commit_publishes_witness:
  "\<exists>s'. StateDB_Commit go_std (mem_store go_std) doomed_db = Some (None, s') \<and> sd_Suicided s' = [] \<and>
    overlay_lookup mem_view (cd_backend (sd_cacheDB s')) (ST_ETH_ACCOUNT # contract_addr) = Inr []"
proof -
  have "store_enumerates (mem_store go_std) mem_view (od_store (cd_backend (sd_cacheDB doomed_db))) [] dbIter_fresh dbIter_pos"
    using mem_store_enumerates [OF go_std_ok empty_mrep] by (simp add: doomed_db_def NewStateDB_def mem_cache_store)
  from commit_publishes [OF go_std_ok this doomed_db_inv] show ?thesis by (auto simp: doomed_db_def)
qed

section \<open>The merging iterator\<close>

text \<open>What a loop over an iterator sees: \<^verbatim>\<open>for has := it.First(); has; has = it.Next()\<close> with \<^verbatim>\<open>Key\<close> and \<^verbatim>\<open>Value\<close> in the
  body, at most \<open>n\<close> rounds; \<open>None\<close> when the loop has not ended after them.\<close>

primrec walk :: "'s StoreIterator \<Rightarrow> nat \<Rightarrow> bool \<times> 's \<Rightarrow> (bytes \<times> bytes) list option" where
  "walk ops 0 p = (if fst p then None else Some [])"
| "walk ops (Suc n) p =
     (if fst p then
        do { q \<leftarrow> si_Next ops (snd p); es \<leftarrow> walk ops n q; Some ((si_Key ops (snd p), si_Value ops (snd p)) # es) }
      else Some [])"

context store_iterator begin

lemma walk_pos: "pos s es \<Longrightarrow> length es \<le> n \<Longrightarrow> walk ops n (es \<noteq> [], s) = Some es"
proof (induction n arbitrary: s es)
  case (Suc n)
  show ?case
  proof (cases es)
    case (Cons e es')
    obtain s' where s': "si_Next ops s = Some (es' \<noteq> [], s')" "pos s' es'" using next_ok [OF Suc.prems(1)] Cons by auto
    have "si_Key ops s = fst e" "si_Value ops s = snd e"
      using key_ok [OF Suc.prems(1)] value_ok [OF Suc.prems(1)] Cons by (simp_all add: head_key_def head_val_def)
    then show ?thesis using s'(1) Suc.IH [OF s'(2)] Suc.prems(2) Cons by simp
  qed simp
qed simp

lemma walk_fresh:
  assumes "fresh s es" "length es \<le> n"
  shows "Option.bind (si_First ops s) (walk ops n) = Some es"
  using first_ok [OF assms(1)] walk_pos [OF _ assms(2)] by auto

end

text \<open>C13: The iterator over a contract's storage in the transaction cache merges the three layers (transaction cache, block
  cache, store): a loop over it sees, in strictly increasing order of the keys, exactly the entries under the prefix that
  a read through the layers would find non-empty, each with the value of the topmost layer that has one.  It ends after
  that many rounds and does not panic.\<close>

theorem cache_iterator_merges:
  assumes "libs_ok L" "store_enumerates ps view (od_store (cd_backend c)) ses sfresh spos" "cache_inv ok c"
  shows "\<exists>it es. CacheDB_NewIterator L ps c addr = Some it \<and> kv_sorted es \<and>
    (\<forall>k v. (k, v) \<in> set es \<longleftrightarrow> is_prefix (ST_STORAGE # addr) k \<and> v \<noteq> [] \<and> cache_lookup view c k = Inr v) \<and>
    (\<forall>n \<ge> length es. Option.bind (JoinIter_First dbIter_ops (overlay_iter_ops ps) it)
       (walk (JoinIter_ops dbIter_ops (overlay_iter_ops ps)) n) = Some es)"
proof -
  let ?pf = "filter (\<lambda>e. is_prefix (ST_STORAGE # addr) (fst (e :: bytes \<times> bytes)))"
  have st: "store_iterator (ps_iter ps) sfresh spos" and srt: "kv_sorted ses"
    and vw: "\<And>k. view (od_store (cd_backend c)) k = (case map_of ses k of None \<Rightarrow> Inl ErrNotFound | Some v \<Rightarrow> Inr v)"
    using assms(2) by (auto simp: store_enumerates_def)
  obtain ms os where ms: "mrep (cd_memdb c) ms" and os: "mrep (od_memdb (cd_backend c)) os"
    using assms(3) by (auto simp: cache_inv_def overlay_inv_def memdb_inv_def)
  define es where "es = live (join_entries (?pf ms) (live (join_entries (?pf os) (?pf ses))))"
  obtain it where it: "CacheDB_NewIterator L ps c addr = Some it"
    "join_fresh (\<lambda>i es. dbIter_fresh i es \<and> it_p i = Some (cd_memdb c)) (join_fresh dbIter_fresh sfresh) it es"
    using CacheDB_NewIterator_ok [OF assms(1,2) ms os refl refl] unfolding es_def by blast
  note J = join_iterators.join_store_iterator [OF cache_iterators [OF st, of "cd_memdb c"]]
  have sp: "kv_sorted (?pf ms)" "kv_sorted (?pf os)" "kv_sorted (?pf ses)"
    using mrep_sorted [OF ms] mrep_sorted [OF os] srt proper_prefix [of _ "ST_STORAGE # addr"] by (auto simp: proper_def)
  have "map_of es k = (case cache_lookup view c k of Inl e \<Rightarrow> None | Inr v \<Rightarrow> if is_prefix (ST_STORAGE # addr) k \<and> v \<noteq> [] then Some v else None)" for k
    using MemDB_Get_mrep [OF ms, of k] MemDB_Get_mrep [OF os, of k] vw [of k] sp
    by (auto simp: es_def map_of_live map_of_join kv_sorted_live kv_sorted_join map_add_def map_of_filter_key
        cache_lookup_def overlay_lookup_def split: option.splits if_splits)
  moreover have s: "kv_sorted es" using sp by (simp add: es_def kv_sorted_live kv_sorted_join)
  moreover have "(k, v) \<in> set es \<longleftrightarrow> map_of es k = Some v" for k v
    using s by (simp add: kv_sorted_def strict_sorted_iff)
  ultimately have m: "(k, v) \<in> set es \<longleftrightarrow> is_prefix (ST_STORAGE # addr) k \<and> v \<noteq> [] \<and> cache_lookup view c k = Inr v" for k v
    by (auto split: sum.splits if_splits)
  have "Option.bind (JoinIter_First dbIter_ops (overlay_iter_ops ps) it) (walk (JoinIter_ops dbIter_ops (overlay_iter_ops ps)) n) = Some es"
    if "length es \<le> n" for n
    using store_iterator.walk_fresh [OF J it(2) that] by (simp add: JoinIter_ops_def)
  then show ?thesis using it(1) s m by blast
qed

text \<open>A cache with one slot written.\<close>

lemma written_cache:
  obtains c where "CacheDB_Put mem_cache (alice @ zero_hash) [1] = Some c" "cache_inv (\<lambda>m. True) c"
    "store_enumerates (mem_store go_std) mem_view (od_store (cd_backend c)) [] dbIter_fresh dbIter_pos"
    "cache_lookup mem_view c (ST_STORAGE # alice @ zero_hash) = Inr [1]"
  using cache_put_ok [OF mem_cache_inv, of ST_STORAGE "alice @ zero_hash" "[1]"] mem_store_enumerates [OF go_std_ok empty_mrep, of "\<lambda>n. 0"]
  by (auto simp: CacheDB_Put_def mem_cache_store)

theorem cache_iterator_merges_witness:
  "\<exists>c it es. CacheDB_Put mem_cache (alice @ zero_hash) [1] = Some c \<and>
    CacheDB_NewIterator go_std (mem_store go_std) c alice = Some it \<and> (ST_STORAGE # alice @ zero_hash, [1]) \<in> set es \<and>
    Option.bind (JoinIter_First dbIter_ops (overlay_iter_ops (mem_store go_std)) it)
      (walk (JoinIter_ops dbIter_ops (overlay_iter_ops (mem_store go_std))) (length es)) = Some es"
proof -
  obtain c where c: "CacheDB_Put mem_cache (alice @ zero_hash) [1] = Some c" "cache_inv (\<lambda>m. True) c"
    "store_enumerates (mem_store go_std) mem_view (od_store (cd_backend c)) [] dbIter_fresh dbIter_pos"
    "cache_lookup mem_view c (ST_STORAGE # alice @ zero_hash) = Inr [1]" by (rule written_cache)
  have "is_prefix (ST_STORAGE # alice) (ST_STORAGE # alice @ zero_hash)" by (simp add: is_prefix_def)
  with cache_iterator_merges [OF go_std_ok c(3,2), of alice] c(1,4) show ?thesis by (metis list.discI order_refl)
qed

text \<open>C22: Clearing a contract's storage while iterating over it ends without a panic or an error, although every deletion
  writes into the skip list the iterator walks: every slot of the contract reads as absent afterwards, every other key
  as before, and the block cache is not touched.\<close>

theorem clean_storage_while_iterating:
  assumes "libs_ok L" "store_enumerates ps view (od_store (cd_backend c)) ses sfresh spos" "cache_inv ok c"
  shows "\<exists>c'. CleanContractStorageData L ps c addr = Some (None, c') \<and> cache_inv ok c' \<and> cd_backend c' = cd_backend c \<and>
    (\<forall>k. cache_lookup view c' k = (if is_prefix (ST_STORAGE # addr) k then Inr [] else cache_lookup view c k))"
  by (rule CleanContractStorageData_ok [OF assms])

theorem clean_storage_while_iterating_witness:
  "\<exists>c c'. CacheDB_Put mem_cache (alice @ zero_hash) [1] = Some c \<and>
    CleanContractStorageData go_std (mem_store go_std) c alice = Some (None, c') \<and>
    cache_lookup mem_view c' (ST_STORAGE # alice @ zero_hash) = Inr []"
proof -
  obtain c where c: "CacheDB_Put mem_cache (alice @ zero_hash) [1] = Some c" "cache_inv (\<lambda>m. True) c"
    "store_enumerates (mem_store go_std) mem_view (od_store (cd_backend c)) [] dbIter_fresh dbIter_pos" by (rule written_cache)
  have "is_prefix (ST_STORAGE # alice) (ST_STORAGE # alice @ zero_hash)" by (simp add: is_prefix_def)
  with clean_storage_while_iterating [OF go_std_ok c(3,2), of alice] c(1) show ?thesis by auto
qed

end
