(* ===== verification/Operand_Laws.thy ===== *)
theory Operand_Laws
  imports Table_Laws
begin

text \<open>
  The operands of an instruction.  An execution function takes \<open>n\<close> operands when it reads and writes only the \<open>n\<close>
  topmost words, whatever lies below them, and does not complete with fewer; a memory-size or gas function reads
  at most \<open>n\<close> when its result depends only on them.  The stack bounds of every table entry are checked against
  these numbers, so that the bound check of the interpreter is what keeps every access of the three functions of an
  entry inside the stack.
\<close>

section \<open>Operations and their operands\<close>

definition over :: "Stack \<Rightarrow> 'st op_result \<Rightarrow> 'st op_result" where
  "over rest r = (case r of (res, pc, cx, s) \<Rightarrow> (res, pc, cx\<lparr>cx_stack := cx_stack cx @ rest\<rparr>, s))"

definition takes :: "nat \<Rightarrow> ('st, 'it) executionFunc \<Rightarrow> bool" where
  "takes n x \<longleftrightarrow>
     (\<forall>run E pc cx s top rest. length top = n \<longrightarrow>
        x run E pc (cx\<lparr>cx_stack := top @ rest\<rparr>) s = obind (x run E pc (cx\<lparr>cx_stack := top\<rparr>) s) (\<lambda>r. Done (over rest r))) \<and>
     (\<forall>run E pc cx s b pc' cx' s'. length (cx_stack cx) < n \<longrightarrow> x run E pc cx s \<noteq> Done (Inr b, pc', cx', s'))"

definition reads :: "nat \<Rightarrow> (Stack \<Rightarrow> 'a) \<Rightarrow> bool" where
  "reads n f \<longleftrightarrow> (\<forall>top rest. length top = n \<longrightarrow> f (top @ rest) = f top)"

definition simple_takes :: "nat \<Rightarrow> ('st, 'it) simple_op \<Rightarrow> bool" where
  "simple_takes n f \<longleftrightarrow>
     (\<forall>E pc cx s top rest. length top = n \<longrightarrow>
        f E pc (cx\<lparr>cx_stack := top @ rest\<rparr>) s = map_option (over rest) (f E pc (cx\<lparr>cx_stack := top\<rparr>) s)) \<and>
     (\<forall>E pc cx s b pc' cx' s'. length (cx_stack cx) < n \<longrightarrow> f E pc cx s \<noteq> Some (Inr b, pc', cx', s'))"

lemma lift_takes: "simple_takes n f \<Longrightarrow> takes n (lift_op f)"
proof -
  assume f: "simple_takes n f"
  have "of_opt (map_option (over rest) r) = obind (of_opt r) (\<lambda>r. Done (over rest r))" for rest :: Stack and r :: "'a op_result option"
    by (cases r) simp_all
  with f show ?thesis by (simp add: simple_takes_def takes_def lift_op_def)
qed

named_theorems operands

lemma length_cases:
  "length xs = Suc 0 \<longleftrightarrow> (\<exists>a. xs = [a])" "length xs = 2 \<longleftrightarrow> (\<exists>a b. xs = [a, b])" "length xs = 3 \<longleftrightarrow> (\<exists>a b c. xs = [a, b, c])"
  "length xs = 4 \<longleftrightarrow> (\<exists>a b c d. xs = [a, b, c, d])"
  by (auto simp: length_Suc_conv numeral_eq_Suc)

lemma short_cases:
  "length xs < Suc 0 \<longleftrightarrow> xs = []" "length xs < 2 \<longleftrightarrow> xs = [] \<or> (\<exists>a. xs = [a])"
  "length xs < 3 \<longleftrightarrow> xs = [] \<or> (\<exists>a. xs = [a]) \<or> (\<exists>a b. xs = [a, b])"
  "length xs < 4 \<longleftrightarrow> xs = [] \<or> (\<exists>a. xs = [a]) \<or> (\<exists>a b. xs = [a, b]) \<or> (\<exists>a b c. xs = [a, b, c])"
  by (auto simp: less_Suc_eq numeral_eq_Suc length_Suc_conv)

lemma stack_sel [simp]:
  "Stack_pop [] = None" "Stack_pop (a # st) = Some (a, st)" "Stack_peek [] = None" "Stack_peek (a # st) = Some a"
  by (simp_all add: Stack_pop_def Stack_peek_def idx_def)

text \<open>A stack operation.\<close>

definition stack_takes :: "nat \<Rightarrow> (Stack \<Rightarrow> Stack option) \<Rightarrow> bool" where
  "stack_takes n f \<longleftrightarrow> (\<forall>top rest. length top = n \<longrightarrow> f (top @ rest) = map_option (\<lambda>st. st @ rest) (f top)) \<and>
     (\<forall>st. length st < n \<longrightarrow> f st = None)"

lemma stack_op_takes: "stack_takes n f \<Longrightarrow> simple_takes n (stack_op f)"
  by (auto simp: stack_takes_def simple_takes_def stack_op_def over_def bind_map_option comp_def map_option_bind)

lemma shape_takes [operands]:
  "simple_takes 1 (unop f)" "simple_takes 2 (binop g)" "simple_takes 3 (ternop h)" 
  unfolding unop_def binop_def ternop_def
  by (rule stack_op_takes, auto simp: stack_takes_def length_cases short_cases map_option_bind comp_def split: option.splits)+

lemma pushop_takes:
  "(\<And>E pc cx s st. f E pc (cx\<lparr>cx_stack := st\<rparr>) s = f E pc cx s) \<Longrightarrow> simple_takes 0 (pushop f)"
  by (simp add: simple_takes_def pushop_def over_def Stack_push_def map_option_bind comp_def)


lemma arith_takes [operands]:
  "simple_takes 2 opAdd" "simple_takes 2 opSub" "simple_takes 2 opMul" "simple_takes 2 opDiv" "simple_takes 2 opSdiv"
  "simple_takes 2 opMod" "simple_takes 2 opSmod" "simple_takes 2 opExp" "simple_takes 2 opSignExtend" "simple_takes 1 opNot"
  "simple_takes 2 opLt" "simple_takes 2 opGt" "simple_takes 2 opSlt" "simple_takes 2 opSgt" "simple_takes 2 opEq"
  "simple_takes 1 opIszero" "simple_takes 2 opAnd" "simple_takes 2 opOr" "simple_takes 2 opXor" "simple_takes 2 opByte"
  "simple_takes 3 opAddmod" "simple_takes 3 opMulmod" "simple_takes 2 opSHL" "simple_takes 2 opSHR" "simple_takes 2 opSAR"
  unfolding arith_op_defs by (rule operands)+

lemma push_takes [operands]:
  "simple_takes 0 opAddress" "simple_takes 0 opOrigin" "simple_takes 0 opCaller" "simple_takes 0 opCallValue"
  "simple_takes 0 opCallDataSize" "simple_takes 0 opReturnDataSize" "simple_takes 0 opCodeSize" "simple_takes 0 opGasprice"
  "simple_takes 0 opCoinbase" "simple_takes 0 opTimestamp" "simple_takes 0 opNumber" "simple_takes 0 opDifficulty"
  "simple_takes 0 opGasLimit" "simple_takes 0 opChainID" "simple_takes 0 opPc" "simple_takes 0 opMsize" "simple_takes 0 opGas"
  unfolding push_op_defs by (rule pushop_takes, simp)+

lemma blockhash_takes [operands]: "simple_takes 1 opBlockhash"
  using shape_takes(1) unfolding opBlockhash_def simple_takes_def by fast

text \<open>The stack is updated last.\<close>

lemma stack_last:
  "cx\<lparr>cx_stack := st, cx_memory := m\<rparr> = cx\<lparr>cx_memory := m, cx_stack := st\<rparr>"
  "cx\<lparr>cx_stack := st, cx_contract := c\<rparr> = cx\<lparr>cx_contract := c, cx_stack := st\<rparr>"
  "cx\<lparr>cx_stack := st, cx_rstack := r\<rparr> = cx\<lparr>cx_rstack := r, cx_stack := st\<rparr>"
  by simp_all

lemma over_tuple:
  "over rest (res, pc, cx, s) = (res, pc, cx\<lparr>cx_stack := cx_stack cx @ rest\<rparr>, s)"
  "over rest (if b then x else y) = (if b then over rest x else over rest y)"
  by (simp_all add: over_def)

lemmas over_simps = over_tuple map_option_bind comp_def length_cases short_cases case_prod_unfold Let_def stack_last

lemma word_takes [operands]:
  "simple_takes 1 opBalance" "simple_takes 1 opCallDataLoad" "simple_takes 1 opExtCodeSize" "simple_takes 1 opExtCodeHash"
  "simple_takes 1 opMload" "simple_takes 1 opSload"
  by (auto simp: simple_takes_def opBalance_def opCallDataLoad_def opExtCodeSize_def opExtCodeHash_def opMload_def opSload_def
      over_simps if_distrib [of "map_option _"] cong: if_cong)

lemma copy_takes [operands]:
  "simple_takes 3 opCallDataCopy" "simple_takes 3 opCodeCopy" "simple_takes 4 opExtCodeCopy" "simple_takes 3 opReturnDataCopy"
  by (auto simp: simple_takes_def opCallDataCopy_def opCodeCopy_def opExtCodeCopy_def opReturnDataCopy_def
      over_simps if_distrib [of "map_option _"] cong: if_cong)

lemma memory_takes [operands]:
  "simple_takes 2 opSha3" "simple_takes 2 opMstore" "simple_takes 2 opMstore8" "simple_takes 2 opSstore" "simple_takes 2 return_memory"
  by (auto simp: simple_takes_def opSha3_def opMstore_def opMstore8_def opSstore_def return_memory_def over_simps)

lemma suicide_takes [operands]: "simple_takes 1 opSuicide" "simple_takes 0 opSelfBalance"
  by (auto simp: simple_takes_def opSuicide_def opSelfBalance_def over_simps Stack_push_def)

lemma return_takes [operands]: "simple_takes 2 opReturn" "simple_takes 2 opRevert"
  unfolding opReturn_def opRevert_def by (rule operands)+


lemma jump_takes [operands]:
  "simple_takes 1 opJump" "simple_takes 2 opJumpi" "simple_takes 1 opJumpSub" "simple_takes 0 opReturnSub"
  "simple_takes 0 opJumpdest" "simple_takes 0 opBeginSub" "simple_takes 0 opStop" "simple_takes 1 opPop"
  by (auto simp: simple_takes_def opJump_def opJumpi_def opJumpSub_def opReturnSub_def opJumpdest_def opBeginSub_def
      opStop_def opPop_def stack_op_def jump_to_def over_simps if_distrib [of "map_option _"] cong: if_cong)

lemma code_takes [operands]: "simple_takes 0 opPush1" "simple_takes 0 (makePush n k)"
  by (simp_all add: simple_takes_def opPush1_def makePush_def Let_def over_def Stack_push_def map_option_bind comp_def if_distrib [of "map_option _"] cong: if_cong)

lemma dup_takes: "0 < n \<Longrightarrow> simple_takes n (makeDup n)"
  unfolding makeDup_def
  by (rule stack_op_takes) (auto simp: stack_takes_def Stack_dup_def idx_def nth_append Stack_push_def neq_Nil_conv)

lemma swap_takes [operands]: "simple_takes (m + 1) (makeSwap m)"
  unfolding makeSwap_def Let_def
  by (rule stack_op_takes) (auto simp: stack_takes_def Stack_swap_def idx_def nth_append list_update_append)

lemma topics_takes:
  "length us = n \<Longrightarrow> pop_topics n (us @ rest) = map_option (\<lambda>(ts, st). (ts, st @ rest)) (pop_topics n us)"
  "length st < n \<Longrightarrow> pop_topics n st = None"
proof -
  show "length us = n \<Longrightarrow> pop_topics n (us @ rest) = map_option (\<lambda>(ts, st). (ts, st @ rest)) (pop_topics n us)"
    by (induction n arbitrary: us) (auto simp: length_Suc_conv map_option_bind bind_map_option comp_def case_prod_unfold)
  show "length st < n \<Longrightarrow> pop_topics n st = None"
  proof (induction n arbitrary: st)
    case (Suc n)
    then show ?case by (cases st) auto
  qed simp
qed

lemma log_takes [operands]: "simple_takes (n + 2) (makeLog n)"
proof -
  have "\<exists>a b t. us = a # b # t \<and> length t = n" if "length us = n + 2" for us :: Stack
    using that by (auto simp: length_Suc_conv)
  moreover have "st = [] \<or> (\<exists>a. st = [a]) \<or> (\<exists>a b t. st = a # b # t \<and> length t < n)" if "length st < n + 2" for st :: Stack
    using that by (cases st; cases "tl st") auto
  ultimately show ?thesis
    unfolding simple_takes_def makeLog_def
    by (fastforce simp: topics_takes over_def map_option_bind bind_map_option comp_def case_prod_unfold Let_def)
qed


section \<open>Calls and creations\<close>

lemma length_call: "length us = 7 \<longleftrightarrow> (\<exists>a b c d e f g. us = [a, b, c, d, e, f, g])" "length us = 6 \<longleftrightarrow> (\<exists>a b c d e f. us = [a, b, c, d, e, f])"
  by (auto simp: length_Suc_conv numeral_eq_Suc)

lemma pop_call_args_over:
  assumes "length us = (if v then 7 else 6)"
  shows "pop_call_args v (cx\<lparr>cx_stack := us @ rest\<rparr>) =
    map_option (\<lambda>a. a\<lparr>ca_stack := rest\<rparr>) (pop_call_args v (cx\<lparr>cx_stack := us\<rparr>))"
    "pop_call_args v (cx\<lparr>cx_stack := us\<rparr>) = Some a \<Longrightarrow> ca_stack a = []"
  using assms by (cases v; auto simp: length_call pop_call_args_def map_option_bind comp_def split: bind_splits)+

lemma pop_call_args_short:
  assumes "length (cx_stack cx) < (if v then 7 else 6)"
  shows "pop_call_args v cx = None"
proof (cases "pop_call_args v cx")
  case (Some a)
  then show ?thesis using pop_call_args_stack [OF Some] assms by (simp split: if_splits)
qed

lemma obind_assoc: "obind (obind r f) g = obind r (\<lambda>x. obind (f x) g)"
  by (cases r) simp_all

lemma obind_opt_map: "obind (of_opt (map_option h r)) f = obind (of_opt r) (\<lambda>x. f (h x))"
  by (cases r) simp_all

lemma obind_opt_cong: "(\<And>a. r = Some a \<Longrightarrow> f a = g a) \<Longrightarrow> obind (of_opt r) f = obind (of_opt r) g"
  by (cases r) simp_all

lemma obind_short: "obind (of_opt None) f \<noteq> Done x"
  by simp

lemma finish_call_over:
  "ca_stack a = [] \<Longrightarrow> finish_call pc (cx\<lparr>cx_stack := st\<rparr>) (a\<lparr>ca_stack := rest\<rparr>) r =
     obind (finish_call pc (cx\<lparr>cx_stack := us\<rparr>) a r) (\<lambda>r. Done (over rest r))"
  by (cases "fst (fst r)") (simp_all add: finish_call_def Let_def obind_assoc over_tuple Stack_push_def case_prod_unfold stack_last)

lemma call_over:
  assumes "length us = (if v then 7 else 6)"
  shows "obind (of_opt (pop_call_args v (cx\<lparr>cx_stack := us @ rest\<rparr>)))
      (\<lambda>a. obind (f (ca_addr a) (ca_args a) (ca_value a)) (finish_call pc (cx\<lparr>cx_stack := us @ rest\<rparr>) a)) =
    obind (obind (of_opt (pop_call_args v (cx\<lparr>cx_stack := us\<rparr>)))
      (\<lambda>a. obind (f (ca_addr a) (ca_args a) (ca_value a)) (finish_call pc (cx\<lparr>cx_stack := us\<rparr>) a))) (\<lambda>r. Done (over rest r))"
  unfolding pop_call_args_over(1) [OF assms] obind_opt_map obind_assoc
  by (rule obind_opt_cong, simp, rule arg_cong [of _ _ "obind _"], rule ext)
    (rule finish_call_over [OF pop_call_args_over(2) [OF assms]])

lemma call_shape:
  "takes (if v then 7 else 6) (\<lambda>run E pc cx s. obind (of_opt (pop_call_args v cx))
     (\<lambda>a. obind (f run E (cx_contract cx) s (ca_addr a) (ca_args a) (ca_value a)) (finish_call pc cx a)))"
  unfolding takes_def
proof (intro conjI allI impI)
  fix run :: "'a runner" and E :: "('a, 'b) EVM" and pc cx s and us rest :: Stack
  assume "length us = (if v then 7 else 6)"
  from call_over [OF this, where cx = cx and rest = rest and f = "f run E (cx_contract cx) s" and pc = pc] show
    "obind (of_opt (pop_call_args v (cx\<lparr>cx_stack := us @ rest\<rparr>))) (\<lambda>a. obind (f run E (cx_contract (cx\<lparr>cx_stack := us @ rest\<rparr>)) s
        (ca_addr a) (ca_args a) (ca_value a)) (finish_call pc (cx\<lparr>cx_stack := us @ rest\<rparr>) a)) =
      obind (obind (of_opt (pop_call_args v (cx\<lparr>cx_stack := us\<rparr>))) (\<lambda>a. obind (f run E (cx_contract (cx\<lparr>cx_stack := us\<rparr>)) s
        (ca_addr a) (ca_args a) (ca_value a)) (finish_call pc (cx\<lparr>cx_stack := us\<rparr>) a))) (\<lambda>r. Done (over rest r))"
    by simp
qed (simp add: pop_call_args_short)

lemma call_takes [operands]: "takes 7 opCall" "takes 7 opCallCode" "takes 6 opDelegateCall" "takes 6 opStaticCall"
proof -
  show "takes 7 opCall"
    using call_shape [of True "\<lambda>run E c s addr args val. EVM_Call run E (as_caller c) addr args
      (with_stipend (es_callGasTemp s) val) (Int_ToBig val) s"] by (simp add: takes_def opCall_def)
  show "takes 7 opCallCode"
    using call_shape [of True "\<lambda>run E c s addr args val. EVM_CallCode run E (as_caller c) addr args
      (with_stipend (es_callGasTemp s) val) (Int_ToBig val) s"] by (simp add: takes_def opCallCode_def)
  show "takes 6 opDelegateCall"
    using call_shape [of False "\<lambda>run E c s addr args val. EVM_DelegateCall run E (as_caller c) addr args (es_callGasTemp s) s"]
    by (simp add: takes_def opDelegateCall_def)
  show "takes 6 opStaticCall"
    using call_shape [of False "\<lambda>run E c s addr args val. EVM_StaticCall run E (as_caller c) addr args (es_callGasTemp s) s"]
    by (simp add: takes_def opStaticCall_def)
qed

lemma finish_create_over:
  "finish_create pc (cx\<lparr>cx_contract := c, cx_stack := rest\<rparr>) b r =
     obind (finish_create pc (cx\<lparr>cx_contract := c, cx_stack := []\<rparr>) b r) (\<lambda>r. Done (over rest r))"
  by (simp add: finish_create_def Let_def obind_assoc over_tuple Stack_push_def case_prod_unfold stack_last)

lemma obind_opt_bind: "obind (of_opt (m \<bind> (\<lambda>x. Some (h x)))) f = obind (of_opt m) (\<lambda>x. f (h x))"
  by (cases m) simp_all

lemma create_takes [operands]: "takes 3 opCreate" "takes 4 opCreate2"
proof -
  have "opCreate run E pc (cx\<lparr>cx_stack := [a, b, c] @ rest\<rparr>) s =
      obind (opCreate run E pc (cx\<lparr>cx_stack := [a, b, c]\<rparr>) s) (\<lambda>r. Done (over rest r))" for run E pc cx s a b c rest
    by (simp add: opCreate_def obind_opt_bind obind_assoc case_prod_unfold Let_def stack_last finish_create_over [where rest = rest])
  then show "takes 3 opCreate"
    unfolding takes_def length_cases short_cases by (auto simp: opCreate_def)
  have "opCreate2 run E pc (cx\<lparr>cx_stack := [a, b, c, d] @ rest\<rparr>) s =
      obind (opCreate2 run E pc (cx\<lparr>cx_stack := [a, b, c, d]\<rparr>) s) (\<lambda>r. Done (over rest r))" for run E pc cx s a b c d rest
    by (simp add: opCreate2_def obind_opt_bind obind_assoc case_prod_unfold Let_def stack_last finish_create_over [where rest = rest])
  then show "takes 4 opCreate2"
    unfolding takes_def length_cases short_cases by (auto simp: opCreate2_def)
qed

section \<open>Memory sizes and gas\<close>

definition gas_reads :: "nat \<Rightarrow> ('st, 'it) gasFunc \<Rightarrow> bool" where
  "gas_reads n d \<longleftrightarrow> (\<forall>E c mem msz s. reads n (\<lambda>st. d E c st mem msz s))"

lemma Back_top [simp]: "i < length us \<Longrightarrow> Stack_Back (us @ rest) i = Stack_Back us i"
  by (simp add: Stack_Back_def idx_def nth_append)

lemma range_reads:
  "i < n \<Longrightarrow> j < n \<Longrightarrow> reads n (mem_range i j)" "i < n \<Longrightarrow> reads n (mem_range_fixed i l)"
  "reads n f \<Longrightarrow> reads n g \<Longrightarrow> reads n (mem_range_max f g)"
  by (simp_all add: reads_def mem_range_def mem_range_fixed_def mem_range_max_def case_prod_unfold cong: if_cong)

lemma gas_shapes:
  "gas_reads n pureMemoryGascost" "i < n \<Longrightarrow> gas_reads n (memory_word_gas i p)" "1 < n \<Longrightarrow> gas_reads n (exp_gas g)"
  by (auto simp: gas_reads_def reads_def pureMemoryGascost_def memory_word_gas_def exp_gas_def idx_def nth_append case_prod_unfold
      Let_def split: sum.splits)

lemma call_gas_top: "0 < length us \<Longrightarrow> add_call_gas E c (us @ rest) g s = add_call_gas E c us g s"
  by (simp add: add_call_gas_def)

lemma then_call_gas_top: "0 < length us \<Longrightarrow> gas_memory_then_call E c (us @ rest) mem msz g s = gas_memory_then_call E c us mem msz g s"
  by (simp add: gas_memory_then_call_def call_gas_top case_prod_unfold Let_def split: sum.splits)

lemma call_gas_reads: "gas_reads 7 gasCall" "gas_reads 7 gasCallCode" "gas_reads 6 gasDelegateCall" "gas_reads 6 gasStaticCall"
  by (simp_all add: gas_reads_def reads_def gasCall_def gasCallCode_def gasDelegateCall_def gasStaticCall_def call_gas_top
      then_call_gas_top case_prod_unfold Let_def split: sum.splits)


lemma store_gas_reads: "gas_reads 2 gasSStore" "gas_reads 2 gasSStoreEIP2200" "gas_reads 1 gasSelfdestruct" "1 < n \<Longrightarrow> gas_reads n (makeGasLog k)"
  by (simp_all add: gas_reads_def reads_def gasSStore_def gasSStoreEIP2200_def gasSelfdestruct_def makeGasLog_def)

lemma memory_reads [simp]:
  "reads 2 memorySha3" "reads 3 memoryCallDataCopy" "reads 3 memoryReturnDataCopy" "reads 3 memoryCodeCopy" "reads 4 memoryExtCodeCopy"
  "reads (Suc 0) memoryMLoad" "reads 2 memoryMStore8" "reads 2 memoryMStore" "reads 3 memoryCreate" "reads 4 memoryCreate2"
  "reads 7 memoryCall" "reads 6 memoryDelegateCall" "reads 6 memoryStaticCall" "reads 2 memoryReturn" "reads 2 memoryRevert"
  "1 < n \<Longrightarrow> reads n memoryLog"
  unfolding memorySha3_def memoryCallDataCopy_def memoryReturnDataCopy_def memoryCodeCopy_def memoryExtCodeCopy_def
    memoryMLoad_def memoryMStore8_def memoryMStore_def memoryCreate_def memoryCreate2_def memoryCall_def
    memoryDelegateCall_def memoryStaticCall_def memoryReturn_def memoryRevert_def memoryLog_def
  by (simp_all add: range_reads)

lemma gas_table_reads [simp]:
  "gas_reads 2 gasSha3" "gas_reads 3 gasCallDataCopy" "gas_reads 3 gasReturnDataCopy" "gas_reads 3 gasCodeCopy" "gas_reads 4 gasExtCodeCopy"
  "gas_reads n gasMLoad" "gas_reads n gasMStore8" "gas_reads n gasMStore" "gas_reads n gasCreate" "gas_reads 4 gasCreate2"
  "gas_reads n gasReturn" "gas_reads n gasRevert" "gas_reads 2 gasExpFrontier" "gas_reads 2 gasExpEIP158"
  "gas_reads 2 gasSStore" "gas_reads 2 gasSStoreEIP2200" "gas_reads (Suc 0) gasSelfdestruct" "1 < n \<Longrightarrow> gas_reads n (makeGasLog k)"
  unfolding gasSha3_def gasCallDataCopy_def gasReturnDataCopy_def gasCodeCopy_def gasExtCodeCopy_def memoryCopierGas_def
    gasMLoad_def gasMStore8_def gasMStore_def gasCreate_def gasCreate2_def gasReturn_def gasRevert_def gasExpFrontier_def gasExpEIP158_def
  using store_gas_reads by (simp_all add: gas_shapes)

section \<open>The tables\<close>

definition stack_exact :: "OpCode \<times> ('st, 'it) operation \<Rightarrow> bool" where
  "stack_exact e \<longleftrightarrow> (\<exists>p q. takes p (op_execute (snd e)) \<and> exec_frame p q (op_execute (snd e)) \<and>
     op_minStack (snd e) = int p \<and> op_maxStack (snd e) = maxStack (int p) (int q) \<and>
     (\<forall>f. op_memorySize (snd e) = Some f \<longrightarrow> reads p f) \<and> (\<forall>d. op_dynamicGas (snd e) = Some d \<longrightarrow> gas_reads p d) \<and>
     (fst e \<in> {EXP, SSTORE} \<longrightarrow> p = 2))"

lemma exact_simple:
  "op_execute o' = lift_op f \<Longrightarrow> frame_ok p q f \<Longrightarrow> simple_takes p f \<Longrightarrow>
     op_minStack o' = int p \<and> op_maxStack o' = maxStack (int p) (int q) \<and>
     (\<forall>f. op_memorySize o' = Some f \<longrightarrow> reads p f) \<and> (\<forall>d. op_dynamicGas o' = Some d \<longrightarrow> gas_reads p d) \<and>
     (op \<in> {EXP, SSTORE} \<longrightarrow> p = 2) \<Longrightarrow> stack_exact (op, o')"
  unfolding stack_exact_def fst_conv snd_conv using lift_frame lift_takes by metis

lemma exact_call:
  "takes p (op_execute o') \<Longrightarrow> exec_frame p q (op_execute o') \<Longrightarrow>
     op_minStack o' = int p \<and> op_maxStack o' = maxStack (int p) (int q) \<and>
     (\<forall>f. op_memorySize o' = Some f \<longrightarrow> reads p f) \<and> (\<forall>d. op_dynamicGas o' = Some d \<longrightarrow> gas_reads p d) \<and>
     (op \<in> {EXP, SSTORE} \<longrightarrow> p = 2) \<Longrightarrow> stack_exact (op, o')"
  unfolding stack_exact_def fst_conv snd_conv by blast

lemmas stack_bounds = minStack_def maxStack_def minSwapStack_def maxSwapStack_def minDupStack_def maxDupStack_def

lemma all_entries_exact: "list_all stack_exact (frontier_entries @ byzantium_entries @ constantinople_entries @ single_entries)"
  unfolding frontier_entries_def all_entries append_Cons append_Nil
  by (intro list_all_Cons list.pred_inject(1))
    ((rule exact_simple, simp only: mk_op_def operation.simps, rule frames, (rule operands | rule dup_takes, simp),
        simp add: mk_op_def stack_bounds; fail) |
     (rule exact_call, simp only: mk_op_def operation.simps, rule operands, simp only: mk_op_def operation.simps, rule call_exec_frames,
        simp add: mk_op_def stack_bounds call_gas_reads; fail))+

lemma exact_constantGas: "stack_exact (op, o') \<Longrightarrow> stack_exact (op, o'\<lparr>op_constantGas := g\<rparr>)"
  by (simp add: stack_exact_def)

lemma exact_dynamicGas:
  "stack_exact (op, o') \<Longrightarrow> op \<in> {EXP, SSTORE} \<Longrightarrow> gas_reads 2 d \<Longrightarrow> stack_exact (op, o'\<lparr>op_dynamicGas := Some d\<rparr>)"
  by (auto simp: stack_exact_def)

interpretation stacks: table_property stack_exact
  by unfold_locales (simp_all add: exact_constantGas exact_dynamicGas all_entries_exact [unfolded list_all_append])

end
