(* ===== verification/Machine_Props.thy ===== *)
theory Machine_Props
  imports Interpreter_Laws Operand_Laws Executor
begin

text \<open>
  Properties of single parts of the virtual machine: the price of memory, the modular exponentiation contract, revert
  reasons and the instruction tables.
\<close>

section \<open>Memory\<close>

text \<open>The price of \<open>w\<close> words of memory, and a memory that has paid for what it holds.\<close>

definition memory_price :: "nat \<Rightarrow> nat" where
  "memory_price w = 3 * w + w * w div 512"

definition memory_paid :: "Memory \<Rightarrow> bool" where
  "memory_paid mem \<longleftrightarrow> (\<exists>w. Memory_Len mem = 32 * w \<and> w \<le> 2 ^ 32 \<and> m_lastGasCost mem = of_nat (memory_price w))"

lemma memory_price_mono: "v \<le> w \<Longrightarrow> memory_price v \<le> memory_price w"
  unfolding memory_price_def by (intro add_mono div_le_mono mult_le_mono) auto

lemma memory_price_max: "w \<le> 2 ^ 32 \<Longrightarrow> memory_price w < 2 ^ 64"
proof -
  assume "w \<le> 2 ^ 32"
  then have "memory_price w \<le> memory_price (2 ^ 32)" by (rule memory_price_mono)
  then show ?thesis by (simp add: memory_price_def)
qed

lemma toWordSize_small:
  assumes "sz \<le> 0x1FFFFFFFE0"
  shows "unat (toWordSize sz) = (unat sz + 31) div 32" "(unat sz + 31) div 32 \<le> 2 ^ 32 - 1"
proof -
  have s: "unat sz \<le> 0x1FFFFFFFE0" using assms by (simp add: word_le_nat_alt)
  have "unat (sz + 31) = unat sz + 31" using s by (simp add: unat_word_ariths)
  then show "unat (toWordSize sz) = (unat sz + 31) div 32"
    using s by (simp add: toWordSize_def word_less_nat_alt unat_div)
  have "(unat sz + 31) div 32 \<le> (0x1FFFFFFFE0 + 31) div 32" using s by (intro div_le_mono) simp
  then show "(unat sz + 31) div 32 \<le> 2 ^ 32 - 1" by simp
qed

text \<open>C23: Growing the memory costs the difference of the prices of the two sizes, in whole words, with no overflow in the
  64-bit arithmetic; sizes above \<open>0x1FFFFFFFE0\<close> are refused with an error.  The memory stays paid for once it is resized
  to the size asked for, rounded up to words, so that the price of a frame's memory is that of its final size.\<close>

theorem memory_gas_exact:
  assumes "memory_paid mem"
  shows "if 0x1FFFFFFFE0 < newMemSize then fst (memoryGasCost mem newMemSize) = Inl ErrGasUintOverflow
    else \<exists>fee mem'. memoryGasCost mem newMemSize = (Inr fee, mem') \<and>
      unat fee = memory_price (max (Memory_Len mem div 32) ((unat newMemSize + 31) div 32)) - memory_price (Memory_Len mem div 32) \<and>
      memory_paid (Memory_Resize mem' (toWordSize newMemSize * 32))"
proof (cases "0x1FFFFFFFE0 < newMemSize")
  case True
  then show ?thesis by (auto simp: memoryGasCost_def)
next
  case False
  then have le: "newMemSize \<le> 0x1FFFFFFFE0" by simp
  define w where "w = (unat newMemSize + 31) div 32"
  note tw = toWordSize_small [OF le, folded w_def]
  obtain v where v: "Memory_Len mem = 32 * v" "v \<le> 2 ^ 32" "m_lastGasCost mem = of_nat (memory_price v)"
    using assms by (auto simp: memory_paid_def)
  have sz: "unat (toWordSize newMemSize * 32) = 32 * w" using tw by (simp add: unat_word_ariths)
  have pw: "memory_price w < 2 ^ 64" by (rule memory_price_max) (use tw(2) in simp)
  have sq: "w * w < 2 ^ 64"
  proof -
    have "w * w \<le> (2 ^ 32 - 1) * (2 ^ 32 - 1)" by (intro mult_le_mono tw(2))
    then show ?thesis by simp
  qed
  define total where "total = toWordSize newMemSize * MemoryGas + toWordSize newMemSize * toWordSize newMemSize div QuadCoeffDiv"
  have tot: "unat total = memory_price w"
    using tw sq pw by (simp add: total_def memory_price_def unat_word_ariths unat_div mult.commute)
  have cost: "memoryGasCost mem newMemSize =
      (if newMemSize = 0 \<or> \<not> 32 * v < 32 * w then (Inr 0, mem) else (Inr (total - m_lastGasCost mem), mem\<lparr>m_lastGasCost := total\<rparr>))"
    using False sz v(1) by (simp add: memoryGasCost_def Let_def total_def)
  show ?thesis
  proof (cases "v < w")
    case True
    then have n0: "newMemSize \<noteq> 0" by (auto simp: w_def)
    have pv: "unat (of_nat (memory_price v) :: u64) = memory_price v"
      using memory_price_max [OF v(2)] by (simp add: unat_of_nat take_bit_nat_eq_self)
    have "memory_price v \<le> memory_price w" using True memory_price_mono by simp
    then have fee: "unat (total - m_lastGasCost mem) = memory_price w - memory_price v"
      using tot pv v(3) by (simp add: unat_sub word_le_nat_alt)
    have "total = of_nat (memory_price w)" using tot pw by (simp add: word_unat_eq_iff unat_of_nat take_bit_nat_eq_self)
    then have "memory_paid (Memory_Resize (mem\<lparr>m_lastGasCost := total\<rparr>) (toWordSize newMemSize * 32))"
      unfolding memory_paid_def using True sz v(1) tw(2)
      by (intro exI [of _ w]) (simp add: Memory_Resize_def Memory_Len_def)
    then show ?thesis using False cost fee n0 True v(1) by (simp add: w_def [symmetric] max_def)
  next
    case le_v: False
    then have "Memory_Resize mem (toWordSize newMemSize * 32) = mem" using sz v(1) by (simp add: Memory_Resize_def)
    moreover have "memoryGasCost mem newMemSize = (Inr 0, mem)" using cost le_v by simp
    moreover have "max v w = v" using le_v by simp
    ultimately show ?thesis using False assms v(1) by (simp add: w_def [symmetric])
  qed
qed

theorem memory_gas_exact_witness:
  "\<exists>fee mem'. memoryGasCost NewMemory 1000000 = (Inr fee, mem') \<and> unat fee = 3 * 31250 + 31250 * 31250 div 512"
proof -
  have "memory_paid NewMemory" by (simp add: memory_paid_def NewMemory_def Memory_Len_def memory_price_def)
  from memory_gas_exact [OF this, of 1000000] show ?thesis by (auto simp: NewMemory_def Memory_Len_def memory_price_def)
qed

section \<open>Modular exponentiation\<close>

lemma unat_u64_of_nat: "n < 2 ^ 64 \<Longrightarrow> unat (of_nat n :: u64) = n"
  by (simp add: unat_of_nat take_bit_nat_eq_self)

lemma getData_inside:
  assumes "st + n \<le> length data" "length data < 2 ^ 63"
  shows "getData data (of_nat st) (of_nat n) = Some (take n (drop st data))"
proof -
  note u = unat_u64_of_nat [of st] unat_u64_of_nat [of n] unat_u64_of_nat [of "st + n"] unat_u64_of_nat [of "length data"]
  show ?thesis using assms u sint_small [of n]
    by (simp add: getData_def go_slice_def RightPadBytes_def word_less_nat_alt Let_def flip: of_nat_add)
qed

lemma big_Bytes_value: "be_nat (big_Bytes (int n)) = n" "n < 256 ^ k \<Longrightarrow> length (big_Bytes (int n)) \<le> k"
proof -
  have "n < 2 ^ nat_len n" by (rule nat_len_less)
  also have "(2 :: nat) ^ nat_len n \<le> 2 ^ (8 * ((nat_len n + 7) div 8))" by (intro power_increasing) auto
  finally have "n < 256 ^ ((nat_len n + 7) div 8)" by (simp add: power_mult)
  then show "be_nat (big_Bytes (int n)) = n" by (simp add: big_Bytes_def big_BitLen_def be_nat_be_bytes)
  assume "n < 256 ^ k"
  then have "n < 2 ^ (8 * k)" by (simp add: power_mult)
  then have "nat_len n \<le> 8 * k" by (rule nat_len_le)
  then show "length (big_Bytes (int n)) \<le> k" by (simp add: big_Bytes_def big_BitLen_def)
qed

lemma be_nat_zeros: "be_nat (replicate k 0 @ b) = be_nat b"
proof -
  have "le_nat (bs @ replicate k 0) = le_nat bs" for bs by (induction bs) (simp_all, induction k, simp_all)
  then show ?thesis by (simp add: be_nat_def)
qed

lemma LeftPadBytes_value: "length b \<le> k \<Longrightarrow> length (LeftPadBytes b (int k)) = k \<and> be_nat (LeftPadBytes b (int k)) = be_nat b"
  by (auto simp: LeftPadBytes_def be_nat_zeros)

text \<open>The input of the contract: three lengths of 32 bytes, then the numbers.\<close>

definition modexp_input :: "bytes \<Rightarrow> bytes \<Rightarrow> bytes \<Rightarrow> bytes" where
  "modexp_input base ex md = be_bytes 32 (length base) @ be_bytes 32 (length ex) @ be_bytes 32 (length md) @ base @ ex @ md"

text \<open>C24: The modular exponentiation contract computes \<open>base\<close> to the power \<open>ex\<close> modulo \<open>md\<close>, zero for a zero modulus,
  as a big-endian number of exactly as many bytes as the modulus has, and does not panic.\<close>

theorem modexp_exact:
  assumes "length base + length ex + length md + 96 < 2 ^ 63"
  shows "\<exists>out. bigModExp_Run (modexp_input base ex md) = Some out \<and> length out = length md \<and>
    be_nat out = (if be_nat md = 0 then 0 else be_nat base ^ be_nat ex mod be_nat md)"
proof -
  let ?in = "modexp_input base ex md" and ?d = "base @ ex @ md"
  let ?l = "\<lambda>b. be_bytes 32 (length (b :: bytes))"
  have len: "length ?in = 96 + length ?d" "length ?in < 2 ^ 63" using assms by (simp_all add: modexp_input_def)
  have head: "getData ?in 0 32 = Some (?l base)" "getData ?in 32 32 = Some (?l ex)" "getData ?in 64 32 = Some (?l md)"
    using getData_inside [of 0 32 ?in] getData_inside [of 32 32 ?in] getData_inside [of 64 32 ?in] len
    by (simp_all add: modexp_input_def)
  have val: "big_Uint64 (big_SetBytes (be_bytes 32 n)) = of_nat n" if "n < 2 ^ 63" for n
    using that by (simp add: big_Uint64_def big_SetBytes_def be_nat_be_bytes)
  have body: "getData ?d 0 (of_nat (length base)) = Some base" "getData ?d (of_nat (length base)) (of_nat (length ex)) = Some ex"
    "getData ?d (of_nat (length base) + of_nat (length ex)) (of_nat (length md)) = Some md"
    using getData_inside [of 0 "length base" ?d] getData_inside [of "length base" "length ex" ?d]
      getData_inside [of "length base + length ex" "length md" ?d] assms by simp_all
  have dr: "(if length ?in > 96 then drop 96 ?in else []) = ?d" by (simp add: modexp_input_def)
  have z: "big_BitLen (big_SetBytes md) = 0 \<longleftrightarrow> be_nat md = 0"
    by (simp add: big_BitLen_def big_SetBytes_def nat_len.simps)
  define out where "out = (if be_nat md = 0 then LeftPadBytes [] (int (length md))
    else LeftPadBytes (big_Bytes (big_SetBytes base ^ nat (big_SetBytes ex) mod big_SetBytes md)) (int (length md)))"
  have run: "bigModExp_Run ?in = Some out"
  proof (cases "base = [] \<and> md = []")
    case True
    then show ?thesis using head val
      by (simp add: bigModExp_Run_def out_def LeftPadBytes_def be_nat_def)
  next
    case False
    have n0: "(of_nat n :: u64) = 0 \<longleftrightarrow> n = 0" if "n < 2 ^ 63" for n
      using unat_u64_of_nat [of n] that by (simp add: word_unat_eq_iff)
    have ls: "length base < 2 ^ 63" "length ex < 2 ^ 63" "length md < 2 ^ 63" using assms by simp_all
    have "\<not> ((of_nat (length base) :: u64) = 0 \<and> (of_nat (length md) :: u64) = 0)" using False n0 ls by simp
    then show ?thesis unfolding bigModExp_Run_def head bind.bind_lunit Let_def val [OF ls(1)] val [OF ls(2)] val [OF ls(3)] dr
      using body z ls by (auto simp: out_def sint_small)
  qed
  have "be_nat base ^ be_nat ex mod be_nat md < 256 ^ length md" if "be_nat md \<noteq> 0"
    using that be_nat_less [of md] by (meson bot_nat_0.not_eq_extremum mod_less_divisor order.strict_trans)
  then have "length out = length md \<and> be_nat out = (if be_nat md = 0 then 0 else be_nat base ^ be_nat ex mod be_nat md)"
    using LeftPadBytes_value [of "[]" "length md"] LeftPadBytes_value [of "big_Bytes (int (be_nat base ^ be_nat ex mod be_nat md))" "length md"]
      big_Bytes_value [of "be_nat base ^ be_nat ex mod be_nat md"]
    by (simp add: out_def big_SetBytes_def be_nat_def [of "[]"] flip: of_nat_power of_nat_mod)
  with run show ?thesis by blast
qed

theorem modexp_exact_witness:
  "\<exists>out. bigModExp_Run (modexp_input [3] [5] [0, 7]) = Some out \<and> length out = 2 \<and> be_nat out = 5"
  using modexp_exact [of "[3]" "[5]" "[0, 7]"] by (simp add: be_nat_def) (simp add: numeral_2_eq_2)

section \<open>Revert reasons\<close>

lemma BitLen_big: "63 < nat_len n \<Longrightarrow> 2 ^ 63 \<le> n"
  using nat_len_le [of n 63] by linarith

text \<open>C34: From return data that starts with the selector of \<^verbatim>\<open>Error(string)\<close> and has the two words of an offset and a length
  \<open>n\<close>, \<^verbatim>\<open>DecodeRevert\<close> reads the \<open>n\<close> bytes that follow.  It panics when \<open>n\<close> is larger than the length of everything after
  the offset, or when the array ends before them; in between, where the length of the data ends but its array (\<open>spare\<close>)
  does not, it reads bytes that are not return data.  Any other return data is not taken for a reason.\<close>

theorem decode_revert_exact:
  assumes "length ret < 2 ^ 63" "n = be_nat (take 32 (drop 36 ret))"
  shows "if length ret < 68 \<or> take 4 ret \<noteq> [0x08, 0xc3, 0x79, 0xa0] then DecodeRevert spare ret = Some None
    else if length ret - 36 < n \<or> length (ret @ spare) < 68 + n then DecodeRevert spare ret = None
    else DecodeRevert spare ret = Some (Some (take n (drop 68 (ret @ spare))))"
proof (cases "length ret < 68 \<or> take 4 ret \<noteq> [0x08, 0xc3, 0x79, 0xa0]")
  case True
  then show ?thesis by (auto simp: DecodeRevert_def)
next
  case False
  let ?data = "drop 36 ret"
  have "readLength ?data = (if 63 < nat_len n \<or> length ret - 36 < n then Some (Inl ()) else Some (Inr n))"
    using False assms(2) by (auto simp: readLength_def go_slice_def big_SetBytes_def big_BitLen_def)
  then have dec: "DecodeRevert spare ret =
      (if 63 < nat_len n \<or> length ret - 36 < n then None else map_option Some (go_slice (?data @ spare) 32 (32 + n)))"
    using False by (simp add: DecodeRevert_def go_slice_def [of ret] map_option_case split: option.splits)
  have "\<not> 63 < nat_len n" if "n \<le> length ret" using BitLen_big [of n] that assms(1) by linarith
  then show ?thesis using False dec by (auto simp: go_slice_def)
qed

theorem decode_revert_exact_witness:
  "DecodeRevert [] ([0x08, 0xc3, 0x79, 0xa0] @ be_bytes 32 32 @ be_bytes 32 2 @ [0x6f, 0x6b] @ replicate 30 0) = Some (Some [0x6f, 0x6b])"
  using decode_revert_exact [of "[0x08, 0xc3, 0x79, 0xa0] @ be_bytes 32 32 @ be_bytes 32 2 @ [0x6f, 0x6b] @ replicate 30 0" 2 "[]"]
  by (simp add: be_nat_be_bytes)

section \<open>Instruction tables\<close>

lemma maxStack_1024: "maxStack p q = 1024 + p - q"
  by (simp add: maxStack_def)

text \<open>C18: The instruction table of every fork can be built, without a panic, and the stack bounds of each of its entries are
  exactly those of its operation.  With \<open>pops\<close> the least number of words the entry asks for, the operation works on the
  \<open>pops\<close> topmost words alone, leaving the rest of the stack as it is, and never completes with fewer; the functions of the
  entry that compute the memory size and the gas read no other words; and the largest stack the entry admits is the one
  that leaves 1024 words after the operation, which puts \<open>pushes\<close> words in their place.  Each operation costs gas (a
  positive constant price, or a price its gas function computes that is never zero) unless it ends the frame, and only
  the call and create instructions run other code.\<close>

theorem tables_well_formed:
  assumes "cfg_ExtraEips cfg = []"
  shows "\<exists>jt :: ('st, 'it) JumpTable. NewEVMInterpreter rules cfg = Some jt \<and>
    (\<forall>op e. jt op = Some e \<longrightarrow>
      (\<exists>pops pushes. op_minStack e = int pops \<and> op_maxStack e = 1024 + int pops - int pushes \<and>
        takes pops (op_execute e) \<and> exec_frame pops pushes (op_execute e) \<and>
        (\<forall>f. op_memorySize e = Some f \<longrightarrow> reads pops f) \<and> (\<forall>d. op_dynamicGas e = Some d \<longrightarrow> gas_reads pops d)) \<and>
      (0 < op_constantGas e \<or> op_halts e \<or> op_reverts e \<or> (\<exists>d. op_dynamicGas e = Some d \<and> charges d)) \<and>
      (simple_exec e \<or> op \<in> {CALL, CALLCODE, DELEGATECALL, STATICCALL, CREATE, CREATE2}))"
proof -
  obtain jt :: "('st, 'it) JumpTable" where jt: "NewEVMInterpreter rules cfg = Some jt"
    using NewEVMInterpreter_defined [OF assms] by blast
  have ok: "op_ok e" "simple_exec e \<or> op \<in> call_opcodes" if "jt op = Some e" for op e
    using table_allD [OF entries.NewEVMInterpreter_all [OF jt] that] by (simp_all add: entry_ok_def)
  have "\<exists>pops pushes. op_minStack e = int pops \<and> op_maxStack e = 1024 + int pops - int pushes \<and>
      takes pops (op_execute e) \<and> exec_frame pops pushes (op_execute e) \<and>
      (\<forall>f. op_memorySize e = Some f \<longrightarrow> reads pops f) \<and> (\<forall>d. op_dynamicGas e = Some d \<longrightarrow> gas_reads pops d)" if "jt op = Some e" for op e
    using table_allD [OF stacks.NewEVMInterpreter_all [OF jt] that] unfolding stack_exact_def snd_conv maxStack_1024 by blast
  moreover have "0 < op_constantGas e \<or> op_halts e \<or> op_reverts e \<or> (\<exists>d. op_dynamicGas e = Some d \<and> charges d)"
    if "jt op = Some e" for op e using ok(1) [OF that] by (auto simp: op_ok_def)
  ultimately show ?thesis using jt ok(2) unfolding call_opcodes_def by (intro exI [of _ jt]) simp
qed

theorem tables_well_formed_witness:
  "\<exists>jt :: (RemoteDB, dbIter) JumpTable. NewEVMInterpreter (ChainConfig_Rules (GetChainConfig 1) 0)
    \<lparr>cfg_NoRecursion = False, cfg_EnablePreimageRecording = False, cfg_ExtraEips = []\<rparr> = Some jt \<and>
    (\<forall>e. jt ADD = Some e \<longrightarrow> simple_exec e \<and> takes (nat (op_minStack e)) (op_execute e))"
proof -
  have "cfg_ExtraEips \<lparr>cfg_NoRecursion = False, cfg_EnablePreimageRecording = False, cfg_ExtraEips = []\<rparr> = []" by simp
  from tables_well_formed [OF this, of "ChainConfig_Rules (GetChainConfig 1) 0"]
  show ?thesis
  proof (elim exE conjE, intro exI conjI allI impI)
    fix jt :: "(RemoteDB, dbIter) JumpTable" and e
    assume e: "jt ADD = Some e"
    assume "\<forall>op e. jt op = Some e \<longrightarrow>
      (\<exists>pops pushes. op_minStack e = int pops \<and> op_maxStack e = 1024 + int pops - int pushes \<and>
        takes pops (op_execute e) \<and> exec_frame pops pushes (op_execute e) \<and>
        (\<forall>f. op_memorySize e = Some f \<longrightarrow> reads pops f) \<and> (\<forall>d. op_dynamicGas e = Some d \<longrightarrow> gas_reads pops d)) \<and>
      (0 < op_constantGas e \<or> op_halts e \<or> op_reverts e \<or> (\<exists>d. op_dynamicGas e = Some d \<and> charges d)) \<and>
      (simple_exec e \<or> op \<in> {CALL, CALLCODE, DELEGATECALL, STATICCALL, CREATE, CREATE2})"
    from this [rule_format, OF e] show "simple_exec e" "takes (nat (op_minStack e)) (op_execute e)" by auto
  qed
qed

end
