(* ===== verification/Jumpdest_Laws.thy ===== *)
theory Jumpdest_Laws
  imports Evm_Base
begin

text \<open>
  The analysis of jump destinations, \<^verbatim>\<open>src/evm/analysis.go\<close> and \<^verbatim>\<open>validJumpdest\<close> of \<^verbatim>\<open>src/evm/contract.go\<close>, against a reference
  that reads the code byte by byte: the packed bit vector marks exactly the bytes that belong to a push instruction.
\<close>

section \<open>The reference\<close>

text \<open>Which bytes are data, when the first \<open>n\<close> are.\<close>

fun push_data :: "nat \<Rightarrow> bytes \<Rightarrow> bool list" where
  "push_data n [] = []"
| "push_data 0 (op # bs) = False # push_data (if PUSH1 \<le> op \<and> op \<le> PUSH32 then unat op - 0x5f else 0) bs"
| "push_data (Suc n) (b # bs) = True # push_data n bs"

lemma length_push_data [simp]: "length (push_data n bs) = length bs"
  by (induction n bs rule: push_data.induct) auto

lemma push_data_skip: "i < length bs \<Longrightarrow> push_data n bs ! i \<longleftrightarrow> i < n \<or> push_data 0 (drop n bs) ! (i - n)"
proof (induction n bs arbitrary: i rule: push_data.induct)
  case (3 n b bs)
  then show ?case by (cases i) auto
qed auto

section \<open>Bit vectors\<close>

text \<open>The bit of a position, most significant bit first.\<close>

definition marked :: "bitvec \<Rightarrow> nat \<Rightarrow> bool" where
  "marked bits j \<longleftrightarrow> bit (bits ! (j div 8)) (7 - j mod 8)"

lemma byte_masks:
  assumes "k < 8" "i < 8"
  shows "bit (drop_bit k (0x80 :: byte)) (7 - i) \<longleftrightarrow> i = k" "bit (drop_bit k (0xFF :: byte)) (7 - i) \<longleftrightarrow> k \<le> i"
proof -
  have "\<forall>k \<in> set [0..<8]. \<forall>i \<in> set [0..<8]. (bit (drop_bit k (0x80 :: byte)) (7 - i) \<longleftrightarrow> i = k) \<and>
      (bit (drop_bit k (0xFF :: byte)) (7 - i) \<longleftrightarrow> k \<le> i)" by code_simp
  with assms show "bit (drop_bit k (0x80 :: byte)) (7 - i) \<longleftrightarrow> i = k" "bit (drop_bit k (0xFF :: byte)) (7 - i) \<longleftrightarrow> k \<le> i"
    by auto
qed

lemma bit_7: "bit (NOT (b :: byte)) (7 - i mod 8) \<longleftrightarrow> \<not> bit b (7 - i mod 8)"
  by (simp add: bit_not_iff less_imp_diff_less)

lemma same_byte: "j div 8 = p div 8 \<Longrightarrow> j mod 8 = p mod 8 \<longleftrightarrow> j = (p :: nat)"
  by (metis div_mult_mod_eq)

lemma bitvec_set_ok:
  assumes "unat pos div 8 < length bits"
  obtains bits' where "bitvec_set bits pos = Some bits'" "length bits' = length bits"
    "\<And>j. j < 8 * length bits \<Longrightarrow> marked bits' j \<longleftrightarrow> j = unat pos \<or> marked bits j"
proof -
  let ?i = "unat pos div 8"
  let ?b = "bits[?i := bits ! ?i OR drop_bit (unat pos mod 8) 0x80]"
  have "marked ?b j \<longleftrightarrow> j = unat pos \<or> marked bits j" if "j < 8 * length bits" for j
  proof (cases "j div 8 = ?i")
    case True
    then show ?thesis using assms same_byte [OF True] by (auto simp: marked_def bit_or_iff byte_masks)
  qed (auto simp: marked_def)
  then show thesis using that [of ?b] assms by (simp add: bitvec_set_def idx_def put_at_def)
qed

lemma byte_after:
  fixes j p :: nat
  shows "j div 8 = p div 8 \<Longrightarrow> p mod 8 \<le> j mod 8 \<longleftrightarrow> p \<le> j \<and> j < p + 8"
    and "j div 8 = p div 8 + 1 \<Longrightarrow> j mod 8 < p mod 8 \<longleftrightarrow> p \<le> j \<and> j < p + 8"
    and "p \<le> j \<Longrightarrow> j < p + 8 \<Longrightarrow> j div 8 = p div 8 \<or> j div 8 = p div 8 + 1"
proof -
  have e: "j = 8 * (j div 8) + j mod 8" "p = 8 * (p div 8) + p mod 8" "j mod 8 < 8" "p mod 8 < 8" by simp_all
  show "p mod 8 \<le> j mod 8 \<longleftrightarrow> p \<le> j \<and> j < p + 8" if "j div 8 = p div 8" using e that by linarith
  show "j mod 8 < p mod 8 \<longleftrightarrow> p \<le> j \<and> j < p + 8" if "j div 8 = p div 8 + 1" using e that by linarith
  show "j div 8 = p div 8 \<or> j div 8 = p div 8 + 1" if "p \<le> j" "j < p + 8" using e that by linarith
qed

lemma bitvec_set8_ok:
  assumes "unat pos div 8 + 1 < length bits"
  obtains bits' where "bitvec_set8 bits pos = Some bits'" "length bits' = length bits"
    "\<And>j. j < 8 * length bits \<Longrightarrow> marked bits' j \<longleftrightarrow> unat pos \<le> j \<and> j < unat pos + 8 \<or> marked bits j"
proof -
  let ?i = "unat pos div 8" and ?k = "unat pos mod 8"
  let ?b = "bits[?i := bits ! ?i OR drop_bit ?k 0xFF, Suc ?i := bits ! Suc ?i OR NOT (drop_bit ?k 0xFF)]"
  have "marked ?b j \<longleftrightarrow> unat pos \<le> j \<and> j < unat pos + 8 \<or> marked bits j" if "j < 8 * length bits" for j
  proof -
    consider "j div 8 = ?i" | "j div 8 = ?i + 1" | "j div 8 \<noteq> ?i" "j div 8 \<noteq> ?i + 1" by blast
    then show ?thesis
    proof cases
      case 1
      then show ?thesis using assms byte_after(1) [OF 1] by (auto simp: marked_def bit_or_iff byte_masks)
    next
      case 2
      then show ?thesis using assms byte_after(2) [OF 2] by (auto simp: marked_def bit_or_iff byte_masks bit_7)
    next
      case 3
      then have "\<not> (unat pos \<le> j \<and> j < unat pos + 8)" using byte_after(3) by blast
      with 3 show ?thesis by (auto simp: marked_def)
    qed
  qed
  then show thesis using that [of ?b] assms by (simp add: bitvec_set8_def idx_def put_at_def)
qed

lemma mask_and: "k < 8 \<Longrightarrow> (b :: byte) AND drop_bit k 0x80 = 0 \<longleftrightarrow> \<not> bit b (7 - k)"
proof -
  assume k: "k < 8"
  have "\<forall>k \<in> set [0..<8]. drop_bit k (0x80 :: byte) = push_bit (7 - k) 1" by code_simp
  with k have "drop_bit k (0x80 :: byte) = push_bit (7 - k) 1" by simp
  then show ?thesis by (simp add: and_exp_eq_0_iff_not_bit push_bit_of_1)
qed

lemma codeSegment_ok: "unat pos div 8 < length bits \<Longrightarrow> codeSegment bits pos = Some (\<not> marked bits (unat pos))"
  by (simp add: codeSegment_def idx_def marked_def mask_and)

section \<open>The loops\<close>

text \<open>Positions as the loops count them.\<close>

lemma unat_next: "unat pc + k < 2 ^ 64 \<Longrightarrow> unat (pc + of_nat k :: u64) = unat pc + k"
  by (simp add: unat_word_ariths unat_of_nat take_bit_nat_eq_self)

lemma loop8_ok:
  assumes "(unat pc + unat n) div 8 < length bits" "unat pc + unat n < 2 ^ 63"
  shows "\<exists>bits' pc' n'. codeBitmap_loop8 bits pc n = Some (bits', pc', n') \<and> length bits' = length bits \<and>
    unat n' < 8 \<and> unat pc' + unat n' = unat pc + unat n \<and> unat pc \<le> unat pc' \<and>
    (\<forall>j < 8 * length bits. marked bits' j \<longleftrightarrow> unat pc \<le> j \<and> j < unat pc' \<or> marked bits j)"
  using assms
proof (induction "unat n" arbitrary: bits pc n rule: less_induct)
  case less
  show ?case
  proof (cases "8 \<le> n")
    case True
    then have n: "8 \<le> unat n" "unat (n - 8) = unat n - 8" by (simp_all add: word_le_nat_alt unat_sub)
    have p: "unat (pc + 8) = unat pc + 8" using less.prems(2) n(1) unat_next [of pc 8] by simp
    have "unat pc div 8 + 1 \<le> (unat pc + unat n) div 8" using n(1) by (metis Suc_eq_plus1 add_le_mono1 add.commute div_add_self2 div_le_mono nat_add_left_cancel_le zero_neq_numeral)
    then have "unat pc div 8 + 1 < length bits" using less.prems(1) by linarith
    then obtain bits1 where b: "bitvec_set8 bits pc = Some bits1" "length bits1 = length bits"
      "\<And>j. j < 8 * length bits \<Longrightarrow> marked bits1 j \<longleftrightarrow> unat pc \<le> j \<and> j < unat pc + 8 \<or> marked bits j"
      using bitvec_set8_ok by blast
    have s: "unat (pc + 8) + unat (n - 8) = unat pc + unat n" using n p by linarith
    obtain bits' pc' n' where r: "codeBitmap_loop8 bits1 (pc + 8) (n - 8) = Some (bits', pc', n')" "length bits' = length bits1"
      "unat n' < 8" "unat pc' + unat n' = unat pc + unat n" "unat pc + 8 \<le> unat pc'"
      "\<And>j. j < 8 * length bits1 \<Longrightarrow> marked bits' j \<longleftrightarrow> unat pc + 8 \<le> j \<and> j < unat pc' \<or> marked bits1 j"
      using less.hyps [of "n - 8" "pc + 8" bits1] less.prems b(2) n s p by auto
    have "marked bits' j \<longleftrightarrow> unat pc \<le> j \<and> j < unat pc' \<or> marked bits j" if "j < 8 * length bits" for j
      using r(5) b(3) [OF that] r(6) [of j] that b(2) by auto
    then show ?thesis using True r(1-5) b(1,2) by (subst codeBitmap_loop8.simps) simp
  next
    case False
    then show ?thesis by (subst codeBitmap_loop8.simps) (auto simp: word_le_nat_alt)
  qed
qed

lemma loop1_ok:
  assumes "(unat pc + unat n) div 8 < length bits" "unat pc + unat n < 2 ^ 63"
  shows "\<exists>bits'. codeBitmap_loop1 bits pc n = Some (bits', pc + of_nat (unat n)) \<and> length bits' = length bits \<and>
    (\<forall>j < 8 * length bits. marked bits' j \<longleftrightarrow> unat pc \<le> j \<and> j < unat pc + unat n \<or> marked bits j)"
  using assms
proof (induction "unat n" arbitrary: bits pc n)
  case 0
  then show ?case by (subst codeBitmap_loop1.simps) (auto simp: word_less_nat_alt)
next
  case (Suc m)
  then have n: "0 < n" "unat (n - 1) = m" "unat n = Suc m" by (simp_all add: word_less_nat_alt unat_sub word_le_nat_alt)
  have p: "unat (pc + 1) = unat pc + 1" using Suc.prems(2) n(3) unat_next [of pc 1] by simp
  have "unat pc div 8 \<le> (unat pc + unat n) div 8" by (simp add: div_le_mono)
  then have "unat pc div 8 < length bits" using Suc.prems(1) by linarith
  then obtain bits1 where b: "bitvec_set bits pc = Some bits1" "length bits1 = length bits"
    "\<And>j. j < 8 * length bits \<Longrightarrow> marked bits1 j \<longleftrightarrow> j = unat pc \<or> marked bits j" using bitvec_set_ok by blast
  obtain bits' where r: "codeBitmap_loop1 bits1 (pc + 1) (n - 1) = Some (bits', pc + 1 + of_nat m)" "length bits' = length bits1"
    "\<And>j. j < 8 * length bits1 \<Longrightarrow> marked bits' j \<longleftrightarrow> unat pc + 1 \<le> j \<and> j < unat pc + 1 + m \<or> marked bits1 j"
    using Suc.hyps(1) [of "n - 1" "pc + 1" bits1] Suc.prems b(2) n p by auto
  have "marked bits' j \<longleftrightarrow> unat pc \<le> j \<and> j < unat pc + unat n \<or> marked bits j" if "j < 8 * length bits" for j
    using b(3) [OF that] r(3) [of j] that b(2) n(3) by auto
  then show ?case using n(1,3) r(1,2) b(1,2) by (subst codeBitmap_loop1.simps) (simp add: add.assoc)
qed

text \<open>Both loops together mark the \<open>n\<close> bytes from a position on.\<close>

lemma loops_ok:
  assumes "(unat pc + unat n) div 8 < length bits" "unat pc + unat n < 2 ^ 63"
  obtains bits' pc' where "do { (bits, pc, numbits) \<leftarrow> codeBitmap_loop8 bits pc n; codeBitmap_loop1 bits pc numbits } = Some (bits', pc')"
    "length bits' = length bits" "unat pc' = unat pc + unat n"
    "\<And>j. j < 8 * length bits \<Longrightarrow> marked bits' j \<longleftrightarrow> unat pc \<le> j \<and> j < unat pc + unat n \<or> marked bits j"
proof -
  obtain bits1 pc1 n1 where 1: "codeBitmap_loop8 bits pc n = Some (bits1, pc1, n1)" "length bits1 = length bits"
    "unat pc1 + unat n1 = unat pc + unat n" "unat pc \<le> unat pc1"
    "\<And>j. j < 8 * length bits \<Longrightarrow> marked bits1 j \<longleftrightarrow> unat pc \<le> j \<and> j < unat pc1 \<or> marked bits j"
    using loop8_ok [OF assms] by blast
  obtain bits2 where 2: "codeBitmap_loop1 bits1 pc1 n1 = Some (bits2, pc1 + of_nat (unat n1))" "length bits2 = length bits"
    "\<And>j. j < 8 * length bits \<Longrightarrow> marked bits2 j \<longleftrightarrow> unat pc1 \<le> j \<and> j < unat pc + unat n \<or> marked bits1 j"
    using loop1_ok [of pc1 n1 bits1] 1(2,3) assms by auto
  have "unat (pc1 + of_nat (unat n1)) = unat pc + unat n" using unat_next [of pc1 "unat n1"] 1(3) assms(2) by simp
  moreover have "marked bits2 j \<longleftrightarrow> unat pc \<le> j \<and> j < unat pc + unat n \<or> marked bits j" if "j < 8 * length bits" for j
    using 1(3,4) 1(5) [OF that] 2(3) [OF that] by auto
  ultimately show thesis using that 1(1) 2(1,2) by auto
qed

lemma push_length: "PUSH1 \<le> op \<Longrightarrow> op \<le> PUSH32 \<Longrightarrow> unat (op - PUSH1 + 1) = unat op - 0x5f \<and> unat op - 0x5f \<le> 32"
  by (simp add: word_le_nat_alt unat_sub unat_word_ariths)

text \<open>The number of data bytes after an instruction, and one round of the outer loop.\<close>

definition push_size :: "byte \<Rightarrow> nat" where
  "push_size op = (if PUSH1 \<le> op \<and> op \<le> PUSH32 then unat op - 0x5f else 0)"

lemma push_size_max: "push_size op \<le> 32"
  using push_length [of op] by (simp add: push_size_def)

lemma round_ok:
  assumes "unat pc < length code" "n = push_size (code ! unat pc)" "length code < 2 ^ 62" "length bits = length code div 8 + 5"
  obtains bits1 pc1 where "codeBitmap_loop code bits pc = codeBitmap_loop code bits1 pc1" "length bits1 = length bits"
    "unat pc1 = unat pc + 1 + n"
    "\<And>j. j < 8 * length bits \<Longrightarrow> marked bits1 j \<longleftrightarrow> unat pc + 1 \<le> j \<and> j < unat pc + 1 + n \<or> marked bits j"
proof -
  define op where "op = code ! unat pc"
  have p1: "unat (pc + 1) = unat pc + 1" using assms(1,3) unat_next [of pc 1] by simp
  have n32: "n \<le> 32" using push_size_max assms(2) by simp
  have "(unat pc + 1 + n) div 8 \<le> (length code + 32) div 8" using assms(1) n32 by (intro div_le_mono) simp
  then have fit: "(unat pc + 1 + n) div 8 < length bits" using assms(4) by simp
  show thesis
  proof (cases "PUSH1 \<le> op \<and> op \<le> PUSH32")
    case False
    then have n0: "n = 0" using assms(2) by (auto simp: push_size_def op_def)
    have "codeBitmap_loop code bits pc = codeBitmap_loop code bits (pc + 1)"
      using assms(1) False by (subst codeBitmap_loop.simps) (auto simp: idx_def op_def)
    then show thesis by (rule that) (use p1 n0 in auto)
  next
    case True
    then have u: "unat (op - PUSH1 + 1) = n" using push_length [of op] assms(2) by (simp add: push_size_def op_def)
    obtain bits1 pc1 where "do { (bits, pc, numbits) \<leftarrow> codeBitmap_loop8 bits (pc + 1) (op - PUSH1 + 1); codeBitmap_loop1 bits pc numbits } = Some (bits1, pc1)"
      "length bits1 = length bits" "unat pc1 = unat pc + 1 + n"
      "\<And>j. j < 8 * length bits \<Longrightarrow> marked bits1 j \<longleftrightarrow> unat pc + 1 \<le> j \<and> j < unat pc + 1 + n \<or> marked bits j"
      using loops_ok [of "pc + 1" "op - PUSH1 + 1" bits] fit p1 u n32 assms(1,3) by (auto simp del: unat_word_ariths)
    moreover from this(1) have "codeBitmap_loop code bits pc = codeBitmap_loop code bits1 pc1"
      using assms(1) True by (subst codeBitmap_loop.simps) (auto simp: idx_def op_def [symmetric] split: bind_splits)
    ultimately show thesis using that by blast
  qed
qed

lemma push_data_round:
  assumes "p < length code" "n = push_size (code ! p)" "p \<le> j" "j < length code"
  shows "push_data 0 (drop p code) ! (j - p) \<longleftrightarrow>
    p + 1 \<le> j \<and> (j < p + 1 + n \<or> push_data 0 (drop (p + 1 + n) code) ! (j - (p + 1 + n)))"
proof -
  have d: "drop p code = code ! p # drop (p + 1) code" using assms(1) by (simp add: Cons_nth_drop_Suc)
  show ?thesis using assms(3,4) push_data_skip [of "j - (p + 1)" "drop (p + 1) code" n]
    by (cases "j = p") (auto simp: d assms(2) [unfolded push_size_def, symmetric] nth_Cons' drop_drop add.commute add.left_commute)
qed

lemma loop_ok:
  assumes "length code < 2 ^ 62" "length bits = length code div 8 + 5" "unat pc < 2 ^ 63"
  shows "\<exists>bits'. codeBitmap_loop code bits pc = Some bits' \<and> length bits' = length bits \<and>
    (\<forall>j < length code. marked bits' j \<longleftrightarrow> (unat pc \<le> j \<and> push_data 0 (drop (unat pc) code) ! (j - unat pc)) \<or> marked bits j)"
  using assms(2,3)
proof (induction "length code - unat pc" arbitrary: bits pc rule: less_induct)
  case less
  show ?case
  proof (cases "unat pc < length code")
    case False
    then show ?thesis by (subst codeBitmap_loop.simps) auto
  next
    case True
    define n where "n = push_size (code ! unat pc)"
    obtain bits1 pc1 where 1: "codeBitmap_loop code bits pc = codeBitmap_loop code bits1 pc1" "length bits1 = length bits"
      "unat pc1 = unat pc + 1 + n"
      "\<And>j. j < 8 * length bits \<Longrightarrow> marked bits1 j \<longleftrightarrow> unat pc + 1 \<le> j \<and> j < unat pc + 1 + n \<or> marked bits j"
      using round_ok [OF True n_def assms(1) less.prems(1)] by blast
    have dec: "length code - unat pc1 < length code - unat pc" "unat pc1 < 2 ^ 63"
      using True 1(3) push_size_max [of "code ! unat pc"] assms(1) by (simp_all add: n_def)
    obtain bits' where 2: "codeBitmap_loop code bits1 pc1 = Some bits'" "length bits' = length bits"
      "\<And>j. j < length code \<Longrightarrow> marked bits' j \<longleftrightarrow> (unat pc1 \<le> j \<and> push_data 0 (drop (unat pc1) code) ! (j - unat pc1)) \<or> marked bits1 j"
      using less.hyps [OF dec(1), of bits1] less.prems(1) dec(2) 1(2) by auto
    have "marked bits' j \<longleftrightarrow> (unat pc \<le> j \<and> push_data 0 (drop (unat pc) code) ! (j - unat pc)) \<or> marked bits j" if j: "j < length code" for j
    proof -
      have "j < 8 * length bits" using j less.prems(1) by simp
      then show ?thesis using push_data_round [OF True n_def _ j] 1(3) 1(4) [of j] 2(3) [OF j] by auto
    qed
    then show ?thesis using 1(1) 2(1,2) by auto
  qed
qed

lemma codeBitmap_ok:
  assumes "length code < 2 ^ 62"
  obtains bits where "codeBitmap code = Some bits"
    "\<And>pos. unat pos < length code \<Longrightarrow> codeSegment bits pos = Some (\<not> push_data 0 code ! unat pos)"
proof -
  obtain bits where b: "codeBitmap code = Some bits" "length bits = length code div 8 + 5"
    "\<And>j. j < length code \<Longrightarrow> marked bits j \<longleftrightarrow> push_data 0 code ! j \<or> marked (replicate (length code div 8 + 5) 0) j"
    using loop_ok [OF assms, of "replicate (length code div 8 + 5) 0" 0] by (auto simp: codeBitmap_def add.commute)
  have "codeSegment bits pos = Some (\<not> push_data 0 code ! unat pos)" if "unat pos < length code" for pos
  proof -
    have "unat pos div 8 < length code div 8 + 5" using that div_le_mono [of "unat pos" "length code" 8] by linarith
    then show ?thesis using codeSegment_ok [of pos bits] b(2) b(3) [OF that] by (simp add: marked_def)
  qed
  with b(1) that show thesis by blast
qed

section \<open>Jump destinations\<close>

text \<open>C17: A jump is allowed exactly to the positions inside the code that hold a \<^verbatim>\<open>JUMPDEST\<close> byte which is not the data of a
  push instruction, and asking never panics.  An analysis the contract or the call tree already has must be the one of
  this code; what is asked leaves it so.\<close>

theorem jumpdest_exact:
  assumes "length (ct_Code c) < 2 ^ 62"
    and "\<And>a. ct_analysis c = Some a \<Longrightarrow> codeBitmap (ct_Code c) = Some a"
    and "\<And>a. jd (ct_CodeHash c) = Some a \<Longrightarrow> codeBitmap (ct_Code c) = Some a"
  shows "\<exists>c' jd'. Contract_validJumpdest c jd dest =
      Some (uval dest < length (ct_Code c) \<and> ct_Code c ! uval dest = JUMPDEST \<and> \<not> push_data 0 (ct_Code c) ! uval dest, c', jd') \<and>
    ct_Code c' = ct_Code c \<and> (\<forall>a. ct_analysis c' = Some a \<longrightarrow> codeBitmap (ct_Code c) = Some a) \<and>
    (\<forall>a. jd' (ct_CodeHash c) = Some a \<longrightarrow> codeBitmap (ct_Code c) = Some a)"
proof -
  obtain bits where b: "codeBitmap (ct_Code c) = Some bits"
    "\<And>pos. unat pos < length (ct_Code c) \<Longrightarrow> codeSegment bits pos = Some (\<not> push_data 0 (ct_Code c) ! unat pos)"
    using codeBitmap_ok [OF assms(1)] by blast
  let ?u = "limb0 dest"
  have w: "Int_Uint64WithOverflow dest = (?u, \<not> uval dest < 2 ^ 64)" "uval dest < 2 ^ 64 \<Longrightarrow> unat ?u = uval dest"
    using Int_IsUint64_iff [of dest] Int_Uint64_small [of dest]
    by (auto simp: Int_Uint64WithOverflow_def Int_IsUint64_def Int_Uint64_def)
  show ?thesis
  proof (cases "uval dest < length (ct_Code c) \<and> ct_Code c ! uval dest = JUMPDEST")
    case True
    then have l: "uval dest < 2 ^ 64" using assms(1) by simp
    then have "codeSegment bits ?u = Some (\<not> push_data 0 (ct_Code c) ! uval dest)" using b(2) [of ?u] w(2) True by simp
    moreover have "Contract_validJumpdest c jd dest = Contract_isCode c jd ?u"
      using True l w by (simp add: Contract_validJumpdest_def idx_def)
    ultimately show ?thesis using True b(1) assms(2,3) by (auto simp: Contract_isCode_def split: option.splits)
  next
    case False
    then have "Contract_validJumpdest c jd dest = Some (False, c, jd)"
      using w by (cases "uval dest < 2 ^ 64") (auto simp: Contract_validJumpdest_def idx_def)
    then show ?thesis using False assms(2,3) by auto
  qed
qed

definition jump_contract :: Contract where
  "jump_contract = (fst (NewContract (AccountRef []) (AccountRef []) None 0 Map.empty))\<lparr>ct_Code := [PUSH1, JUMPDEST, JUMPDEST]\<rparr>"

theorem jumpdest_exact_witness:
  "map_option fst (Contract_validJumpdest jump_contract Map.empty (U256 2 0 0 0)) = Some True \<and>
   map_option fst (Contract_validJumpdest jump_contract Map.empty (U256 1 0 0 0)) = Some False"
  using jumpdest_exact [of jump_contract Map.empty "U256 2 0 0 0"] jumpdest_exact [of jump_contract Map.empty "U256 1 0 0 0"]
  by (auto simp: jump_contract_def NewContract_def uval_def)

end
