(* ===== verification/Params_Laws.thy ===== *)
theory Params_Laws
  imports Evm_Params
begin

text \<open>
  The comparison of chain configurations, \<^verbatim>\<open>CheckCompatible\<close> of \<^verbatim>\<open>src/evm/params/config.go\<close>.
\<close>

section \<open>Comparing configurations\<close>

text \<open>Every conflict lies at or below the head, and rewinding goes below it unless it goes to the first block.\<close>

lemma forked_rewind:
  assumes "isForked a (Some (int h)) \<or> isForked b (Some (int h))" "h < 2 ^ 64"
  shows "unat (ce_RewindTo (newCompatError what a b)) < h \<or> ce_RewindTo (newCompatError what a b) = 0"
proof -
  have "\<exists>r. (case (a, b) of (None, _) \<Rightarrow> b | (Some s, None) \<Rightarrow> a | (Some s, Some n) \<Rightarrow> if s < n then a else b) = Some r \<and> r \<le> int h"
    using assms(1) by (auto simp: isForked_def split: option.splits if_splits)
  then obtain r where r: "(case (a, b) of (None, _) \<Rightarrow> b | (Some s, None) \<Rightarrow> a | (Some s, Some n) \<Rightarrow> if s < n then a else b) = Some r" "r \<le> int h"
    by blast
  then have e: "ce_RewindTo (newCompatError what a b) = (if sgn r > 0 then of_int r - 1 else 0)"
    by (simp add: newCompatError_def Let_def)
  show ?thesis
  proof (cases "0 < r")
    case True
    then obtain m where m: "r = int (Suc m)" by (metis gr0_conv_Suc of_nat_0_less_iff zero_less_imp_eq_int)
    then have "unat (of_int r - 1 :: u64) = m" using r(2) assms(2) by (simp add: unat_of_nat take_bit_nat_eq_self)
    then show ?thesis using e True m r(2) by simp
  qed (use e in auto)
qed

lemma conflict_forked:
  assumes "checkCompatible_one c newcfg h = Some err"
  shows "\<exists>what a b. err = newCompatError what a b \<and> (isForked a (Some h) \<or> isForked b (Some h))"
proof -
  have i: "isForkIncompatible a b h \<Longrightarrow> isForked a (Some h) \<or> isForked b (Some h)" for a b
    by (simp add: isForkIncompatible_def)
  show ?thesis using assms unfolding checkCompatible_one_def IsDAOFork_def IsEIP158_def
    by (simp only: split: if_split_asm) (simp only: option.inject option.distinct; blast dest: i)+
qed

lemma conflict_rewind:
  assumes "checkCompatible_one c newcfg (uint (h :: u64)) = Some err"
  shows "ce_RewindTo err < h \<or> ce_RewindTo err = 0"
proof -
  obtain what a b where e: "err = newCompatError what a b" "isForked a (Some (uint h)) \<or> isForked b (Some (uint h))"
    using conflict_forked [OF assms] by blast
  have "uint h = int (unat h)" by simp
  from forked_rewind [of a "unat h" b what] e(2) [unfolded this] unat_u64_less [of h] show ?thesis
    by (simp add: e(1) word_less_nat_alt del: of_nat_unat)
qed

text \<open>The result of the loop: the last conflict, below which there is none, or which is at the first block.\<close>

definition settled :: "ChainConfig \<Rightarrow> ChainConfig \<Rightarrow> ConfigCompatError \<Rightarrow> bool" where
  "settled c newcfg err \<longleftrightarrow> checkCompatible_one c newcfg (uint (ce_RewindTo err)) = None \<or> ce_RewindTo err = 0"

lemma compat_loop:
  assumes "lasterr = Some e" "ce_RewindTo e = h"
  shows "\<exists>err. CheckCompatible_loop c newcfg h lasterr = Some (Some err) \<and> settled c newcfg err \<and> ce_RewindTo err \<le> h"
  using assms
proof (induction "unat h" arbitrary: h lasterr e rule: less_induct)
  case less
  show ?case
  proof (cases "checkCompatible_one c newcfg (uint h)")
    case None
    then show ?thesis using less.prems by (subst CheckCompatible_loop.simps) (simp add: settled_def)
  next
    case (Some err)
    show ?thesis
    proof (cases "ce_RewindTo err = h")
      case True
      then have "h = 0" using conflict_rewind [OF Some] by auto
      then show ?thesis using less.prems Some True by (subst CheckCompatible_loop.simps) (simp add: settled_def)
    next
      case False
      then have l: "ce_RewindTo err < h" using conflict_rewind [OF Some] by (auto simp: word_neq_0_conv)
      have "CheckCompatible_loop c newcfg h lasterr = CheckCompatible_loop c newcfg (ce_RewindTo err) (Some err)"
        using less.prems Some False by (subst CheckCompatible_loop.simps) simp
      moreover have "unat (ce_RewindTo err) < unat h" using l by (simp add: word_less_nat_alt)
      ultimately show ?thesis using less.hyps [of "ce_RewindTo err", OF _ refl refl] l by fastforce
    qed
  qed
qed

text \<open>C33: \<^verbatim>\<open>CheckCompatible\<close> ends for any two configurations and any height, although it repeats its check after lowering the
  height as often as it finds a conflict.  It reports no error exactly when the two have no conflict at the height; the
  error it reports names a block to rewind to at or below the height, at which they have no conflict or which is the
  first block.\<close>

theorem check_compatible_ends:
  "\<exists>r. CheckCompatible c newcfg height = Some r \<and> (r = None \<longleftrightarrow> checkCompatible_one c newcfg (uint height) = None) \<and>
    (case r of None \<Rightarrow> True | Some err \<Rightarrow> ce_RewindTo err \<le> height \<and>
      (checkCompatible_one c newcfg (uint (ce_RewindTo err)) = None \<or> ce_RewindTo err = 0))"
proof (cases "checkCompatible_one c newcfg (uint height)")
  case None
  then show ?thesis unfolding CheckCompatible_def by (subst CheckCompatible_loop.simps) simp
next
  case (Some err)
  obtain err' where l: "CheckCompatible_loop c newcfg (ce_RewindTo err) (Some err) = Some (Some err')" "settled c newcfg err'"
    "ce_RewindTo err' \<le> ce_RewindTo err" using compat_loop [OF refl refl] by blast
  have "ce_RewindTo err \<le> height" using conflict_rewind [OF Some] by auto
  moreover have "CheckCompatible c newcfg height = Some (Some err')"
    unfolding CheckCompatible_def using Some l(1) by (subst CheckCompatible_loop.simps) simp
  ultimately show ?thesis using Some l(2,3) by (auto simp: settled_def)
qed

end
