(* ===== verification/Uint256_Conv.thy ===== *)
theory Uint256_Conv
  imports Uint256_Div
begin

text \<open>
  Conversions of 256-bit words, \<^verbatim>\<open>src/utils/common/uint256/conversion.go\<close>, and the properties of the word library: division,
  overflow flags and the round trips to bytes and to unbounded integers.
\<close>

section \<open>Reading bytes\<close>

lemma le_nat_drop: "le_nat (drop k bs) = le_nat bs div 256 ^ k"
proof (induction k arbitrary: bs)
  case (Suc k)
  show ?case
  proof (cases bs)
    case (Cons b bs')
    have "(unat b + 256 * le_nat bs') div 256 = le_nat bs'" using unat_byte_less [of b] by simp
    then show ?thesis using Cons Suc by (simp add: div_mult2_eq)
  qed simp
qed simp

lemma le_nat_take: "le_nat (take k bs) = le_nat bs mod 256 ^ k"
proof (induction k arbitrary: bs)
  case (Suc k)
  show ?case
  proof (cases bs)
    case (Cons b bs')
    have "(unat b + 256 * le_nat bs') mod 256 ^ Suc k = unat b + 256 * (le_nat bs' mod 256 ^ k)"
      using unat_byte_less [of b] by (simp add: mod_mult2_eq)
    then show ?thesis using Cons Suc by simp
  qed simp
qed simp

lemma be_limb_slice:
  assumes "length b = n"
  shows "rev (take (n - 8 * i - (n - 8 * (i + 1))) (drop (n - 8 * (i + 1)) b)) = take 8 (drop (8 * i) (rev b))"
proof (cases "8 * (i + 1) \<le> n")
  case True
  then have "n - 8 * i - (n - 8 * (i + 1)) = 8" by simp
  then show ?thesis using True assms by (simp add: rev_take rev_drop take_drop)
next
  case False
  then show ?thesis using assms by (cases "8 * i \<le> n") (simp_all add: rev_take)
qed

lemma unat_be_limb: "length b = n \<Longrightarrow> unat (be_limb b n i) = be_nat b div (2 ^ 64) ^ i mod 2 ^ 64"
proof -
  assume l: "length b = n"
  have "be_nat (take (n - 8 * i - (n - 8 * (i + 1))) (drop (n - 8 * (i + 1)) b)) = be_nat b div 256 ^ (8 * i) mod 256 ^ 8"
    unfolding be_nat_def be_limb_slice [OF l] by (simp only: le_nat_take le_nat_drop)
  moreover have "(256 :: nat) ^ (8 * i) = (2 ^ 64) ^ i" "(256 :: nat) ^ 8 = 2 ^ 64" by (simp_all add: power_mult)
  ultimately show ?thesis by (simp add: be_limb_def unat_of_nat)
qed

lemma SetBytesN_value:
  assumes "length b = n"
  shows "\<exists>z. Int_SetBytesN n b [] = Some z \<and> uval z = be_nat b mod 2 ^ 256"
proof -
  define M v where "M = (2 :: nat) ^ 64" and "v = be_nat b"
  note w = unat_be_limb [OF assms, folded M_def v_def]
  have "v mod (M * (M * (M * M))) = v mod M + M * (v div M mod M + M * (v div M ^ 2 mod M + M * (v div M ^ 3 mod M)))"
    by (simp only: mod_mult2_eq div_mult2_eq power2_eq_square power3_eq_cube mult.assoc ac_simps)
  moreover have "M * (M * (M * M)) = 2 ^ 256" by (simp add: M_def)
  ultimately have "uval (U256 (be_limb b n 0) (be_limb b n 1) (be_limb b n 2) (be_limb b n 3)) = v mod 2 ^ 256"
    using w [of 0] w [of 1] w [of 2] w [of 3]
    unfolding uval_nest by (simp only: U256.sel M_def [symmetric] power_0 div_by_1 power_one_right)
  then show ?thesis using assms by (simp add: Int_SetBytesN_def v_def)
qed

lemma SetBytes_value: "\<exists>z. Int_SetBytes buf = Some z \<and> uval z = be_nat buf mod 2 ^ 256"
proof -
  consider "buf = []" | "buf \<noteq> []" "length buf < 32" | "32 \<le> length buf" by linarith
  then show ?thesis
  proof cases
    case 1
    then show ?thesis by (simp add: Int_SetBytes_def Int_Clear_def uval_def be_nat_def)
  next
    case 2
    then show ?thesis using SetBytesN_value [of buf] by (simp add: Int_SetBytes_def)
  next
    case 3
    have e: "(256 :: nat) ^ 32 = 2 ^ 256" by simp
    have "be_nat (drop (length buf - 32) buf) = be_nat buf mod 256 ^ 32"
      using 3 by (simp only: be_nat_def rev_drop le_nat_take diff_diff_cancel)
    moreover have "Int_SetBytes buf = Int_SetBytesN 32 (drop (length buf - 32) buf) []" using 3 by (auto simp: Int_SetBytes_def Let_def)
    ultimately show ?thesis using 3 SetBytesN_value [of "drop (length buf - 32) buf" 32] by (simp add: e)
  qed
qed

section \<open>Writing bytes\<close>

lemma be_nat_Bytes32: "be_nat (Int_Bytes32 z) = uval z"
proof -
  obtain z' where "Int_SetBytes (Int_Bytes32 z) = Some z'" "uval z' = be_nat (Int_Bytes32 z) mod 2 ^ 256"
    using SetBytes_value by blast
  moreover have "Int_SetBytes (Int_Bytes32 z) = Some z"
    using SetBytes32_Bytes32 [of z "[]"] by (simp add: Int_SetBytes_def)
  moreover have "be_nat (Int_Bytes32 z) < 2 ^ 256" using be_nat_less [of "Int_Bytes32 z"] by simp
  ultimately show ?thesis by simp
qed

lemma uval_BitLen: "uval z < 2 ^ Int_BitLen z"
proof -
  have c: "a + 2 ^ k * b < 2 ^ (k + n)" if "a < 2 ^ k" "b < 2 ^ n" for a b k n :: nat
  proof -
    have "a + 2 ^ k * b < 2 ^ k * (b + 1)" using that(1) by simp
    also have "\<dots> \<le> 2 ^ k * 2 ^ n" using that(2) by (intro mult_left_mono) auto
    finally show ?thesis by (simp add: power_add)
  qed
  note l = unat_u64_less [of "limb0 z"] unat_u64_less [of "limb1 z"] unat_u64_less [of "limb2 z"]
  note b = Len64_bounds(1) [of "limb0 z"] Len64_bounds(1) [of "limb1 z"] Len64_bounds(1) [of "limb2 z"] Len64_bounds(1) [of "limb3 z"]
  have 3: "uval z < 2 ^ (64 + (64 + (64 + bits_Len64 (limb3 z))))"
    unfolding uval_nest by (intro c l b)
  have 2: "uval z < 2 ^ (64 + (64 + bits_Len64 (limb2 z)))" if "limb3 z = 0"
    unfolding uval_nest that unat_0 mult_0_right add_0_right by (intro c l b)
  have 1: "uval z < 2 ^ (64 + bits_Len64 (limb1 z))" if "limb3 z = 0" "limb2 z = 0"
    unfolding uval_nest that unat_0 mult_0_right add_0_right by (intro c l b)
  have 0: "uval z < 2 ^ bits_Len64 (limb0 z)" if "limb3 z = 0" "limb2 z = 0" "limb1 z = 0"
    unfolding uval_nest that unat_0 mult_0_right add_0_right by (rule b)
  show ?thesis using 3 2 1 0 by (simp add: Int_BitLen_def)
qed

lemma BitLen_max: "Int_BitLen z \<le> 256"
  using Len64_bounds(2) [of "limb0 z"] Len64_bounds(2) [of "limb1 z"] Len64_bounds(2) [of "limb2 z"] Len64_bounds(2) [of "limb3 z"]
  by (simp add: Int_BitLen_def)

lemma ByteLen_max: "Int_ByteLen z \<le> 32"
  using BitLen_max [of z] by (simp add: Int_ByteLen_def)

lemma be_nat_Bytes: "be_nat (Int_Bytes z) = uval z"
proof -
  have "Int_BitLen z \<le> 8 * Int_ByteLen z" by (simp add: Int_ByteLen_def)
  then have "(2 :: nat) ^ Int_BitLen z \<le> 2 ^ (8 * Int_ByteLen z)" by (rule power_increasing) simp
  then have "uval z < 256 ^ Int_ByteLen z" using uval_BitLen [of z] by (simp add: power_mult)
  moreover have "be_nat (Int_Bytes z) = be_nat (Int_Bytes32 z) mod 256 ^ Int_ByteLen z"
    using ByteLen_max [of z] by (simp only: Int_Bytes_def be_nat_def rev_drop le_nat_take length_rev length_Bytes32 diff_diff_cancel)
  ultimately show ?thesis by (simp add: be_nat_Bytes32)
qed

lemma SetBytes_be_nat: "be_nat buf = uval z \<Longrightarrow> Int_SetBytes buf = Some z"
  using SetBytes_value [of buf] uval_less [of z] uval_inject by fastforce

section \<open>The overflow of a product\<close>

lemma or_all_zero: "(a OR b OR c OR d) = 0 \<longleftrightarrow> a = 0 \<and> b = 0 \<and> c = 0 \<and> d = (0 :: u64)"
  by (simp add: or_zero_iff)

lemma MulOverflow_spec:
  "snd (Int_MulOverflow x y) = (2 ^ 256 \<le> uval x * uval y)" "uval (fst (Int_MulOverflow x y)) = uval x * uval y mod 2 ^ 256"
proof -
  obtain p0 p1 p2 p3 p4 p5 p6 p7 where p: "umul x y = [p0, p1, p2, p3, p4, p5, p6, p7]"
    using umul_spec(2) [of x y] by (auto simp: length_Suc_conv numeral_eq_Suc)
  let ?lo = "U256 p0 p1 p2 p3" and ?hi = "U256 p4 p5 p6 p7"
  have v: "uval ?lo + 2 ^ 256 * uval ?hi = uval x * uval y"
    using umul_spec(1) [of x y] unfolding p by (simp add: uval_def)
  have z: "uval ?hi = 0 \<longleftrightarrow> p4 = 0 \<and> p5 = 0 \<and> p6 = 0 \<and> p7 = 0"
    by (simp add: uval_def unat_eq_zero)
  have f: "fst (Int_MulOverflow x y) = ?lo" "snd (Int_MulOverflow x y) = (uval ?hi \<noteq> 0)"
    unfolding z by (simp_all add: Int_MulOverflow_def p of_limbs_def or_all_zero)
  show "uval (fst (Int_MulOverflow x y)) = uval x * uval y mod 2 ^ 256"
    using mod_digit [OF v uval_less] f(1) by simp
  show "snd (Int_MulOverflow x y) = (2 ^ 256 \<le> uval x * uval y)"
    unfolding f(2) v [symmetric] using uval_less [of ?lo] by (cases "uval ?hi") auto
qed

section \<open>Properties of the word library\<close>

text \<open>C8: Division with remainder by a 256-bit divisor that is neither zero nor larger than the dividend, for a dividend of any
  number of 64-bit words and a quotient buffer that is at least as long: a dividend below \<open>2\<^sup>5\<^sup>1\<^sup>2\<close> (eight significant
  words) is divided without a panic, with exactly its quotient in the buffer and exactly its remainder as the result; a
  larger one does not fit the nine words of storage, and is a panic.\<close>

theorem udivrem_exact:
  assumes "0 < uval d" "uval d \<le> wval u" "length u \<le> n"
  shows "if wval u < 2 ^ 512 then \<exists>r quot. udivrem (replicate n 0) u d = Some (r, quot) \<and> length quot = n \<and>
      wval quot = wval u div uval d \<and> uval r = wval u mod uval d
    else udivrem (replicate n 0) u d = None"
  using udivrem_spec [OF assms] udivrem_too_long by auto

theorem udivrem_exact_witness:
  "(\<exists>r quot. udivrem (replicate 8 0) [0, 0, 0, 0, 0, 0, 0, 1] (U256 1 1 0 0) = Some (r, quot) \<and>
    wval quot = 2 ^ 448 div (2 ^ 64 + 1) \<and> uval r = 2 ^ 448 mod (2 ^ 64 + 1)) \<and>
    udivrem (replicate 9 0) [0, 0, 0, 0, 0, 0, 0, 0, 1] (U256 1 1 0 0) = None"
proof
  show "\<exists>r quot. udivrem (replicate 8 0) [0, 0, 0, 0, 0, 0, 0, 1] (U256 1 1 0 0) = Some (r, quot) \<and>
      wval quot = 2 ^ 448 div (2 ^ 64 + 1) \<and> uval r = 2 ^ 448 mod (2 ^ 64 + 1)"
    using udivrem_exact [of "U256 1 1 0 0" "[0, 0, 0, 0, 0, 0, 0, 1]" 8] by (simp add: uval_def) blast
  show "udivrem (replicate 9 0) [0, 0, 0, 0, 0, 0, 0, 0, 1] (U256 1 1 0 0) = None"
    using udivrem_exact [of "U256 1 1 0 0" "[0, 0, 0, 0, 0, 0, 0, 0, 1]" 9] by (simp add: uval_def del: replicate.simps)
qed

text \<open>C25: The overflow flags are exact: addition reports a sum of at least \<open>2\<^sup>2\<^sup>5\<^sup>6\<close>, subtraction a negative difference,
  multiplication a product of at least \<open>2\<^sup>2\<^sup>5\<^sup>6\<close>, and the conversion from an unbounded integer a magnitude of at least
  \<open>2\<^sup>2\<^sup>5\<^sup>6\<close>; the results are the exact ones modulo \<open>2\<^sup>2\<^sup>5\<^sup>6\<close> in every case.\<close>

theorem overflow_flags_exact:
  "snd (Int_AddOverflow x y) = (2 ^ 256 \<le> uval x + uval y) \<and> uval (fst (Int_AddOverflow x y)) = (uval x + uval y) mod 2 ^ 256 \<and>
   snd (Int_SubOverflow x y) = (uval x < uval y) \<and> int (uval (fst (Int_SubOverflow x y))) = (int (uval x) - int (uval y)) mod 2 ^ 256 \<and>
   snd (Int_MulOverflow x y) = (2 ^ 256 \<le> uval x * uval y) \<and> uval (fst (Int_MulOverflow x y)) = uval x * uval y mod 2 ^ 256 \<and>
   snd (Int_FromBig b) = (2 ^ 256 \<le> \<bar>b\<bar>) \<and> int (uval (fst (Int_FromBig b))) = b mod 2 ^ 256"
proof -
  have add: "snd (Int_AddOverflow x y) = (2 ^ 256 \<le> uval x + uval y)"
    using Int_AddOverflow_spec [of x y] uval_less [of "fst (Int_AddOverflow x y)"] by (auto split: if_splits)
  have big: "snd (Int_FromBig b) = (2 ^ 256 \<le> \<bar>b\<bar>)"
    unfolding FromBig_overflow_iff by (simp only: le_nat_iff [OF abs_ge_zero] of_nat_power of_nat_numeral)
  show ?thesis
    by (simp only: add big MulOverflow_spec uval_FromBig Int_SubOverflow_iff Int_Sub_eq [symmetric] uval_Sub Int_Add_eq [symmetric] uval_Add)
qed

text \<open>C26: Words survive the conversions: reading back the 32 big-endian bytes of a word, its bytes without leading zeros, or
  the unbounded integer it stands for gives the word without an overflow, and reading any bytes takes the last 32 of
  them as a big-endian number without a panic.\<close>

theorem word_conversions_roundtrip:
  "Int_SetBytes (Int_Bytes32 z) = Some z \<and> Int_SetBytes (Int_Bytes z) = Some z \<and> Int_FromBig (Int_ToBig z) = (z, False) \<and>
   (\<exists>z'. Int_SetBytes buf = Some z' \<and> uval z' = be_nat buf mod 2 ^ 256)"
proof -
  have "int (uval (fst (Int_FromBig (int (uval z))))) = int (uval z)" unfolding uval_FromBig
    by (rule mod_pos_pos_trivial [OF of_nat_0_le_iff int_uval_less])
  moreover have "\<not> snd (Int_FromBig (int (uval z)))" unfolding FromBig_overflow_iff using uval_less [of z]
    by (simp only: abs_of_nat nat_int not_le)
  ultimately have "Int_FromBig (Int_ToBig z) = (z, False)"
    by (simp only: Int_ToBig_def of_nat_eq_iff uval_inject prod_eq_iff fst_conv snd_conv)
  then show ?thesis using SetBytes_be_nat [OF be_nat_Bytes32] SetBytes_be_nat [OF be_nat_Bytes] SetBytes_value by blast
qed

end
