(* ===== verification/Spec2Isabelle.thy ===== *)
theory Spec2Isabelle
  imports Executor_Props Evm_Props Evm_Arith Storage_Props Machine_Props Jumpdest_Laws Params_Laws Uint256_Conv
begin

text \<open>
  A transaction executor for Ethereum that runs against the state of a remote node, with its own virtual machine: the
  repository \<^verbatim>\<open>github.com/laizy/web3\<close>.  This development models the executor, the virtual machine, the storage layers
  under it and the libraries of integers and of encodings they are built on, and proves what makes them correct.

  \<^bold>\<open>The program.\<close>  \<^verbatim>\<open>Executor.ExecuteTransaction\<close> (\<^verbatim>\<open>src/executor/executor.go\<close>) makes a state database over its cache,
  turns the transaction into a message and applies it (\<^verbatim>\<open>state_processor.go\<close>, \<^verbatim>\<open>state_transition.go\<close>): the sender buys gas,
  the intrinsic gas is charged, the message is a call or a creation of the virtual machine (\<^verbatim>\<open>src/evm\<close>), unused gas is given
  back, the coinbase is paid, and the changes are committed.  The virtual machine interprets byte code with one instruction
  table per fork; its calls start the interpreter again.  It reads and writes the state database
  (\<^verbatim>\<open>src/evm/storage/statedb.go\<close>), which keeps its changes in a transaction cache (\<^verbatim>\<open>cachedb.go\<close>) over a block cache
  (\<^verbatim>\<open>overlaydb/overlaydb.go\<close>), both of them skip lists (\<^verbatim>\<open>overlaydb/memdb.go\<close>), over a store that asks the node and caches
  its answers (\<^verbatim>\<open>src/executor/remotedb\<close>).

  \<^bold>\<open>Theories and code.\<close>  Each operation is one definition with the name of the Go function, prefixed by its type where two
  types share it.
    \<^item> \<open>Web3_Prelude\<close>, \<open>Web3_Types\<close>: bytes, slices, byte orders; \<^verbatim>\<open>src/structs.go\<close> (addresses, hashes),
      \<^verbatim>\<open>src/utils/common/bytes.go\<close>, \<^verbatim>\<open>src/utils/common/math\<close>.
    \<^item> \<open>Codec\<close>: \<^verbatim>\<open>src/utils/codec\<close>, the writers of a sink and the readers of a source.
    \<^item> \<open>Uint256\<close>: \<^verbatim>\<open>src/utils/common/uint256\<close>, on four 64-bit limbs.
    \<^item> \<open>MemDB\<close>, \<open>Iterators\<close>: the skip list of \<^verbatim>\<open>memdb.go\<close> on its two flat arrays, its iterator, and the merging iterator of
      \<^verbatim>\<open>overlaydb/iterator.go\<close>.
    \<^item> \<open>OverlayDB\<close>, \<open>CacheDB\<close>, \<open>StateDB\<close>: \<^verbatim>\<open>overlaydb.go\<close>, \<^verbatim>\<open>cachedb.go\<close>, \<^verbatim>\<open>statedb.go\<close> with the account record and the balance
      handle; the interfaces of \<^verbatim>\<open>src/evm/storage/schema\<close> are records of operations.
    \<^item> \<open>RemoteDB\<close>: \<^verbatim>\<open>src/executor/remotedb/remotedb.go\<close>.
    \<^item> \<open>Evm_Params\<close>: \<^verbatim>\<open>src/evm/params\<close>, \<^verbatim>\<open>opcodes.go\<close>, \<^verbatim>\<open>src/evm/errors\<close>.
    \<^item> \<open>Evm_Base\<close>: \<^verbatim>\<open>stack.go\<close>, \<^verbatim>\<open>memory.go\<close>, \<^verbatim>\<open>common.go\<close>, \<^verbatim>\<open>analysis.go\<close>, \<^verbatim>\<open>contract.go\<close>, \<^verbatim>\<open>memory_table.go\<close>,
      \<^verbatim>\<open>stack_table.go\<close>, \<^verbatim>\<open>gas.go\<close>.
    \<^item> \<open>Precompiles\<close>: \<^verbatim>\<open>contracts.go\<close>, \<^verbatim>\<open>contracts_console.go\<close>, \<^verbatim>\<open>src/crypto/blake2b/blake2b_generic.go\<close>, \<^verbatim>\<open>src/crypto/crypto.go\<close>.
    \<^item> \<open>Evm_Gas\<close>: the machine's records and \<^verbatim>\<open>gas_table.go\<close>.  \<open>Evm_Ops\<close>: \<^verbatim>\<open>instructions.go\<close>, \<^verbatim>\<open>eips.go\<close>.  \<open>Evm_Call\<close>: the calls and
      creations of \<^verbatim>\<open>evm.go\<close> and their instructions.  \<open>Evm_Tables\<close>: \<^verbatim>\<open>jump_table.go\<close>.  \<open>Interpreter\<close>: \<^verbatim>\<open>interpreter.go\<close>.
    \<^item> \<open>Executor\<close>: the files of \<^verbatim>\<open>src/executor\<close>, the execution result of \<^verbatim>\<open>src/types.go\<close>, the receipt of \<^verbatim>\<open>src/structs.go\<close>.

  \<^bold>\<open>How the code is read.\<close>  A Go panic is \<^term>\<open>None\<close>, and so is a pointer-chasing loop that does not end.  Errors are values
  of sum and option types.  Machine integers are words; \<^verbatim>\<open>big.Int\<close> is \<^typ>\<open>int\<close>.  Mutable objects are records passed along;
  where the code shares one between two holders it is written out: the balance pointer \<^verbatim>\<open>buyGas\<close> divides in place, the skip
  list an iterator walks while it is written (\<open>iter_sync\<close>), the random source that a clone of a skip list shares, the
  analyses of jump destinations all contracts of a call tree share, a return value that is a window of the caller's memory.
  The interpreter is given a step budget, and its result is an \<open>outcome\<close>: a value, a panic, or the exhaustion of the budget.
  A budget above the gas is enough, since every instruction that does not end a run costs gas and a callee is given less gas
  than its caller has (\<open>Interpreter_Laws\<close>); beyond that the budget does not change the result (\<open>Fuel_Laws\<close>).

  \<^bold>\<open>Parameters.\<close>  \<open>go_libs\<close> holds what the storage layer calls of other packages (comparer, random source, key ranges, hashes)
  and two choices of the Go runtime, the order of ranging over a map and what follows a returned slice in its array;
  \<open>crypto_libs\<close> the signature recovery, RIPEMD-160, RLP, the curves and the decoding of console messages; \<open>exec_libs\<close> the RLP encoding of a
  transaction and the event parser; \<open>rpc_client\<close> the node, a function from queries to answers.  What is assumed of them is
  \<open>libs_ok\<close>: the comparer orders bytes lexicographically, a prefix range has the keys with that prefix, ranging over a map
  visits each key once, Keccak-256 has 32 bytes.  \<open>Instances\<close> has an instance of each and a proof that it satisfies \<open>libs_ok\<close>.

  \<^bold>\<open>What is proved.\<close>
    \<^item> Words.  \<open>Uint256_Arith\<close>, \<open>Uint256_Bits\<close>, \<open>Uint256_Knuth\<close>, \<open>Uint256_Div\<close>, \<open>Uint256_Conv\<close>: every operation on limbs
      computes the number its name says, the long division included.  \<open>Evm_Arith\<close> lifts this to the instructions.
    \<^item> Stores.  The skip list represents a strictly sorted association list, and every operation is total and correct against
      that list; locale \<open>kv_store\<close> is what the two caches rely on.  Locale \<open>store_iterator\<close> is the contract of iterators; the
      merging iterator satisfies it when its two iterators do.  Locale \<open>persist_store\<close> is what is relied on of the store
      below, interpreted for the remote store.
    \<^item> State.  \<open>StateDB_Laws\<close> has the invariant and the meaning of a snapshot, \<open>StateDB_Quiet\<close> what reads and account updates
      leave alone, \<open>StateDB_World\<close> the refinement of an abstract state of accounts, slots, logs and refund.
      \<open>Storage_Props\<close> has the properties.
    \<^item> Tables.  Locale \<open>table_property\<close> carries a property of table entries from the entries the code writes to the table of
      every fork.  It is interpreted for the gas of an instruction (\<open>Gas_Laws\<close>, \<open>Table_Laws\<close>), its operands
      (\<open>Operand_Laws\<close>), its monotonicity in the budget (\<open>Fuel_Laws\<close>) and its effect on the state (\<open>State_Tables\<close>).
    \<^item> Runs.  Locale \<open>gas_runner\<close> is the contract of the interpreter towards calls, for gas and termination; locales
      \<open>evm_state\<close> and \<open>state_runner\<close> are the one for the state (\<open>State_Laws\<close>, \<open>State_Runs\<close>); \<open>store_evm\<close> joins them with a
      store (\<open>Evm_Store\<close>).  \<open>Reach_Laws\<close> has the states a run passes through as an inductive relation.  \<open>Jumpdest_Laws\<close>,
      \<open>Params_Laws\<close>, \<open>Machine_Props\<close> and \<open>Evm_Props\<close> have the properties of the machine.
    \<^item> Transactions.  \<open>Executor_Laws\<close>, \<open>Remote_Executor\<close>, \<open>Transfer_Laws\<close>, \<open>Failure_Laws\<close> follow a transaction from the purchase
      of gas to the commit; \<open>Executor_Props\<close> has the properties: plain transfers, termination, failed transactions, gas,
      invariants, and the errors of each check.

  \<^bold>\<open>Bounds.\<close>  Division panics on dividends of more than eight significant words, as the code's nine-word buffer does, and
  the theorem on it covers both sides.  Statements over accounts ask for those the node serves, with a code it can decode,
  since the code panics on others.  The capacity of a memory slice is not modelled; the resizing before every
  instruction keeps accesses within its length.

  \<^bold>\<open>Not modelled.\<close>  The tracers of \<^verbatim>\<open>src/evm\<close>, which observe a run; the pools that reuse stacks; the assembly variants of
  BLAKE2b; the arithmetic of the BN256 and BLS12-381 curves, parameters of the precompiled contracts; text, JSON and RLP forms
  of integers and records; the ABI coder and the binding generator (reflection and templates); the clients, trackers,
  wallets and registries around the executor (network, files, goroutines).  An \<^verbatim>\<open>ExtraEips\<close> list is a value: enabling proposals
  yields a new table, where the code edits entries that the table of the fork shares.
\<close>

end
